(* ===== verification/Prelude.thy ===== *)
theory Prelude
  imports Main "HOL-Library.List_Lexorder" "HOL-Library.Char_ord"
begin

text \<open>
  Shared vocabulary of the development: the parts of Go's \<^verbatim>\<open>strings\<close>, \<^verbatim>\<open>path\<close> and
  \<^verbatim>\<open>path/filepath\<close> packages that the sync code calls, and the generic facts about lists
  and sets that several components use.

  Go strings are byte sequences, so \<open>string\<close> (a list of 8-bit characters) represents
  them exactly. The order on strings (from \<^verbatim>\<open>List_Lexorder\<close> and \<^verbatim>\<open>Char_ord\<close>) is the
  bytewise one that SQLite's BINARY collation and Go's \<^verbatim>\<open>sort.Strings\<close> use. Paths
  are those of a Unix host (separator \<^verbatim>\<open>/\<close>), where \<^verbatim>\<open>filepath.ToSlash\<close> is the
  identity and \<^verbatim>\<open>filepath.Dir\<close> and \<^verbatim>\<open>path.Dir\<close> coincide.
\<close>

named_theorems go_string_simps \<open>evaluation of the string and path helpers\<close>

section \<open>Strings\<close>

definition has_prefix :: "string \<Rightarrow> string \<Rightarrow> bool" where
  "has_prefix s p \<longleftrightarrow> take (length p) s = p"

definition has_suffix :: "string \<Rightarrow> string \<Rightarrow> bool" where
  "has_suffix s p \<longleftrightarrow> has_prefix (rev s) (rev p)"

definition trim_prefix :: "string \<Rightarrow> string \<Rightarrow> string" where
  "trim_prefix s p = (if has_prefix s p then drop (length p) s else s)"

definition trim_suffix :: "string \<Rightarrow> string \<Rightarrow> string" where
  "trim_suffix s p = (if has_suffix s p then take (length s - length p) s else s)"

text \<open>
  \<^verbatim>\<open>strings.ToLower\<close> on ASCII: the upper-case letters are shifted by 32, every other
  byte is kept.
\<close>

definition ascii_lower_char :: "char \<Rightarrow> char" where
  "ascii_lower_char c =
     (let n = (of_char c :: nat) in if 65 \<le> n \<and> n \<le> 90 then char_of (n + 32) else c)"

definition to_lower :: "string \<Rightarrow> string" where
  "to_lower s = map ascii_lower_char s"

definition is_ascii :: "string \<Rightarrow> bool" where
  "is_ascii s \<longleftrightarrow> list_all (\<lambda>c. (of_char c :: nat) < 128) s"

text \<open>\<^verbatim>\<open>strings.Split(s, sep)\<close> for a one-byte separator: always at least one part.\<close>

fun split_on :: "char \<Rightarrow> string \<Rightarrow> string list" where
  "split_on c [] = [[]]"
| "split_on c (x # xs) =
     (if x = c then [] # split_on c xs
      else case split_on c xs of [] \<Rightarrow> [[x]] | p # ps \<Rightarrow> (x # p) # ps)"

fun join_with :: "char \<Rightarrow> string list \<Rightarrow> string" where
  "join_with c [] = []"
| "join_with c [p] = p"
| "join_with c (p # ps) = p @ c # join_with c ps"

section \<open>Paths\<close>

text \<open>
  \<^verbatim>\<open>path.Clean\<close>: empty and \<^verbatim>\<open>.\<close> components are dropped, \<^verbatim>\<open>..\<close> removes the
  component before it (kept when a relative path has nothing left to remove, dropped at
  the root). The accumulator holds the kept components in reverse.
\<close>

fun clean_components :: "bool \<Rightarrow> string list \<Rightarrow> string list \<Rightarrow> string list" where
  "clean_components rooted acc [] = rev acc"
| "clean_components rooted acc (p # ps) =
     (if p = '''' \<or> p = ''.'' then clean_components rooted acc ps
      else if p = ''..'' then
        (case acc of
           [] \<Rightarrow> if rooted then clean_components rooted [] ps
                 else clean_components rooted [''..''] ps
         | q # qs \<Rightarrow> if q = ''..'' then clean_components rooted (''..'' # acc) ps
                    else clean_components rooted qs ps)
      else clean_components rooted (p # acc) ps)"

definition path_clean :: "string \<Rightarrow> string" where
  "path_clean s =
     (let rooted = has_prefix s ''/'';
          body = join_with (CHR ''/'') (clean_components rooted [] (split_on (CHR ''/'') s))
      in if rooted then CHR ''/'' # body else if body = '''' then ''.'' else body)"

text \<open>Everything up to and including the last slash, and everything after it.\<close>

definition path_split_dir :: "string \<Rightarrow> string" where
  "path_split_dir s = rev (dropWhile (\<lambda>c. c \<noteq> CHR ''/'') (rev s))"

definition path_split_file :: "string \<Rightarrow> string" where
  "path_split_file s = rev (takeWhile (\<lambda>c. c \<noteq> CHR ''/'') (rev s))"

definition path_dir :: "string \<Rightarrow> string" where
  "path_dir s = path_clean (path_split_dir s)"

definition path_base :: "string \<Rightarrow> string" where
  "path_base s =
     (if s = '''' then ''.''
      else let t = rev (dropWhile (\<lambda>c. c = CHR ''/'') (rev s));
               f = path_split_file t
           in if f = '''' then ''/'' else f)"

text \<open>A path lies strictly below a folder, as every subtree test of the sync code writes it.\<close>

abbreviation below :: "string \<Rightarrow> string \<Rightarrow> bool" where
  "below p folder \<equiv> has_prefix p (folder @ ''/'')"

section \<open>Association lists and error results\<close>

text \<open>A Go map filled by a loop over a slice: the last binding of a key wins.\<close>

definition last_index_map :: "('a \<Rightarrow> 'k option) \<Rightarrow> 'a list \<Rightarrow> ('k \<rightharpoonup> nat)" where
  "last_index_map key xs =
     fold (\<lambda>i m. case key (xs ! i) of None \<Rightarrow> m | Some k \<Rightarrow> m(k \<mapsto> i)) [0..<length xs] Map.empty"

text \<open>A loop that indexes the rows of a slice by a key: the last row with a key wins.\<close>

definition index_by :: "('a \<Rightarrow> 'k) \<Rightarrow> 'a list \<Rightarrow> ('k \<rightharpoonup> 'a)" where
  "index_by key xs = fold (\<lambda>x m. m(key x \<mapsto> x)) xs Map.empty"

text \<open>A loop that collects one list per element and stops at the first error.\<close>

fun collect_results :: "('a \<Rightarrow> 'e + 'b list) \<Rightarrow> 'a list \<Rightarrow> 'e + 'b list" where
  "collect_results f [] = Inr []"
| "collect_results f (x # xs) =
     (case f x of
        Inl e \<Rightarrow> Inl e
      | Inr ys \<Rightarrow> (case collect_results f xs of Inl e \<Rightarrow> Inl e | Inr zs \<Rightarrow> Inr (ys @ zs)))"

section \<open>Lemmas on strings\<close>

lemma has_prefix_iff: "has_prefix s p \<longleftrightarrow> (\<exists>t. s = p @ t)"
  unfolding has_prefix_def by (metis append_eq_conv_conj append_take_drop_id)

lemma has_prefix_append [simp, intro]: "has_prefix (p @ t) p"
  by (simp add: has_prefix_def)

lemma has_prefix_self [simp]: "has_prefix p p"
  by (simp add: has_prefix_def)

lemma has_prefix_Nil [simp]: "has_prefix s []"
  by (simp add: has_prefix_def)

lemma has_prefix_length: "has_prefix s p \<Longrightarrow> length p \<le> length s"
  by (auto simp: has_prefix_iff)

lemma has_prefix_trans: "has_prefix a b \<Longrightarrow> has_prefix b c \<Longrightarrow> has_prefix a c"
  by (auto simp: has_prefix_iff)

lemma below_length: "below p f \<Longrightarrow> length f < length p"
  by (auto dest: has_prefix_length)

lemma below_irrefl [simp]: "\<not> below p p"
  using below_length by blast

lemma below_trans: "below a b \<Longrightarrow> below b c \<Longrightarrow> below a c"
  by (auto simp: has_prefix_iff)

lemma trim_prefix_append [simp]: "trim_prefix (p @ t) p = t"
  by (simp add: trim_prefix_def)

lemma trim_prefix_split: "has_prefix s p \<Longrightarrow> s = p @ trim_prefix s p"
  by (auto simp: trim_prefix_def has_prefix_iff)

lemma ascii_lower_idem [simp]: "ascii_lower_char (ascii_lower_char c) = ascii_lower_char c"
  unfolding ascii_lower_char_def Let_def by (auto simp: of_char_of)

lemma to_lower_idem [simp]: "to_lower (to_lower s) = to_lower s"
  by (simp add: to_lower_def)

lemma length_to_lower [simp]: "length (to_lower s) = length s"
  by (simp add: to_lower_def)

lemma to_lower_Nil_iff [simp]: "to_lower s = [] \<longleftrightarrow> s = []"
  by (simp add: to_lower_def)

lemma to_lower_append: "to_lower (s @ t) = to_lower s @ to_lower t"
  by (simp add: to_lower_def)

lemma split_on_not_Nil [simp]: "split_on c s \<noteq> []"
  by (induction s) (auto split: list.splits)

lemma split_on_no_sep: "c \<notin> set s \<Longrightarrow> split_on c s = [s]"
  by (induction s) auto

lemma split_on_append: "c \<notin> set s \<Longrightarrow> split_on c (s @ c # t) = s # split_on c t"
  by (induction s) auto

lemma split_on_parts: "p \<in> set (split_on c s) \<Longrightarrow> c \<notin> set p"
proof (induction s arbitrary: p)
  case Nil
  then show ?case by simp
next
  case (Cons x xs)
  then show ?case by (auto split: if_splits list.splits)
qed

lemma join_with_Cons: "ps \<noteq> [] \<Longrightarrow> join_with c (p # ps) = p @ c # join_with c ps"
  by (cases ps) auto

lemma join_split [simp]: "join_with c (split_on c s) = s"
proof (induction s)
  case Nil
  then show ?case by simp
next
  case (Cons x xs)
  then show ?case by (cases "split_on c xs"; cases "tl (split_on c xs)") auto
qed

section \<open>Lemmas on indexes\<close>

lemma index_by_map_of: "index_by key xs = map_of (rev (map (\<lambda>x. (key x, x)) xs))"
proof -
  have "fold (\<lambda>x m. m(key x \<mapsto> x)) xs m = m ++ map_of (rev (map (\<lambda>x. (key x, x)) xs))" for m
    by (induction xs arbitrary: m) (auto simp: map_add_assoc)
  then show ?thesis by (simp add: index_by_def)
qed

lemma index_by_Some: "index_by key xs k = Some x \<Longrightarrow> x \<in> set xs \<and> key x = k"
  by (auto simp: index_by_map_of dest!: map_of_SomeD)

lemma index_by_None: "index_by key xs k = None \<longleftrightarrow> k \<notin> key ` set xs"
  by (auto simp: index_by_map_of map_of_eq_None_iff image_image)

lemma index_by_distinct:
  assumes "distinct (map key xs)" "x \<in> set xs"
  shows "index_by key xs (key x) = Some x"
proof -
  have "index_by key xs (key x) \<noteq> None" using assms(2) by (auto simp: index_by_None)
  then obtain y where "index_by key xs (key x) = Some y" by auto
  then show ?thesis using index_by_Some [of key xs "key x" y] assms by (auto simp: distinct_map inj_on_def)
qed

lemma index_by_snoc [simp]: "index_by key (xs @ [x]) = (index_by key xs)(key x \<mapsto> x)"
  by (simp add: index_by_def)

lemma index_by_Nil [simp]: "index_by key [] = Map.empty"
  by (simp add: index_by_def)

lemma map_filter_set: "y \<in> set (List.map_filter f xs) \<longleftrightarrow> (\<exists>x \<in> set xs. f x = Some y)"
  by (force simp: List.map_filter_def)

section \<open>The parent directory is shorter\<close>

text \<open>
  The number of bytes a component list needs once joined. Cleaning only drops components,
  so it never grows; a cleaned path ends in a slash only when it is the root.
\<close>

definition joined_size :: "string list \<Rightarrow> nat" where
  "joined_size ps = sum_list (map (\<lambda>p. Suc (length p)) ps)"

lemma joined_size_simps [simp]:
  "joined_size [] = 0"
  "joined_size (p # ps) = Suc (length p) + joined_size ps"
  "joined_size (ps @ qs) = joined_size ps + joined_size qs"
  "joined_size (rev ps) = joined_size ps"
  by (simp_all add: joined_size_def rev_map [symmetric])

lemma length_join_with: "ps \<noteq> [] \<Longrightarrow> Suc (length (join_with c ps)) = joined_size ps"
  by (induction c ps rule: join_with.induct) auto

lemma joined_size_split: "joined_size (split_on c s) = Suc (length s)"
  using length_join_with [of "split_on c s" c] by simp

lemma clean_components_size: "joined_size (clean_components r acc ps) \<le> joined_size acc + joined_size ps"
proof (induction r acc ps rule: clean_components.induct)
  case (1 r acc)
  then show ?case by simp
next
  case (2 r acc p ps)
  then show ?case by (cases acc) (auto split: if_splits)
qed

lemma clean_components_trailing: "clean_components r acc (ps @ [[]]) = clean_components r acc ps"
  by (induction r acc ps rule: clean_components.induct) (auto split: list.splits)

lemma split_on_snoc: "split_on c (s @ [c]) = split_on c s @ [[]]"
proof (induction s)
  case Nil
  then show ?case by simp
next
  case (Cons x xs)
  then show ?case by (cases "split_on c xs") auto
qed

lemma path_split_dir_snoc: "path_split_dir p = [] \<or> (\<exists>u. path_split_dir p = u @ ''/'')"
proof (cases "dropWhile (\<lambda>c. c \<noteq> CHR ''/'') (rev p)")
  case Nil
  then show ?thesis by (simp add: path_split_dir_def)
next
  case (Cons c cs)
  then have "c = CHR ''/''" using hd_dropWhile [of "\<lambda>c. c \<noteq> CHR ''/''" "rev p"] by simp
  with Cons show ?thesis by (simp add: path_split_dir_def)
qed

lemma path_split_append: "path_split_dir p @ path_split_file p = p"
  unfolding path_split_dir_def path_split_file_def
  by (metis rev_append rev_rev_ident takeWhile_dropWhile_id)

lemma path_clean_trailing:
  assumes "path_clean (u @ ''/'') \<noteq> ''.''"
  shows "length (path_clean (u @ ''/'')) \<le> max 1 (length u)"
proof (cases u)
  case Nil
  then show ?thesis by (simp add: path_clean_def has_prefix_def Let_def)
next
  case (Cons x xs)
  let ?c = "\<lambda>r ps. clean_components r [] ps"
  have body: "length (join_with (CHR ''/'') (?c r ps)) \<le> joined_size ps - 1" for r ps
    using clean_components_size [of r "[]" ps] length_join_with [of "?c r ps" "CHR ''/''"]
    by (cases "?c r ps = []") auto
  have split: "split_on (CHR ''/'') (u @ ''/'') = split_on (CHR ''/'') u @ [[]]"
    by (rule split_on_snoc)
  show ?thesis
  proof (cases "x = CHR ''/''")
    case True
    then have "path_clean (u @ ''/'') =
        CHR ''/'' # join_with (CHR ''/'') (?c True (split_on (CHR ''/'') xs))"
      using Cons by (simp add: path_clean_def has_prefix_def Let_def split_on_snoc clean_components_trailing)
    with body [of True "split_on (CHR ''/'') xs"] Cons show ?thesis
      by (simp add: joined_size_split)
  next
    case False
    then have "path_clean (u @ ''/'') = join_with (CHR ''/'') (?c False (split_on (CHR ''/'') u))"
      using Cons assms unfolding path_clean_def Let_def split clean_components_trailing
      by (auto simp: has_prefix_def simp del: split_on.simps split: if_splits)
    with body [of False "split_on (CHR ''/'') u"] show ?thesis
      by (simp add: joined_size_split)
  qed
qed

lemma path_dir_shorter:
  assumes "path_dir p \<noteq> ''.''" and "p \<noteq> ''/''"
  shows "length (path_dir p) < length p"
proof -
  have ne: "path_split_dir p \<noteq> []"
  proof
    assume "path_split_dir p = []"
    then have "path_dir p = ''.''"
      by (simp add: path_dir_def path_clean_def has_prefix_def)
    with assms(1) show False by simp
  qed
  then obtain u where u: "path_split_dir p = u @ ''/''"
    using path_split_dir_snoc by blast
  then have p: "p = u @ ''/'' @ path_split_file p"
    using path_split_append [of p] by simp
  then have len: "length p = length u + 1 + length (path_split_file p)"
    by (metis (no_types) add.assoc length_append One_nat_def list.size(3,4) add_0)
  have le: "length (path_dir p) \<le> max 1 (length u)"
    using path_clean_trailing [of u] assms(1) by (simp add: path_dir_def u)
  show ?thesis
  proof (cases "u = []")
    case True
    with p assms(2) have "path_split_file p \<noteq> []" by auto
    with True len le show ?thesis by (cases "path_split_file p") auto
  next
    case False
    with len le show ?thesis by (cases u) auto
  qed
qed

section \<open>Keyed tables\<close>

text \<open>
  The contract that the tables of the store and the maps the engine keeps in memory share: an
  entry written is found under its key, an entry removed is gone, and every other key is left
  alone.
\<close>

locale keyed_table =
  fixes inv :: "'s \<Rightarrow> bool"
    and look :: "'s \<Rightarrow> 'k \<Rightarrow> 'e option"
    and key :: "'e \<Rightarrow> 'k"
    and admissible :: "'e \<Rightarrow> bool"
    and keyed :: "'k \<Rightarrow> bool"
    and ups :: "'e \<Rightarrow> 's \<Rightarrow> 's"
    and del :: "'k \<Rightarrow> 's \<Rightarrow> 's"
  assumes inv_ups: "inv s \<Longrightarrow> admissible b \<Longrightarrow> inv (ups b s)"
    and inv_del: "inv s \<Longrightarrow> inv (del k s)"
    and look_ups: "inv s \<Longrightarrow> admissible b \<Longrightarrow> look (ups b s) k = (if k = key b then Some b else look s k)"
    and look_del: "inv s \<Longrightarrow> keyed k \<Longrightarrow> look (del k s) j = (if j = k then None else look s j)"
    and look_key: "inv s \<Longrightarrow> look s k = Some b \<Longrightarrow> key b = k"
begin

lemma ups_ups:
  assumes "inv s" "admissible b" "admissible c" "key c = key b"
  shows "look (ups c (ups b s)) k = look (ups c s) k"
  using assms by (simp add: look_ups inv_ups)

lemma del_ups:
  assumes "inv s" "admissible b" "keyed (key b)"
  shows "look (del (key b) (ups b s)) k = look (del (key b) s) k"
  using assms by (simp add: look_ups look_del inv_ups)

text \<open>Deleting a list of keys, one after the other.\<close>

lemma dels:
  assumes "inv s" "\<And>k. k \<in> set ks \<Longrightarrow> keyed k"
  shows "inv (fold del ks s) \<and> look (fold del ks s) j = (if j \<in> set ks then None else look s j)"
  using assms by (induction ks arbitrary: s) (auto simp: inv_del look_del)

end

text \<open>Two keyed tables that agree keep agreeing under the same writes.\<close>

locale mirrored_tables =
  a: keyed_table inv1 look1 key adm1 keyed1 ups1 del1 + b: keyed_table inv2 look2 key adm2 keyed2 ups2 del2
  for inv1 :: "'s \<Rightarrow> bool" and look1 :: "'s \<Rightarrow> 'k \<Rightarrow> 'e option" and key :: "'e \<Rightarrow> 'k" and adm1 keyed1 ups1 del1
    and inv2 :: "'t \<Rightarrow> bool" and look2 :: "'t \<Rightarrow> 'k \<Rightarrow> 'e option" and adm2 keyed2 ups2 del2 +
  assumes adm_mono: "adm2 b \<Longrightarrow> adm1 b"
    and keyed_mono: "keyed2 k \<Longrightarrow> keyed1 k"
begin

lemma mirror_ups:
  assumes "inv1 s" "inv2 t" "look1 s = look2 t" "adm2 b"
  shows "inv1 (ups1 b s) \<and> inv2 (ups2 b t) \<and> look1 (ups1 b s) = look2 (ups2 b t)"
  using assms adm_mono by (auto simp: fun_eq_iff a.look_ups b.look_ups a.inv_ups b.inv_ups)

lemma mirror_del:
  assumes "inv1 s" "inv2 t" "look1 s = look2 t" "keyed2 k"
  shows "inv1 (del1 k s) \<and> inv2 (del2 k t) \<and> look1 (del1 k s) = look2 (del2 k t)"
  using assms keyed_mono by (auto simp: fun_eq_iff a.look_del b.look_del a.inv_del b.inv_del)

end

text \<open>A Go map from keys to entries that carry their key.\<close>

lemma map_keyed_table:
  "keyed_table (\<lambda>m. \<forall>k b. m k = Some b \<longrightarrow> key b = k) (\<lambda>m. m) key (\<lambda>_. True) (\<lambda>_. True)
     (\<lambda>b m. m(key b \<mapsto> b)) (\<lambda>k m. m(k := None))"
  by unfold_locales (auto split: if_splits)

end
