(* ===== verification/DriveIdent.thy ===== *)
theory DriveIdent
  imports Prelude
begin

text \<open>
  The identity types of \<^verbatim>\<open>internal/driveid\<close>: the normalised Graph drive identifier
  (\<^verbatim>\<open>id.go\<close>), the composite item key (\<^verbatim>\<open>itemkey.go\<close>) and the canonical drive
  identifier of the configuration (\<^verbatim>\<open>canonical.go\<close>), with their text and SQL codecs.
  \<^verbatim>\<open>strings.ToLower\<close> is modelled on ASCII, which drive identifiers are.
\<close>

section \<open>Drive identifiers\<close>

definition idMinLength :: nat where
  "idMinLength = 16"

definition zeroIDPadded :: string where
  "zeroIDPadded = ''0000000000000000''"

datatype drive_id = DriveID (id_value: string)

definition zero_id :: drive_id where
  "zero_id = DriveID ''''"

definition New_id :: "string \<Rightarrow> drive_id" where
  "New_id raw =
     (if raw = '''' then zero_id
      else let lower = to_lower raw
           in if length lower \<ge> idMinLength then DriveID lower
              else DriveID (replicate (idMinLength - length lower) (CHR ''0'') @ lower))"

definition id_IsZero :: "drive_id \<Rightarrow> bool" where
  "id_IsZero d \<longleftrightarrow> id_value d = '''' \<or> id_value d = zeroIDPadded"

definition id_Equal :: "drive_id \<Rightarrow> drive_id \<Rightarrow> bool" where
  "id_Equal d e \<longleftrightarrow> (if id_value d = id_value e then True else id_IsZero d \<and> id_IsZero e)"

definition id_MarshalText :: "drive_id \<Rightarrow> string" where
  "id_MarshalText d = id_value d"

definition id_UnmarshalText :: "string \<Rightarrow> drive_id" where
  "id_UnmarshalText text = New_id text"

text \<open>The dynamic types \<^verbatim>\<open>database/sql\<close> hands to \<^verbatim>\<open>Scan\<close>.\<close>

datatype sql_value = SqlNull | SqlString string | SqlBytes string | SqlOther

definition id_Scan :: "sql_value \<Rightarrow> drive_id option" where
  "id_Scan src =
     (case src of
        SqlNull \<Rightarrow> Some zero_id
      | SqlString v \<Rightarrow> Some (New_id v)
      | SqlBytes v \<Rightarrow> Some (New_id v)
      | SqlOther \<Rightarrow> None)"

definition id_Value :: "drive_id \<Rightarrow> sql_value" where
  "id_Value d = (if id_IsZero d then SqlNull else SqlString (id_value d))"

section \<open>Item keys\<close>

record item_key =
  ik_DriveID :: drive_id
  ik_ItemID :: string

definition NewItemKey :: "drive_id \<Rightarrow> string \<Rightarrow> item_key" where
  "NewItemKey d i = \<lparr>ik_DriveID = d, ik_ItemID = i\<rparr>"

definition ik_String :: "item_key \<Rightarrow> string" where
  "ik_String k = id_value (ik_DriveID k) @ '':'' @ ik_ItemID k"

definition ik_IsZero :: "item_key \<Rightarrow> bool" where
  "ik_IsZero k \<longleftrightarrow> id_IsZero (ik_DriveID k) \<and> ik_ItemID k = ''''"

section \<open>Canonical drive identifiers\<close>

text \<open>\<^verbatim>\<open>strings.SplitN\<close> for a one-byte separator: the last part keeps the rest unsplit.\<close>

fun split_n :: "nat \<Rightarrow> char \<Rightarrow> string \<Rightarrow> string list" where
  "split_n 0 c s = []"
| "split_n (Suc 0) c s = [s]"
| "split_n (Suc (Suc n)) c s =
     (if c \<in> set s
      then takeWhile (\<lambda>x. x \<noteq> c) s # split_n (Suc n) c (tl (dropWhile (\<lambda>x. x \<noteq> c) s))
      else [s])"

definition canonicalIDMaxParts :: nat where
  "canonicalIDMaxParts = 4"

definition DriveTypePersonal :: string where "DriveTypePersonal = ''personal''"
definition DriveTypeBusiness :: string where "DriveTypeBusiness = ''business''"
definition DriveTypeSharePoint :: string where "DriveTypeSharePoint = ''sharepoint''"
definition DriveTypeShared :: string where "DriveTypeShared = ''shared''"

lemmas drive_type_defs [go_string_simps] =
  DriveTypePersonal_def DriveTypeBusiness_def DriveTypeSharePoint_def DriveTypeShared_def

definition IsValidDriveType :: "string \<Rightarrow> bool" where
  "IsValidDriveType t \<longleftrightarrow>
     t \<in> {DriveTypePersonal, DriveTypeBusiness, DriveTypeSharePoint, DriveTypeShared}"

record canonical_id =
  cid_driveType :: string
  cid_email :: string
  cid_site :: string
  cid_library :: string
  cid_sourceDriveID :: string
  cid_sourceItemID :: string

datatype canonical_error =
    ErrNotTypeEmail | ErrUnknownDriveType | ErrTwoParts | ErrFourParts | ErrEmptySource
  | ErrUseConstructSharePoint | ErrUseConstructShared | ErrEmptyEmail | ErrEmptySiteLibrary
  | ErrZeroCanonicalID

definition zero_cid :: canonical_id where
  "zero_cid = \<lparr>cid_driveType = '''', cid_email = '''', cid_site = '''', cid_library = '''',
               cid_sourceDriveID = '''', cid_sourceItemID = ''''\<rparr>"

definition NewCanonicalID :: "string \<Rightarrow> canonical_error + canonical_id" where
  "NewCanonicalID raw =
     (let parts = split_n canonicalIDMaxParts (CHR '':'') raw in
      if length parts < 2 \<or> parts ! 1 = '''' then Inl ErrNotTypeEmail
      else
        let driveType = parts ! 0 in
        if \<not> IsValidDriveType driveType then Inl ErrUnknownDriveType
        else
          let cid = zero_cid\<lparr>cid_driveType := driveType, cid_email := parts ! 1\<rparr> in
          if driveType = DriveTypePersonal \<or> driveType = DriveTypeBusiness then
            (if length parts > 2 then Inl ErrTwoParts else Inr cid)
          else if driveType = DriveTypeSharePoint then
            Inr (cid\<lparr>cid_site := (if length parts \<ge> 3 then parts ! 2 else ''''),
                     cid_library := (if length parts \<ge> canonicalIDMaxParts then parts ! 3 else '''')\<rparr>)
          else
            (if length parts \<noteq> canonicalIDMaxParts then Inl ErrFourParts
             else if parts ! 2 = '''' \<or> parts ! 3 = '''' then Inl ErrEmptySource
             else Inr (cid\<lparr>cid_sourceDriveID := parts ! 2, cid_sourceItemID := parts ! 3\<rparr>)))"

definition cid_String :: "canonical_id \<Rightarrow> string" where
  "cid_String c =
     (if cid_driveType c = '''' then ''''
      else if cid_driveType c = DriveTypePersonal \<or> cid_driveType c = DriveTypeBusiness then
        cid_driveType c @ '':'' @ cid_email c
      else if cid_driveType c = DriveTypeSharePoint then
        (let s = cid_driveType c @ '':'' @ cid_email c;
             s1 = (if cid_site c \<noteq> '''' then s @ '':'' @ cid_site c else s)
         in if cid_library c \<noteq> '''' then s1 @ '':'' @ cid_library c else s1)
      else if cid_driveType c = DriveTypeShared then
        cid_driveType c @ '':'' @ cid_email c @ '':'' @ cid_sourceDriveID c @ '':'' @ cid_sourceItemID c
      else cid_driveType c @ '':'' @ cid_email c)"

definition cid_IsZero :: "canonical_id \<Rightarrow> bool" where
  "cid_IsZero c \<longleftrightarrow> cid_driveType c = ''''"

definition cid_Equal :: "canonical_id \<Rightarrow> canonical_id \<Rightarrow> bool" where
  "cid_Equal c d \<longleftrightarrow>
     cid_driveType c = cid_driveType d \<and> cid_email c = cid_email d \<and> cid_site c = cid_site d \<and>
     cid_library c = cid_library d \<and> cid_sourceDriveID c = cid_sourceDriveID d \<and>
     cid_sourceItemID c = cid_sourceItemID d"

definition Construct_cid :: "string \<Rightarrow> string \<Rightarrow> canonical_error + canonical_id" where
  "Construct_cid driveType email =
     (if driveType = DriveTypeSharePoint then Inl ErrUseConstructSharePoint
      else if driveType = DriveTypeShared then Inl ErrUseConstructShared
      else NewCanonicalID (driveType @ '':'' @ email))"

definition ConstructSharePoint :: "string \<Rightarrow> string \<Rightarrow> string \<Rightarrow> canonical_error + canonical_id" where
  "ConstructSharePoint email site library =
     (if email = '''' then Inl ErrEmptyEmail
      else if site = '''' \<or> library = '''' then Inl ErrEmptySiteLibrary
      else Inr (zero_cid\<lparr>cid_driveType := DriveTypeSharePoint, cid_email := email,
                         cid_site := site, cid_library := library\<rparr>))"

definition ConstructShared :: "string \<Rightarrow> string \<Rightarrow> string \<Rightarrow> canonical_error + canonical_id" where
  "ConstructShared email sourceDriveID sourceItemID =
     (if email = '''' then Inl ErrEmptyEmail
      else if sourceDriveID = '''' \<or> sourceItemID = '''' then Inl ErrEmptySource
      else Inr (zero_cid\<lparr>cid_driveType := DriveTypeShared, cid_email := email,
                         cid_sourceDriveID := sourceDriveID, cid_sourceItemID := sourceItemID\<rparr>))"

definition cid_WithEmail :: "canonical_id \<Rightarrow> string \<Rightarrow> canonical_error + canonical_id" where
  "cid_WithEmail c email =
     (if cid_IsZero c then Inl ErrZeroCanonicalID
      else if cid_driveType c = DriveTypePersonal \<or> cid_driveType c = DriveTypeBusiness then
        Construct_cid (cid_driveType c) email
      else if cid_driveType c = DriveTypeSharePoint then
        ConstructSharePoint email (cid_site c) (cid_library c)
      else if cid_driveType c = DriveTypeShared then
        ConstructShared email (cid_sourceDriveID c) (cid_sourceItemID c)
      else Inl ErrUnknownDriveType)"

section \<open>Properties of drive identifiers\<close>

lemma length_New_id: "raw \<noteq> '''' \<Longrightarrow> length (id_value (New_id raw)) \<ge> 16"
  by (simp add: New_id_def Let_def idMinLength_def)

lemma New_id_empty [simp]: "New_id '''' = zero_id"
  by (simp add: New_id_def)

lemma ascii_lower_zero [simp]: "ascii_lower_char (CHR ''0'') = CHR ''0''"
  by (simp add: ascii_lower_char_def)

lemma to_lower_New_id: "to_lower (id_value (New_id raw)) = id_value (New_id raw)"
  by (simp add: New_id_def Let_def zero_id_def to_lower_append) (simp add: to_lower_def)

lemma New_id_normal: "New_id (id_value (New_id raw)) = New_id raw"
proof (cases "raw = ''''")
  case True
  then show ?thesis by (simp add: zero_id_def New_id_def)
next
  case False
  have long: "length (id_value (New_id raw)) \<ge> 16" by (rule length_New_id [OF False])
  then have "id_value (New_id raw) \<noteq> ''''" by auto
  with long show ?thesis
    by (subst New_id_def) (simp add: to_lower_New_id idMinLength_def)
qed

text \<open>
  Normalisation is idempotent, so an identifier read back from its text form is the
  identifier that was written.
\<close>

lemma id_text_roundtrip: "id_UnmarshalText (id_MarshalText (New_id raw)) = New_id raw"
  by (simp add: id_UnmarshalText_def id_MarshalText_def New_id_normal)

lemma id_Equal_refl [simp]: "id_Equal d d"
  by (simp add: id_Equal_def)

lemma id_Equal_sym: "id_Equal d e \<Longrightarrow> id_Equal e d"
  by (auto simp: id_Equal_def split: if_splits)

lemma id_Equal_trans: "id_Equal d e \<Longrightarrow> id_Equal e f \<Longrightarrow> id_Equal d f"
  by (auto simp: id_Equal_def id_IsZero_def split: if_splits)

lemma id_sql_roundtrip: "\<exists>e. id_Scan (id_Value (New_id raw)) = Some e \<and> id_Equal e (New_id raw)"
proof (cases "id_IsZero (New_id raw)")
  case True
  then show ?thesis by (auto simp: id_Value_def id_Scan_def id_Equal_def zero_id_def id_IsZero_def)
next
  case False
  then show ?thesis by (simp add: id_Value_def id_Scan_def New_id_normal)
qed

section \<open>Properties of canonical identifiers\<close>

lemma split_n_append:
  "c \<notin> set p \<Longrightarrow> split_n (Suc (Suc n)) c (p @ c # s) = p # split_n (Suc n) c s"
  by (simp add: takeWhile_append dropWhile_append)

lemma split_n_no_sep: "c \<notin> set s \<Longrightarrow> split_n (Suc n) c s = [s]"
  by (cases n) auto

lemma split_n_part_free:
  "i < length (split_n n c s) \<Longrightarrow> Suc i < n \<Longrightarrow> c \<notin> set (split_n n c s ! i)"
proof (induction n c s arbitrary: i rule: split_n.induct)
  case (3 n c s)
  then show ?case by (cases i) (auto split: if_splits dest: set_takeWhileD)
qed auto

lemma canonicalIDMaxParts_Suc: "canonicalIDMaxParts = Suc (Suc (Suc (Suc 0)))"
  by (simp add: canonicalIDMaxParts_def)

lemma split4_two:
  "CHR '':'' \<notin> set a \<Longrightarrow> CHR '':'' \<notin> set b \<Longrightarrow>
   split_n canonicalIDMaxParts (CHR '':'') (a @ '':'' @ b) = [a, b]"
  using split_n_append [of "CHR '':''" a] split_n_no_sep [of "CHR '':''" b]
  by (simp add: canonicalIDMaxParts_Suc)

lemma split4_three:
  "CHR '':'' \<notin> set a \<Longrightarrow> CHR '':'' \<notin> set b \<Longrightarrow> CHR '':'' \<notin> set d \<Longrightarrow>
   split_n canonicalIDMaxParts (CHR '':'') (a @ '':'' @ b @ '':'' @ d) = [a, b, d]"
  using split_n_append [of "CHR '':''" a] split_n_append [of "CHR '':''" b] split_n_no_sep [of "CHR '':''" d]
  by (simp add: canonicalIDMaxParts_Suc)

lemma split4_four:
  "CHR '':'' \<notin> set a \<Longrightarrow> CHR '':'' \<notin> set b \<Longrightarrow> CHR '':'' \<notin> set d \<Longrightarrow>
   split_n canonicalIDMaxParts (CHR '':'') (a @ '':'' @ b @ '':'' @ d @ '':'' @ e) = [a, b, d, e]"
  using split_n_append [of "CHR '':''" a] split_n_append [of "CHR '':''" b] split_n_append [of "CHR '':''" d]
  by (simp add: canonicalIDMaxParts_Suc)

text \<open>
  What a parsed identifier looks like: the fields \<^verbatim>\<open>NewCanonicalID\<close> fills are free of the
  separator (the last one excepted), and every field of another drive type is empty.
\<close>

definition cid_wf :: "canonical_id \<Rightarrow> bool" where
  "cid_wf c \<longleftrightarrow>
     IsValidDriveType (cid_driveType c) \<and> cid_email c \<noteq> '''' \<and> CHR '':'' \<notin> set (cid_email c) \<and>
     CHR '':'' \<notin> set (cid_site c) \<and> CHR '':'' \<notin> set (cid_sourceDriveID c) \<and>
     (cid_driveType c \<noteq> DriveTypeSharePoint \<longrightarrow> cid_site c = '''' \<and> cid_library c = '''') \<and>
     (cid_driveType c \<noteq> DriveTypeShared \<longrightarrow> cid_sourceDriveID c = '''' \<and> cid_sourceItemID c = '''') \<and>
     (cid_driveType c = DriveTypeShared \<longrightarrow> cid_sourceDriveID c \<noteq> '''' \<and> cid_sourceItemID c \<noteq> '''')"

lemma valid_type_colon_free: "IsValidDriveType t \<Longrightarrow> CHR '':'' \<notin> set t \<and> t \<noteq> ''''"
  by (auto simp: IsValidDriveType_def drive_type_defs)

lemma NewCanonicalID_wf: "NewCanonicalID raw = Inr c \<Longrightarrow> cid_wf c"
  using split_n_part_free [of 1 canonicalIDMaxParts "CHR '':''" raw]
    split_n_part_free [of 2 canonicalIDMaxParts "CHR '':''" raw]
  unfolding NewCanonicalID_def cid_wf_def Let_def zero_cid_def
  by (auto simp: canonicalIDMaxParts_def IsValidDriveType_def drive_type_defs split: if_splits)

text \<open>
  Rendering a well-formed identifier and parsing the text gives the identifier back, unless
  it is a SharePoint identifier with a library and no site.
\<close>

lemma cid_parse_String:
  assumes wf: "cid_wf c" and lib: "cid_site c = '''' \<longrightarrow> cid_library c = ''''"
  shows "NewCanonicalID (cid_String c) = Inr c"
proof -
  have t: "CHR '':'' \<notin> set (cid_driveType c)" "cid_driveType c \<noteq> ''''"
    using wf valid_type_colon_free by (auto simp: cid_wf_def)
  have e: "CHR '':'' \<notin> set (cid_email c)" "cid_email c \<noteq> ''''"
    and s: "CHR '':'' \<notin> set (cid_site c)" "CHR '':'' \<notin> set (cid_sourceDriveID c)"
    using wf by (auto simp: cid_wf_def)
  note parts = split4_two [OF t(1) e(1)] split4_three [OF t(1) e(1) s(1)] split4_four [OF t(1) e(1) s(1)]
    split4_four [OF t(1) e(1) s(2)]
  consider "cid_driveType c = DriveTypePersonal \<or> cid_driveType c = DriveTypeBusiness"
    | "cid_driveType c = DriveTypeSharePoint" | "cid_driveType c = DriveTypeShared"
    using wf by (auto simp: cid_wf_def IsValidDriveType_def)
  then show ?thesis
  proof cases
    case 1
    then show ?thesis using wf parts t e
      by (auto simp: cid_String_def NewCanonicalID_def Let_def zero_cid_def cid_wf_def drive_type_defs)
  next
    case 2
    then show ?thesis using wf parts t e lib
      by (cases "cid_site c = ''''"; cases "cid_library c = ''''")
        (auto simp: cid_String_def NewCanonicalID_def Let_def zero_cid_def cid_wf_def drive_type_defs
          IsValidDriveType_def canonicalIDMaxParts_def)
  next
    case 3
    then show ?thesis using wf parts t e
      by (auto simp: cid_String_def NewCanonicalID_def Let_def zero_cid_def cid_wf_def drive_type_defs
          IsValidDriveType_def canonicalIDMaxParts_def)
  qed
qed

text \<open>
  C25: every identifier that \<^verbatim>\<open>NewCanonicalID\<close> accepts, unless it has a library but no
  site, is rendered by \<^verbatim>\<open>String\<close> to a text that parses to the same identifier.
\<close>

theorem canonical_roundtrip:
  assumes "NewCanonicalID raw = Inr c" and "cid_site c = '''' \<longrightarrow> cid_library c = ''''"
  shows "NewCanonicalID (cid_String c) = Inr c"
  using NewCanonicalID_wf [OF assms(1)] assms(2) by (rule cid_parse_String)

lemmas canonical_eval =
  NewCanonicalID_def cid_String_def Let_def zero_cid_def IsValidDriveType_def canonicalIDMaxParts_Suc

theorem canonical_roundtrip_witness:
  "NewCanonicalID ''sharepoint:a@b.c:hr:Docs:2024'' =
     Inr \<lparr>cid_driveType = ''sharepoint'', cid_email = ''a@b.c'', cid_site = ''hr'',
          cid_library = ''Docs:2024'', cid_sourceDriveID = '''', cid_sourceItemID = ''''\<rparr> \<and>
   NewCanonicalID (cid_String \<lparr>cid_driveType = ''sharepoint'', cid_email = ''a@b.c'', cid_site = ''hr'',
          cid_library = ''Docs:2024'', cid_sourceDriveID = '''', cid_sourceItemID = ''''\<rparr>) =
     Inr \<lparr>cid_driveType = ''sharepoint'', cid_email = ''a@b.c'', cid_site = ''hr'',
          cid_library = ''Docs:2024'', cid_sourceDriveID = '''', cid_sourceItemID = ''''\<rparr>"
proof -
  have parse: "NewCanonicalID ''sharepoint:a@b.c:hr:Docs:2024'' =
     Inr \<lparr>cid_driveType = ''sharepoint'', cid_email = ''a@b.c'', cid_site = ''hr'',
          cid_library = ''Docs:2024'', cid_sourceDriveID = '''', cid_sourceItemID = ''''\<rparr>"
    by (simp add: canonical_eval drive_type_defs)
  show ?thesis using parse canonical_roundtrip [OF parse] by simp
qed

text \<open>
  the exception is real. The text \<^verbatim>\<open>sharepoint:e::lib\<close> is accepted, its identifier is
  rendered as \<^verbatim>\<open>sharepoint:e:lib\<close>, and that text parses to another identifier (the library
  has become the site), so \<^verbatim>\<open>UnmarshalText\<close> does not undo \<^verbatim>\<open>MarshalText\<close> there.
\<close>

theorem canonical_roundtrip_gap:
  "\<exists>c. NewCanonicalID ''sharepoint:e::lib'' = Inr c \<and> cid_library c = ''lib'' \<and>
       NewCanonicalID (cid_String c) = Inr (c\<lparr>cid_site := ''lib'', cid_library := ''''\<rparr>)"
  by (simp add: canonical_eval drive_type_defs)

text \<open>
  rewriting the account email of a parsed identifier either fails or changes the email
  and nothing else.
\<close>

theorem WithEmail_only_email:
  assumes "NewCanonicalID raw = Inr c" and "cid_WithEmail c email = Inr c'"
  shows "c' = c\<lparr>cid_email := email\<rparr>"
proof -
  have wf: "cid_wf c" by (rule NewCanonicalID_wf [OF assms(1)])
  have pb: "c' = c\<lparr>cid_email := email\<rparr>"
    if "NewCanonicalID (t @ '':'' @ email) = Inr c'" and "cid_driveType c = t"
      and "t = DriveTypePersonal \<or> t = DriveTypeBusiness" for t
  proof -
    have "CHR '':'' \<notin> set t" using that(3) by (auto simp: drive_type_defs)
    then have "split_n canonicalIDMaxParts (CHR '':'') (t @ '':'' @ email) =
        t # split_n (Suc (Suc (Suc 0))) (CHR '':'') email"
      using split_n_append [of "CHR '':''" t] by (simp add: canonicalIDMaxParts_Suc)
    then show ?thesis using that wf
      by (auto simp: NewCanonicalID_def Let_def zero_cid_def cid_wf_def drive_type_defs split: if_splits)
  qed
  show ?thesis using assms(2) wf pb
    by (auto simp: cid_WithEmail_def Construct_cid_def ConstructSharePoint_def ConstructShared_def
        cid_wf_def zero_cid_def drive_type_defs split: if_splits)
qed

theorem WithEmail_only_email_witness:
  "cid_WithEmail (zero_cid\<lparr>cid_driveType := ''personal'', cid_email := ''a@b.c''\<rparr>) ''x@y.z'' =
     Inr (zero_cid\<lparr>cid_driveType := ''personal'', cid_email := ''x@y.z''\<rparr>)"
proof -
  have p: "NewCanonicalID ''personal:a@b.c'' =
      Inr (zero_cid\<lparr>cid_driveType := ''personal'', cid_email := ''a@b.c''\<rparr>)"
    by (simp add: canonical_eval drive_type_defs)
  obtain c' where c': "cid_WithEmail (zero_cid\<lparr>cid_driveType := ''personal'', cid_email := ''a@b.c''\<rparr>)
      ''x@y.z'' = Inr c'"
    by (simp add: cid_WithEmail_def cid_IsZero_def Construct_cid_def canonical_eval drive_type_defs)
  show ?thesis using WithEmail_only_email [OF p c'] c' by simp
qed

end
