(* ===== verification/SyncEnums.thy ===== *)
theory SyncEnums
  imports Prelude
begin

text \<open>
  The enumerations of \<^verbatim>\<open>internal/sync/enums.go\<close> with their SQLite text codecs, the issue
  types of \<^verbatim>\<open>issue_types.go\<close>, the permission capabilities of
  \<^verbatim>\<open>permission_capability.go\<close> and the failure classes of \<^verbatim>\<open>internal/errclass\<close>.
  Values outside the declared constants do not exist in the model, so the \<^verbatim>\<open>default\<close>
  branches of the \<^verbatim>\<open>String\<close> methods are not represented.
\<close>

datatype direction = DirectionDownload | DirectionUpload | DirectionDelete

datatype change_source = SourceRemote | SourceLocal

datatype change_type = ChangeCreate | ChangeModify | ChangeDelete | ChangeMove

datatype item_type = ItemTypeFile | ItemTypeFolder | ItemTypeRoot

datatype sync_mode = SyncBidirectional | SyncDownloadOnly | SyncUploadOnly

datatype action_type =
    ActionDownload | ActionUpload | ActionLocalDelete | ActionRemoteDelete
  | ActionLocalMove | ActionRemoteMove | ActionFolderCreate | ActionConflictCopy
  | ActionBaselineUpdate | ActionCleanup

datatype folder_create_side = CreateLocal | CreateRemote

fun change_source_String :: "change_source \<Rightarrow> string" where
  "change_source_String SourceRemote = ''remote''"
| "change_source_String SourceLocal = ''local''"

fun change_type_String :: "change_type \<Rightarrow> string" where
  "change_type_String ChangeCreate = ''create''"
| "change_type_String ChangeModify = ''modify''"
| "change_type_String ChangeDelete = ''delete''"
| "change_type_String ChangeMove = ''move''"

fun item_type_String :: "item_type \<Rightarrow> string" where
  "item_type_String ItemTypeFile = ''file''"
| "item_type_String ItemTypeFolder = ''folder''"
| "item_type_String ItemTypeRoot = ''root''"

definition ParseItemType :: "string \<Rightarrow> item_type option" where
  "ParseItemType s =
     (if s = ''file'' then Some ItemTypeFile
      else if s = ''folder'' then Some ItemTypeFolder
      else if s = ''root'' then Some ItemTypeRoot
      else None)"

fun sync_mode_String :: "sync_mode \<Rightarrow> string" where
  "sync_mode_String SyncBidirectional = ''bidirectional''"
| "sync_mode_String SyncDownloadOnly = ''download-only''"
| "sync_mode_String SyncUploadOnly = ''upload-only''"

fun action_type_String :: "action_type \<Rightarrow> string" where
  "action_type_String ActionDownload = ''download''"
| "action_type_String ActionUpload = ''upload''"
| "action_type_String ActionLocalDelete = ''local_delete''"
| "action_type_String ActionRemoteDelete = ''remote_delete''"
| "action_type_String ActionLocalMove = ''local_move''"
| "action_type_String ActionRemoteMove = ''remote_move''"
| "action_type_String ActionFolderCreate = ''folder_create''"
| "action_type_String ActionConflictCopy = ''conflict_copy''"
| "action_type_String ActionBaselineUpdate = ''baseline_update''"
| "action_type_String ActionCleanup = ''cleanup''"

fun action_Direction :: "action_type \<Rightarrow> direction" where
  "action_Direction ActionUpload = DirectionUpload"
| "action_Direction ActionLocalDelete = DirectionDelete"
| "action_Direction ActionRemoteDelete = DirectionDelete"
| "action_Direction _ = DirectionDownload"

definition ParseActionType :: "string \<Rightarrow> action_type option" where
  "ParseActionType s =
     (if s = ''download'' then Some ActionDownload
      else if s = ''upload'' then Some ActionUpload
      else if s = ''local_delete'' then Some ActionLocalDelete
      else if s = ''remote_delete'' then Some ActionRemoteDelete
      else if s = ''local_move'' then Some ActionLocalMove
      else if s = ''remote_move'' then Some ActionRemoteMove
      else if s = ''folder_create'' then Some ActionFolderCreate
      else if s = ''conflict_copy'' then Some ActionConflictCopy
      else if s = ''baseline_update'' then Some ActionBaselineUpdate
      else if s = ''cleanup'' then Some ActionCleanup
      else None)"

fun folder_create_side_String :: "folder_create_side \<Rightarrow> string" where
  "folder_create_side_String CreateLocal = ''local''"
| "folder_create_side_String CreateRemote = ''remote''"

section \<open>Issue types, permission capabilities, failure classes\<close>

definition IssueInvalidFilename :: string where "IssueInvalidFilename = ''invalid_filename''"
definition IssuePathTooLong :: string where "IssuePathTooLong = ''path_too_long''"
definition IssueFileTooLarge :: string where "IssueFileTooLarge = ''file_too_large''"
definition IssueHashPanic :: string where "IssueHashPanic = ''hash_panic''"
definition IssueUnauthorized :: string where "IssueUnauthorized = ''unauthorized''"
definition IssueRemoteWriteDenied :: string where "IssueRemoteWriteDenied = ''remote_write_denied''"
definition IssueRemoteReadDenied :: string where "IssueRemoteReadDenied = ''remote_read_denied''"
definition IssueQuotaExceeded :: string where "IssueQuotaExceeded = ''quota_exceeded''"
definition IssueRateLimited :: string where "IssueRateLimited = ''rate_limited''"
definition IssueLocalReadDenied :: string where "IssueLocalReadDenied = ''local_read_denied''"
definition IssueLocalWriteDenied :: string where "IssueLocalWriteDenied = ''local_permission_denied''"
definition IssueCaseCollision :: string where "IssueCaseCollision = ''case_collision''"
definition IssueDiskFull :: string where "IssueDiskFull = ''disk_full''"
definition IssueServiceOutage :: string where "IssueServiceOutage = ''service_outage''"
definition IssueFileTooLargeForSpace :: string where
  "IssueFileTooLargeForSpace = ''file_too_large_for_space''"

lemmas issue_defs =
  IssueInvalidFilename_def IssuePathTooLong_def IssueFileTooLarge_def IssueHashPanic_def
  IssueUnauthorized_def IssueRemoteWriteDenied_def IssueRemoteReadDenied_def
  IssueQuotaExceeded_def IssueRateLimited_def IssueLocalReadDenied_def IssueLocalWriteDenied_def
  IssueCaseCollision_def IssueDiskFull_def IssueServiceOutage_def IssueFileTooLargeForSpace_def

datatype permission_capability =
    PermissionCapabilityUnknown | PermissionCapabilityLocalRead | PermissionCapabilityLocalWrite
  | PermissionCapabilityRemoteRead | PermissionCapabilityRemoteWrite

definition capability_IsLocal :: "permission_capability \<Rightarrow> bool" where
  "capability_IsLocal c \<longleftrightarrow> c = PermissionCapabilityLocalRead \<or> c = PermissionCapabilityLocalWrite"

definition capability_IsRemote :: "permission_capability \<Rightarrow> bool" where
  "capability_IsRemote c \<longleftrightarrow> c = PermissionCapabilityRemoteRead \<or> c = PermissionCapabilityRemoteWrite"

datatype err_class =
    ClassInvalid | ClassSuccess | ClassShutdown | ClassSuperseded | ClassRetryableTransient
  | ClassBlockScopeingTransient | ClassActionable | ClassFatal

definition class_Valid :: "err_class \<Rightarrow> bool" where
  "class_Valid c \<longleftrightarrow> c \<noteq> ClassInvalid"

fun err_class_String :: "err_class \<Rightarrow> string" where
  "err_class_String ClassInvalid = ''invalid''"
| "err_class_String ClassSuccess = ''success''"
| "err_class_String ClassShutdown = ''shutdown''"
| "err_class_String ClassSuperseded = ''superseded''"
| "err_class_String ClassRetryableTransient = ''retryable transient''"
| "err_class_String ClassBlockScopeingTransient = ''scope-blocking transient''"
| "err_class_String ClassActionable = ''actionable''"
| "err_class_String ClassFatal = ''fatal''"

section \<open>The text codecs are injective\<close>

lemma ParseItemType_String [simp]: "ParseItemType (item_type_String t) = Some t"
  by (cases t) (simp_all add: ParseItemType_def)

lemma ParseActionType_String [simp]: "ParseActionType (action_type_String a) = Some a"
  by (cases a) (simp_all add: ParseActionType_def)

lemma action_type_String_inj: "action_type_String a = action_type_String b \<longleftrightarrow> a = b"
  by (metis ParseActionType_String option.inject)

lemma item_type_String_inj: "item_type_String a = item_type_String b \<longleftrightarrow> a = b"
  by (metis ParseItemType_String option.inject)

lemma ParseActionType_inverse: "ParseActionType s = Some a \<Longrightarrow> action_type_String a = s"
  by (auto simp: ParseActionType_def split: if_splits)

lemma ParseItemType_inverse: "ParseItemType s = Some t \<Longrightarrow> item_type_String t = s"
  by (auto simp: ParseItemType_def split: if_splits)

end
