(* ===== verification/ScopeKeys.thy ===== *)
theory ScopeKeys
  imports SyncEnums DriveIdent
begin

text \<open>
  Block-scope keys: \<^verbatim>\<open>internal/sync/scope_key.go\<close> (the key, its wire format and its
  classification from HTTP results) and \<^verbatim>\<open>scope_semantics.go\<close> (the descriptor table and
  which actions a scope blocks). The kind \<open>ScopeInvalid\<close> is the zero value of
  \<^verbatim>\<open>ScopeKeyKind\<close>. The two accessors that panic on a key of another family return
  \<open>None\<close> there.
\<close>

datatype scope_key_kind =
    ScopeInvalid | ScopeThrottleTarget | ScopeService | ScopeQuotaOwn | ScopePermDirRead
  | ScopePermDirWrite | ScopePermRemoteRead | ScopePermRemoteWrite | ScopeDiskLocal

record scope_key =
  sk_Kind :: scope_key_kind
  sk_Param :: string

abbreviation mk_scope_key :: "scope_key_kind \<Rightarrow> string \<Rightarrow> scope_key" where
  "mk_scope_key k p \<equiv> \<lparr>sk_Kind = k, sk_Param = p\<rparr>"

definition zero_scope_key :: scope_key where
  "zero_scope_key = mk_scope_key ScopeInvalid ''''"

definition SKService :: scope_key where "SKService = mk_scope_key ScopeService ''''"
definition SKQuotaOwn :: scope_key where "SKQuotaOwn = mk_scope_key ScopeQuotaOwn ''''"
definition SKDiskLocal :: scope_key where "SKDiskLocal = mk_scope_key ScopeDiskLocal ''''"

definition throttleDrivePrefix :: string where
  "throttleDrivePrefix = ''drive:''"

definition throttleDriveParam :: "drive_id \<Rightarrow> string" where
  "throttleDriveParam d = throttleDrivePrefix @ id_value d"

definition SKThrottleDrive :: "drive_id \<Rightarrow> scope_key" where
  "SKThrottleDrive d = mk_scope_key ScopeThrottleTarget (throttleDriveParam d)"

definition SKPermLocalRead :: "string \<Rightarrow> scope_key" where
  "SKPermLocalRead p = mk_scope_key ScopePermDirRead p"
definition SKPermLocalWrite :: "string \<Rightarrow> scope_key" where
  "SKPermLocalWrite p = mk_scope_key ScopePermDirWrite p"
definition SKPermRemoteRead :: "string \<Rightarrow> scope_key" where
  "SKPermRemoteRead p = mk_scope_key ScopePermRemoteRead p"
definition SKPermRemoteWrite :: "string \<Rightarrow> scope_key" where
  "SKPermRemoteWrite p = mk_scope_key ScopePermRemoteWrite p"

definition sk_IsZero :: "scope_key \<Rightarrow> bool" where
  "sk_IsZero sk \<longleftrightarrow> sk_Kind sk = ScopeInvalid"

lemmas sk_constructor_defs =
  zero_scope_key_def SKService_def SKQuotaOwn_def SKDiskLocal_def SKThrottleDrive_def
  SKPermLocalRead_def SKPermLocalWrite_def SKPermRemoteRead_def SKPermRemoteWrite_def

section \<open>Wire format\<close>

definition WireThrottleTarget :: string where "WireThrottleTarget = ''throttle:target:''"
definition WireService :: string where "WireService = ''service''"
definition WireQuotaOwn :: string where "WireQuotaOwn = ''quota:own''"
definition WirePermDirRead :: string where "WirePermDirRead = ''perm:dir:read:''"
definition WirePermDirWrite :: string where "WirePermDirWrite = ''perm:dir:write:''"
definition WirePermRemoteRead :: string where "WirePermRemoteRead = ''perm:remote:read:''"
definition WirePermRemoteWrite :: string where "WirePermRemoteWrite = ''perm:remote:write:''"
definition WireDiskLocal :: string where "WireDiskLocal = ''disk:local''"

lemmas wire_defs =
  WireThrottleTarget_def WireService_def WireQuotaOwn_def WirePermDirRead_def
  WirePermDirWrite_def WirePermRemoteRead_def WirePermRemoteWrite_def WireDiskLocal_def

definition sk_String :: "scope_key \<Rightarrow> string" where
  "sk_String sk =
     (case sk_Kind sk of
        ScopeThrottleTarget \<Rightarrow> WireThrottleTarget @ sk_Param sk
      | ScopeService \<Rightarrow> WireService
      | ScopeQuotaOwn \<Rightarrow> WireQuotaOwn
      | ScopePermDirRead \<Rightarrow> WirePermDirRead @ sk_Param sk
      | ScopePermDirWrite \<Rightarrow> WirePermDirWrite @ sk_Param sk
      | ScopePermRemoteRead \<Rightarrow> WirePermRemoteRead @ sk_Param sk
      | ScopePermRemoteWrite \<Rightarrow> WirePermRemoteWrite @ sk_Param sk
      | ScopeDiskLocal \<Rightarrow> WireDiskLocal
      | ScopeInvalid \<Rightarrow> '''')"

definition ParseScopeKey :: "string \<Rightarrow> scope_key" where
  "ParseScopeKey s =
     (if has_prefix s WireThrottleTarget
      then mk_scope_key ScopeThrottleTarget (trim_prefix s WireThrottleTarget)
      else if s = WireService then SKService
      else if s = WireQuotaOwn then SKQuotaOwn
      else if s = WireDiskLocal then SKDiskLocal
      else if has_prefix s WirePermDirRead then SKPermLocalRead (trim_prefix s WirePermDirRead)
      else if has_prefix s WirePermDirWrite then SKPermLocalWrite (trim_prefix s WirePermDirWrite)
      else if has_prefix s WirePermRemoteRead then SKPermRemoteRead (trim_prefix s WirePermRemoteRead)
      else if has_prefix s WirePermRemoteWrite then SKPermRemoteWrite (trim_prefix s WirePermRemoteWrite)
      else zero_scope_key)"

section \<open>Classification of keys\<close>

definition sk_IsGlobal :: "scope_key \<Rightarrow> bool" where
  "sk_IsGlobal sk \<longleftrightarrow> sk_Kind sk = ScopeService"
definition sk_IsPermLocalRead :: "scope_key \<Rightarrow> bool" where
  "sk_IsPermLocalRead sk \<longleftrightarrow> sk_Kind sk = ScopePermDirRead"
definition sk_IsPermLocalWrite :: "scope_key \<Rightarrow> bool" where
  "sk_IsPermLocalWrite sk \<longleftrightarrow> sk_Kind sk = ScopePermDirWrite"
definition sk_IsPermDir :: "scope_key \<Rightarrow> bool" where
  "sk_IsPermDir sk \<longleftrightarrow> sk_IsPermLocalRead sk \<or> sk_IsPermLocalWrite sk"
definition sk_IsPermRemoteRead :: "scope_key \<Rightarrow> bool" where
  "sk_IsPermRemoteRead sk \<longleftrightarrow> sk_Kind sk = ScopePermRemoteRead"
definition sk_IsPermRemoteWrite :: "scope_key \<Rightarrow> bool" where
  "sk_IsPermRemoteWrite sk \<longleftrightarrow> sk_Kind sk = ScopePermRemoteWrite"
definition sk_IsPermRemote :: "scope_key \<Rightarrow> bool" where
  "sk_IsPermRemote sk \<longleftrightarrow> sk_IsPermRemoteRead sk \<or> sk_IsPermRemoteWrite sk"
definition sk_IsThrottleTarget :: "scope_key \<Rightarrow> bool" where
  "sk_IsThrottleTarget sk \<longleftrightarrow> sk_Kind sk = ScopeThrottleTarget"
definition sk_IsThrottleDrive :: "scope_key \<Rightarrow> bool" where
  "sk_IsThrottleDrive sk \<longleftrightarrow>
     sk_Kind sk = ScopeThrottleTarget \<and> has_prefix (sk_Param sk) throttleDrivePrefix"
definition sk_ThrottleTargetKey :: "scope_key \<Rightarrow> string option" where
  "sk_ThrottleTargetKey sk =
     (if sk_Kind sk \<noteq> ScopeThrottleTarget then None else Some (sk_Param sk))"

lemmas sk_class_defs =
  sk_IsGlobal_def sk_IsPermLocalRead_def sk_IsPermLocalWrite_def sk_IsPermDir_def
  sk_IsPermRemoteRead_def sk_IsPermRemoteWrite_def sk_IsPermRemote_def sk_IsThrottleTarget_def

section \<open>Descriptors\<close>

datatype scope_family =
    ScopeFamilyUnknown | ScopeFamilyThrottleTarget | ScopeFamilyService | ScopeFamilyQuotaOwn
  | ScopeFamilyPermDir | ScopeFamilyPermRemote | ScopeFamilyDiskLocal

datatype scope_access = ScopeAccessUnknown | ScopeAccessNone | ScopeAccessRead | ScopeAccessWrite

datatype scope_subject_kind =
    ScopeSubjectKindUnknown | ScopeSubjectKindNone | ScopeSubjectKindDrive | ScopeSubjectKindPath

definition scopePriorityMax :: int where
  "scopePriorityMax = 99"

record scope_descriptor =
  sd_Key :: scope_key
  sd_Family :: scope_family
  sd_Access :: scope_access
  sd_SubjectKind :: scope_subject_kind
  sd_SubjectValue :: string
  sd_DefaultConditionType :: string
  sd_Priority :: int

abbreviation mk_descriptor ::
  "scope_key \<Rightarrow> scope_family \<Rightarrow> scope_access \<Rightarrow> scope_subject_kind \<Rightarrow> string \<Rightarrow> string \<Rightarrow> int
     \<Rightarrow> scope_descriptor" where
  "mk_descriptor k f a sk sv ct p \<equiv>
     \<lparr>sd_Key = k, sd_Family = f, sd_Access = a, sd_SubjectKind = sk, sd_SubjectValue = sv,
      sd_DefaultConditionType = ct, sd_Priority = p\<rparr>"

definition DescribeScopeKey :: "scope_key \<Rightarrow> scope_descriptor" where
  "DescribeScopeKey key =
     (case sk_Kind key of
        ScopeThrottleTarget \<Rightarrow>
          mk_descriptor key ScopeFamilyThrottleTarget ScopeAccessNone ScopeSubjectKindDrive
            (sk_Param key) IssueRateLimited 0
      | ScopeService \<Rightarrow>
          mk_descriptor key ScopeFamilyService ScopeAccessNone ScopeSubjectKindNone ''''
            IssueServiceOutage 1
      | ScopeDiskLocal \<Rightarrow>
          mk_descriptor key ScopeFamilyDiskLocal ScopeAccessNone ScopeSubjectKindNone ''''
            IssueDiskFull 2
      | ScopeQuotaOwn \<Rightarrow>
          mk_descriptor key ScopeFamilyQuotaOwn ScopeAccessNone ScopeSubjectKindNone ''''
            IssueQuotaExceeded 3
      | ScopePermDirRead \<Rightarrow>
          mk_descriptor key ScopeFamilyPermDir ScopeAccessRead ScopeSubjectKindPath
            (sk_Param key) IssueLocalReadDenied 4
      | ScopePermDirWrite \<Rightarrow>
          mk_descriptor key ScopeFamilyPermDir ScopeAccessWrite ScopeSubjectKindPath
            (sk_Param key) IssueLocalWriteDenied 4
      | ScopePermRemoteRead \<Rightarrow>
          mk_descriptor key ScopeFamilyPermRemote ScopeAccessRead ScopeSubjectKindPath
            (sk_Param key) IssueRemoteReadDenied 5
      | ScopePermRemoteWrite \<Rightarrow>
          mk_descriptor key ScopeFamilyPermRemote ScopeAccessWrite ScopeSubjectKindPath
            (sk_Param key) IssueRemoteWriteDenied 5
      | ScopeInvalid \<Rightarrow>
          mk_descriptor key ScopeFamilyUnknown ScopeAccessUnknown ScopeSubjectKindUnknown '''' ''''
            scopePriorityMax)"

definition sd_IsZero :: "scope_descriptor \<Rightarrow> bool" where
  "sd_IsZero d \<longleftrightarrow> sd_Family d = ScopeFamilyUnknown"

definition sd_ScopePath :: "scope_descriptor \<Rightarrow> string" where
  "sd_ScopePath d = (if sd_SubjectKind d \<noteq> ScopeSubjectKindPath then '''' else sd_SubjectValue d)"

definition sd_PersistsInBlockScopes :: "scope_descriptor \<Rightarrow> bool" where
  "sd_PersistsInBlockScopes d \<longleftrightarrow>
     (if sd_IsZero d then False
      else if sd_Family d = ScopeFamilyPermDir \<or> sd_Family d = ScopeFamilyPermRemote
           then sd_Access d \<noteq> ScopeAccessRead
      else True)"

definition sd_Humanize :: "scope_descriptor \<Rightarrow> string" where
  "sd_Humanize d =
     (case sd_Family d of
        ScopeFamilyUnknown \<Rightarrow> sk_String (sd_Key d)
      | ScopeFamilyThrottleTarget \<Rightarrow> ''this drive (rate limited)''
      | ScopeFamilyService \<Rightarrow> ''OneDrive service''
      | ScopeFamilyQuotaOwn \<Rightarrow> ''this drive storage''
      | ScopeFamilyPermDir \<Rightarrow> if sd_SubjectValue d = '''' then ''/'' else sd_SubjectValue d
      | ScopeFamilyPermRemote \<Rightarrow> if sd_SubjectValue d = '''' then ''/'' else sd_SubjectValue d
      | ScopeFamilyDiskLocal \<Rightarrow> ''local disk'')"

section \<open>Which actions a scope blocks\<close>

definition scopePathMatches :: "string \<Rightarrow> string \<Rightarrow> bool" where
  "scopePathMatches path boundary \<longleftrightarrow>
     (if boundary = '''' then True else path = boundary \<or> below path boundary)"

definition localWriteScopeBlocksAction :: "action_type \<Rightarrow> bool" where
  "localWriteScopeBlocksAction a \<longleftrightarrow>
     a \<in> {ActionDownload, ActionLocalDelete, ActionLocalMove, ActionConflictCopy,
           ActionBaselineUpdate, ActionCleanup, ActionFolderCreate}"

definition remoteWriteScopeBlocksAction :: "action_type \<Rightarrow> bool" where
  "remoteWriteScopeBlocksAction a \<longleftrightarrow>
     a \<in> {ActionUpload, ActionRemoteDelete, ActionRemoteMove, ActionFolderCreate}"

definition sd_BlocksAction :: "scope_descriptor \<Rightarrow> string \<Rightarrow> string \<Rightarrow> action_type \<Rightarrow> bool" where
  "sd_BlocksAction d path throttleTargetKey actionType \<longleftrightarrow>
     (case sd_Family d of
        ScopeFamilyUnknown \<Rightarrow> False
      | ScopeFamilyService \<Rightarrow> True
      | ScopeFamilyThrottleTarget \<Rightarrow>
          throttleTargetKey \<noteq> '''' \<and> throttleTargetKey = sd_SubjectValue d
      | ScopeFamilyDiskLocal \<Rightarrow> actionType = ActionDownload
      | ScopeFamilyQuotaOwn \<Rightarrow> actionType = ActionUpload
      | ScopeFamilyPermDir \<Rightarrow>
          (if sd_Access d = ScopeAccessRead then False
           else scopePathMatches path (sd_SubjectValue d) \<and> localWriteScopeBlocksAction actionType)
      | ScopeFamilyPermRemote \<Rightarrow>
          (if sd_Access d = ScopeAccessRead then False
           else scopePathMatches path (sd_SubjectValue d) \<and> remoteWriteScopeBlocksAction actionType))"

definition sk_CoveredPath :: "scope_key \<Rightarrow> string" where
  "sk_CoveredPath sk = sd_ScopePath (DescribeScopeKey sk)"

definition sk_DirPath :: "scope_key \<Rightarrow> string option" where
  "sk_DirPath sk =
     (if sd_Family (DescribeScopeKey sk) \<noteq> ScopeFamilyPermDir then None else Some (sk_CoveredPath sk))"

definition sk_RemotePath :: "scope_key \<Rightarrow> string option" where
  "sk_RemotePath sk =
     (if sd_Family (DescribeScopeKey sk) \<noteq> ScopeFamilyPermRemote then None
      else Some (sk_CoveredPath sk))"

definition sk_PersistsInBlockScopes :: "scope_key \<Rightarrow> bool" where
  "sk_PersistsInBlockScopes sk \<longleftrightarrow> sd_PersistsInBlockScopes (DescribeScopeKey sk)"

definition sk_ConditionType :: "scope_key \<Rightarrow> string" where
  "sk_ConditionType sk = sd_DefaultConditionType (DescribeScopeKey sk)"

definition sk_Humanize :: "scope_key \<Rightarrow> string" where
  "sk_Humanize sk = sd_Humanize (DescribeScopeKey sk)"

definition sk_BlocksAction :: "scope_key \<Rightarrow> string \<Rightarrow> string \<Rightarrow> action_type \<Rightarrow> bool" where
  "sk_BlocksAction sk path throttleTargetKey actionType \<longleftrightarrow>
     sd_BlocksAction (DescribeScopeKey sk) path throttleTargetKey actionType"

definition ScopeKeyForResult :: "int \<Rightarrow> drive_id \<Rightarrow> scope_key" where
  "ScopeKeyForResult httpStatus targetDriveID =
     (if httpStatus = 429 then
        (if id_IsZero targetDriveID then zero_scope_key else SKThrottleDrive targetDriveID)
      else if httpStatus = 503 then SKService
      else if httpStatus = 507 then SKQuotaOwn
      else if httpStatus \<ge> 500 then SKService
      else zero_scope_key)"

section \<open>Properties\<close>

text \<open>
  The keys the program builds: the kinds without a parameter carry the empty one, because
  they come from the fixed constructors only.
\<close>

definition sk_wf :: "scope_key \<Rightarrow> bool" where
  "sk_wf sk \<longleftrightarrow>
     (sk_Kind sk \<in> {ScopeInvalid, ScopeService, ScopeQuotaOwn, ScopeDiskLocal} \<longrightarrow> sk_Param sk = '''')"

lemma sk_wf_constructors [simp]:
  "sk_wf zero_scope_key" "sk_wf SKService" "sk_wf SKQuotaOwn" "sk_wf SKDiskLocal"
  "sk_wf (SKThrottleDrive d)" "sk_wf (SKPermLocalRead p)" "sk_wf (SKPermLocalWrite p)"
  "sk_wf (SKPermRemoteRead p)" "sk_wf (SKPermRemoteWrite p)" "sk_wf (ScopeKeyForResult n d)"
  by (simp_all add: sk_wf_def ScopeKeyForResult_def sk_constructor_defs)

lemma sk_wf_Parse [simp]: "sk_wf (ParseScopeKey s)"
  unfolding ParseScopeKey_def by (auto simp: sk_wf_def sk_constructor_defs)

lemma wire_prefix_clash:
  "has_prefix (WirePermDirRead @ p) WireThrottleTarget = False"
  "has_prefix (WirePermDirWrite @ p) WireThrottleTarget = False"
  "has_prefix (WirePermRemoteRead @ p) WireThrottleTarget = False"
  "has_prefix (WirePermRemoteWrite @ p) WireThrottleTarget = False"
  "has_prefix (WirePermDirWrite @ p) WirePermDirRead = False"
  "has_prefix (WirePermRemoteRead @ p) WirePermDirRead = False"
  "has_prefix (WirePermRemoteWrite @ p) WirePermDirRead = False"
  "has_prefix (WirePermRemoteRead @ p) WirePermDirWrite = False"
  "has_prefix (WirePermRemoteWrite @ p) WirePermDirWrite = False"
  "has_prefix (WirePermRemoteWrite @ p) WirePermRemoteRead = False"
  by (simp_all add: has_prefix_def wire_defs)

lemma sk_parse_String: "sk_wf sk \<Longrightarrow> ParseScopeKey (sk_String sk) = sk"
proof (cases "sk_Kind sk")
  case ScopeInvalid
  assume "sk_wf sk"
  with ScopeInvalid show ?thesis
    by (simp add: sk_wf_def sk_String_def ParseScopeKey_def has_prefix_def wire_defs sk_constructor_defs)
qed (simp_all add: sk_wf_def sk_String_def ParseScopeKey_def sk_constructor_defs wire_prefix_clash,
     simp_all add: has_prefix_def wire_defs trim_prefix_def)

lemma sk_String_parse: "\<not> sk_IsZero (ParseScopeKey s) \<Longrightarrow> sk_String (ParseScopeKey s) = s"
  unfolding ParseScopeKey_def sk_IsZero_def sk_String_def
  by (auto simp: sk_constructor_defs trim_prefix_split [symmetric])

text \<open>
  C24: the wire format of scope keys is a faithful codec: a key the program can build comes
  back unchanged from its text, and a text that parses to a key is the text of that key.
\<close>

theorem scope_key_codec:
  assumes "sk_wf sk"
  shows "ParseScopeKey (sk_String sk) = sk \<and>
         (\<not> sk_IsZero (ParseScopeKey s) \<longrightarrow> sk_String (ParseScopeKey s) = s)"
  using sk_parse_String [OF assms] sk_String_parse by blast

theorem scope_key_codec_witness:
  "sk_wf (SKPermRemoteWrite ''perm:dir:read:x'') \<and>
   ParseScopeKey (sk_String (SKPermRemoteWrite ''perm:dir:read:x'')) = SKPermRemoteWrite ''perm:dir:read:x'' \<and>
   sk_String (ParseScopeKey ''perm:dir:write:a/b'') = ''perm:dir:write:a/b''"
proof -
  have wf: "sk_wf (SKPermRemoteWrite ''perm:dir:read:x'')" by simp
  have nz: "\<not> sk_IsZero (ParseScopeKey ''perm:dir:write:a/b'')"
    by (simp add: ParseScopeKey_def has_prefix_def wire_defs sk_IsZero_def sk_constructor_defs)
  show ?thesis using wf nz scope_key_codec [OF wf, of "''perm:dir:write:a/b''"] by blast
qed

lemma scopePathMatches_self [simp]: "scopePathMatches p p"
  by (simp add: scopePathMatches_def)

lemma scopePathMatches_trans:
  "scopePathMatches p q \<Longrightarrow> scopePathMatches q r \<Longrightarrow> scopePathMatches p r"
  unfolding scopePathMatches_def has_prefix_iff by (auto split: if_splits)

text \<open>
  a scope key belongs in the durable table of timed block scopes exactly when it can
  block some action; the read-denied boundaries and the zero key can block none.
\<close>

theorem persists_iff_can_block:
  assumes "sk_Kind sk = ScopeThrottleTarget \<Longrightarrow> sk_Param sk \<noteq> ''''"
  shows "sk_PersistsInBlockScopes sk \<longleftrightarrow> (\<exists>path target a. sk_BlocksAction sk path target a)"
proof (cases "sk_Kind sk")
  case ScopePermDirWrite
  have "sk_BlocksAction sk (sk_Param sk) '''' ActionDownload"
    by (simp add: sk_BlocksAction_def sd_BlocksAction_def DescribeScopeKey_def ScopePermDirWrite
        localWriteScopeBlocksAction_def)
  then show ?thesis using ScopePermDirWrite
    by (auto simp: sk_PersistsInBlockScopes_def sd_PersistsInBlockScopes_def sd_IsZero_def DescribeScopeKey_def)
next
  case ScopePermRemoteWrite
  have "sk_BlocksAction sk (sk_Param sk) '''' ActionUpload"
    by (simp add: sk_BlocksAction_def sd_BlocksAction_def DescribeScopeKey_def ScopePermRemoteWrite
        remoteWriteScopeBlocksAction_def)
  then show ?thesis using ScopePermRemoteWrite
    by (auto simp: sk_PersistsInBlockScopes_def sd_PersistsInBlockScopes_def sd_IsZero_def DescribeScopeKey_def)
qed (use assms in \<open>auto simp: sk_PersistsInBlockScopes_def sd_PersistsInBlockScopes_def sd_IsZero_def
       DescribeScopeKey_def sk_BlocksAction_def sd_BlocksAction_def\<close>)

theorem persists_iff_can_block_witness:
  "sk_PersistsInBlockScopes (SKThrottleDrive (New_id ''abc'')) \<and>
   (\<exists>path target a. sk_BlocksAction (SKThrottleDrive (New_id ''abc'')) path target a)"
proof -
  have "sk_PersistsInBlockScopes (SKThrottleDrive (New_id ''abc''))"
    by (simp add: sk_PersistsInBlockScopes_def sd_PersistsInBlockScopes_def sd_IsZero_def
        DescribeScopeKey_def SKThrottleDrive_def)
  then show ?thesis
    using persists_iff_can_block [of "SKThrottleDrive (New_id ''abc'')"]
    by (simp add: SKThrottleDrive_def throttleDriveParam_def throttleDrivePrefix_def)
qed

end
