(* ===== verification/SyncTypes.thy ===== *)
theory SyncTypes
  imports ScopeKeys
begin

text \<open>
  The data model of the sync engine: \<^verbatim>\<open>core_types.go\<close> (baseline entries, local and remote
  states, the three-way path view), \<^verbatim>\<open>actions.go\<close> and \<^verbatim>\<open>store_types.go\<close> (the rows of
  the durable tables). Pointers that may be nil are options; sizes and timestamps are
  \<open>int\<close> because the code only compares them here, device and inode numbers are
  \<open>nat\<close>.
\<close>

record baseline_entry =
  be_Path :: string
  be_DriveID :: drive_id
  be_ItemID :: string
  be_ParentID :: string
  be_ItemType :: item_type
  be_LocalHash :: string
  be_RemoteHash :: string
  be_LocalSize :: int
  be_LocalSizeKnown :: bool
  be_RemoteSize :: int
  be_RemoteSizeKnown :: bool
  be_LocalMtime :: int
  be_RemoteMtime :: int
  be_LocalDevice :: nat
  be_LocalInode :: nat
  be_LocalHasIdentity :: bool
  be_ETag :: string

record remote_state =
  rs_ItemID :: string
  rs_DriveID :: drive_id
  rs_Name :: string
  rs_ItemType :: item_type
  rs_Size :: int
  rs_Hash :: string
  rs_Mtime :: int
  rs_ETag :: string
  rs_CTag :: string
  rs_IsDeleted :: bool

record local_state =
  ls_Name :: string
  ls_ItemType :: item_type
  ls_Size :: int
  ls_Hash :: string
  ls_Mtime :: int
  ls_LocalDevice :: nat
  ls_LocalInode :: nat
  ls_LocalHasIdentity :: bool

text \<open>
  \<^verbatim>\<open>TruthAvailability\<close> keeps its zero value (the empty string), which counts as available.
\<close>

datatype truth_availability =
    TruthAvailabilityZero | TruthAvailabilityAvailable | TruthAvailabilityBlockedObservationIssue

datatype path_truth_source = PathTruthSourceNone | PathTruthSourceObservationIssue

record path_truth_side_status =
  pts_Availability :: truth_availability
  pts_Source :: path_truth_source
  pts_IssueType :: string
  pts_ScopeKey :: scope_key

definition side_IsAvailable :: "path_truth_side_status \<Rightarrow> bool" where
  "side_IsAvailable s \<longleftrightarrow>
     pts_Availability s = TruthAvailabilityZero \<or> pts_Availability s = TruthAvailabilityAvailable"

record path_truth_status =
  pt_Local :: path_truth_side_status
  pt_Remote :: path_truth_side_status

definition SuppressesStructuralActions :: "path_truth_status option \<Rightarrow> bool" where
  "SuppressesStructuralActions s =
     (case s of None \<Rightarrow> False
      | Some t \<Rightarrow> \<not> side_IsAvailable (pt_Local t) \<or> \<not> side_IsAvailable (pt_Remote t))"

record path_view =
  pv_Path :: string
  pv_Remote :: "remote_state option"
  pv_Local :: "local_state option"
  pv_Baseline :: "baseline_entry option"
  pv_TruthStatus :: path_truth_status

record action =
  a_Type :: action_type
  a_DriveID :: drive_id
  a_ItemID :: string
  a_Path :: string
  a_OldPath :: string
  a_CreateSide :: folder_create_side
  a_View :: "path_view option"
  a_RequireMissingLocalTarget :: bool

definition action_ThrottleTargetKey :: "action option \<Rightarrow> string" where
  "action_ThrottleTargetKey a =
     (case a of None \<Rightarrow> ''''
      | Some act \<Rightarrow> if id_IsZero (a_DriveID act) then '''' else throttleDriveParam (a_DriveID act))"

section \<open>Actions deferred by the sync direction\<close>

record deferred_counts =
  dc_FolderCreates :: nat
  dc_Moves :: nat
  dc_Downloads :: nat
  dc_Uploads :: nat
  dc_LocalDeletes :: nat
  dc_RemoteDeletes :: nat

definition zero_deferred :: deferred_counts where
  "zero_deferred = \<lparr>dc_FolderCreates = 0, dc_Moves = 0, dc_Downloads = 0, dc_Uploads = 0,
                    dc_LocalDeletes = 0, dc_RemoteDeletes = 0\<rparr>"

definition deferred_Total :: "deferred_counts \<Rightarrow> nat" where
  "deferred_Total c =
     dc_FolderCreates c + dc_Moves c + dc_Downloads c + dc_Uploads c +
     dc_LocalDeletes c + dc_RemoteDeletes c"

definition deferred_AddAction :: "deferred_counts \<Rightarrow> action \<Rightarrow> deferred_counts" where
  "deferred_AddAction c a =
     (case a_Type a of
        ActionFolderCreate \<Rightarrow> c\<lparr>dc_FolderCreates := dc_FolderCreates c + 1\<rparr>
      | ActionLocalMove \<Rightarrow> c\<lparr>dc_Moves := dc_Moves c + 1\<rparr>
      | ActionRemoteMove \<Rightarrow> c\<lparr>dc_Moves := dc_Moves c + 1\<rparr>
      | ActionDownload \<Rightarrow> c\<lparr>dc_Downloads := dc_Downloads c + 1\<rparr>
      | ActionUpload \<Rightarrow> c\<lparr>dc_Uploads := dc_Uploads c + 1\<rparr>
      | ActionLocalDelete \<Rightarrow> c\<lparr>dc_LocalDeletes := dc_LocalDeletes c + 1\<rparr>
      | ActionRemoteDelete \<Rightarrow> c\<lparr>dc_RemoteDeletes := dc_RemoteDeletes c + 1\<rparr>
      | ActionConflictCopy \<Rightarrow> c
      | ActionBaselineUpdate \<Rightarrow> c
      | ActionCleanup \<Rightarrow> c)"

record action_plan =
  ap_Actions :: "action list"
  ap_Deps :: "nat list list"
  ap_DeferredByMode :: deferred_counts

section \<open>Rows of the durable tables\<close>

record observation_issue_row =
  oi_Path :: string
  oi_DriveID :: drive_id
  oi_IssueType :: string
  oi_ScopeKey :: scope_key

record remote_state_row =
  rr_DriveID :: drive_id
  rr_ItemID :: string
  rr_Path :: string
  rr_ItemType :: item_type
  rr_Hash :: string
  rr_Size :: int
  rr_Mtime :: int
  rr_ETag :: string

record local_state_row =
  lr_Path :: string
  lr_ItemType :: item_type
  lr_Hash :: string
  lr_Size :: int
  lr_Mtime :: int
  lr_LocalDevice :: nat
  lr_LocalInode :: nat
  lr_LocalHasIdentity :: bool

record retry_work_row =
  rw_Path :: string
  rw_OldPath :: string
  rw_ActionType :: action_type
  rw_ScopeKey :: scope_key
  rw_Blocked :: bool
  rw_AttemptCount :: int
  rw_NextRetryAt :: int

record retry_work_key =
  rk_Path :: string
  rk_OldPath :: string
  rk_ActionType :: action_type

record retry_work_failure =
  rf_Work :: retry_work_key
  rf_ScopeKey :: scope_key

definition retryWorkKey :: "string \<Rightarrow> string \<Rightarrow> action_type \<Rightarrow> retry_work_key" where
  "retryWorkKey path oldPath actionType =
     \<lparr>rk_Path = path, rk_OldPath = oldPath, rk_ActionType = actionType\<rparr>"

definition retryWorkKeyForAction :: "action \<Rightarrow> retry_work_key" where
  "retryWorkKeyForAction a = retryWorkKey (a_Path a) (a_OldPath a) (a_Type a)"

definition row_WorkKey :: "retry_work_row \<Rightarrow> retry_work_key" where
  "row_WorkKey r = retryWorkKey (rw_Path r) (rw_OldPath r) (rw_ActionType r)"

text \<open>
  A Go error as far as the sync code looks into it: the sentinels of its chain that
  \<^verbatim>\<open>errors.Is\<close> would find, the status and the Retry-After of the Graph error in it, if
  there is one, and its message.
\<close>

datatype error_mark =
    MarkContextCanceled | MarkContextDeadlineExceeded | MarkActionPreconditionChanged | MarkDiskFull
  | MarkFileTooLargeForSpace | MarkFileExceedsOneDriveLimit | MarkPermission

record go_error =
  ge_Marks :: "error_mark list"
  ge_Graph :: "(int \<times> int) option"
  ge_Message :: string

definition errors_Is :: "go_error option \<Rightarrow> error_mark \<Rightarrow> bool" where
  "errors_Is e k = (case e of None \<Rightarrow> False | Some x \<Rightarrow> k \<in> set (ge_Marks x))"

section \<open>Lemmas\<close>

lemma deferred_Total_AddAction:
  "deferred_Total (deferred_AddAction c a) =
     deferred_Total c + (if a_Type a \<in> {ActionConflictCopy, ActionBaselineUpdate, ActionCleanup} then 0 else 1)"
  by (cases "a_Type a") (simp_all add: deferred_AddAction_def deferred_Total_def)

lemma row_WorkKey_sel [simp]:
  "rk_Path (row_WorkKey r) = rw_Path r" "rk_OldPath (row_WorkKey r) = rw_OldPath r"
  "rk_ActionType (row_WorkKey r) = rw_ActionType r"
  by (simp_all add: row_WorkKey_def retryWorkKey_def)

end
