(* ===== verification/StoreRows.thy ===== *)
theory StoreRows
  imports SyncTypes
begin

text \<open>
  The SQLite rows behind the planner and the baseline store (\<^verbatim>\<open>schema.go\<close>): nullable
  columns are options. The functions that bind Go values to columns and scan them back
  (\<^verbatim>\<open>store.go\<close>, \<^verbatim>\<open>store_write_baseline.go\<close>, \<^verbatim>\<open>store_local_state.go\<close>,
  \<^verbatim>\<open>store_read_remote_state.go\<close>) are modelled with them. A \<^verbatim>\<open>uint64\<close> bound through
  \<^verbatim>\<open>int64\<close> comes back unchanged, so device and inode columns hold the Go value.
\<close>

record sql_baseline =
  sb_item_id :: string
  sb_path :: string
  sb_parent_id :: "string option"
  sb_item_type :: item_type
  sb_local_hash :: "string option"
  sb_remote_hash :: "string option"
  sb_local_size :: "int option"
  sb_remote_size :: "int option"
  sb_local_mtime :: "int option"
  sb_remote_mtime :: "int option"
  sb_local_device :: nat
  sb_local_inode :: nat
  sb_local_has_identity :: bool
  sb_etag :: "string option"

record sql_local =
  sl_path :: string
  sl_item_type :: item_type
  sl_hash :: "string option"
  sl_size :: "int option"
  sl_mtime :: "int option"
  sl_local_device :: nat
  sl_local_inode :: nat
  sl_local_has_identity :: bool

record sql_remote =
  sr_drive_id :: string
  sr_item_id :: string
  sr_path :: string
  sr_item_type :: item_type
  sr_hash :: "string option"
  sr_size :: "int option"
  sr_mtime :: "int option"
  sr_etag :: "string option"

definition nullString :: "string \<Rightarrow> string option" where
  "nullString s = (if s = '''' then None else Some s)"

definition nullOptionalInt64 :: "int \<Rightarrow> int option" where
  "nullOptionalInt64 n = (if n = 0 then None else Some n)"

definition nullKnownInt64 :: "int \<Rightarrow> bool \<Rightarrow> int option" where
  "nullKnownInt64 n known = (if \<not> known then None else Some n)"

text \<open>\<^verbatim>\<open>COALESCE(x, '')\<close> and \<^verbatim>\<open>COALESCE(x, 0)\<close>; a scanned \<^verbatim>\<open>sql.Null*\<close> value has the same default.\<close>

definition coalesce_text :: "string option \<Rightarrow> string" where
  "coalesce_text v = (case v of None \<Rightarrow> '''' | Some s \<Rightarrow> s)"

definition coalesce_int :: "int option \<Rightarrow> int" where
  "coalesce_int v = (case v of None \<Rightarrow> 0 | Some n \<Rightarrow> n)"

definition bind_local_row :: "local_state_row \<Rightarrow> sql_local" where
  "bind_local_row r =
     \<lparr>sl_path = lr_Path r, sl_item_type = lr_ItemType r, sl_hash = nullString (lr_Hash r),
      sl_size = nullKnownInt64 (lr_Size r) True, sl_mtime = nullOptionalInt64 (lr_Mtime r),
      sl_local_device = lr_LocalDevice r, sl_local_inode = lr_LocalInode r,
      sl_local_has_identity = lr_LocalHasIdentity r\<rparr>"

definition scan_local_row :: "sql_local \<Rightarrow> local_state_row" where
  "scan_local_row r =
     \<lparr>lr_Path = sl_path r, lr_ItemType = sl_item_type r, lr_Hash = coalesce_text (sl_hash r),
      lr_Size = coalesce_int (sl_size r), lr_Mtime = coalesce_int (sl_mtime r),
      lr_LocalDevice = sl_local_device r, lr_LocalInode = sl_local_inode r,
      lr_LocalHasIdentity = sl_local_has_identity r\<rparr>"

definition bind_remote_row :: "remote_state_row \<Rightarrow> sql_remote" where
  "bind_remote_row r =
     \<lparr>sr_drive_id = id_value (rr_DriveID r), sr_item_id = rr_ItemID r, sr_path = rr_Path r,
      sr_item_type = rr_ItemType r, sr_hash = nullString (rr_Hash r),
      sr_size = nullKnownInt64 (rr_Size r) True, sr_mtime = nullOptionalInt64 (rr_Mtime r),
      sr_etag = nullString (rr_ETag r)\<rparr>"

definition remoteStateDriveID :: "string \<Rightarrow> drive_id \<Rightarrow> drive_id" where
  "remoteStateDriveID rawDriveID fallback =
     (if rawDriveID \<noteq> '''' then New_id rawDriveID else fallback)"

definition scan_remote_row :: "drive_id \<Rightarrow> sql_remote \<Rightarrow> remote_state_row" where
  "scan_remote_row contentDriveID r =
     \<lparr>rr_DriveID = remoteStateDriveID (sr_drive_id r) contentDriveID, rr_ItemID = sr_item_id r,
      rr_Path = sr_path r, rr_ItemType = sr_item_type r, rr_Hash = coalesce_text (sr_hash r),
      rr_Size = coalesce_int (sr_size r), rr_Mtime = coalesce_int (sr_mtime r),
      rr_ETag = coalesce_text (sr_etag r)\<rparr>"

text \<open>
  The baseline columns of one entry: the arguments of \<^verbatim>\<open>sqlUpsertBaseline\<close> in
  \<^verbatim>\<open>commitUpsert\<close> and \<^verbatim>\<open>RefreshLocalBaseline\<close>.
\<close>

definition bind_baseline_entry :: "baseline_entry \<Rightarrow> sql_baseline" where
  "bind_baseline_entry e =
     \<lparr>sb_item_id = be_ItemID e, sb_path = be_Path e, sb_parent_id = nullString (be_ParentID e),
      sb_item_type = be_ItemType e, sb_local_hash = nullString (be_LocalHash e),
      sb_remote_hash = nullString (be_RemoteHash e),
      sb_local_size = nullKnownInt64 (be_LocalSize e) (be_LocalSizeKnown e),
      sb_remote_size = nullKnownInt64 (be_RemoteSize e) (be_RemoteSizeKnown e),
      sb_local_mtime = nullOptionalInt64 (be_LocalMtime e),
      sb_remote_mtime = nullOptionalInt64 (be_RemoteMtime e),
      sb_local_device = be_LocalDevice e, sb_local_inode = be_LocalInode e,
      sb_local_has_identity = be_LocalHasIdentity e, sb_etag = nullString (be_ETag e)\<rparr>"

definition scanBaselineRow :: "drive_id \<Rightarrow> sql_baseline \<Rightarrow> baseline_entry" where
  "scanBaselineRow contentDriveID r =
     \<lparr>be_Path = sb_path r, be_DriveID = contentDriveID, be_ItemID = sb_item_id r,
      be_ParentID = coalesce_text (sb_parent_id r), be_ItemType = sb_item_type r,
      be_LocalHash = coalesce_text (sb_local_hash r), be_RemoteHash = coalesce_text (sb_remote_hash r),
      be_LocalSize = coalesce_int (sb_local_size r), be_LocalSizeKnown = (sb_local_size r \<noteq> None),
      be_RemoteSize = coalesce_int (sb_remote_size r), be_RemoteSizeKnown = (sb_remote_size r \<noteq> None),
      be_LocalMtime = coalesce_int (sb_local_mtime r), be_RemoteMtime = coalesce_int (sb_remote_mtime r),
      be_LocalDevice = sb_local_device r, be_LocalInode = sb_local_inode r,
      be_LocalHasIdentity = sb_local_has_identity r, be_ETag = coalesce_text (sb_etag r)\<rparr>"

section \<open>Binding and scanning are inverse\<close>

lemmas store_null_defs = nullString_def nullOptionalInt64_def nullKnownInt64_def coalesce_text_def coalesce_int_def

lemma coalesce_null [simp]:
  "coalesce_text (nullString s) = s" "coalesce_int (nullOptionalInt64 n) = n"
  "coalesce_int (nullKnownInt64 n True) = n"
  by (simp_all add: store_null_defs)

lemma nullKnown_None [simp]: "nullKnownInt64 n k = None \<longleftrightarrow> \<not> k"
  by (simp add: nullKnownInt64_def)

lemma scan_bind_local [simp]: "scan_local_row (bind_local_row r) = r"
  by (simp add: scan_local_row_def bind_local_row_def)

text \<open>An entry whose unknown sizes are zero, as every entry scanned from the table is.\<close>

definition entry_normal :: "baseline_entry \<Rightarrow> bool" where
  "entry_normal e \<longleftrightarrow>
     (\<not> be_LocalSizeKnown e \<longrightarrow> be_LocalSize e = 0) \<and> (\<not> be_RemoteSizeKnown e \<longrightarrow> be_RemoteSize e = 0)"

lemma entry_normal_scan [simp]: "entry_normal (scanBaselineRow d r)"
  by (auto simp: entry_normal_def scanBaselineRow_def coalesce_int_def)

lemma coalesce_known: "(\<not> k \<longrightarrow> n = 0) \<Longrightarrow> coalesce_int (nullKnownInt64 n k) = n"
  by (auto simp: nullKnownInt64_def coalesce_int_def)

lemma scan_bind_baseline:
  "entry_normal e \<Longrightarrow> be_DriveID e = d \<Longrightarrow> scanBaselineRow d (bind_baseline_entry e) = e"
  by (cases e) (simp add: scanBaselineRow_def bind_baseline_entry_def entry_normal_def coalesce_known)

lemma bind_baseline_sel [simp]:
  "sb_item_id (bind_baseline_entry e) = be_ItemID e" "sb_path (bind_baseline_entry e) = be_Path e"
  by (simp_all add: bind_baseline_entry_def)

lemma scan_baseline_sel [simp]:
  "be_Path (scanBaselineRow d r) = sb_path r" "be_ItemID (scanBaselineRow d r) = sb_item_id r"
  "be_DriveID (scanBaselineRow d r) = d" "be_ItemType (scanBaselineRow d r) = sb_item_type r"
  by (simp_all add: scanBaselineRow_def)

lemma scan_local_sel [simp]: "lr_Path (scan_local_row r) = sl_path r"
  by (simp add: scan_local_row_def)

lemma bind_local_sel [simp]: "sl_path (bind_local_row r) = lr_Path r"
  by (simp add: bind_local_row_def)

lemma scan_remote_sel [simp]:
  "rr_Path (scan_remote_row d r) = sr_path r" "rr_ItemID (scan_remote_row d r) = sr_item_id r"
  by (simp_all add: scan_remote_row_def)

lemma bind_remote_sel [simp]:
  "sr_path (bind_remote_row r) = rr_Path r" "sr_item_id (bind_remote_row r) = rr_ItemID r"
  by (simp_all add: bind_remote_row_def)

end
