(* ===== verification/Reconcile.thy ===== *)
theory Reconcile
  imports StoreRows
begin

text \<open>
  The structural diff of the sync engine, which the program computes in SQLite:
  \<^verbatim>\<open>sqlQueryComparisonState\<close> and \<^verbatim>\<open>sqlQueryReconciliationState\<close> of
  \<^verbatim>\<open>internal/sync/sqlite_compare.go\<close>. A query is a function of the three tables
  (baseline, local state, remote state); a common table expression is a definition of its
  own; a \<^verbatim>\<open>LEFT JOIN\<close> pairs a path with every matching row, or with NULL when there is
  none; a comparison with NULL is not true, so the \<^verbatim>\<open>CASE\<close> falls through. The two
  queries define \<^verbatim>\<open>comparison_kind\<close> separately, and so does the model.
\<close>

record sync_tables =
  st_baseline :: "sql_baseline list"
  st_local :: "sql_local list"
  st_remote :: "sql_remote list"

datatype comparison_kind =
    CLocalMoveSource | CBothMissing | CLocalMoveDest | CRemoteMoveSource | CRemoteMoveDest
  | CLocalOnlyCreate | CRemoteOnlyCreate | CCreateEqual | CCreateConflict | CUnchanged
  | CEqualAgain | CLocalMissing | CRemoteMissing | CDiverged | CUnknown

datatype reconciliation_kind =
    RNoop | RBaselineRemove | RLocalMove | RRemoteMove | RFolderCreateRemote
  | RFolderCreateLocal | RUpload | RDownload | RBaselineUpdate | RConflictCreateCreate
  | RRemoteDelete | RLocalDelete | RConflictEditDelete | RConflictEditEdit | ROther string

record comparison_row =
  cr_Path :: string
  cr_BaselineItemID :: string
  cr_RemoteItemID :: string
  cr_ItemType :: item_type
  cr_BaselinePresent :: bool
  cr_LocalPresent :: bool
  cr_RemotePresent :: bool
  cr_LocalChanged :: bool
  cr_RemoteChanged :: bool
  cr_CurrentEqual :: bool
  cr_LocalMoveTarget :: string
  cr_LocalMoveSource :: string
  cr_LocalMoveCandidateCount :: nat
  cr_RemoteMoveTarget :: string
  cr_RemoteMoveSource :: string
  cr_ComparisonKind :: comparison_kind

record reconciliation_row =
  rc_Path :: string
  rc_ItemType :: item_type
  rc_ComparisonKind :: comparison_kind
  rc_ReconciliationKind :: reconciliation_kind
  rc_LocalMoveTarget :: string
  rc_LocalMoveSource :: string
  rc_RemoteMoveTarget :: string
  rc_RemoteMoveSource :: string

section \<open>Common table expressions\<close>

definition matching :: "string \<Rightarrow> (string \<times> 'v) list \<Rightarrow> 'v list" where
  "matching k xs = map snd (filter (\<lambda>(k', v). k' = k) xs)"

definition left_join :: "string \<Rightarrow> (string \<times> 'v) list \<Rightarrow> 'v option list" where
  "left_join k xs = (if matching k xs = [] then [None] else map Some (matching k xs))"

definition all_paths :: "sync_tables \<Rightarrow> string list" where
  "all_paths t =
     sort (remdups (map sb_path (st_baseline t) @ map sl_path (st_local t) @ map sr_path (st_remote t)))"

definition in_baseline :: "sync_tables \<Rightarrow> string \<Rightarrow> bool" where
  "in_baseline t p \<longleftrightarrow> list_ex (\<lambda>b. sb_path b = p) (st_baseline t)"

definition identity_move_candidate :: "sql_baseline \<Rightarrow> sql_local \<Rightarrow> bool" where
  "identity_move_candidate b l \<longleftrightarrow>
     sl_path l \<noteq> sb_path b \<and> sl_item_type l = sb_item_type b \<and>
     sl_local_has_identity l \<and> sb_local_has_identity b \<and>
     sl_local_device l = sb_local_device b \<and> sl_local_inode l = sb_local_inode b"

definition hash_move_candidate :: "sql_baseline \<Rightarrow> sql_local \<Rightarrow> bool" where
  "hash_move_candidate b l \<longleftrightarrow>
     sl_path l \<noteq> sb_path b \<and> sl_item_type l = ItemTypeFile \<and> sb_item_type b = ItemTypeFile \<and>
     \<not> sb_local_has_identity b \<and>
     coalesce_text (sl_hash l) \<noteq> '''' \<and> coalesce_text (sb_local_hash b) \<noteq> '''' \<and>
     coalesce_text (sl_hash l) = coalesce_text (sb_local_hash b)"

definition local_move_candidates :: "sync_tables \<Rightarrow> (string \<times> string) list" where
  "local_move_candidates t =
     [(sb_path b, sl_path l). b \<leftarrow> st_baseline t, l \<leftarrow> st_local t,
        identity_move_candidate b l \<and> \<not> in_baseline t (sl_path l)] @
     [(sb_path b, sl_path l). b \<leftarrow> st_baseline t, l \<leftarrow> st_local t,
        hash_move_candidate b l \<and> \<not> in_baseline t (sl_path l)]"

definition candidate_targets :: "sync_tables \<Rightarrow> string \<Rightarrow> string list" where
  "candidate_targets t s = [q. (p, q) \<leftarrow> local_move_candidates t, p = s]"

text \<open>Source path, least target path, number of candidates.\<close>

definition local_move_sources :: "sync_tables \<Rightarrow> (string \<times> string \<times> nat) list" where
  "local_move_sources t =
     [(s, min_list (candidate_targets t s), length (candidate_targets t s)).
        s \<leftarrow> remdups (map fst (local_move_candidates t))]"

text \<open>Target path, source path, number of candidates.\<close>

definition local_move_targets :: "sync_tables \<Rightarrow> (string \<times> string \<times> nat) list" where
  "local_move_targets t = [(q, s, n). (s, q, n) \<leftarrow> local_move_sources t]"

definition remote_move_sources :: "sync_tables \<Rightarrow> (string \<times> string) list" where
  "remote_move_sources t =
     [(sb_path b, sr_path r). b \<leftarrow> st_baseline t, r \<leftarrow> st_remote t,
        sr_item_id r = sb_item_id b \<and> sr_path r \<noteq> sb_path b]"

definition remote_move_targets :: "sync_tables \<Rightarrow> (string \<times> string) list" where
  "remote_move_targets t = [(q, s). (s, q) \<leftarrow> remote_move_sources t]"

text \<open>One row of the seven-way join.\<close>

record joined =
  j_b :: "sql_baseline option"
  j_l :: "sql_local option"
  j_r :: "sql_remote option"
  j_lms :: "(string \<times> nat) option"
  j_lmt :: "(string \<times> nat) option"
  j_rms :: "string option"
  j_rmt :: "string option"

definition joined_rows :: "sync_tables \<Rightarrow> (string \<times> joined) list" where
  "joined_rows t =
     [(p, \<lparr>j_b = b, j_l = l, j_r = r, j_lms = lms, j_lmt = lmt, j_rms = rms, j_rmt = rmt\<rparr>).
        p \<leftarrow> all_paths t,
        b \<leftarrow> left_join p [(sb_path x, x). x \<leftarrow> st_baseline t],
        l \<leftarrow> left_join p [(sl_path x, x). x \<leftarrow> st_local t],
        r \<leftarrow> left_join p [(sr_path x, x). x \<leftarrow> st_remote t],
        lms \<leftarrow> left_join p (local_move_sources t),
        lmt \<leftarrow> left_join p (local_move_targets t),
        rms \<leftarrow> left_join p (remote_move_sources t),
        rmt \<leftarrow> left_join p (remote_move_targets t)]"

section \<open>The change flags\<close>

definition local_changed :: "sql_baseline option \<Rightarrow> sql_local option \<Rightarrow> bool" where
  "local_changed bo lo \<longleftrightarrow>
     (case (bo, lo) of
        (Some b, Some l) \<Rightarrow>
          (if sb_item_type b \<noteq> sl_item_type l then True
           else if sb_local_has_identity b \<and> sl_local_has_identity l \<and>
                   (sb_local_device b \<noteq> sl_local_device l \<or> sb_local_inode b \<noteq> sl_local_inode l) then True
           else if sb_item_type b = ItemTypeFolder then False
           else if coalesce_text (sb_local_hash b) \<noteq> '''' \<or> coalesce_text (sl_hash l) \<noteq> ''''
                then coalesce_text (sb_local_hash b) \<noteq> coalesce_text (sl_hash l)
           else if coalesce_int (sb_local_size b) \<noteq> coalesce_int (sl_size l) then True
           else if coalesce_int (sb_local_mtime b) \<noteq> coalesce_int (sl_mtime l) then True
           else False)
      | _ \<Rightarrow> False)"

definition remote_changed :: "sql_baseline option \<Rightarrow> sql_remote option \<Rightarrow> bool" where
  "remote_changed bo ro \<longleftrightarrow>
     (case (bo, ro) of
        (Some b, Some r) \<Rightarrow>
          (if sb_item_type b \<noteq> sr_item_type r then True
           else if sb_item_type b = ItemTypeFolder then False
           else if coalesce_text (sb_remote_hash b) \<noteq> '''' \<or> coalesce_text (sr_hash r) \<noteq> ''''
                then coalesce_text (sb_remote_hash b) \<noteq> coalesce_text (sr_hash r)
           else if coalesce_int (sb_remote_size b) \<noteq> coalesce_int (sr_size r) then True
           else if coalesce_int (sb_remote_mtime b) \<noteq> coalesce_int (sr_mtime r) then True
           else if coalesce_text (sb_etag b) \<noteq> coalesce_text (sr_etag r) then True
           else False)
      | _ \<Rightarrow> False)"

definition current_equal :: "sql_local option \<Rightarrow> sql_remote option \<Rightarrow> bool" where
  "current_equal lo ro \<longleftrightarrow>
     (case (lo, ro) of
        (Some l, Some r) \<Rightarrow>
          (if sl_item_type l \<noteq> sr_item_type r then False
           else if sl_item_type l = ItemTypeFolder then True
           else if coalesce_text (sl_hash l) \<noteq> coalesce_text (sr_hash r) then False
           else if coalesce_int (sl_size l) \<noteq> coalesce_int (sr_size r) then False
           else True)
      | _ \<Rightarrow> False)"

definition joined_item_type :: "joined \<Rightarrow> string" where
  "joined_item_type j =
     (case j_b j of Some b \<Rightarrow> item_type_String (sb_item_type b)
      | None \<Rightarrow> (case j_l j of Some l \<Rightarrow> item_type_String (sl_item_type l)
                 | None \<Rightarrow> (case j_r j of Some r \<Rightarrow> item_type_String (sr_item_type r) | None \<Rightarrow> '''')))"

text \<open>\<^verbatim>\<open>COALESCE(lms.candidate_count, lmt.candidate_count, 0)\<close>\<close>

definition candidate_count :: "joined \<Rightarrow> nat" where
  "candidate_count j =
     (case j_lms j of Some (_, n) \<Rightarrow> n
      | None \<Rightarrow> (case j_lmt j of Some (_, n) \<Rightarrow> n | None \<Rightarrow> 0))"

definition text_of :: "string option \<Rightarrow> string" where
  "text_of v = coalesce_text v"

section \<open>The comparison query\<close>

text \<open>The tests \<^verbatim>\<open>comparison_kind\<close> of the first query writes out in place.\<close>

definition cmp_content_equal :: "sql_local \<Rightarrow> sql_remote \<Rightarrow> bool" where
  "cmp_content_equal l r \<longleftrightarrow>
     sl_item_type l = sr_item_type r \<and>
     (sl_item_type l = ItemTypeFolder \<or>
      (coalesce_text (sl_hash l) = coalesce_text (sr_hash r) \<and>
       coalesce_int (sl_size l) = coalesce_int (sr_size r)))"

definition cmp_local_same :: "sql_baseline \<Rightarrow> sql_local \<Rightarrow> bool" where
  "cmp_local_same b l \<longleftrightarrow>
     sb_item_type b = sl_item_type l \<and>
     (\<not> sb_local_has_identity b \<or> \<not> sl_local_has_identity l \<or>
      (sb_local_device b = sl_local_device l \<and> sb_local_inode b = sl_local_inode l)) \<and>
     (sb_item_type b = ItemTypeFolder \<or>
      (coalesce_text (sb_local_hash b) = coalesce_text (sl_hash l) \<and>
       coalesce_int (sb_local_size b) = coalesce_int (sl_size l) \<and>
       coalesce_int (sb_local_mtime b) = coalesce_int (sl_mtime l)))"

definition cmp_remote_same :: "sql_baseline \<Rightarrow> sql_remote \<Rightarrow> bool" where
  "cmp_remote_same b r \<longleftrightarrow>
     sb_item_type b = sr_item_type r \<and>
     (sb_item_type b = ItemTypeFolder \<or>
      (coalesce_text (sb_remote_hash b) = coalesce_text (sr_hash r) \<and>
       coalesce_int (sb_remote_size b) = coalesce_int (sr_size r) \<and>
       coalesce_int (sb_remote_mtime b) = coalesce_int (sr_mtime r) \<and>
       coalesce_text (sb_etag b) = coalesce_text (sr_etag r)))"

definition cmp_remote_differs :: "sql_baseline \<Rightarrow> sql_remote \<Rightarrow> bool" where
  "cmp_remote_differs b r \<longleftrightarrow>
     sb_item_type b \<noteq> sr_item_type r \<or>
     (sb_item_type b \<noteq> ItemTypeFolder \<and>
      (coalesce_text (sb_remote_hash b) \<noteq> coalesce_text (sr_hash r) \<or>
       coalesce_int (sb_remote_size b) \<noteq> coalesce_int (sr_size r) \<or>
       coalesce_int (sb_remote_mtime b) \<noteq> coalesce_int (sr_mtime r) \<or>
       coalesce_text (sb_etag b) \<noteq> coalesce_text (sr_etag r)))"

definition lms_count :: "joined \<Rightarrow> nat" where
  "lms_count j = (case j_lms j of Some (_, n) \<Rightarrow> n | None \<Rightarrow> 0)"

definition comparison_kind_cmp :: "joined \<Rightarrow> comparison_kind" where
  "comparison_kind_cmp j =
     (let b = j_b j; l = j_l j; r = j_r j in
      if b \<noteq> None \<and> l = None \<and> lms_count j = 1 then CLocalMoveSource
      else if b \<noteq> None \<and> l = None \<and> r = None then CBothMissing
      else if l \<noteq> None \<and> b = None \<and>
              (case j_lmt j of Some (s, n) \<Rightarrow> s \<noteq> '''' \<and> n = 1 | None \<Rightarrow> False) then CLocalMoveDest
      else if b \<noteq> None \<and> (case j_rms j of Some q \<Rightarrow> q \<noteq> '''' | None \<Rightarrow> False) then CRemoteMoveSource
      else if r \<noteq> None \<and> b = None \<and> (case j_rmt j of Some s \<Rightarrow> s \<noteq> '''' | None \<Rightarrow> False)
           then CRemoteMoveDest
      else (case (b, l, r) of
              (None, Some l', None) \<Rightarrow> CLocalOnlyCreate
            | (None, None, Some r') \<Rightarrow> CRemoteOnlyCreate
            | (None, Some l', Some r') \<Rightarrow>
                if cmp_content_equal l' r' then CCreateEqual else CCreateConflict
            | (Some b', Some l', Some r') \<Rightarrow>
                if cmp_local_same b' l' \<and> cmp_remote_same b' r' then CUnchanged
                else if cmp_content_equal l' r' \<and> cmp_remote_differs b' r' then CEqualAgain
                else CDiverged
            | (Some b', None, Some r') \<Rightarrow> CLocalMissing
            | (Some b', Some l', None) \<Rightarrow> CRemoteMissing
            | _ \<Rightarrow> CUnknown))"

definition comparison_row_of :: "string \<Rightarrow> joined \<Rightarrow> comparison_row option" where
  "comparison_row_of p j =
     (case ParseItemType (joined_item_type j) of
        None \<Rightarrow> None
      | Some ty \<Rightarrow> Some
          \<lparr>cr_Path = p,
           cr_BaselineItemID = text_of (map_option sb_item_id (j_b j)),
           cr_RemoteItemID = text_of (map_option sr_item_id (j_r j)),
           cr_ItemType = ty,
           cr_BaselinePresent = (j_b j \<noteq> None), cr_LocalPresent = (j_l j \<noteq> None),
           cr_RemotePresent = (j_r j \<noteq> None),
           cr_LocalChanged = local_changed (j_b j) (j_l j),
           cr_RemoteChanged = remote_changed (j_b j) (j_r j),
           cr_CurrentEqual = current_equal (j_l j) (j_r j),
           cr_LocalMoveTarget = text_of (map_option fst (j_lms j)),
           cr_LocalMoveSource = text_of (map_option fst (j_lmt j)),
           cr_LocalMoveCandidateCount = candidate_count j,
           cr_RemoteMoveTarget = text_of (j_rms j), cr_RemoteMoveSource = text_of (j_rmt j),
           cr_ComparisonKind = comparison_kind_cmp j\<rparr>)"

fun collect_options :: "'a option list \<Rightarrow> 'a list option" where
  "collect_options [] = Some []"
| "collect_options (None # xs) = None"
| "collect_options (Some x # xs) = map_option ((#) x) (collect_options xs)"

definition queryComparisonState :: "sync_tables \<Rightarrow> comparison_row list option" where
  "queryComparisonState t = collect_options [comparison_row_of p j. (p, j) \<leftarrow> joined_rows t]"

section \<open>The reconciliation query\<close>

definition comparison_kind_rec :: "joined \<Rightarrow> comparison_kind" where
  "comparison_kind_rec j =
     (let bp = (j_b j \<noteq> None); lp = (j_l j \<noteq> None); rp = (j_r j \<noteq> None);
          lc = local_changed (j_b j) (j_l j); rc = remote_changed (j_b j) (j_r j);
          ce = current_equal (j_l j) (j_r j);
          lmSource = text_of (map_option fst (j_lmt j));
          rmTarget = text_of (j_rms j); rmSource = text_of (j_rmt j)
      in
      if bp \<and> \<not> lp \<and> candidate_count j = 1 then CLocalMoveSource
      else if bp \<and> \<not> lp \<and> \<not> rp then CBothMissing
      else if lp \<and> \<not> bp \<and> lmSource \<noteq> '''' \<and> candidate_count j = 1 then CLocalMoveDest
      else if bp \<and> rmTarget \<noteq> '''' then CRemoteMoveSource
      else if rp \<and> \<not> bp \<and> rmSource \<noteq> '''' then CRemoteMoveDest
      else if \<not> bp \<and> lp \<and> \<not> rp then CLocalOnlyCreate
      else if \<not> bp \<and> \<not> lp \<and> rp then CRemoteOnlyCreate
      else if \<not> bp \<and> lp \<and> rp \<and> ce then CCreateEqual
      else if \<not> bp \<and> lp \<and> rp then CCreateConflict
      else if bp \<and> lp \<and> rp \<and> \<not> lc \<and> \<not> rc then CUnchanged
      else if bp \<and> lp \<and> rp \<and> ce \<and> rc then CEqualAgain
      else if bp \<and> \<not> lp \<and> rp then CLocalMissing
      else if bp \<and> lp \<and> \<not> rp then CRemoteMissing
      else if bp \<and> lp \<and> rp then CDiverged
      else CUnknown)"

definition reconciliation_kind_of ::
  "comparison_kind \<Rightarrow> bool \<Rightarrow> bool \<Rightarrow> bool \<Rightarrow> bool \<Rightarrow> reconciliation_kind" where
  "reconciliation_kind_of k isFolder lc rc ce =
     (if k = CBothMissing then RBaselineRemove
      else if k = CLocalMoveSource then RLocalMove
      else if k = CLocalMoveDest then RLocalMove
      else if k = CRemoteMoveSource then RRemoteMove
      else if k = CRemoteMoveDest then RRemoteMove
      else if k = CLocalOnlyCreate \<and> isFolder then RFolderCreateRemote
      else if k = CLocalOnlyCreate then RUpload
      else if k = CRemoteOnlyCreate \<and> isFolder then RFolderCreateLocal
      else if k = CRemoteOnlyCreate then RDownload
      else if k = CCreateEqual then RBaselineUpdate
      else if k = CCreateConflict then RConflictCreateCreate
      else if k = CUnchanged then RNoop
      else if k = CEqualAgain then RBaselineUpdate
      else if k = CLocalMissing \<and> isFolder \<and> \<not> rc then RFolderCreateLocal
      else if k = CLocalMissing \<and> \<not> rc then RRemoteDelete
      else if k = CLocalMissing \<and> rc then RDownload
      else if k = CRemoteMissing \<and> \<not> lc then RLocalDelete
      else if k = CRemoteMissing \<and> lc then RConflictEditDelete
      else if k = CDiverged \<and> lc \<and> \<not> rc then RUpload
      else if k = CDiverged \<and> \<not> lc \<and> rc then RDownload
      else if k = CDiverged \<and> lc \<and> rc \<and> ce then RBaselineUpdate
      else if k = CDiverged \<and> lc \<and> rc then RConflictEditEdit
      else RNoop)"

definition joined_reconciliation :: "joined \<Rightarrow> reconciliation_kind" where
  "joined_reconciliation j =
     reconciliation_kind_of (comparison_kind_rec j) (joined_item_type j = ''folder'')
       (local_changed (j_b j) (j_l j)) (remote_changed (j_b j) (j_r j)) (current_equal (j_l j) (j_r j))"

definition reconciliation_row_of :: "string \<Rightarrow> joined \<Rightarrow> reconciliation_row option" where
  "reconciliation_row_of p j =
     (case ParseItemType (joined_item_type j) of
        None \<Rightarrow> None
      | Some ty \<Rightarrow> Some
          \<lparr>rc_Path = p, rc_ItemType = ty, rc_ComparisonKind = comparison_kind_rec j,
           rc_ReconciliationKind = joined_reconciliation j,
           rc_LocalMoveTarget = text_of (map_option fst (j_lms j)),
           rc_LocalMoveSource = text_of (map_option fst (j_lmt j)),
           rc_RemoteMoveTarget = text_of (j_rms j), rc_RemoteMoveSource = text_of (j_rmt j)\<rparr>)"

definition queryReconciliationState :: "sync_tables \<Rightarrow> reconciliation_row list option" where
  "queryReconciliationState t = collect_options [reconciliation_row_of p j. (p, j) \<leftarrow> joined_rows t]"

section \<open>Join lemmas\<close>

lemma set_matching: "set (matching k xs) = {v. (k, v) \<in> set xs}"
  by (force simp: matching_def)

lemma matching_Nil: "matching k xs = [] \<longleftrightarrow> k \<notin> fst ` set xs"
  by (force simp: matching_def filter_empty_conv)

lemma left_join_Some [simp]: "Some v \<in> set (left_join k xs) \<longleftrightarrow> (k, v) \<in> set xs"
  using set_matching [of k xs] by (auto simp: left_join_def)

lemma left_join_None [simp]: "None \<in> set (left_join k xs) \<longleftrightarrow> k \<notin> fst ` set xs"
  by (auto simp: left_join_def matching_Nil)

lemma left_join_not_Nil [simp]: "left_join k xs \<noteq> []"
  by (simp add: left_join_def)

lemma collect_options_Some:
  "list_all (\<lambda>x. x \<noteq> None) xs \<Longrightarrow> collect_options xs = Some (map the xs)"
  by (induction xs rule: collect_options.induct) auto

lemma collect_options_set: "collect_options xs = Some ys \<Longrightarrow> y \<in> set ys \<longleftrightarrow> Some y \<in> set xs"
  by (induction xs arbitrary: ys rule: collect_options.induct) auto

lemma all_paths_iff:
  "p \<in> set (all_paths t) \<longleftrightarrow>
     p \<in> sb_path ` set (st_baseline t) \<or> p \<in> sl_path ` set (st_local t) \<or> p \<in> sr_path ` set (st_remote t)"
  by (auto simp: all_paths_def)

text \<open>What a joined row says of the tables, column by column.\<close>

lemma joined_rows_D:
  assumes "(p, j) \<in> set (joined_rows t)"
  shows "p \<in> set (all_paths t)"
    and "j_b j = Some b \<Longrightarrow> b \<in> set (st_baseline t) \<and> sb_path b = p"
    and "j_b j = None \<Longrightarrow> p \<notin> sb_path ` set (st_baseline t)"
    and "j_l j = Some l \<Longrightarrow> l \<in> set (st_local t) \<and> sl_path l = p"
    and "j_l j = None \<Longrightarrow> p \<notin> sl_path ` set (st_local t)"
    and "j_r j = Some r \<Longrightarrow> r \<in> set (st_remote t) \<and> sr_path r = p"
    and "j_r j = None \<Longrightarrow> p \<notin> sr_path ` set (st_remote t)"
    and "j_lms j = Some sm \<Longrightarrow> (p, sm) \<in> set (local_move_sources t)"
    and "j_lms j = None \<Longrightarrow> p \<notin> fst ` set (local_move_sources t)"
    and "j_lmt j = Some tm \<Longrightarrow> (p, tm) \<in> set (local_move_targets t)"
    and "j_rms j = Some q \<Longrightarrow> (p, q) \<in> set (remote_move_sources t)"
    and "j_rmt j = Some s \<Longrightarrow> (p, s) \<in> set (remote_move_targets t)"
proof -
  show "p \<in> set (all_paths t)" using assms by (auto simp: joined_rows_def)
  obtain b' l' r' lms lmt rms rmt where
    j: "j = \<lparr>j_b = b', j_l = l', j_r = r', j_lms = lms, j_lmt = lmt, j_rms = rms, j_rmt = rmt\<rparr>" and
    mem: "b' \<in> set (left_join p [(sb_path x, x). x \<leftarrow> st_baseline t])"
      "l' \<in> set (left_join p [(sl_path x, x). x \<leftarrow> st_local t])"
      "r' \<in> set (left_join p [(sr_path x, x). x \<leftarrow> st_remote t])"
      "lms \<in> set (left_join p (local_move_sources t))"
      "lmt \<in> set (left_join p (local_move_targets t))"
      "rms \<in> set (left_join p (remote_move_sources t))"
      "rmt \<in> set (left_join p (remote_move_targets t))"
    using assms by (auto simp: joined_rows_def)
  from mem show
    "j_b j = Some b \<Longrightarrow> b \<in> set (st_baseline t) \<and> sb_path b = p"
    "j_b j = None \<Longrightarrow> p \<notin> sb_path ` set (st_baseline t)"
    "j_l j = Some l \<Longrightarrow> l \<in> set (st_local t) \<and> sl_path l = p"
    "j_l j = None \<Longrightarrow> p \<notin> sl_path ` set (st_local t)"
    "j_r j = Some r \<Longrightarrow> r \<in> set (st_remote t) \<and> sr_path r = p"
    "j_r j = None \<Longrightarrow> p \<notin> sr_path ` set (st_remote t)"
    "j_lms j = Some sm \<Longrightarrow> (p, sm) \<in> set (local_move_sources t)"
    "j_lms j = None \<Longrightarrow> p \<notin> fst ` set (local_move_sources t)"
    "j_lmt j = Some tm \<Longrightarrow> (p, tm) \<in> set (local_move_targets t)"
    "j_rms j = Some q \<Longrightarrow> (p, q) \<in> set (remote_move_sources t)"
    "j_rmt j = Some s \<Longrightarrow> (p, s) \<in> set (remote_move_targets t)"
    unfolding j by (auto simp: image_image)
qed

section \<open>Move candidates\<close>

lemma local_move_candidates_D:
  assumes "(s, q) \<in> set (local_move_candidates t)"
  shows "s \<in> sb_path ` set (st_baseline t)" "q \<in> sl_path ` set (st_local t)"
    "q \<notin> sb_path ` set (st_baseline t)"
  using assms by (auto simp: local_move_candidates_def in_baseline_def list_ex_iff split: if_splits)

lemma candidate_targets_iff: "q \<in> set (candidate_targets t s) \<longleftrightarrow> (s, q) \<in> set (local_move_candidates t)"
  by (force simp: candidate_targets_def)

lemma local_move_sources_iff:
  "(s, q, n) \<in> set (local_move_sources t) \<longleftrightarrow>
     candidate_targets t s \<noteq> [] \<and> q = min_list (candidate_targets t s) \<and> n = length (candidate_targets t s)"
proof -
  have "s \<in> fst ` set (local_move_candidates t) \<longleftrightarrow> candidate_targets t s \<noteq> []"
    unfolding set_empty [symmetric] ex_in_conv [symmetric] by (force simp: candidate_targets_iff)
  then show ?thesis by (auto simp: local_move_sources_def)
qed

lemma local_move_source_D:
  assumes "(s, q, n) \<in> set (local_move_sources t)"
  shows "(s, q) \<in> set (local_move_candidates t)" "0 < n"
proof -
  have "q \<in> set (candidate_targets t s)"
    using assms min_list_Min [of "candidate_targets t s"] by (auto simp: local_move_sources_iff)
  then show "(s, q) \<in> set (local_move_candidates t)" by (simp add: candidate_targets_iff)
  show "0 < n" using assms by (auto simp: local_move_sources_iff)
qed

lemma joined_rows_present:
  "(p, j) \<in> set (joined_rows t) \<Longrightarrow> j_b j \<noteq> None \<or> j_l j \<noteq> None \<or> j_r j \<noteq> None"
  using joined_rows_D(1,3,5,7) [of p j t] by (metis all_paths_iff)

text \<open>A source of a local move has a baseline row, a target has a local row and no baseline row.\<close>

lemma joined_move_columns:
  assumes "(p, j) \<in> set (joined_rows t)"
  shows "j_lms j \<noteq> None \<Longrightarrow> j_b j \<noteq> None" and "j_lmt j \<noteq> None \<Longrightarrow> j_b j = None \<and> j_l j \<noteq> None"
proof -
  note D = joined_rows_D [OF assms]
  show "j_lms j \<noteq> None \<Longrightarrow> j_b j \<noteq> None"
    using D(3,8) local_move_source_D(1) local_move_candidates_D(1) by (metis option.exhaust prod_cases3 surj_pair)
  assume "j_lmt j \<noteq> None"
  then obtain s n where "(p, s, n) \<in> set (local_move_targets t)" using D(10) by fastforce
  then have "(s, p) \<in> set (local_move_candidates t)"
    by (auto simp: local_move_targets_def dest: local_move_source_D)
  then show "j_b j = None \<and> j_l j \<noteq> None"
    using local_move_candidates_D [of s p t] D(2,5) by (metis image_eqI option.exhaust)
qed

section \<open>Properties of the two queries\<close>

lemma ParseItemType_joined:
  assumes "(p, j) \<in> set (joined_rows t)"
  shows "ParseItemType (joined_item_type j) \<noteq> None"
  using joined_rows_present [OF assms]
  by (auto simp: joined_item_type_def ParseItemType_String split: option.splits)

lemma comparison_row_mem:
  assumes "queryComparisonState t = Some cs" "row \<in> set cs"
  obtains p j where "(p, j) \<in> set (joined_rows t)" "comparison_row_of p j = Some row"
  using assms collect_options_set [of _ cs row] by (force simp: queryComparisonState_def)

lemma reconciliation_row_mem:
  assumes "queryReconciliationState t = Some rs" "row \<in> set rs"
  obtains p j where "(p, j) \<in> set (joined_rows t)" "reconciliation_row_of p j = Some row"
  using assms collect_options_set [of _ rs row] by (force simp: queryReconciliationState_def)

lemma comparison_row_kind:
  "comparison_row_of p j = Some row \<Longrightarrow> cr_Path row = p \<and> cr_ComparisonKind row = comparison_kind_cmp j"
  by (auto simp: comparison_row_of_def split: option.splits)

lemma reconciliation_row_kind:
  "reconciliation_row_of p j = Some row \<Longrightarrow>
     rc_Path row = p \<and> rc_ComparisonKind row = comparison_kind_rec j \<and>
     rc_ReconciliationKind row = joined_reconciliation j"
  by (auto simp: reconciliation_row_of_def split: option.splits)

lemma joined_kind_known:
  assumes "(p, j) \<in> set (joined_rows t)"
  shows "comparison_kind_cmp j \<noteq> CUnknown" "comparison_kind_rec j \<noteq> CUnknown"
  using joined_rows_present [OF assms]
  by (cases "j_b j"; cases "j_l j"; cases "j_r j"; simp add: comparison_kind_cmp_def comparison_kind_rec_def Let_def)+

lemma structural_queries_total:
  "\<exists>cs rs. queryComparisonState t = Some cs \<and> queryReconciliationState t = Some rs \<and>
     length cs = length rs \<and>
     CUnknown \<notin> cr_ComparisonKind ` set cs \<and> CUnknown \<notin> rc_ComparisonKind ` set rs"
proof -
  have c: "list_all (\<lambda>x. x \<noteq> None) [comparison_row_of p j. (p, j) \<leftarrow> joined_rows t]"
    and r: "list_all (\<lambda>x. x \<noteq> None) [reconciliation_row_of p j. (p, j) \<leftarrow> joined_rows t]"
    using ParseItemType_joined
    by (fastforce simp: list_all_iff comparison_row_of_def reconciliation_row_of_def split: option.splits)+
  from collect_options_Some [OF c] collect_options_Some [OF r] obtain cs rs where
    cs: "queryComparisonState t = Some cs" and rs: "queryReconciliationState t = Some rs" and
    len: "length cs = length rs"
    by (simp add: queryComparisonState_def queryReconciliationState_def)
  have "cr_ComparisonKind row \<noteq> CUnknown" if "row \<in> set cs" for row
    using comparison_row_mem [OF cs that] joined_kind_known(1) comparison_row_kind by metis
  moreover have "rc_ComparisonKind row \<noteq> CUnknown" if "row \<in> set rs" for row
    using reconciliation_row_mem [OF rs that] joined_kind_known(2) reconciliation_row_kind by metis
  ultimately show ?thesis using cs rs len by (metis imageE)
qed

text \<open>
  Both structural queries always succeed: on any contents of the three tables every
  joined row carries a parseable item type, so neither query returns an error, and every
  row is classified, none falls through to the unknown kind.
\<close>

theorem queries_total:
  "\<exists>cs rs. queryComparisonState t = Some cs \<and> queryReconciliationState t = Some rs \<and>
     length cs = length rs \<and>
     CUnknown \<notin> cr_ComparisonKind ` set cs \<and> CUnknown \<notin> rc_ComparisonKind ` set rs"
  by (rule structural_queries_total)

text \<open>The kinds of both queries, with the local columns read as in the code.\<close>

lemmas kind_defs = comparison_kind_cmp_def comparison_kind_rec_def Let_def candidate_count_def
  lms_count_def text_of_def coalesce_text_def

text \<open>
  The comparison query and the reconciliation query define the comparison kind twice, in
  different words. On every row of every database they give the same kind, except that
  they may choose differently among \<^verbatim>\<open>unchanged\<close>, \<^verbatim>\<open>equal_again\<close> and
  \<^verbatim>\<open>diverged\<close>. In particular they agree on every move kind, which the planner reads from
  both.
\<close>

theorem comparison_kinds_agree:
  "list_all (\<lambda>(p, j). comparison_kind_cmp j = comparison_kind_rec j \<or>
      {comparison_kind_cmp j, comparison_kind_rec j} \<subseteq> {CUnchanged, CEqualAgain, CDiverged}) (joined_rows t)"
proof -
  have "comparison_kind_cmp j = comparison_kind_rec j \<or>
      {comparison_kind_cmp j, comparison_kind_rec j} \<subseteq> {CUnchanged, CEqualAgain, CDiverged}"
    if "(p, j) \<in> set (joined_rows t)" for p j
  proof -
    note cols = joined_move_columns [OF that]
    have eq: "cmp_content_equal l r = current_equal (Some l) (Some r)" for l r
      by (simp add: cmp_content_equal_def current_equal_def)
    show ?thesis using cols
      by (cases "j_b j"; cases "j_l j"; cases "j_r j"; cases "j_lms j"; cases "j_lmt j"; cases "j_rms j"; cases "j_rmt j")
         (simp_all add: kind_defs eq split_beta)
  qed
  then show ?thesis by (auto simp: list_all_iff)
qed

text \<open>The preconditions under which a row may ask for each destructive or overwriting action.\<close>

definition local_row_at :: "sync_tables \<Rightarrow> string \<Rightarrow> sql_local option" where
  "local_row_at t p = find (\<lambda>l. sl_path l = p) (st_local t)"

definition remote_row_at :: "sync_tables \<Rightarrow> string \<Rightarrow> sql_remote option" where
  "remote_row_at t p = find (\<lambda>r. sr_path r = p) (st_remote t)"

definition baseline_row_at :: "sync_tables \<Rightarrow> string \<Rightarrow> sql_baseline option" where
  "baseline_row_at t p = find (\<lambda>b. sb_path b = p) (st_baseline t)"

definition unique_paths :: "sync_tables \<Rightarrow> bool" where
  "unique_paths t \<longleftrightarrow>
     distinct (map sb_path (st_baseline t)) \<and> distinct (map sl_path (st_local t)) \<and>
     distinct (map sr_path (st_remote t))"

lemma find_unique_key:
  assumes "distinct (map f xs)" "x \<in> set xs"
  shows "find (\<lambda>y. f y = f x) xs = Some x"
  using assms by (induction xs) auto

lemma find_absent_key: "k \<notin> f ` set xs \<Longrightarrow> find (\<lambda>y. f y = k) xs = None"
  by (induction xs) auto

lemma joined_rows_at:
  assumes "unique_paths t" "(p, j) \<in> set (joined_rows t)"
  shows "j_b j = baseline_row_at t p" "j_l j = local_row_at t p" "j_r j = remote_row_at t p"
proof -
  note D = joined_rows_D [OF assms(2)]
  show "j_b j = baseline_row_at t p"
    using D(2,3) assms(1) find_unique_key [of sb_path "st_baseline t"] find_absent_key [of p sb_path "st_baseline t"]
    by (cases "j_b j") (auto simp: baseline_row_at_def unique_paths_def)
  show "j_l j = local_row_at t p"
    using D(4,5) assms(1) find_unique_key [of sl_path "st_local t"] find_absent_key [of p sl_path "st_local t"]
    by (cases "j_l j") (auto simp: local_row_at_def unique_paths_def)
  show "j_r j = remote_row_at t p"
    using D(6,7) assms(1) find_unique_key [of sr_path "st_remote t"] find_absent_key [of p sr_path "st_remote t"]
    by (cases "j_r j") (auto simp: remote_row_at_def unique_paths_def)
qed

definition row_safe :: "sync_tables \<Rightarrow> reconciliation_row \<Rightarrow> bool" where
  "row_safe t row =
     (let p = rc_Path row; b = baseline_row_at t p; l = local_row_at t p; r = remote_row_at t p in
      case rc_ReconciliationKind row of
        RLocalDelete \<Rightarrow> b \<noteq> None \<and> l \<noteq> None \<and> r = None \<and> \<not> local_changed b l
      | RRemoteDelete \<Rightarrow> b \<noteq> None \<and> l = None \<and> r \<noteq> None \<and> \<not> remote_changed b r
      | RDownload \<Rightarrow> r \<noteq> None \<and> (l = None \<or> b \<noteq> None \<and> \<not> local_changed b l)
      | RUpload \<Rightarrow> l \<noteq> None \<and> (r = None \<or> b \<noteq> None \<and> \<not> remote_changed b r)
      | RFolderCreateLocal \<Rightarrow> l = None \<and> r \<noteq> None
      | RFolderCreateRemote \<Rightarrow> l \<noteq> None \<and> r = None
      | RBaselineRemove \<Rightarrow> b \<noteq> None \<and> l = None \<and> r = None
      | RBaselineUpdate \<Rightarrow> current_equal l r
      | RConflictCreateCreate \<Rightarrow> b = None \<and> l \<noteq> None \<and> r \<noteq> None \<and> \<not> current_equal l r
      | RConflictEditDelete \<Rightarrow> l \<noteq> None \<and> r = None \<and> local_changed b l
      | RConflictEditEdit \<Rightarrow> l \<noteq> None \<and> r \<noteq> None \<and> local_changed b l \<and> remote_changed b r \<and> \<not> current_equal l r
      | _ \<Rightarrow> True)"

definition kind_columns :: "joined \<Rightarrow> comparison_kind \<Rightarrow> bool" where
  "kind_columns j k =
     (case k of
        CBothMissing \<Rightarrow> j_b j \<noteq> None \<and> j_l j = None \<and> j_r j = None
      | CLocalOnlyCreate \<Rightarrow> j_b j = None \<and> j_l j \<noteq> None \<and> j_r j = None
      | CRemoteOnlyCreate \<Rightarrow> j_b j = None \<and> j_l j = None \<and> j_r j \<noteq> None
      | CCreateEqual \<Rightarrow> j_b j = None \<and> current_equal (j_l j) (j_r j)
      | CCreateConflict \<Rightarrow> j_b j = None \<and> j_l j \<noteq> None \<and> j_r j \<noteq> None \<and> \<not> current_equal (j_l j) (j_r j)
      | CUnchanged \<Rightarrow> \<not> local_changed (j_b j) (j_l j) \<and> \<not> remote_changed (j_b j) (j_r j)
      | CEqualAgain \<Rightarrow> current_equal (j_l j) (j_r j)
      | CLocalMissing \<Rightarrow> j_b j \<noteq> None \<and> j_l j = None \<and> j_r j \<noteq> None
      | CRemoteMissing \<Rightarrow> j_b j \<noteq> None \<and> j_l j \<noteq> None \<and> j_r j = None
      | CDiverged \<Rightarrow> j_b j \<noteq> None \<and> j_l j \<noteq> None \<and> j_r j \<noteq> None
      | _ \<Rightarrow> True)"

lemma comparison_kind_rec_columns: "kind_columns j (comparison_kind_rec j)"
  by (simp add: comparison_kind_rec_def Let_def kind_columns_def)

lemma reconciliation_rows_safe:
  assumes "unique_paths t" "queryReconciliationState t = Some rs"
  shows "list_all (row_safe t) rs"
proof -
  have "row_safe t row" if row: "row \<in> set rs" for row
  proof -
    obtain p j where j: "(p, j) \<in> set (joined_rows t)" "reconciliation_row_of p j = Some row"
      using reconciliation_row_mem [OF assms(2) row] .
    have k: "rc_Path row = p" "rc_ReconciliationKind row = joined_reconciliation j"
      using reconciliation_row_kind [OF j(2)] by simp_all
    show ?thesis
      unfolding row_safe_def k joined_rows_at [OF assms(1) j(1), symmetric] Let_def
      using comparison_kind_rec_columns [of j]
      by (cases "comparison_kind_rec j")
         (auto simp: joined_reconciliation_def reconciliation_kind_of_def kind_columns_def)
  qed
  then show ?thesis by (simp add: list_all_iff)
qed


text \<open>
  The tables after a completed sync: every path has a baseline row, an unchanged local row
  and an unchanged remote row of the same item, and item ids are unique (the primary key).
\<close>

definition path_converged :: "sync_tables \<Rightarrow> string \<Rightarrow> bool" where
  "path_converged t p =
     (case (baseline_row_at t p, local_row_at t p, remote_row_at t p) of
        (Some b, Some l, Some r) \<Rightarrow>
          sb_item_id b = sr_item_id r \<and> \<not> local_changed (Some b) (Some l) \<and> \<not> remote_changed (Some b) (Some r)
      | _ \<Rightarrow> False)"

definition converged :: "sync_tables \<Rightarrow> bool" where
  "converged t \<longleftrightarrow> unique_paths t \<and> distinct (map sr_item_id (st_remote t)) \<and>
     list_all (path_converged t) (all_paths t)"

lemma converged_no_remote_move:
  assumes "converged t"
  shows "remote_move_sources t = []"
proof (rule ccontr)
  assume "remote_move_sources t \<noteq> []"
  then obtain b r where m: "b \<in> set (st_baseline t)" "r \<in> set (st_remote t)"
    "sr_item_id r = sb_item_id b" "sr_path r \<noteq> sb_path b"
    by (auto simp: remote_move_sources_def)
  have "sb_path b \<in> set (all_paths t)" using m(1) by (auto simp: all_paths_iff)
  then have "path_converged t (sb_path b)" using assms by (auto simp: converged_def list_all_iff)
  moreover have "baseline_row_at t (sb_path b) = Some b"
    using assms m(1) find_unique_key [of sb_path "st_baseline t" b]
    by (simp add: converged_def unique_paths_def baseline_row_at_def)
  ultimately obtain r' where r': "remote_row_at t (sb_path b) = Some r'" "sr_item_id r' = sb_item_id b"
    by (auto simp: path_converged_def split: option.splits)
  then have "r' \<in> set (st_remote t)" "sr_path r' = sb_path b"
    by (auto simp: remote_row_at_def find_Some_iff)
  with m r'(2) assms show False
    by (auto simp: converged_def distinct_map inj_on_def)
qed

text \<open>
  A converged database is a fixed point: the reconciliation query asks for nothing on any
  row. The move detection finds no false move there, whatever identities and hashes the
  files share.
\<close>

theorem converged_noop:
  assumes "converged t" "queryReconciliationState t = Some rs"
  shows "list_all (\<lambda>row. rc_ReconciliationKind row = RNoop) rs"
proof -
  have "rc_ReconciliationKind row = RNoop" if row: "row \<in> set rs" for row
  proof -
    have u: "unique_paths t" using assms(1) by (simp add: converged_def)
    obtain p j where j: "(p, j) \<in> set (joined_rows t)" "reconciliation_row_of p j = Some row"
      using reconciliation_row_mem [OF assms(2) row] .
    have "path_converged t p"
      using joined_rows_D(1) [OF j(1)] assms(1) by (simp add: converged_def list_all_iff)
    then obtain b l r where cols: "j_b j = Some b" "j_l j = Some l" "j_r j = Some r"
      "\<not> local_changed (j_b j) (j_l j)" "\<not> remote_changed (j_b j) (j_r j)"
      by (auto simp: path_converged_def joined_rows_at [OF u j(1)] split: option.splits)
    have "j_rms j = None"
      using joined_rows_D(11) [OF j(1)] converged_no_remote_move [OF assms(1)] by (cases "j_rms j") auto
    with cols have "joined_reconciliation j = RNoop"
      by (simp add: joined_reconciliation_def comparison_kind_rec_def reconciliation_kind_of_def
          text_of_def coalesce_text_def)
    then show ?thesis using reconciliation_row_kind [OF j(2)] by simp
  qed
  then show ?thesis by (simp add: list_all_iff)
qed

section \<open>Concrete databases\<close>

definition file_b :: "string \<Rightarrow> string \<Rightarrow> string \<Rightarrow> nat \<Rightarrow> sql_baseline" where
  "file_b i p h ino =
     \<lparr>sb_item_id = i, sb_path = p, sb_parent_id = Some ''root'', sb_item_type = ItemTypeFile,
      sb_local_hash = Some h, sb_remote_hash = Some h, sb_local_size = Some 3, sb_remote_size = Some 3,
      sb_local_mtime = Some 7, sb_remote_mtime = Some 7, sb_local_device = 1, sb_local_inode = ino,
      sb_local_has_identity = True, sb_etag = Some ''e''\<rparr>"

definition file_l :: "string \<Rightarrow> string \<Rightarrow> nat \<Rightarrow> sql_local" where
  "file_l p h ino =
     \<lparr>sl_path = p, sl_item_type = ItemTypeFile, sl_hash = Some h, sl_size = Some 3, sl_mtime = Some 7,
      sl_local_device = 1, sl_local_inode = ino, sl_local_has_identity = True\<rparr>"

definition file_r :: "string \<Rightarrow> string \<Rightarrow> string \<Rightarrow> sql_remote" where
  "file_r i p h =
     \<lparr>sr_drive_id = ''d'', sr_item_id = i, sr_path = p, sr_item_type = ItemTypeFile, sr_hash = Some h,
      sr_size = Some 3, sr_mtime = Some 7, sr_etag = Some ''e''\<rparr>"

definition synced_db :: sync_tables where
  "synced_db = \<lparr>st_baseline = [file_b ''i1'' ''a'' ''h'' 10, file_b ''i2'' ''b'' ''h'' 11],
                st_local = [file_l ''a'' ''h'' 10, file_l ''b'' ''h'' 11],
                st_remote = [file_r ''i1'' ''a'' ''h'', file_r ''i2'' ''b'' ''h'']\<rparr>"

text \<open>The same database after the file \<^verbatim>\<open>a\<close> was deleted locally and \<^verbatim>\<open>b\<close> changed remotely.\<close>

definition edited_db :: sync_tables where
  "edited_db = synced_db\<lparr>st_local := [file_l ''b'' ''h'' 11],
                         st_remote := [file_r ''i1'' ''a'' ''h'', file_r ''i2'' ''b'' ''h2'']\<rparr>"

text \<open>\<^verbatim>\<open>a\<close> is synced; \<^verbatim>\<open>c\<close> is a second hard link to it, made since the last sync.\<close>

definition linked_db :: sync_tables where
  "linked_db = \<lparr>st_baseline = [file_b ''i1'' ''a'' ''h'' 10],
                st_local = [file_l ''a'' ''h'' 10, file_l ''c'' ''h'' 10],
                st_remote = [file_r ''i1'' ''a'' ''h'']\<rparr>"

lemma edited_db_rows:
  "map_option (map (\<lambda>row. (rc_Path row, rc_ReconciliationKind row))) (queryReconciliationState edited_db) =
     Some [(''a'', RRemoteDelete), (''b'', RDownload)]"
  by code_simp

lemma edited_db_unique: "unique_paths edited_db"
  by code_simp


theorem converged_noop_witness:
  "converged synced_db \<and>
   map_option (map rc_ReconciliationKind) (queryReconciliationState synced_db) = Some [RNoop, RNoop]"
proof -
  have c: "converged synced_db" by code_simp
  have "queryReconciliationState synced_db \<noteq> None \<and> length (the (queryReconciliationState synced_db)) = 2"
    by code_simp
  then obtain r1 r2 where "queryReconciliationState synced_db = Some [r1, r2]"
    by (auto simp: length_Suc_conv numeral_2_eq_2)
  with converged_noop [OF c, of "[r1, r2]"] c show ?thesis by simp
qed


end
