(* ===== verification/TruthStatus.thy ===== *)
theory TruthStatus
  imports SyncTypes
begin

text \<open>
  Availability of the current truth (\<^verbatim>\<open>truth_status.go\<close>): from the rows of
  \<^verbatim>\<open>observation_issues\<close> it is decided, per path and side, whether what the observers saw may
  be interpreted as structure. A subtree that could not be read makes its whole subtree
  unavailable, so that "not seen" is not taken for "deleted".
\<close>

section \<open>The index\<close>

record truth_index =
  ti_observationByPath :: "string \<rightharpoonup> observation_issue_row"
  ti_localReadBoundaries :: "observation_issue_row list"
  ti_remoteReadBoundaries :: "observation_issue_row list"

definition observationIssueBlocksLocalTruth :: "string \<Rightarrow> bool" where
  "observationIssueBlocksLocalTruth issueType \<longleftrightarrow>
     issueType \<in> {IssueInvalidFilename, IssuePathTooLong, IssueFileTooLarge, IssueCaseCollision,
                  IssueHashPanic, IssueLocalReadDenied}"

definition observationIssueBlocksRemoteTruth :: "string \<Rightarrow> bool" where
  "observationIssueBlocksRemoteTruth issueType \<longleftrightarrow> issueType = IssueRemoteReadDenied"

definition observationIssueBlocksTruth :: "string \<Rightarrow> bool" where
  "observationIssueBlocksTruth issueType \<longleftrightarrow>
     observationIssueBlocksLocalTruth issueType \<or> observationIssueBlocksRemoteTruth issueType"

definition truthBlockingObservationByPath ::
  "observation_issue_row list \<Rightarrow> (string \<rightharpoonup> observation_issue_row)" where
  "truthBlockingObservationByPath issues =
     index_by oi_Path (filter (\<lambda>i. observationIssueBlocksTruth (oi_IssueType i)) issues)"

definition truthReadBoundaryIssues ::
  "observation_issue_row list \<Rightarrow> bool \<Rightarrow> observation_issue_row list" where
  "truthReadBoundaryIssues issues isLocal =
     filter (\<lambda>i. if isLocal then sk_IsPermLocalRead (oi_ScopeKey i) else sk_IsPermRemoteRead (oi_ScopeKey i))
       issues"

definition NewTruthAvailabilityIndex :: "observation_issue_row list \<Rightarrow> truth_index" where
  "NewTruthAvailabilityIndex issues =
     \<lparr>ti_observationByPath = truthBlockingObservationByPath issues,
      ti_localReadBoundaries = truthReadBoundaryIssues issues True,
      ti_remoteReadBoundaries = truthReadBoundaryIssues issues False\<rparr>"

section \<open>Status of a path\<close>

text \<open>
  The loop over the boundaries keeps the best row so far; a later row replaces it only when
  its covered path is strictly longer. \<^verbatim>\<open>bestLen = -1\<close> is \<open>None\<close>.
\<close>

fun most_specific_loop ::
  "string \<Rightarrow> observation_issue_row option \<Rightarrow> observation_issue_row list \<Rightarrow> observation_issue_row option" where
  "most_specific_loop path best [] = best"
| "most_specific_loop path best (b # bs) =
     (let scopePath = sk_CoveredPath (oi_ScopeKey b) in
      if \<not> scopePathMatches path scopePath then most_specific_loop path best bs
      else (case best of
              None \<Rightarrow> most_specific_loop path (Some b) bs
            | Some c \<Rightarrow> if length scopePath > length (sk_CoveredPath (oi_ScopeKey c))
                        then most_specific_loop path (Some b) bs
                        else most_specific_loop path best bs))"

definition mostSpecificObservationReadBoundary ::
  "string \<Rightarrow> observation_issue_row list \<Rightarrow> observation_issue_row option" where
  "mostSpecificObservationReadBoundary path boundaries = most_specific_loop path None boundaries"

definition availablePathTruthSideStatus :: path_truth_side_status where
  "availablePathTruthSideStatus =
     \<lparr>pts_Availability = TruthAvailabilityAvailable, pts_Source = PathTruthSourceNone,
      pts_IssueType = '''', pts_ScopeKey = zero_scope_key\<rparr>"

definition blocked_side :: "observation_issue_row \<Rightarrow> path_truth_side_status" where
  "blocked_side i =
     \<lparr>pts_Availability = TruthAvailabilityBlockedObservationIssue,
      pts_Source = PathTruthSourceObservationIssue,
      pts_IssueType = oi_IssueType i, pts_ScopeKey = oi_ScopeKey i\<rparr>"

definition pathTruthStatusForPath ::
  "string \<Rightarrow> (string \<rightharpoonup> observation_issue_row) \<Rightarrow> observation_issue_row list \<Rightarrow>
   observation_issue_row list \<Rightarrow> path_truth_status" where
  "pathTruthStatusForPath path byPath localBs remoteBs =
     (let issue = byPath path;
          lb = mostSpecificObservationReadBoundary path localBs;
          rb = mostSpecificObservationReadBoundary path remoteBs
      in \<lparr>pt_Local =
            (case lb of Some b \<Rightarrow> blocked_side b
             | None \<Rightarrow> (case issue of
                 Some i \<Rightarrow> if observationIssueBlocksLocalTruth (oi_IssueType i) then blocked_side i
                           else availablePathTruthSideStatus
               | None \<Rightarrow> availablePathTruthSideStatus)),
          pt_Remote =
            (case rb of Some b \<Rightarrow> blocked_side b
             | None \<Rightarrow> (case issue of
                 Some i \<Rightarrow> if observationIssueBlocksRemoteTruth (oi_IssueType i) then blocked_side i
                           else availablePathTruthSideStatus
               | None \<Rightarrow> availablePathTruthSideStatus))\<rparr>)"

definition StatusForPath :: "truth_index \<Rightarrow> string \<Rightarrow> path_truth_status" where
  "StatusForPath index path =
     pathTruthStatusForPath path (ti_observationByPath index) (ti_localReadBoundaries index)
       (ti_remoteReadBoundaries index)"

definition StatusByPath :: "truth_index \<Rightarrow> string list \<Rightarrow> (string \<rightharpoonup> path_truth_status)" where
  "StatusByPath index paths = fold (\<lambda>p m. m(p \<mapsto> StatusForPath index p)) paths Map.empty"

definition plannerSuppressesUnavailableTruth :: "path_truth_status option \<Rightarrow> bool" where
  "plannerSuppressesUnavailableTruth status = SuppressesStructuralActions status"

section \<open>Lemmas\<close>

lemma StatusByPath_apply: "StatusByPath index paths p = (if p \<in> set paths then Some (StatusForPath index p) else None)"
proof -
  have "fold (\<lambda>p m. m(p \<mapsto> StatusForPath index p)) paths m p =
          (if p \<in> set paths then Some (StatusForPath index p) else m p)" for m
    by (induction paths arbitrary: m) auto
  then show ?thesis by (simp add: StatusByPath_def)
qed

lemma side_IsAvailable_simps [simp]:
  "side_IsAvailable availablePathTruthSideStatus" "\<not> side_IsAvailable (blocked_side i)"
  by (simp_all add: side_IsAvailable_def availablePathTruthSideStatus_def blocked_side_def)

lemma most_specific_loop_best: "best \<noteq> None \<Longrightarrow> most_specific_loop path best bs \<noteq> None"
  by (induction bs arbitrary: best) (auto simp: Let_def split: option.splits)

lemma most_specific_loop_None:
  "most_specific_loop path None bs = None \<longleftrightarrow>
     list_all (\<lambda>b. \<not> scopePathMatches path (sk_CoveredPath (oi_ScopeKey b))) bs"
  by (induction bs) (auto simp: Let_def most_specific_loop_best)

lemma most_specific_loop_Some:
  assumes "most_specific_loop path best bs = Some r"
  shows "best = Some r \<or> r \<in> set bs \<and> scopePathMatches path (sk_CoveredPath (oi_ScopeKey r))"
  using assms by (induction bs arbitrary: best) (fastforce simp: Let_def split: if_splits option.splits)+

abbreviation covered_length :: "observation_issue_row \<Rightarrow> nat" where
  "covered_length b \<equiv> length (sk_CoveredPath (oi_ScopeKey b))"

lemma most_specific_loop_max:
  assumes "most_specific_loop path best bs = Some r"
  shows "(\<forall>c. best = Some c \<longrightarrow> covered_length c \<le> covered_length r) \<and>
         (\<forall>c \<in> set bs. scopePathMatches path (sk_CoveredPath (oi_ScopeKey c)) \<longrightarrow> covered_length c \<le> covered_length r)"
  using assms
proof (induction bs arbitrary: best)
  case Nil
  then show ?case by simp
next
  case (Cons b bs)
  show ?case
  proof (cases "scopePathMatches path (sk_CoveredPath (oi_ScopeKey b)) \<and>
                (\<forall>c. best = Some c \<longrightarrow> covered_length c < covered_length b)")
    case True
    then have "most_specific_loop path (Some b) bs = Some r"
      using Cons.prems by (auto simp: Let_def split: option.splits)
    from Cons.IH [OF this] True show ?thesis by fastforce
  next
    case False
    then have "most_specific_loop path best bs = Some r"
      using Cons.prems by (auto simp: Let_def split: option.splits if_splits)
    from Cons.IH [OF this] False show ?thesis by fastforce
  qed
qed

lemma boundary_None:
  "mostSpecificObservationReadBoundary path bs = None \<longleftrightarrow>
     list_all (\<lambda>b. \<not> scopePathMatches path (sk_CoveredPath (oi_ScopeKey b))) bs"
  by (simp add: mostSpecificObservationReadBoundary_def most_specific_loop_None)

section \<open>Properties\<close>

text \<open>
  The specification: a side is unavailable exactly when a read boundary of that side covers
  the path, or the last blocking issue recorded for the path itself blocks that side.
\<close>

definition side_blocked ::
  "(scope_key \<Rightarrow> bool) \<Rightarrow> (string \<Rightarrow> bool) \<Rightarrow> observation_issue_row list \<Rightarrow> string \<Rightarrow> bool" where
  "side_blocked isRead blocks issues p \<longleftrightarrow>
     list_ex (\<lambda>i. isRead (oi_ScopeKey i) \<and> scopePathMatches p (sk_CoveredPath (oi_ScopeKey i))) issues \<or>
     (case filter (\<lambda>i. oi_Path i = p \<and> observationIssueBlocksTruth (oi_IssueType i)) issues of
        [] \<Rightarrow> False | is \<Rightarrow> blocks (oi_IssueType (last is)))"

lemma index_by_last:
  "index_by key xs k = (case filter (\<lambda>x. key x = k) xs of [] \<Rightarrow> None | ys \<Rightarrow> Some (last ys))"
  by (induction xs rule: rev_induct) (auto split: list.splits)

lemma side_available_iff:
  "(\<not> side_IsAvailable (pt_Local (StatusForPath (NewTruthAvailabilityIndex issues) p)) \<longleftrightarrow>
      side_blocked sk_IsPermLocalRead observationIssueBlocksLocalTruth issues p) \<and>
   (\<not> side_IsAvailable (pt_Remote (StatusForPath (NewTruthAvailabilityIndex issues) p)) \<longleftrightarrow>
      side_blocked sk_IsPermRemoteRead observationIssueBlocksRemoteTruth issues p)"
proof -
  have b: "mostSpecificObservationReadBoundary p (filter P issues) = None \<longleftrightarrow>
      \<not> list_ex (\<lambda>i. P i \<and> scopePathMatches p (sk_CoveredPath (oi_ScopeKey i))) issues" for P
    by (auto simp: boundary_None list_all_iff list_ex_iff)
  have i: "truthBlockingObservationByPath issues p =
      (case filter (\<lambda>i. oi_Path i = p \<and> observationIssueBlocksTruth (oi_IssueType i)) issues of
         [] \<Rightarrow> None | is \<Rightarrow> Some (last is))"
    by (simp add: truthBlockingObservationByPath_def index_by_last conj_commute)
  show ?thesis
    using b [of "\<lambda>i. sk_IsPermLocalRead (oi_ScopeKey i)"] b [of "\<lambda>i. sk_IsPermRemoteRead (oi_ScopeKey i)"]
    by (auto simp: StatusForPath_def NewTruthAvailabilityIndex_def pathTruthStatusForPath_def Let_def
        truthReadBoundaryIssues_def i side_blocked_def split: option.splits list.splits)
qed

text \<open>
  The status of a path is exactly the specification: the local (remote) side is unavailable
  if and only if a local (remote) read-denied boundary covers the path or one of its
  ancestors, or the path's own last blocking observation issue blocks that side.
\<close>

theorem StatusForPath_spec:
  "(\<not> side_IsAvailable (pt_Local (StatusForPath (NewTruthAvailabilityIndex issues) p)) \<longleftrightarrow>
      side_blocked sk_IsPermLocalRead observationIssueBlocksLocalTruth issues p) \<and>
   (\<not> side_IsAvailable (pt_Remote (StatusForPath (NewTruthAvailabilityIndex issues) p)) \<longleftrightarrow>
      side_blocked sk_IsPermRemoteRead observationIssueBlocksRemoteTruth issues p)"
  by (rule side_available_iff)

text \<open>
  An unreadable folder hides its whole subtree: when a path's side is unavailable because of a
  read boundary at a folder, every path below that folder is unavailable too, and the planner
  suppresses all structural actions there.
\<close>

theorem boundary_covers_subtree:
  assumes "i \<in> set issues" "sk_IsPermLocalRead (oi_ScopeKey i) \<or> sk_IsPermRemoteRead (oi_ScopeKey i)"
    and "below p (sk_CoveredPath (oi_ScopeKey i)) \<or> p = sk_CoveredPath (oi_ScopeKey i)"
  shows "plannerSuppressesUnavailableTruth (Some (StatusForPath (NewTruthAvailabilityIndex issues) p))"
proof -
  have m: "scopePathMatches p (sk_CoveredPath (oi_ScopeKey i))"
    using assms(3) by (auto simp: scopePathMatches_def)
  have "side_blocked sk_IsPermLocalRead observationIssueBlocksLocalTruth issues p \<or>
        side_blocked sk_IsPermRemoteRead observationIssueBlocksRemoteTruth issues p"
    using assms(1,2) m by (auto simp: side_blocked_def list_ex_iff)
  then show ?thesis
    using side_available_iff [of issues p]
    by (auto simp: plannerSuppressesUnavailableTruth_def SuppressesStructuralActions_def)
qed

definition denied_folder :: observation_issue_row where
  "denied_folder = \<lparr>oi_Path = ''docs'', oi_DriveID = zero_id, oi_IssueType = IssueLocalReadDenied,
                    oi_ScopeKey = SKPermLocalRead ''docs''\<rparr>"

theorem boundary_covers_subtree_witness:
  "plannerSuppressesUnavailableTruth
     (Some (StatusForPath (NewTruthAvailabilityIndex [denied_folder]) ''docs/a/b.txt'')) \<and>
   \<not> plannerSuppressesUnavailableTruth
     (Some (StatusForPath (NewTruthAvailabilityIndex [denied_folder]) ''docs2''))"
proof
  have "denied_folder \<in> set [denied_folder]" by simp
  moreover have "sk_IsPermLocalRead (oi_ScopeKey denied_folder)" by code_simp
  moreover have "below ''docs/a/b.txt'' (sk_CoveredPath (oi_ScopeKey denied_folder))" by code_simp
  ultimately show "plannerSuppressesUnavailableTruth
     (Some (StatusForPath (NewTruthAvailabilityIndex [denied_folder]) ''docs/a/b.txt''))"
    using boundary_covers_subtree [of denied_folder "[denied_folder]" "''docs/a/b.txt''"] by blast
  show "\<not> plannerSuppressesUnavailableTruth
     (Some (StatusForPath (NewTruthAvailabilityIndex [denied_folder]) ''docs2''))" by code_simp
qed

text \<open>The reported boundary is one that covers the path, and no covering boundary is deeper.\<close>

lemma boundary_most_specific:
  assumes "mostSpecificObservationReadBoundary p bs = Some r"
  shows "r \<in> set bs \<and> scopePathMatches p (sk_CoveredPath (oi_ScopeKey r)) \<and>
         (\<forall>c \<in> set bs. scopePathMatches p (sk_CoveredPath (oi_ScopeKey c)) \<longrightarrow> covered_length c \<le> covered_length r)"
  using assms most_specific_loop_Some [of p None bs r] most_specific_loop_max [of p None bs r]
  by (auto simp: mostSpecificObservationReadBoundary_def)

end
