(* ===== verification/BaselineIndex.thy ===== *)
theory BaselineIndex
  imports StoreRows
begin

text \<open>
  The in-memory baseline (\<^verbatim>\<open>Baseline\<close> of \<^verbatim>\<open>core_types.go\<close>): three maps over the same
  entries, by path, by item id and by (directory, lower-case name). The operations run under
  the lock of the baseline, one at a time, so each is a function on the record; an absent key
  of \<^verbatim>\<open>ByDirLower\<close> reads as the empty slice. Iteration over a Go map has no fixed order: the
  order is an argument of the functions that iterate.
\<close>

section \<open>Model\<close>

record dir_lower_key =
  dl_Dir :: string
  dl_LowName :: string

definition DirLowerKeyFromPath :: "string \<Rightarrow> dir_lower_key" where
  "DirLowerKeyFromPath p = \<lparr>dl_Dir = path_dir p, dl_LowName = to_lower (path_base p)\<rparr>"

record baseline =
  bl_ByPath :: "string \<rightharpoonup> baseline_entry"
  bl_ByID :: "string \<rightharpoonup> baseline_entry"
  bl_ByDirLower :: "dir_lower_key \<rightharpoonup> baseline_entry list"

definition empty_baseline :: baseline where
  "empty_baseline = \<lparr>bl_ByPath = Map.empty, bl_ByID = Map.empty, bl_ByDirLower = Map.empty\<rparr>"

definition bl_GetByPath :: "baseline \<Rightarrow> string \<Rightarrow> baseline_entry option" where
  "bl_GetByPath b p = bl_ByPath b p"

definition bl_GetByID :: "baseline \<Rightarrow> string \<Rightarrow> baseline_entry option" where
  "bl_GetByID b i = bl_ByID b i"

definition dir_slice :: "baseline \<Rightarrow> dir_lower_key \<Rightarrow> baseline_entry list" where
  "dir_slice b k = (case bl_ByDirLower b k of None \<Rightarrow> [] | Some es \<Rightarrow> es)"

definition bl_GetCaseVariants :: "baseline \<Rightarrow> string \<Rightarrow> string \<Rightarrow> baseline_entry list" where
  "bl_GetCaseVariants b dir name = dir_slice b \<lparr>dl_Dir = dir, dl_LowName = to_lower name\<rparr>"

text \<open>The loop of \<^verbatim>\<open>Put\<close>: the first entry with the path is overwritten, else one is appended.\<close>

fun replace_entry :: "baseline_entry \<Rightarrow> baseline_entry list \<Rightarrow> baseline_entry list" where
  "replace_entry e [] = [e]"
| "replace_entry e (x # xs) = (if be_Path x = be_Path e then e # xs else x # replace_entry e xs)"

text \<open>The loop of \<^verbatim>\<open>Delete\<close>: the first entry with the path is cut out.\<close>

fun remove_entry :: "string \<Rightarrow> baseline_entry list \<Rightarrow> baseline_entry list" where
  "remove_entry p [] = []"
| "remove_entry p (x # xs) = (if be_Path x = p then xs else x # remove_entry p xs)"

definition bl_Put :: "baseline_entry \<Rightarrow> baseline \<Rightarrow> baseline" where
  "bl_Put e b =
     (let byID = (case bl_ByPath b (be_Path e) of
                    Some old \<Rightarrow> if be_ItemID old \<noteq> be_ItemID e then (bl_ByID b)(be_ItemID old := None) else bl_ByID b
                  | None \<Rightarrow> bl_ByID b);
          dlk = DirLowerKeyFromPath (be_Path e)
      in \<lparr>bl_ByPath = (bl_ByPath b)(be_Path e \<mapsto> e),
          bl_ByID = byID(be_ItemID e \<mapsto> e),
          bl_ByDirLower = (bl_ByDirLower b)(dlk \<mapsto> replace_entry e (dir_slice b dlk))\<rparr>)"

definition bl_Delete :: "string \<Rightarrow> baseline \<Rightarrow> baseline" where
  "bl_Delete p b =
     (let byID = (case bl_ByPath b p of Some e \<Rightarrow> (bl_ByID b)(be_ItemID e := None) | None \<Rightarrow> bl_ByID b);
          dlk = DirLowerKeyFromPath p;
          entries = dir_slice b dlk;
          left = remove_entry p entries
      in \<lparr>bl_ByPath = (bl_ByPath b)(p := None),
          bl_ByID = byID,
          bl_ByDirLower =
            (if list_ex (\<lambda>x. be_Path x = p) entries
             then (if left = [] then (bl_ByDirLower b)(dlk := None) else (bl_ByDirLower b)(dlk \<mapsto> left))
             else bl_ByDirLower b)\<rparr>)"

text \<open>The events the observers emit; \<^verbatim>\<open>FindOrphans\<close> builds remote deletions.\<close>

record change_event =
  ce_Source :: change_source
  ce_Type :: change_type
  ce_Path :: string
  ce_ItemID :: string
  ce_DriveID :: drive_id
  ce_ItemType :: item_type
  ce_IsDeleted :: bool

definition orphan_event :: "baseline_entry \<Rightarrow> change_event" where
  "orphan_event e =
     \<lparr>ce_Source = SourceRemote, ce_Type = ChangeDelete, ce_Path = be_Path e, ce_ItemID = be_ItemID e,
      ce_DriveID = be_DriveID e, ce_ItemType = be_ItemType e, ce_IsDeleted = True\<rparr>"

definition bl_FindOrphans ::
  "string list \<Rightarrow> baseline \<Rightarrow> (string \<Rightarrow> bool) \<Rightarrow> drive_id \<Rightarrow> string \<Rightarrow> change_event list" where
  "bl_FindOrphans order b seen driveID pathPrefix =
     List.map_filter (\<lambda>p.
       case bl_ByPath b p of
         None \<Rightarrow> None
       | Some e \<Rightarrow>
           if be_DriveID e \<noteq> driveID then None
           else if pathPrefix \<noteq> '''' \<and> p \<noteq> pathPrefix \<and> \<not> below p pathPrefix then None
           else if seen (be_ItemID e) then None
           else Some (orphan_event e)) order"

text \<open>The loop of \<^verbatim>\<open>Load\<close> over the rows of the table.\<close>

definition load_entry :: "baseline_entry \<Rightarrow> baseline \<Rightarrow> baseline" where
  "load_entry e b =
     (let dlk = DirLowerKeyFromPath (be_Path e)
      in \<lparr>bl_ByPath = (bl_ByPath b)(be_Path e \<mapsto> e), bl_ByID = (bl_ByID b)(be_ItemID e \<mapsto> e),
          bl_ByDirLower = (bl_ByDirLower b)(dlk \<mapsto> dir_slice b dlk @ [e])\<rparr>)"

definition load_entries :: "baseline_entry list \<Rightarrow> baseline" where
  "load_entries es = fold load_entry es empty_baseline"

section \<open>Well-formedness\<close>

text \<open>
  The three maps index the same entries: each entry is filed under its own path, \<^verbatim>\<open>ByID\<close>
  holds exactly the entries of \<^verbatim>\<open>ByPath\<close> under their item ids, and each slice of
  \<^verbatim>\<open>ByDirLower\<close> holds exactly the entries with that key, each path once.
\<close>

definition baseline_wf :: "baseline \<Rightarrow> bool" where
  "baseline_wf b \<longleftrightarrow>
     (\<forall>p e. bl_ByPath b p = Some e \<longrightarrow> be_Path e = p) \<and>
     (\<forall>i e. bl_ByID b i = Some e \<longleftrightarrow> be_ItemID e = i \<and> bl_ByPath b (be_Path e) = Some e) \<and>
     (\<forall>k. distinct (map be_Path (dir_slice b k)) \<and>
          (\<forall>e. e \<in> set (dir_slice b k) \<longleftrightarrow>
               bl_ByPath b (be_Path e) = Some e \<and> DirLowerKeyFromPath (be_Path e) = k))"

lemma baseline_wf_empty [simp]: "baseline_wf empty_baseline"
  by (simp add: baseline_wf_def empty_baseline_def dir_slice_def)

lemma set_replace_entry:
  "distinct (map be_Path xs) \<Longrightarrow>
     x \<in> set (replace_entry e xs) \<longleftrightarrow> x = e \<or> (x \<in> set xs \<and> be_Path x \<noteq> be_Path e)"
  by (induction xs) (auto simp: image_iff)

lemma distinct_replace_entry:
  "distinct (map be_Path xs) \<Longrightarrow> distinct (map be_Path (replace_entry e xs))"
  by (induction xs) (auto simp: set_replace_entry image_iff)

lemma set_remove_entry:
  "distinct (map be_Path xs) \<Longrightarrow> x \<in> set (remove_entry p xs) \<longleftrightarrow> x \<in> set xs \<and> be_Path x \<noteq> p"
  by (induction xs) (auto simp: image_iff)

lemma distinct_remove_entry:
  "distinct (map be_Path xs) \<Longrightarrow> distinct (map be_Path (remove_entry p xs))"
  by (induction xs) (auto simp: set_remove_entry image_iff)

lemma remove_entry_absent: "\<not> list_ex (\<lambda>x. be_Path x = p) xs \<Longrightarrow> remove_entry p xs = xs"
  by (induction xs) auto

lemma dir_slice_Put:
  "dir_slice (bl_Put e b) k =
     (if k = DirLowerKeyFromPath (be_Path e) then replace_entry e (dir_slice b k) else dir_slice b k)"
  by (simp add: bl_Put_def dir_slice_def Let_def)

lemma dir_slice_Delete:
  "dir_slice (bl_Delete p b) k =
     (if k = DirLowerKeyFromPath p then remove_entry p (dir_slice b k) else dir_slice b k)"
  by (auto simp: bl_Delete_def dir_slice_def Let_def remove_entry_absent)

lemma ByPath_Put [simp]: "bl_ByPath (bl_Put e b) = (bl_ByPath b)(be_Path e \<mapsto> e)"
  by (simp add: bl_Put_def Let_def)

lemma ByPath_Delete [simp]: "bl_ByPath (bl_Delete p b) = (bl_ByPath b)(p := None)"
  by (simp add: bl_Delete_def Let_def)

text \<open>
  An entry may be stored when its item id is unused, or used by the entry at its own path.
  \<^verbatim>\<open>Put\<close> does not check this.
\<close>

definition put_ok :: "baseline_entry \<Rightarrow> baseline \<Rightarrow> bool" where
  "put_ok e b =
     (case bl_ByID b (be_ItemID e) of None \<Rightarrow> True | Some x \<Rightarrow> be_Path x = be_Path e)"

lemma baseline_wf_D:
  assumes "baseline_wf b"
  shows "bl_ByPath b p = Some e \<Longrightarrow> be_Path e = p"
    and "bl_ByID b i = Some e \<longleftrightarrow> be_ItemID e = i \<and> bl_ByPath b (be_Path e) = Some e"
    and "distinct (map be_Path (dir_slice b k))"
    and "e \<in> set (dir_slice b k) \<longleftrightarrow> bl_ByPath b (be_Path e) = Some e \<and> DirLowerKeyFromPath (be_Path e) = k"
  using assms unfolding baseline_wf_def by blast+

lemma baseline_ids_inj:
  assumes "baseline_wf b" "bl_ByPath b (be_Path x) = Some x" "bl_ByPath b (be_Path y) = Some y"
    "be_ItemID x = be_ItemID y"
  shows "x = y"
  using assms baseline_wf_D(2) [OF assms(1)] by (metis option.inject)

lemma ByID_Put:
  assumes wf: "baseline_wf b"
  shows "bl_ByID (bl_Put e b) i = Some x \<longleftrightarrow>
     (i = be_ItemID e \<and> x = e) \<or>
     (i \<noteq> be_ItemID e \<and> be_ItemID x = i \<and> bl_ByPath b (be_Path x) = Some x \<and> be_Path x \<noteq> be_Path e)"
proof (cases "bl_ByPath b (be_Path e)")
  case None
  then show ?thesis by (auto simp: bl_Put_def Let_def baseline_wf_D(2) [OF wf])
next
  case (Some old)
  then have old: "be_Path old = be_Path e" using baseline_wf_D(1) [OF wf] by blast
  show ?thesis
  proof (cases "i = be_ItemID old")
    case True
    then show ?thesis using baseline_ids_inj [OF wf, of x old] Some old
      by (auto simp: bl_Put_def Let_def baseline_wf_D(2) [OF wf])
  next
    case False
    then show ?thesis using Some old
      by (auto simp: bl_Put_def Let_def baseline_wf_D(2) [OF wf])
  qed
qed

lemma ByID_Delete:
  assumes wf: "baseline_wf b"
  shows "bl_ByID (bl_Delete p b) i = Some x \<longleftrightarrow>
     be_ItemID x = i \<and> bl_ByPath b (be_Path x) = Some x \<and> be_Path x \<noteq> p"
proof (cases "bl_ByPath b p")
  case None
  then show ?thesis by (auto simp: bl_Delete_def Let_def baseline_wf_D(2) [OF wf])
next
  case (Some old)
  then have old: "be_Path old = p" using baseline_wf_D(1) [OF wf] by blast
  show ?thesis
  proof (cases "i = be_ItemID old")
    case True
    then show ?thesis using baseline_ids_inj [OF wf, of x old] Some old
      by (auto simp: bl_Delete_def Let_def baseline_wf_D(2) [OF wf])
  next
    case False
    then show ?thesis using Some old
      by (auto simp: bl_Delete_def Let_def baseline_wf_D(2) [OF wf])
  qed
qed

lemma baseline_wf_Put:
  assumes wf: "baseline_wf b" and ok: "put_ok e b"
  shows "baseline_wf (bl_Put e b)"
proof -
  note D = baseline_wf_D [OF wf]
  have ids: "bl_ByID (bl_Put e b) i = Some x \<longleftrightarrow>
      be_ItemID x = i \<and> bl_ByPath (bl_Put e b) (be_Path x) = Some x" for i x
  proof (cases "be_Path x = be_Path e")
    case True
    then show ?thesis by (auto simp: ByID_Put [OF wf])
  next
    case False
    have "be_ItemID x \<noteq> be_ItemID e" if "bl_ByPath b (be_Path x) = Some x"
    proof
      assume "be_ItemID x = be_ItemID e"
      then have "bl_ByID b (be_ItemID e) = Some x" using that by (simp add: D(2))
      with ok False show False by (simp add: put_ok_def)
    qed
    with False show ?thesis by (auto simp: ByID_Put [OF wf])
  qed
  have "distinct (map be_Path (dir_slice (bl_Put e b) k))" for k
    using D(3) by (simp add: dir_slice_Put distinct_replace_entry)
  moreover have "x \<in> set (dir_slice (bl_Put e b) k) \<longleftrightarrow>
      bl_ByPath (bl_Put e b) (be_Path x) = Some x \<and> DirLowerKeyFromPath (be_Path x) = k" for x k
    using D(3,4) by (auto simp: dir_slice_Put set_replace_entry)
  moreover have "bl_ByPath (bl_Put e b) p = Some x \<Longrightarrow> be_Path x = p" for p x
    using D(1) by (auto split: if_splits)
  ultimately show ?thesis using ids unfolding baseline_wf_def by blast
qed

lemma baseline_wf_Delete:
  assumes wf: "baseline_wf b"
  shows "baseline_wf (bl_Delete p b)"
proof -
  note D = baseline_wf_D [OF wf]
  have "distinct (map be_Path (dir_slice (bl_Delete p b) k))" for k
    using D(3) by (simp add: dir_slice_Delete distinct_remove_entry)
  moreover have "x \<in> set (dir_slice (bl_Delete p b) k) \<longleftrightarrow>
      bl_ByPath (bl_Delete p b) (be_Path x) = Some x \<and> DirLowerKeyFromPath (be_Path x) = k" for x k
    using D(3,4) by (auto simp: dir_slice_Delete set_remove_entry)
  moreover have "bl_ByPath (bl_Delete p b) q = Some x \<Longrightarrow> be_Path x = q" for q x
    using D(1) by (auto split: if_splits)
  moreover have "bl_ByID (bl_Delete p b) i = Some x \<longleftrightarrow>
      be_ItemID x = i \<and> bl_ByPath (bl_Delete p b) (be_Path x) = Some x" for i x
    by (auto simp: ByID_Delete [OF wf])
  ultimately show ?thesis unfolding baseline_wf_def by blast
qed

section \<open>The contract of an entry store\<close>

text \<open>
  What the clients of a baseline rely on, whether it is the in-memory index or the table it
  caches: lookups see exactly the last write at a path, and a write at one path leaves every
  other path alone as long as the item id is not in use elsewhere.
\<close>

locale entry_store =
  fixes inv :: "'s \<Rightarrow> bool"
    and get :: "'s \<Rightarrow> string \<Rightarrow> baseline_entry option"
    and valid :: "baseline_entry \<Rightarrow> bool"
    and admits :: "baseline_entry \<Rightarrow> 's \<Rightarrow> bool"
    and put :: "baseline_entry \<Rightarrow> 's \<Rightarrow> 's"
    and del :: "string \<Rightarrow> 's \<Rightarrow> 's"
  assumes inv_put: "inv s \<Longrightarrow> admits e s \<Longrightarrow> inv (put e s)"
    and inv_del: "inv s \<Longrightarrow> inv (del p s)"
    and get_put: "inv s \<Longrightarrow> admits e s \<Longrightarrow> get (put e s) p = (if p = be_Path e then Some e else get s p)"
    and get_del: "inv s \<Longrightarrow> get (del p s) q = (if q = p then None else get s q)"
    and get_path: "inv s \<Longrightarrow> get s p = Some e \<Longrightarrow> be_Path e = p"
    and get_ids: "inv s \<Longrightarrow> get s p = Some e \<Longrightarrow> get s q = Some f \<Longrightarrow> be_ItemID e = be_ItemID f \<Longrightarrow> p = q"
    and admits_iff: "inv s \<Longrightarrow> valid e \<Longrightarrow>
      admits e s \<longleftrightarrow> (\<forall>p x. get s p = Some x \<longrightarrow> be_ItemID x = be_ItemID e \<longrightarrow> p = be_Path e)"
begin

lemma admits_del:
  assumes "inv s" "valid e" "get s p = Some x" "be_ItemID x = be_ItemID e"
  shows "admits e (del p s)"
  using assms get_ids [OF assms(1)] by (auto simp: admits_iff inv_del get_del split: if_splits)

text \<open>A move: the entry leaves its old path and is stored at the new one.\<close>

lemma move_inv:
  assumes "inv s" "valid e" "get s old = Some x" "be_ItemID x = be_ItemID e"
  shows "inv (put e (del old s))"
  using assms by (simp add: inv_put inv_del admits_del)

lemma move_get:
  assumes "inv s" "valid e" "get s old = Some x" "be_ItemID x = be_ItemID e"
  shows "get (put e (del old s)) p = (if p = be_Path e then Some e else if p = old then None else get s p)"
  using assms by (simp add: get_put get_del inv_del admits_del)

lemma put_twice:
  assumes "inv s" "admits e s" "admits f (put e s)" "be_Path f = be_Path e"
  shows "get (put f (put e s)) p = (if p = be_Path f then Some f else get s p)"
  using assms by (simp add: get_put inv_put)

lemma del_put:
  assumes "inv s" "admits e s" "get s (be_Path e) = None"
  shows "get (del (be_Path e) (put e s)) p = get s p"
  using assms by (simp add: get_put get_del inv_put)

end

text \<open>
  A store keyed by item id, where storing an entry whose id is in use at another path moves it
  there in one write.
\<close>

locale moving_store = entry_store +
  assumes put_moves: "inv s \<Longrightarrow> valid e \<Longrightarrow> get s old = Some x \<Longrightarrow> be_ItemID x = be_ItemID e \<Longrightarrow>
      inv (put e s) \<and> (\<forall>p. get (put e s) p = get (put e (del old s)) p)"

text \<open>Two stores that agree on every path keep agreeing under the same write.\<close>

locale mirrored_stores =
  a: entry_store inv1 get1 valid1 admits1 put1 del1 + b: moving_store inv2 get2 valid2 admits2 put2 del2
  for inv1 :: "'s \<Rightarrow> bool" and get1 valid1 admits1 put1 del1
    and inv2 :: "'t \<Rightarrow> bool" and get2 valid2 admits2 put2 del2 +
  assumes valid_mono: "valid2 e \<Longrightarrow> valid1 e"
begin

lemma mirror_put:
  assumes "inv1 s" "inv2 t" "get1 s = get2 t" "valid2 e" "admits2 e t"
  shows "inv1 (put1 e s) \<and> inv2 (put2 e t) \<and> get1 (put1 e s) = get2 (put2 e t)"
proof -
  have "admits1 e s"
    using assms a.admits_iff [OF assms(1) valid_mono [OF assms(4)]] b.admits_iff [OF assms(2,4)] by simp
  then show ?thesis using assms by (auto simp: fun_eq_iff a.get_put b.get_put a.inv_put b.inv_put)
qed

lemma mirror_del:
  assumes "inv1 s" "inv2 t" "get1 s = get2 t"
  shows "inv1 (del1 p s) \<and> inv2 (del2 p t) \<and> get1 (del1 p s) = get2 (del2 p t)"
  using assms by (auto simp: fun_eq_iff a.get_del b.get_del a.inv_del b.inv_del)

text \<open>The first store moves in two steps, the second in one.\<close>

lemma mirror_move:
  assumes "inv1 s" "inv2 t" "get1 s = get2 t" "valid2 e" "get2 t old = Some x" "be_ItemID x = be_ItemID e"
  shows "inv1 (put1 e (del1 old s)) \<and> inv2 (put2 e t) \<and> get1 (put1 e (del1 old s)) = get2 (put2 e t)"
proof -
  have "get2 (put2 e t) p = (if p = be_Path e then Some e else if p = old then None else get2 t p)" for p
    using b.put_moves [OF assms(2,4,5,6)] b.move_get [OF assms(2,4,5,6)] by simp
  then show ?thesis
    using assms a.move_get [OF assms(1) valid_mono [OF assms(4)], of old x] a.move_inv [OF assms(1) valid_mono [OF assms(4)], of old x]
      b.put_moves [OF assms(2,4,5,6)]
    by (auto simp: fun_eq_iff)
qed

end

interpretation cache: entry_store baseline_wf bl_GetByPath "\<lambda>_. True" put_ok bl_Put bl_Delete
proof
  fix s e p q f x
  assume wf: "baseline_wf s"
  show "put_ok e s \<Longrightarrow> baseline_wf (bl_Put e s)" using wf by (rule baseline_wf_Put)
  show "baseline_wf (bl_Delete p s)" using wf by (rule baseline_wf_Delete)
  show "bl_GetByPath (bl_Put e s) p = (if p = be_Path e then Some e else bl_GetByPath s p)"
    "bl_GetByPath (bl_Delete p s) q = (if q = p then None else bl_GetByPath s q)"
    by (simp_all add: bl_GetByPath_def)
  show "bl_GetByPath s p = Some e \<Longrightarrow> be_Path e = p"
    using baseline_wf_D(1) [OF wf] by (simp add: bl_GetByPath_def)
  show "bl_GetByPath s p = Some e \<Longrightarrow> bl_GetByPath s q = Some f \<Longrightarrow> be_ItemID e = be_ItemID f \<Longrightarrow> p = q"
    using baseline_ids_inj [OF wf, of e f] baseline_wf_D(1) [OF wf] by (metis bl_GetByPath_def)
  have "put_ok e s \<longleftrightarrow> (\<forall>x. bl_ByID s (be_ItemID e) = Some x \<longrightarrow> be_Path x = be_Path e)"
    by (auto simp: put_ok_def split: option.splits)
  then show "put_ok e s \<longleftrightarrow> (\<forall>p x. bl_GetByPath s p = Some x \<longrightarrow> be_ItemID x = be_ItemID e \<longrightarrow> p = be_Path e)"
    using baseline_wf_D(1) [OF wf] by (auto simp: baseline_wf_D(2) [OF wf] bl_GetByPath_def)
qed

section \<open>Properties\<close>

text \<open>
  The three indexes of the in-memory baseline stay consistent: storing an entry whose item id
  is free (or already at that path), deleting any path, and a move of an item to another
  path each keep the invariant that the path, id and case-folded-name indexes hold
  exactly the same entries, and have the expected effect on every lookup by path.
\<close>

theorem baseline_index_consistent:
  assumes "baseline_wf b"
  shows "baseline_wf (bl_Delete p b) \<and>
    (put_ok e b \<longrightarrow> baseline_wf (bl_Put e b)) \<and>
    (\<forall>x. bl_GetByPath b old = Some x \<and> be_ItemID x = be_ItemID e \<longrightarrow>
       baseline_wf (bl_Put e (bl_Delete old b)) \<and>
       bl_GetByPath (bl_Put e (bl_Delete old b)) q =
         (if q = be_Path e then Some e else if q = old then None else bl_GetByPath b q))"
  using assms cache.inv_del cache.inv_put cache.move_inv cache.move_get by simp

text \<open>
  The case-insensitive sibling lookup returns exactly the entries of that directory whose
  name folds to the same lower-case string.
\<close>

lemma case_variants_exact:
  assumes "baseline_wf b"
  shows "e \<in> set (bl_GetCaseVariants b dir name) \<longleftrightarrow>
     bl_GetByPath b (be_Path e) = Some e \<and>
     path_dir (be_Path e) = dir \<and> to_lower (path_base (be_Path e)) = to_lower name"
  using baseline_wf_D(4) [OF assms]
  by (auto simp: bl_GetCaseVariants_def bl_GetByPath_def DirLowerKeyFromPath_def)

text \<open>
  Orphan detection after a full enumeration reports exactly the baseline entries of the drive,
  inside the requested subtree, whose item id was not seen, whatever order the map is
  iterated in.
\<close>

theorem FindOrphans_exact:
  assumes "baseline_wf b" "set order = dom (bl_ByPath b)"
  shows "set (bl_FindOrphans order b seen d prefix) =
     orphan_event ` {e. bl_GetByPath b (be_Path e) = Some e \<and> be_DriveID e = d \<and> \<not> seen (be_ItemID e) \<and>
                        (prefix = '''' \<or> be_Path e = prefix \<or> below (be_Path e) prefix)}"
  (is "?l = orphan_event ` ?E")
proof
  show "?l \<subseteq> orphan_event ` ?E"
    using baseline_wf_D(1) [OF assms(1)]
    by (fastforce simp: bl_FindOrphans_def map_filter_set bl_GetByPath_def split: option.splits if_splits)
  show "orphan_event ` ?E \<subseteq> ?l"
  proof
    fix v assume "v \<in> orphan_event ` ?E"
    then obtain e where e: "e \<in> ?E" "v = orphan_event e" by blast
    then have "be_Path e \<in> set order" using assms(2) by (auto simp: bl_GetByPath_def)
    with e show "v \<in> ?l"
      by (auto simp: bl_FindOrphans_def map_filter_set bl_GetByPath_def intro!: bexI [of _ "be_Path e"])
  qed
qed

section \<open>Loading\<close>

lemma load_entry_is_Put:
  assumes "be_Path e \<notin> dom (bl_ByPath b)" "baseline_wf b"
  shows "load_entry e b = bl_Put e b"
proof -
  have "replace_entry e xs = xs @ [e]" if "\<forall>x \<in> set xs. be_Path x \<noteq> be_Path e" for xs
    using that by (induction xs) auto
  moreover have "\<forall>x \<in> set (dir_slice b k). be_Path x \<noteq> be_Path e" for k
    using assms(1) baseline_wf_D(4) [OF assms(2)] by (metis domI)
  moreover have "bl_ByPath b (be_Path e) = None" using assms(1) by auto
  ultimately show ?thesis by (simp add: load_entry_def bl_Put_def Let_def)
qed

lemma load_entries_snoc: "load_entries (es @ [e]) = load_entry e (load_entries es)"
  by (simp add: load_entries_def)

lemma load_entries_wf:
  assumes "distinct (map be_Path es)" "distinct (map be_ItemID es)"
  shows "baseline_wf (load_entries es) \<and> bl_ByPath (load_entries es) = index_by be_Path es"
  using assms
proof (induction es rule: rev_induct)
  case Nil
  then show ?case by (simp add: load_entries_def empty_baseline_def [symmetric]) (simp add: empty_baseline_def)
next
  case (snoc e es)
  then have IH: "baseline_wf (load_entries es)" "bl_ByPath (load_entries es) = index_by be_Path es" by auto
  have free: "be_Path e \<notin> dom (bl_ByPath (load_entries es))"
    using snoc.prems IH(2) by (auto simp: index_by_None [symmetric] domIff dest: index_by_Some)
  have "bl_ByID (load_entries es) (be_ItemID e) \<noteq> Some x" for x
  proof
    assume "bl_ByID (load_entries es) (be_ItemID e) = Some x"
    then have "be_ItemID x = be_ItemID e" "index_by be_Path es (be_Path x) = Some x"
      using IH(2) by (simp_all add: baseline_wf_D(2) [OF IH(1)])
    moreover from this(2) have "x \<in> set es" using index_by_Some by fast
    ultimately show False using snoc.prems(2) by (auto simp: image_iff)
  qed
  then have "put_ok e (load_entries es)" by (simp add: put_ok_def split: option.splits)
  then show ?case
    using IH free by (simp add: load_entries_snoc load_entry_is_Put baseline_wf_Put)
qed

section \<open>Concrete baselines\<close>

definition entry_at :: "string \<Rightarrow> string \<Rightarrow> baseline_entry" where
  "entry_at p i =
     \<lparr>be_Path = p, be_DriveID = New_id ''d1'', be_ItemID = i, be_ParentID = ''root'', be_ItemType = ItemTypeFile,
      be_LocalHash = ''h'', be_RemoteHash = ''h'', be_LocalSize = 3, be_LocalSizeKnown = True, be_RemoteSize = 3,
      be_RemoteSizeKnown = True, be_LocalMtime = 7, be_RemoteMtime = 7, be_LocalDevice = 1, be_LocalInode = 2,
      be_LocalHasIdentity = True, be_ETag = ''e''\<rparr>"

definition two_entries :: baseline where
  "two_entries = load_entries [entry_at ''a'' ''i1'', entry_at ''b/c'' ''i2'']"

lemma two_entries_wf: "baseline_wf two_entries" "bl_ByPath two_entries = index_by be_Path [entry_at ''a'' ''i1'', entry_at ''b/c'' ''i2'']"
  using load_entries_wf [of "[entry_at ''a'' ''i1'', entry_at ''b/c'' ''i2'']"]
  by (simp_all add: two_entries_def entry_at_def)

theorem baseline_index_consistent_witness:
  "baseline_wf (bl_Delete ''a'' two_entries) \<and>
   bl_GetByPath (bl_Put (entry_at ''z'' ''i2'') (bl_Delete ''b/c'' two_entries)) ''b/c'' = None \<and>
   bl_GetByPath (bl_Put (entry_at ''z'' ''i2'') (bl_Delete ''b/c'' two_entries)) ''a'' = Some (entry_at ''a'' ''i1'')"
  using baseline_index_consistent [OF two_entries_wf(1), of "''a''" "entry_at ''z'' ''i2''" "''b/c''" "''b/c''"]
    baseline_index_consistent [OF two_entries_wf(1), of "''a''" "entry_at ''z'' ''i2''" "''b/c''" "''a''"]
  by (simp add: bl_GetByPath_def two_entries_wf(2) index_by_def entry_at_def)

theorem FindOrphans_exact_witness:
  "map ce_Path (bl_FindOrphans [''a'', ''b/c''] two_entries (\<lambda>i. i = ''i1'') (New_id ''d1'') '''') = [''b/c''] \<and>
   orphan_event (entry_at ''b/c'' ''i2'') \<in>
     set (bl_FindOrphans [''a'', ''b/c''] two_entries (\<lambda>i. i = ''i1'') (New_id ''d1'') '''')"
proof
  show "map ce_Path (bl_FindOrphans [''a'', ''b/c''] two_entries (\<lambda>i. i = ''i1'') (New_id ''d1'') '''') = [''b/c'']"
    by code_simp
  have dom: "set [''a'', ''b/c''] = dom (bl_ByPath two_entries)"
    by (auto simp: two_entries_wf(2) index_by_def entry_at_def)
  show "orphan_event (entry_at ''b/c'' ''i2'') \<in>
     set (bl_FindOrphans [''a'', ''b/c''] two_entries (\<lambda>i. i = ''i1'') (New_id ''d1'') '''')"
    unfolding FindOrphans_exact [OF two_entries_wf(1) dom]
    by (rule imageI) (simp add: bl_GetByPath_def two_entries_wf(2) index_by_def entry_at_def)
qed

end
