(* ===== verification/Planner.thy ===== *)
theory Planner
  imports Reconcile TruthStatus BaselineIndex
begin

text \<open>
  The planner (\<^verbatim>\<open>planner.go\<close>, \<^verbatim>\<open>planner_sqlite.go\<close>): it maps the reconciliation rows to
  actions, normalises the action list (folder moves cover their descendants; a folder delete
  with work left below it becomes a folder create), and splits it by the sync direction. It
  performs no I/O. Errors are values of \<open>plan_error\<close>; log statements are left out.
\<close>

datatype plan_error =
    MissingTruthStatus string | MissingBaselineEntry string | MissingLocalRow string
  | MissingRemoteRow string | MissingComparisonRow string | MissingPathView string
  | UnsupportedKind string string | LocalMoveMissingTarget string | RemoteMoveMissingSource string
  | ErrDependencyCycle

record planner_mount_context =
  pmc_DriveID :: drive_id

section \<open>Building actions\<close>

definition actionAllowedInMode :: "action \<Rightarrow> sync_mode \<Rightarrow> bool" where
  "actionAllowedInMode a mode =
     (case a_Type a of
        ActionDownload \<Rightarrow> mode \<noteq> SyncUploadOnly
      | ActionUpload \<Rightarrow> mode \<noteq> SyncDownloadOnly
      | ActionLocalDelete \<Rightarrow> mode \<noteq> SyncUploadOnly
      | ActionRemoteDelete \<Rightarrow> mode \<noteq> SyncDownloadOnly
      | ActionLocalMove \<Rightarrow> mode \<noteq> SyncUploadOnly
      | ActionRemoteMove \<Rightarrow> mode \<noteq> SyncDownloadOnly
      | ActionFolderCreate \<Rightarrow>
          (case a_CreateSide a of CreateLocal \<Rightarrow> mode \<noteq> SyncUploadOnly | CreateRemote \<Rightarrow> mode \<noteq> SyncDownloadOnly)
      | ActionConflictCopy \<Rightarrow> mode \<noteq> SyncUploadOnly
      | ActionBaselineUpdate \<Rightarrow> True
      | ActionCleanup \<Rightarrow> True)"

definition resolveItemType :: "path_view option \<Rightarrow> item_type" where
  "resolveItemType view =
     (case view of
        None \<Rightarrow> ItemTypeFile
      | Some v \<Rightarrow>
          (case pv_Remote v of
             Some r \<Rightarrow>
               (case pv_Baseline v of
                  Some b \<Rightarrow> if rs_IsDeleted r \<and> rs_ItemType r = ItemTypeFile \<and> be_ItemType b \<noteq> ItemTypeFile
                            then be_ItemType b else rs_ItemType r
                | None \<Rightarrow> rs_ItemType r)
           | None \<Rightarrow>
               (case pv_Local v of
                  Some l \<Rightarrow> ls_ItemType l
                | None \<Rightarrow> (case pv_Baseline v of Some b \<Rightarrow> be_ItemType b | None \<Rightarrow> ItemTypeFile))))"

definition MakeAction :: "action_type \<Rightarrow> path_view \<Rightarrow> action" where
  "MakeAction t view =
     (let item0 = (case pv_Remote view of Some r \<Rightarrow> rs_ItemID r | None \<Rightarrow> '''');
          drive0 = (case pv_Remote view of
                      Some r \<Rightarrow> if \<not> id_IsZero (rs_DriveID r) then rs_DriveID r else zero_id
                    | None \<Rightarrow> zero_id);
          drive1 = (case pv_Baseline view of
                      Some b \<Rightarrow> if id_IsZero drive0 then be_DriveID b else drive0
                    | None \<Rightarrow> drive0);
          item1 = (case pv_Baseline view of
                     Some b \<Rightarrow> if item0 = '''' then be_ItemID b else item0
                   | None \<Rightarrow> item0)
      in \<lparr>a_Type = t, a_DriveID = drive1, a_ItemID = item1, a_Path = pv_Path view, a_OldPath = '''',
          a_CreateSide = CreateLocal, a_View = Some view, a_RequireMissingLocalTarget = False\<rparr>)"

definition bindMountContext :: "action list \<Rightarrow> planner_mount_context \<Rightarrow> action list" where
  "bindMountContext actions mount =
     map (\<lambda>a. if id_IsZero (a_DriveID a) then a\<lparr>a_DriveID := pmc_DriveID mount\<rparr> else a) actions"

definition makeConflictCopyAction :: "path_view \<Rightarrow> action" where
  "makeConflictCopyAction view = MakeAction ActionConflictCopy view"

definition makeDownloadAfterConflictCopyAction :: "path_view \<Rightarrow> action" where
  "makeDownloadAfterConflictCopyAction view =
     (MakeAction ActionDownload view)\<lparr>a_RequireMissingLocalTarget := True\<rparr>"

definition makeCreateUploadAction :: "path_view \<Rightarrow> action" where
  "makeCreateUploadAction view = (MakeAction ActionUpload view)\<lparr>a_ItemID := ''''\<rparr>"

definition makeFolderCreate :: "path_view \<Rightarrow> folder_create_side \<Rightarrow> action" where
  "makeFolderCreate view side = (MakeAction ActionFolderCreate view)\<lparr>a_CreateSide := side\<rparr>"

section \<open>Keeping the parents of runnable work\<close>

definition is_delete_type :: "action_type \<Rightarrow> bool" where
  "is_delete_type t \<longleftrightarrow> t = ActionLocalDelete \<or> t = ActionRemoteDelete \<or> t = ActionCleanup"

definition isFolderDelete :: "action \<Rightarrow> bool" where
  "isFolderDelete a \<longleftrightarrow> is_delete_type (a_Type a) \<and> resolveItemType (a_View a) = ItemTypeFolder"

definition actionRequiresParentFolder :: "action_type \<Rightarrow> bool" where
  "actionRequiresParentFolder t \<longleftrightarrow>
     t \<noteq> ActionLocalDelete \<and> t \<noteq> ActionCleanup \<and> t \<noteq> ActionRemoteDelete"

definition runnableSubtreeActionRequiresParent :: "action list \<Rightarrow> string \<Rightarrow> sync_mode \<Rightarrow> bool" where
  "runnableSubtreeActionRequiresParent actions parentPath mode \<longleftrightarrow>
     list_ex (\<lambda>a. below (a_Path a) parentPath \<and> actionAllowedInMode a mode \<and>
                  actionRequiresParentFolder (a_Type a)) actions"

definition preserved_action :: "action \<Rightarrow> action" where
  "preserved_action a =
     (case a_View a of
        None \<Rightarrow> a
      | Some v \<Rightarrow>
          (case a_Type a of
             ActionLocalDelete \<Rightarrow> makeFolderCreate v CreateRemote
           | ActionRemoteDelete \<Rightarrow> makeFolderCreate v CreateLocal
           | _ \<Rightarrow> a))"

text \<open>The loop of \<^verbatim>\<open>preserveParentFoldersForRunnableDescendants\<close> updates the slice in place.\<close>

fun preserve_loop :: "sync_mode \<Rightarrow> nat list \<Rightarrow> action list \<Rightarrow> action list" where
  "preserve_loop mode [] acts = acts"
| "preserve_loop mode (i # is) acts =
     preserve_loop mode is
       (if \<not> isFolderDelete (acts ! i) \<or> \<not> runnableSubtreeActionRequiresParent acts (a_Path (acts ! i)) mode
        then acts else acts[i := preserved_action (acts ! i)])"

definition preserveParentFoldersForRunnableDescendants :: "action list \<Rightarrow> sync_mode \<Rightarrow> action list" where
  "preserveParentFoldersForRunnableDescendants actions mode =
     preserve_loop mode [0..<length actions] actions"

section \<open>Folder moves cover their descendants\<close>

definition folder_move_boundaries :: "action list \<Rightarrow> (string \<times> string) list" where
  "folder_move_boundaries actions =
     [(a_OldPath a @ ''/'', a_Path a @ ''/''). a \<leftarrow> actions,
        a_Type a = ActionRemoteMove \<and> resolveItemType (a_View a) = ItemTypeFolder \<and> a_OldPath a \<noteq> '''']"

definition descendantRemoteMoveActionCoveredByGraphFolderMove :: "action \<Rightarrow> (string \<times> string) list \<Rightarrow> bool" where
  "descendantRemoteMoveActionCoveredByGraphFolderMove a folderMoves \<longleftrightarrow>
     a_Type a = ActionRemoteMove \<and> a_OldPath a \<noteq> '''' \<and>
     list_ex (\<lambda>(oldPrefix, newPrefix).
        has_prefix (a_OldPath a) oldPrefix \<and> has_prefix (a_Path a) newPrefix \<and>
        trim_prefix (a_OldPath a) oldPrefix = trim_prefix (a_Path a) newPrefix) folderMoves"

definition omitDescendantRemoteMoveActionsCoveredByGraphFolderMoves :: "action list \<Rightarrow> action list" where
  "omitDescendantRemoteMoveActionsCoveredByGraphFolderMoves actions =
     (let folderMoves = folder_move_boundaries actions in
      if folderMoves = [] then actions
      else filter (\<lambda>a. \<not> descendantRemoteMoveActionCoveredByGraphFolderMove a folderMoves) actions)"

definition normalizeCurrentPlanActions :: "action list \<Rightarrow> sync_mode \<Rightarrow> action list" where
  "normalizeCurrentPlanActions actions mode =
     preserveParentFoldersForRunnableDescendants
       (omitDescendantRemoteMoveActionsCoveredByGraphFolderMoves actions) mode"

section \<open>Path views\<close>

definition localStateFromSnapshotRow :: "local_state_row \<Rightarrow> local_state" where
  "localStateFromSnapshotRow row =
     \<lparr>ls_Name = path_base (lr_Path row), ls_ItemType = lr_ItemType row, ls_Size = lr_Size row,
      ls_Hash = lr_Hash row, ls_Mtime = lr_Mtime row, ls_LocalDevice = lr_LocalDevice row,
      ls_LocalInode = lr_LocalInode row, ls_LocalHasIdentity = lr_LocalHasIdentity row\<rparr>"

definition remoteStateFromSnapshotRow :: "remote_state_row \<Rightarrow> remote_state" where
  "remoteStateFromSnapshotRow row =
     \<lparr>rs_ItemID = rr_ItemID row, rs_DriveID = rr_DriveID row, rs_Name = path_base (rr_Path row),
      rs_ItemType = rr_ItemType row, rs_Size = rr_Size row, rs_Hash = rr_Hash row,
      rs_Mtime = rr_Mtime row, rs_ETag = rr_ETag row, rs_CTag = '''', rs_IsDeleted = False\<rparr>"

text \<open>One side of a view: absent when the row says so, an error when the row is missing.\<close>

definition side_of :: "bool \<Rightarrow> 'v option \<Rightarrow> plan_error \<Rightarrow> plan_error + 'v option" where
  "side_of present v e = (if \<not> present then Inr None else case v of None \<Rightarrow> Inl e | Some x \<Rightarrow> Inr (Some x))"

definition path_view_for ::
  "(string \<rightharpoonup> local_state_row) \<Rightarrow> (string \<rightharpoonup> remote_state_row) \<Rightarrow> baseline \<Rightarrow>
   (string \<rightharpoonup> path_truth_status) \<Rightarrow> comparison_row \<Rightarrow> plan_error + path_view" where
  "path_view_for localByPath remoteByPath bl truthStatusByPath row =
     (case truthStatusByPath (cr_Path row) of
        None \<Rightarrow> Inl (MissingTruthStatus (cr_Path row))
      | Some ts \<Rightarrow>
        (case side_of (cr_BaselinePresent row) (bl_GetByPath bl (cr_Path row)) (MissingBaselineEntry (cr_Path row)) of
           Inl e \<Rightarrow> Inl e
         | Inr b \<Rightarrow>
           (case side_of (cr_LocalPresent row) (localByPath (cr_Path row)) (MissingLocalRow (cr_Path row)) of
              Inl e \<Rightarrow> Inl e
            | Inr l \<Rightarrow>
              (case side_of (cr_RemotePresent row) (remoteByPath (cr_Path row)) (MissingRemoteRow (cr_Path row)) of
                 Inl e \<Rightarrow> Inl e
               | Inr r \<Rightarrow> Inr
                   \<lparr>pv_Path = cr_Path row, pv_Remote = map_option remoteStateFromSnapshotRow r,
                    pv_Local = map_option localStateFromSnapshotRow l, pv_Baseline = b,
                    pv_TruthStatus = ts\<rparr>))))"

definition buildSQLitePathViews ::
  "comparison_row list \<Rightarrow> local_state_row list \<Rightarrow> remote_state_row list \<Rightarrow> baseline \<Rightarrow>
   (string \<rightharpoonup> path_truth_status) \<Rightarrow>
   plan_error + ((string \<rightharpoonup> path_view) \<times> (string \<rightharpoonup> comparison_row))" where
  "buildSQLitePathViews comparisons localRows remoteRows bl truthStatusByPath =
     (case collect_results
             (\<lambda>row. case path_view_for (index_by lr_Path localRows) (index_by rr_Path remoteRows) bl
                           truthStatusByPath row of
                      Inl e \<Rightarrow> Inl e | Inr v \<Rightarrow> Inr [v]) comparisons of
        Inl e \<Rightarrow> Inl e
      | Inr vs \<Rightarrow> Inr (index_by pv_Path vs, index_by cr_Path comparisons))"

definition comparisonPaths :: "comparison_row list \<Rightarrow> string list" where
  "comparisonPaths rows = map cr_Path rows"

section \<open>From reconciliation rows to actions\<close>

definition localFileDiffersFromBaseline :: "local_state option \<Rightarrow> baseline_entry option \<Rightarrow> bool" where
  "localFileDiffersFromBaseline lo bo =
     (case (lo, bo) of
        (Some l, Some b) \<Rightarrow>
          if be_ItemType b \<noteq> ItemTypeFile \<or> ls_ItemType l \<noteq> ItemTypeFile then False
          else if be_LocalHash b \<noteq> '''' \<or> ls_Hash l \<noteq> '''' then be_LocalHash b \<noteq> ls_Hash l
          else if be_LocalSizeKnown b \<and> be_LocalSize b \<noteq> ls_Size l then True
          else be_LocalMtime b \<noteq> ls_Mtime l
      | _ \<Rightarrow> False)"

definition localMoveContentUpdateAfterMove ::
  "string \<Rightarrow> path_view option \<Rightarrow> (string \<rightharpoonup> path_view) \<Rightarrow> action option" where
  "localMoveContentUpdateAfterMove targetPath sourceView views =
     (case sourceView of
        None \<Rightarrow> None
      | Some sv \<Rightarrow>
        (case pv_Baseline sv of
           None \<Rightarrow> None
         | Some b \<Rightarrow>
           if be_ItemType b \<noteq> ItemTypeFile then None
           else
           (case views targetPath of
              None \<Rightarrow> None
            | Some tv \<Rightarrow>
              if pv_Local tv = None then None
              else if \<not> localFileDiffersFromBaseline (pv_Local tv) (pv_Baseline sv) then None
              else Some ((MakeAction ActionUpload
                            (tv\<lparr>pv_Baseline := pv_Baseline sv, pv_Remote := pv_Remote sv\<rparr>))
                           \<lparr>a_Path := targetPath\<rparr>))))"

definition buildLocalMoveReconciliationActions ::
  "reconciliation_row \<Rightarrow> comparison_row \<Rightarrow> path_view \<Rightarrow> (string \<rightharpoonup> path_view) \<Rightarrow>
   plan_error + action list" where
  "buildLocalMoveReconciliationActions rec cmp view views =
     (if cr_ComparisonKind cmp \<noteq> CLocalMoveSource then Inr []
      else if rc_LocalMoveTarget rec = '''' then Inl (LocalMoveMissingTarget (rc_Path rec))
      else Inr ((MakeAction ActionRemoteMove view)\<lparr>a_OldPath := rc_Path rec, a_Path := rc_LocalMoveTarget rec\<rparr> #
                (case localMoveContentUpdateAfterMove (rc_LocalMoveTarget rec) (Some view) views of
                   None \<Rightarrow> [] | Some upload \<Rightarrow> [upload])))"

definition buildRemoteMoveReconciliationActions ::
  "reconciliation_row \<Rightarrow> comparison_row \<Rightarrow> path_view \<Rightarrow> plan_error + action list" where
  "buildRemoteMoveReconciliationActions rec cmp view =
     (if cr_ComparisonKind cmp \<noteq> CRemoteMoveDest then Inr []
      else if rc_RemoteMoveSource rec = '''' then Inl (RemoteMoveMissingSource (rc_Path rec))
      else Inr [(MakeAction ActionLocalMove view)\<lparr>a_OldPath := rc_RemoteMoveSource rec\<rparr>])"

definition buildActionsForReconciliation ::
  "reconciliation_row \<Rightarrow> comparison_row \<Rightarrow> (string \<rightharpoonup> path_view) \<Rightarrow> plan_error + action list" where
  "buildActionsForReconciliation rec cmp views =
     (case views (rc_Path rec) of
        None \<Rightarrow> Inl (MissingPathView (rc_Path rec))
      | Some view \<Rightarrow>
        if plannerSuppressesUnavailableTruth (Some (pv_TruthStatus view)) then Inr []
        else
        (case rc_ReconciliationKind rec of
           RNoop \<Rightarrow> Inr []
         | RBaselineRemove \<Rightarrow> Inr [MakeAction ActionCleanup view]
         | RFolderCreateLocal \<Rightarrow> Inr [makeFolderCreate view CreateLocal]
         | RFolderCreateRemote \<Rightarrow> Inr [makeFolderCreate view CreateRemote]
         | RUpload \<Rightarrow> Inr [MakeAction ActionUpload view]
         | RDownload \<Rightarrow> Inr [MakeAction ActionDownload view]
         | RLocalDelete \<Rightarrow> Inr [MakeAction ActionLocalDelete view]
         | RRemoteDelete \<Rightarrow> Inr [MakeAction ActionRemoteDelete view]
         | RBaselineUpdate \<Rightarrow> Inr [MakeAction ActionBaselineUpdate view]
         | RConflictEditEdit \<Rightarrow> Inr [makeConflictCopyAction view, makeDownloadAfterConflictCopyAction view]
         | RConflictEditDelete \<Rightarrow> Inr [makeCreateUploadAction view]
         | RConflictCreateCreate \<Rightarrow> Inr [makeConflictCopyAction view, makeDownloadAfterConflictCopyAction view]
         | RLocalMove \<Rightarrow> buildLocalMoveReconciliationActions rec cmp view views
         | RRemoteMove \<Rightarrow> buildRemoteMoveReconciliationActions rec cmp view
         | ROther k \<Rightarrow> Inl (UnsupportedKind k (rc_Path rec))))"

fun partition_loop ::
  "sync_mode \<Rightarrow> action list \<Rightarrow> deferred_counts \<Rightarrow> action list \<Rightarrow> action list \<times> deferred_counts" where
  "partition_loop mode admitted deferred [] = (admitted, deferred)"
| "partition_loop mode admitted deferred (a # as) =
     (if actionAllowedInMode a mode then partition_loop mode (admitted @ [a]) deferred as
      else partition_loop mode admitted (deferred_AddAction deferred a) as)"

definition partitionCurrentActionsForMode :: "action list \<Rightarrow> sync_mode \<Rightarrow> action list \<times> deferred_counts" where
  "partitionCurrentActionsForMode actions mode = partition_loop mode [] zero_deferred actions"

definition CountByType :: "action list \<Rightarrow> (action_type \<rightharpoonup> nat)" where
  "CountByType actions =
     fold (\<lambda>a m. m(a_Type a \<mapsto> (case m (a_Type a) of None \<Rightarrow> 1 | Some n \<Rightarrow> n + 1))) actions Map.empty"

text \<open>The loop over the reconciliation rows.\<close>

definition actions_for_rows ::
  "reconciliation_row list \<Rightarrow> (string \<rightharpoonup> comparison_row) \<Rightarrow> (string \<rightharpoonup> path_view) \<Rightarrow>
   plan_error + action list" where
  "actions_for_rows recs comparisonByPath views =
     collect_results
       (\<lambda>rec. case comparisonByPath (rc_Path rec) of
                None \<Rightarrow> Inl (MissingComparisonRow (rc_Path rec))
              | Some cmp \<Rightarrow> buildActionsForReconciliation rec cmp views) recs"

section \<open>Lemmas on actions\<close>

lemma MakeAction_sel [simp]:
  "a_Type (MakeAction t v) = t" "a_Path (MakeAction t v) = pv_Path v" "a_View (MakeAction t v) = Some v"
  "a_OldPath (MakeAction t v) = ''''" "a_RequireMissingLocalTarget (MakeAction t v) = False"
  "a_CreateSide (MakeAction t v) = CreateLocal"
  by (simp_all add: MakeAction_def Let_def)

lemma make_action_sels [simp]:
  "a_Type (makeFolderCreate v s) = ActionFolderCreate" "a_Path (makeFolderCreate v s) = pv_Path v"
  "a_CreateSide (makeFolderCreate v s) = s" "a_View (makeFolderCreate v s) = Some v"
  "a_Type (makeConflictCopyAction v) = ActionConflictCopy" "a_Path (makeConflictCopyAction v) = pv_Path v"
  "a_View (makeConflictCopyAction v) = Some v"
  "a_Type (makeDownloadAfterConflictCopyAction v) = ActionDownload"
  "a_Path (makeDownloadAfterConflictCopyAction v) = pv_Path v"
  "a_View (makeDownloadAfterConflictCopyAction v) = Some v"
  "a_Type (makeCreateUploadAction v) = ActionUpload" "a_Path (makeCreateUploadAction v) = pv_Path v"
  "a_View (makeCreateUploadAction v) = Some v"
  by (simp_all add: makeFolderCreate_def makeConflictCopyAction_def makeDownloadAfterConflictCopyAction_def
      makeCreateUploadAction_def)

lemma collect_results_Inr:
  "collect_results f xs = Inr ys \<Longrightarrow> y \<in> set ys \<longleftrightarrow> (\<exists>x \<in> set xs. \<exists>zs. f x = Inr zs \<and> y \<in> set zs)"
  by (induction xs arbitrary: ys) (auto split: sum.splits)

lemma collect_results_all_Inr:
  "(\<And>x. x \<in> set xs \<Longrightarrow> \<exists>zs. f x = Inr zs) \<Longrightarrow> \<exists>ys. collect_results f xs = Inr ys"
  by (induction xs) (auto split: sum.splits, metis Inl_Inr_False)

lemma collect_results_single:
  "collect_results (\<lambda>x. case g x of Inl e \<Rightarrow> Inl e | Inr v \<Rightarrow> Inr [v]) xs = Inr vs \<Longrightarrow>
     map g xs = map Inr vs"
  by (induction xs arbitrary: vs) (auto split: sum.splits)

section \<open>The preservation pass\<close>

text \<open>A delete carries the view of its own path, as every delete of the planner does.\<close>

definition delete_view_ok :: "action \<Rightarrow> bool" where
  "delete_view_ok a \<longleftrightarrow>
     (is_delete_type (a_Type a) \<longrightarrow> (case a_View a of None \<Rightarrow> True | Some v \<Rightarrow> pv_Path v = a_Path a))"

definition preserve_one :: "sync_mode \<Rightarrow> action list \<Rightarrow> action \<Rightarrow> action" where
  "preserve_one mode acts a =
     (if isFolderDelete a \<and> runnableSubtreeActionRequiresParent acts (a_Path a) mode then preserved_action a else a)"

definition needs_parent :: "sync_mode \<Rightarrow> action \<Rightarrow> bool" where
  "needs_parent mode a \<longleftrightarrow> actionAllowedInMode a mode \<and> actionRequiresParentFolder (a_Type a)"

lemma runnable_iff:
  "runnableSubtreeActionRequiresParent acts p mode \<longleftrightarrow> (\<exists>a \<in> set acts. below (a_Path a) p \<and> needs_parent mode a)"
  by (auto simp: runnableSubtreeActionRequiresParent_def needs_parent_def list_ex_iff)

lemma needs_parent_not_delete: "needs_parent mode a \<Longrightarrow> \<not> is_delete_type (a_Type a)"
  by (simp add: needs_parent_def actionRequiresParentFolder_def is_delete_type_def)

lemma preserve_one_not_delete: "\<not> is_delete_type (a_Type a) \<Longrightarrow> preserve_one mode acts a = a"
  by (simp add: preserve_one_def isFolderDelete_def)

lemma preserved_action_path: "delete_view_ok a \<Longrightarrow> isFolderDelete a \<Longrightarrow> a_Path (preserved_action a) = a_Path a"
  by (auto simp: preserved_action_def delete_view_ok_def isFolderDelete_def split: option.splits action_type.splits)

lemma preserve_one_needs_parent:
  assumes "delete_view_ok a" "needs_parent mode (preserve_one mode acts a)"
    "below (a_Path (preserve_one mode acts a)) p" "a \<in> set acts"
  shows "runnableSubtreeActionRequiresParent acts p mode"
proof (cases "isFolderDelete a \<and> runnableSubtreeActionRequiresParent acts (a_Path a) mode")
  case True
  then have "below (a_Path a) p"
    using assms(1,3) preserved_action_path [of a] by (simp add: preserve_one_def)
  with True show ?thesis unfolding runnable_iff by (meson below_trans)
next
  case False
  then have "preserve_one mode acts a = a" by (auto simp: preserve_one_def)
  with assms show ?thesis unfolding runnable_iff by auto
qed

lemma runnable_mixed:
  assumes "list_all delete_view_ok acts"
  shows "runnableSubtreeActionRequiresParent (map (preserve_one mode acts) (take k acts) @ drop k acts) p mode \<longleftrightarrow>
         runnableSubtreeActionRequiresParent acts p mode" (is "?l \<longleftrightarrow> ?r")
proof
  assume ?l
  then consider a where "a \<in> set (take k acts)" "below (a_Path (preserve_one mode acts a)) p"
      "needs_parent mode (preserve_one mode acts a)"
    | a where "a \<in> set (drop k acts)" "below (a_Path a) p" "needs_parent mode a"
    unfolding runnable_iff by auto
  then show ?r
  proof cases
    case 1
    then show ?thesis
      using preserve_one_needs_parent [of a mode acts p] assms in_set_takeD [of a k acts] by (simp add: list_all_iff)
  next
    case 2
    then show ?thesis using in_set_dropD [of a k acts] unfolding runnable_iff by auto
  qed
next
  assume ?r
  then obtain a where a: "a \<in> set acts" "below (a_Path a) p" "needs_parent mode a"
    unfolding runnable_iff by auto
  have "a \<in> set (map (preserve_one mode acts) (take k acts) @ drop k acts)"
  proof (cases "a \<in> set (drop k acts)")
    case True
    then show ?thesis by simp
  next
    case False
    with a(1) have "a \<in> set (take k acts)" by (metis append_take_drop_id Un_iff set_append)
    then show ?thesis
      using preserve_one_not_delete [OF needs_parent_not_delete [OF a(3)], of mode acts] by force
  qed
  with a(2,3) show ?l unfolding runnable_iff by blast
qed

lemma preserve_loop_spec:
  assumes "list_all delete_view_ok acts" "k \<le> length acts"
  shows "preserve_loop mode [k..<length acts] (map (preserve_one mode acts) (take k acts) @ drop k acts) =
         map (preserve_one mode acts) acts"
  using assms(2)
proof (induction "length acts - k" arbitrary: k)
  case 0
  then show ?case by simp
next
  case (Suc n)
  let ?f = "preserve_one mode acts" and ?cur = "\<lambda>k. map (preserve_one mode acts) (take k acts) @ drop k acts"
  from Suc have k: "k < length acts" by simp
  have at: "?cur k ! k = acts ! k" using k by (simp add: nth_append)
  have step: "?cur (Suc k) = (?cur k)[k := ?f (acts ! k)]"
    using k by (simp add: take_Suc_conv_app_nth list_update_append Cons_nth_drop_Suc [symmetric])
  have same: "(?cur k)[k := acts ! k] = ?cur k" using at by (metis list_update_id)
  have "preserve_loop mode [k..<length acts] (?cur k) = preserve_loop mode [Suc k..<length acts] (?cur (Suc k))"
    using k same by (auto simp: upt_conv_Cons at step runnable_mixed [OF assms(1)] preserve_one_def)
  also have "\<dots> = map ?f acts" using Suc k by simp
  finally show ?case .
qed

lemma preserve_is_map:
  assumes "list_all delete_view_ok acts"
  shows "preserveParentFoldersForRunnableDescendants acts mode = map (preserve_one mode acts) acts"
  using preserve_loop_spec [OF assms, of 0 mode] by (simp add: preserveParentFoldersForRunnableDescendants_def)

text \<open>
  C10: The preservation pass, which rewrites the action slice in place while it scans it, computes
  the same as a single simultaneous rewrite against the original list: an earlier rewrite
  never changes a later decision. Afterwards no local or remote folder delete has an action
  below it that runs in this mode and needs the folder to exist.
\<close>

theorem preserve_pass_correct:
  assumes "list_all delete_view_ok acts"
  shows "preserveParentFoldersForRunnableDescendants acts mode = map (preserve_one mode acts) acts \<and>
    list_all (\<lambda>a. a_Type a = ActionCleanup \<or> \<not> isFolderDelete a \<or>
        \<not> runnableSubtreeActionRequiresParent
            (preserveParentFoldersForRunnableDescendants acts mode) (a_Path a) mode)
      (preserveParentFoldersForRunnableDescendants acts mode)"
proof -
  let ?f = "preserve_one mode acts"
  have run: "runnableSubtreeActionRequiresParent (map ?f acts) p mode \<longleftrightarrow>
             runnableSubtreeActionRequiresParent acts p mode" for p
    using runnable_mixed [OF assms, of mode "length acts" p] by simp
  have "a_Type (?f a) = ActionCleanup \<or> \<not> isFolderDelete (?f a) \<or>
        \<not> runnableSubtreeActionRequiresParent acts (a_Path (?f a)) mode" if "a \<in> set acts" for a
    by (auto simp: preserve_one_def preserved_action_def isFolderDelete_def is_delete_type_def
        resolveItemType_def split: option.splits action_type.splits)
  then show ?thesis by (simp add: preserve_is_map [OF assms] list_all_iff run)
qed

end
