(* ===== verification/PlannerDeps.thy ===== *)
theory PlannerDeps
  imports Planner "HOL-Library.Multiset"
begin

text \<open>
  The dependency graph of a plan: \<^verbatim>\<open>buildDependencies\<close> and \<^verbatim>\<open>detectDependencyCycle\<close> of
  \<^verbatim>\<open>planner.go\<close>, and \<^verbatim>\<open>PlanCurrentState\<close> of \<^verbatim>\<open>planner_sqlite.go\<close>, which runs the
  whole planning pipeline. Node \<open>i\<close> of the graph is the action at index \<open>i\<close>; its list
  holds the indices it has to wait for. Go iterates the delete index in no fixed order: the
  order of its keys is an argument.
\<close>

section \<open>Building the graph\<close>

definition folder_create_key :: "action \<Rightarrow> string option" where
  "folder_create_key a = (if a_Type a = ActionFolderCreate then Some (a_Path a) else None)"

definition conflict_copy_key :: "action \<Rightarrow> string option" where
  "conflict_copy_key a = (if a_Type a = ActionConflictCopy then Some (a_Path a) else None)"

definition delete_key :: "action \<Rightarrow> string option" where
  "delete_key a = (if is_delete_type (a_Type a) then Some (a_Path a) else None)"

definition addParentFolderDep :: "nat list \<Rightarrow> nat \<Rightarrow> action \<Rightarrow> (string \<rightharpoonup> nat) \<Rightarrow> nat list" where
  "addParentFolderDep deps idx a folderCreateIdx =
     (let parentDir = path_dir (a_Path a) in
      if parentDir = ''.'' \<or> parentDir = '''' then deps
      else case folderCreateIdx parentDir of
             Some fcIdx \<Rightarrow> if fcIdx \<noteq> idx then deps @ [fcIdx] else deps
           | None \<Rightarrow> deps)"

definition addConflictCopyDep :: "nat list \<Rightarrow> nat \<Rightarrow> action \<Rightarrow> (string \<rightharpoonup> nat) \<Rightarrow> nat list" where
  "addConflictCopyDep deps idx a conflictCopyIdx =
     (if a_Type a \<noteq> ActionDownload then deps
      else case conflictCopyIdx (a_Path a) of
             Some copyIdx \<Rightarrow> if copyIdx \<noteq> idx then deps @ [copyIdx] else deps
           | None \<Rightarrow> deps)"

definition addChildDeleteDeps ::
  "string list \<Rightarrow> nat list \<Rightarrow> nat \<Rightarrow> action \<Rightarrow> (string \<rightharpoonup> nat) \<Rightarrow> nat list" where
  "addChildDeleteDeps order deps idx a deleteIdx =
     (if a_Type a \<noteq> ActionLocalDelete \<and> a_Type a \<noteq> ActionRemoteDelete then deps
      else if resolveItemType (a_View a) \<noteq> ItemTypeFolder then deps
      else deps @ List.map_filter
             (\<lambda>childPath. case deleteIdx childPath of
                None \<Rightarrow> None
              | Some childIdx \<Rightarrow> if childIdx \<noteq> idx \<and> below childPath (a_Path a) then Some childIdx else None)
             order)"

definition addRemoteMoveDeps :: "nat list \<Rightarrow> nat \<Rightarrow> action \<Rightarrow> action list \<Rightarrow> nat list" where
  "addRemoteMoveDeps deps idx a actions =
     (if a_Type a = ActionRemoteMove \<or> a_Type a = ActionLocalDelete \<or> a_Type a = ActionRemoteDelete \<or>
         a_Type a = ActionCleanup then deps
      else deps @ [moveIdx. moveIdx \<leftarrow> [0..<length actions],
             moveIdx \<noteq> idx \<and> a_Type (actions ! moveIdx) = ActionRemoteMove \<and>
             (a_Path (actions ! moveIdx) = a_Path a \<or>
              resolveItemType (a_View (actions ! moveIdx)) = ItemTypeFolder \<and>
              below (a_Path a) (a_Path (actions ! moveIdx)))])"

definition deps_of :: "string list \<Rightarrow> action list \<Rightarrow> nat \<Rightarrow> nat list" where
  "deps_of order actions i =
     (let a = actions ! i;
          d1 = addParentFolderDep [] i a (last_index_map folder_create_key actions);
          d2 = addConflictCopyDep d1 i a (last_index_map conflict_copy_key actions);
          d3 = addChildDeleteDeps order d2 i a (last_index_map delete_key actions);
          d4 = addRemoteMoveDeps d3 i a actions
      in sort d4)"

definition buildDependencies :: "string list \<Rightarrow> action list \<Rightarrow> nat list list" where
  "buildDependencies order actions = map (deps_of order actions) [0..<length actions]"

text \<open>The keys of the delete index, in one of the orders Go may iterate them.\<close>

definition delete_order :: "action list \<Rightarrow> string list" where
  "delete_order actions = remdups (List.map_filter delete_key actions)"

section \<open>Cycle detection\<close>

datatype color = White | Gray | Black

text \<open>
  The recursive closure \<^verbatim>\<open>dfs\<close> and its loop over the neighbours. A result is \<open>None\<close> when
  the fuel is used up or Go would panic on an index outside the slice; otherwise it says
  whether a back edge was found, with the colours after the call.
\<close>

fun dfs_neighbors ::
  "(color list \<Rightarrow> nat \<Rightarrow> (bool \<times> color list) option) \<Rightarrow> color list \<Rightarrow> nat list \<Rightarrow> (bool \<times> color list) option" where
  "dfs_neighbors visit col [] = Some (False, col)"
| "dfs_neighbors visit col (n # ns) =
     (if n \<ge> length col then None
      else case col ! n of
        Gray \<Rightarrow> Some (True, col)
      | White \<Rightarrow> (case visit col n of
                    None \<Rightarrow> None
                  | Some (True, c) \<Rightarrow> Some (True, c)
                  | Some (False, c) \<Rightarrow> dfs_neighbors visit c ns)
      | Black \<Rightarrow> dfs_neighbors visit col ns)"

fun dfs :: "nat \<Rightarrow> nat list list \<Rightarrow> color list \<Rightarrow> nat \<Rightarrow> (bool \<times> color list) option" where
  "dfs 0 deps col node = None"
| "dfs (Suc fuel) deps col node =
     (case dfs_neighbors (dfs fuel deps) (col[node := Gray]) (deps ! node) of
        None \<Rightarrow> None
      | Some (True, c) \<Rightarrow> Some (True, c)
      | Some (False, c) \<Rightarrow> Some (False, c[node := Black]))"

fun detect_loop :: "nat list list \<Rightarrow> color list \<Rightarrow> nat list \<Rightarrow> bool option" where
  "detect_loop deps col [] = Some False"
| "detect_loop deps col (i # is) =
     (if col ! i = White then
        (case dfs (length deps) deps col i of
           None \<Rightarrow> None
         | Some (True, c) \<Rightarrow> Some True
         | Some (False, c) \<Rightarrow> detect_loop deps c is)
      else detect_loop deps col is)"

text \<open>\<open>Some True\<close> is \<^verbatim>\<open>ErrDependencyCycle\<close>, \<open>Some False\<close> is \<^verbatim>\<open>nil\<close>.\<close>

definition detectDependencyCycle :: "nat list list \<Rightarrow> bool option" where
  "detectDependencyCycle deps = detect_loop deps (replicate (length deps) White) [0..<length deps]"

section \<open>Correctness of the cycle detection\<close>

definition edges :: "nat list list \<Rightarrow> (nat \<times> nat) set" where
  "edges deps = {(i, j). i < length deps \<and> j \<in> set (deps ! i)}"

definition in_range :: "nat list list \<Rightarrow> bool" where
  "in_range deps \<longleftrightarrow> list_all (list_all (\<lambda>j. j < length deps)) deps"

definition colors_ok :: "nat list list \<Rightarrow> color list \<Rightarrow> bool" where
  "colors_ok deps col \<longleftrightarrow>
     length col = length deps \<and>
     (\<forall>i < length deps. col ! i = Black \<longrightarrow>
        (\<forall>j \<in> set (deps ! i). col ! j = Black) \<and> (i, i) \<notin> (edges deps)\<^sup>+)"

definition evolves :: "color list \<Rightarrow> color list \<Rightarrow> bool" where
  "evolves col col' \<longleftrightarrow>
     length col' = length col \<and>
     (\<forall>i < length col. col' ! i = col ! i \<or> (col ! i = White \<and> col' ! i = Black))"

definition whites :: "color list \<Rightarrow> nat" where
  "whites col = card {i. i < length col \<and> col ! i = White}"

lemma edgesI: "i < length deps \<Longrightarrow> j \<in> set (deps ! i) \<Longrightarrow> (i, j) \<in> edges deps"
  by (simp add: edges_def)

lemma in_range_D: "in_range deps \<Longrightarrow> i < length deps \<Longrightarrow> j \<in> set (deps ! i) \<Longrightarrow> j < length deps"
  by (auto simp: in_range_def list_all_iff)

lemma evolves_refl [simp]: "evolves col col"
  by (simp add: evolves_def)

lemma evolves_trans: "evolves a b \<Longrightarrow> evolves b c \<Longrightarrow> evolves a c"
  unfolding evolves_def by (metis color.distinct(3))

lemma evolves_gray: "evolves a b \<Longrightarrow> i < length a \<Longrightarrow> b ! i = Gray \<longleftrightarrow> a ! i = Gray"
  unfolding evolves_def by (metis color.distinct(1,5))

lemma evolves_black: "evolves a b \<Longrightarrow> i < length a \<Longrightarrow> a ! i = Black \<Longrightarrow> b ! i = Black"
  unfolding evolves_def by (metis color.distinct(3))

lemma whites_evolves: "evolves a b \<Longrightarrow> whites b \<le> whites a"
  unfolding whites_def evolves_def by (rule card_mono) fastforce+

lemma whites_gray:
  assumes "i < length col" "col ! i = White"
  shows "whites col = Suc (whites (col[i := Gray]))"
proof -
  have "{j. j < length col \<and> col ! j = White} =
        insert i {j. j < length (col[i := Gray]) \<and> col[i := Gray] ! j = White}"
    using assms by (auto simp: nth_list_update)
  moreover have "i \<notin> {j. j < length (col[i := Gray]) \<and> col[i := Gray] ! j = White}"
    using assms by simp
  ultimately show ?thesis unfolding whites_def by (simp add: card_insert_disjoint)
qed

text \<open>What one visit achieves: it finds a cycle, or it blackens the node and nothing else changes to gray.\<close>

definition visit_result ::
  "nat list list \<Rightarrow> color list \<Rightarrow> nat list \<Rightarrow> (bool \<times> color list) option \<Rightarrow> bool" where
  "visit_result deps col ns res =
     (case res of
        None \<Rightarrow> False
      | Some (found, c) \<Rightarrow>
          if found then \<exists>i. (i, i) \<in> (edges deps)\<^sup>+
          else evolves col c \<and> colors_ok deps c \<and> (\<forall>j \<in> set ns. c ! j = Black))"

definition visit_ok :: "nat list list \<Rightarrow> nat \<Rightarrow> bool" where
  "visit_ok deps fuel \<longleftrightarrow>
     (\<forall>col node. node < length deps \<longrightarrow> col ! node = White \<longrightarrow> colors_ok deps col \<longrightarrow> whites col \<le> fuel \<longrightarrow>
        (\<forall>g < length deps. col ! g = Gray \<longrightarrow> (g, node) \<in> (edges deps)\<^sup>*) \<longrightarrow>
        visit_result deps col [node] (dfs fuel deps col node))"

lemma dfs_neighbors_ok:
  assumes "visit_ok deps fuel" "in_range deps" "node < length deps"
    and "set ns \<subseteq> set (deps ! node)" "colors_ok deps col" "whites col \<le> fuel"
    and "\<forall>g < length deps. col ! g = Gray \<longrightarrow> (g, node) \<in> (edges deps)\<^sup>*"
  shows "visit_result deps col ns (dfs_neighbors (dfs fuel deps) col ns)"
  using assms(4-7)
proof (induction ns arbitrary: col)
  case Nil
  then show ?case by (simp add: visit_result_def)
next
  case (Cons n ns)
  have n: "n < length deps" "(node, n) \<in> edges deps"
    using Cons.prems(1) in_range_D [OF assms(2,3)] edgesI [OF assms(3)] by auto
  have len: "length col = length deps" using Cons.prems(2) by (simp add: colors_ok_def)
  have lift: "visit_result deps col (n # ns) (dfs_neighbors (dfs fuel deps) c ns)"
    if "evolves col c" "colors_ok deps c" "c ! n = Black" for c
  proof -
    have "visit_result deps c ns (dfs_neighbors (dfs fuel deps) c ns)"
    proof (rule Cons.IH)
      show "whites c \<le> fuel" using whites_evolves [OF that(1)] Cons.prems(3) by simp
      show "\<forall>g < length deps. c ! g = Gray \<longrightarrow> (g, node) \<in> (edges deps)\<^sup>*"
        using Cons.prems(4) evolves_gray [OF that(1)] len by auto
    qed (use Cons.prems(1) that(2) in auto)
    then show ?thesis
      using that evolves_trans [OF that(1)] evolves_black [of c _ n] n(1) len
      by (auto simp: visit_result_def evolves_def split: option.splits if_splits)
  qed
  show ?case
  proof (cases "col ! n")
    case White
    have "visit_result deps col [n] (dfs fuel deps col n)"
      using assms(1) n White Cons.prems(2-4) by (auto simp: visit_ok_def intro: rtrancl_into_rtrancl)
    then obtain found c where r: "dfs fuel deps col n = Some (found, c)"
      and res: "if found then \<exists>i. (i, i) \<in> (edges deps)\<^sup>+ else evolves col c \<and> colors_ok deps c \<and> c ! n = Black"
      by (auto simp: visit_result_def split: option.splits)
    show ?thesis
    proof (cases found)
      case True
      then show ?thesis using White n len r res by (simp add: visit_result_def)
    next
      case False
      then show ?thesis using White n len r res lift [of c] by simp
    qed
  next
    case Gray
    then have "(n, n) \<in> (edges deps)\<^sup>+"
      using Cons.prems(4) n by (metis rtrancl_into_trancl1)
    then show ?thesis using Gray n len by (auto simp: visit_result_def)
  next
    case Black
    then show ?thesis using n len lift [of col] Cons.prems(2) by simp
  qed
qed

lemma trancl_closed:
  assumes "(i, j) \<in> R\<^sup>+" "\<And>x y. P x \<Longrightarrow> (x, y) \<in> R \<Longrightarrow> P y" "P i"
  shows "P j"
  using assms by (induction rule: trancl_induct) blast+

text \<open>Blackening a gray node all of whose successors are black keeps the invariant.\<close>

lemma colors_ok_blacken:
  assumes "colors_ok deps c" "node < length deps" "c ! node = Gray" "\<forall>j \<in> set (deps ! node). c ! j = Black"
    "in_range deps"
  shows "colors_ok deps (c[node := Black])"
proof -
  have len: "length c = length deps" using assms(1) by (simp add: colors_ok_def)
  have closed: "y < length deps \<and> c ! y = Black" if "x < length deps \<and> c ! x = Black" "(x, y) \<in> edges deps" for x y
    using that assms(1,5) in_range_D [of deps x y] by (auto simp: colors_ok_def edges_def)
  have "(node, node) \<notin> (edges deps)\<^sup>+"
  proof
    assume "(node, node) \<in> (edges deps)\<^sup>+"
    then obtain s where s: "(node, s) \<in> edges deps" "s = node \<or> (s, node) \<in> (edges deps)\<^sup>+"
      by (metis converse_tranclE)
    then have "s < length deps \<and> c ! s = Black"
      using assms(2,4,5) in_range_D [of deps node s] by (auto simp: edges_def)
    with s(2) have "c ! node = Black"
      using trancl_closed [of s node "edges deps" "\<lambda>x. x < length deps \<and> c ! x = Black"] closed by blast
    with assms(3) show False by simp
  qed
  moreover have "c[node := Black] ! j = (if j = node then Black else c ! j)" for j
    using assms(2) len by simp
  ultimately show ?thesis
    using assms(1,4) len by (auto simp: colors_ok_def)
qed

lemma colors_ok_gray:
  assumes "colors_ok deps col" "node < length deps" "col ! node = White"
  shows "colors_ok deps (col[node := Gray])"
proof -
  have len: "length col = length deps"
    and ok: "\<And>i. i < length deps \<Longrightarrow> col ! i = Black \<Longrightarrow>
          (\<forall>j \<in> set (deps ! i). col ! j = Black) \<and> (i, i) \<notin> (edges deps)\<^sup>+"
    using assms(1) by (auto simp: colors_ok_def)
  have at: "col[node := Gray] ! j = (if j = node then Gray else col ! j)" for j
    using assms(2) len by simp
  have "(\<forall>j \<in> set (deps ! i). col[node := Gray] ! j = Black) \<and> (i, i) \<notin> (edges deps)\<^sup>+"
    if "i < length deps" "col[node := Gray] ! i = Black" for i
  proof -
    have "col ! i = Black" using that(2) by (simp add: at split: if_splits)
    from ok [OF that(1) this] assms(3) show ?thesis by (auto simp: at)
  qed
  then show ?thesis using len unfolding colors_ok_def by simp
qed

lemma visit_ok_all: "in_range deps \<Longrightarrow> visit_ok deps fuel"
proof (induction fuel)
  case 0
  have "False" if "node < length deps" "col ! node = White" "colors_ok deps col" "whites col = 0" for col node
    using that whites_gray [of node col] by (simp add: colors_ok_def)
  then show ?case by (auto simp: visit_ok_def)
next
  case (Suc fuel)
  show ?case unfolding visit_ok_def
  proof (intro allI impI)
    fix col node
    assume node: "node < length deps" "col ! node = White" and ok: "colors_ok deps col"
      and w: "whites col \<le> Suc fuel"
      and g: "\<forall>g < length deps. col ! g = Gray \<longrightarrow> (g, node) \<in> (edges deps)\<^sup>*"
    let ?c = "col[node := Gray]"
    have len: "length col = length deps" using ok by (simp add: colors_ok_def)
    have "visit_result deps ?c (deps ! node) (dfs_neighbors (dfs fuel deps) ?c (deps ! node))"
      by (rule dfs_neighbors_ok [where node = node])
        (use Suc node ok w g len whites_gray [of node col] in \<open>auto simp: colors_ok_gray nth_list_update\<close>)
    then show "visit_result deps col [node] (dfs (Suc fuel) deps col node)"
    proof (cases "dfs_neighbors (dfs fuel deps) ?c (deps ! node)")
      case (Some res)
      obtain found c where res: "res = (found, c)" by force
      show ?thesis
      proof (cases found)
        case True
        then show ?thesis
          using \<open>visit_result deps ?c _ _\<close> Some res by (simp add: visit_result_def)
      next
        case False
        then have c: "evolves ?c c" "colors_ok deps c" "\<forall>j \<in> set (deps ! node). c ! j = Black"
          using \<open>visit_result deps ?c _ _\<close> Some res by (simp_all add: visit_result_def)
        then have gray: "c ! node = Gray" using evolves_gray [OF c(1), of node] node len by simp
        have "evolves col (c[node := Black])"
          using c(1) node len by (auto simp: evolves_def nth_list_update)
        moreover have "colors_ok deps (c[node := Black])"
          using colors_ok_blacken [OF c(2) node(1) gray c(3) Suc.prems] .
        moreover have "c[node := Black] ! node = Black"
          using c(2) node(1) by (simp add: colors_ok_def)
        ultimately show ?thesis using Some res False by (simp add: visit_result_def)
      qed
    qed (simp add: visit_result_def)
  qed
qed

lemma detect_loop_ok:
  assumes "in_range deps" "colors_ok deps col" "Gray \<notin> set col" "set is \<subseteq> {0..<length deps}"
    and "\<forall>i < length deps. i \<in> set is \<or> col ! i = Black"
  shows "detect_loop deps col is = Some (\<exists>i. (i, i) \<in> (edges deps)\<^sup>+)"
  using assms(2-5)
proof (induction "is" arbitrary: col)
  case Nil
  have "(i, i) \<notin> (edges deps)\<^sup>+" if "i < length deps" for i
  proof -
    have "col ! i = Black" using Nil.prems(4) that by simp
    then show ?thesis using Nil.prems(1) that by (simp add: colors_ok_def)
  qed
  moreover have "i < length deps" if "(i, i) \<in> (edges deps)\<^sup>+" for i
    using tranclD [OF that] by (auto simp: edges_def)
  ultimately show ?case by auto
next
  case (Cons i "is")
  have i: "i < length deps" and len: "length col = length deps"
    using Cons.prems(1,3) by (simp_all add: colors_ok_def)
  have gray: "col ! g \<noteq> Gray" if "g < length deps" for g
  proof -
    have "col ! g \<in> set col" using that len by simp
    with Cons.prems(2) show ?thesis by auto
  qed
  show ?case
  proof (cases "col ! i = White")
    case False
    then have "col ! i = Black" using gray [OF i] by (cases "col ! i") simp_all
    then have "\<forall>j < length deps. j \<in> set is \<or> col ! j = Black" using Cons.prems(4) by auto
    then show ?thesis using False Cons.IH [OF Cons.prems(1,2)] Cons.prems(3) by simp
  next
    case True
    have "whites col \<le> card {0..<length col}" unfolding whites_def by (rule card_mono) auto
    then have w: "whites col \<le> length deps" using len by simp
    have "visit_result deps col [i] (dfs (length deps) deps col i)"
      using visit_ok_all [OF assms(1), of "length deps"] i True Cons.prems(1) w gray by (simp add: visit_ok_def)
    then obtain found c where r: "dfs (length deps) deps col i = Some (found, c)"
      and res: "if found then \<exists>i. (i, i) \<in> (edges deps)\<^sup>+ else evolves col c \<and> colors_ok deps c \<and> c ! i = Black"
      by (auto simp: visit_result_def split: option.splits)
    show ?thesis
    proof (cases found)
      case True
      then show ?thesis using \<open>col ! i = White\<close> r res by simp
    next
      case False
      then have c: "evolves col c" "colors_ok deps c" "c ! i = Black" using res by auto
      have "Gray \<notin> set c"
      proof
        assume "Gray \<in> set c"
        then obtain g where "g < length c" "c ! g = Gray" by (auto simp: in_set_conv_nth)
        then show False using evolves_gray [OF c(1), of g] gray [of g] c(1) len by (simp add: evolves_def)
      qed
      moreover have "\<forall>j < length deps. j \<in> set is \<or> c ! j = Black"
        using Cons.prems(4) c(3) evolves_black [OF c(1)] by (auto simp: len)
      ultimately have "detect_loop deps c is = Some (\<exists>i. (i, i) \<in> (edges deps)\<^sup>+)"
        using Cons.IH [OF c(2)] Cons.prems(3) by simp
      then show ?thesis using \<open>col ! i = White\<close> r False by simp
    qed
  qed
qed

lemma detect_correct:
  assumes "in_range deps"
  shows "detectDependencyCycle deps = Some (\<exists>i. (i, i) \<in> (edges deps)\<^sup>+)"
  unfolding detectDependencyCycle_def
  by (rule detect_loop_ok [OF assms]) (auto simp: colors_ok_def)

text \<open>
  The three-colour depth-first search terminates on every graph whose indices are in range
  and answers exactly whether the graph has a cycle: it reports an error if and only if some
  action transitively depends on itself. It never indexes outside the colour slice.
\<close>

theorem detectDependencyCycle_correct:
  assumes "in_range deps"
  shows "\<exists>r. detectDependencyCycle deps = Some r \<and> (r \<longleftrightarrow> \<not> acyclic (edges deps))"
  using detect_correct [OF assms] by (auto simp: acyclic_def)

theorem detectDependencyCycle_correct_witness:
  "in_range [[1], [2], [0], []] \<and> detectDependencyCycle [[1], [2], [0], []] = Some True \<and>
   \<not> acyclic (edges [[1], [2], [0], []]) \<and>
   in_range [[1, 2], [2], []] \<and> acyclic (edges [[1, 2], [2], []])"
proof -
  have a: "in_range [[1], [2], [0], []]" "in_range [[1, 2], [2], []]" by code_simp+
  have b: "detectDependencyCycle [[1], [2], [0], []] = Some True"
    "detectDependencyCycle [[1, 2], [2], []] = Some False" by code_simp+
  show ?thesis
    using detectDependencyCycle_correct [OF a(1)] detectDependencyCycle_correct [OF a(2)] a b by auto
qed

section \<open>The edges of a plan\<close>

lemma last_index_map_Some:
  assumes "last_index_map key xs k = Some i"
  shows "i < length xs" "key (xs ! i) = Some k"
proof -
  have "fold (\<lambda>i m. case key (xs ! i) of None \<Rightarrow> m | Some k \<Rightarrow> m(k \<mapsto> i)) is m k = Some i \<Longrightarrow>
      m k = Some i \<or> (i \<in> set is \<and> key (xs ! i) = Some k)" for m "is"
    by (induction "is" arbitrary: m) (fastforce split: option.splits if_splits)+
  from this [of "[0..<length xs]" Map.empty] assms
  show "i < length xs" "key (xs ! i) = Some k" by (auto simp: last_index_map_def)
qed

text \<open>Where an edge of the plan graph comes from, rule by rule.\<close>

inductive dep_reason :: "action \<Rightarrow> action \<Rightarrow> bool" where
  parent_folder: "a_Type b = ActionFolderCreate \<Longrightarrow> a_Path b = path_dir (a_Path a) \<Longrightarrow>
    path_dir (a_Path a) \<noteq> ''.'' \<Longrightarrow> path_dir (a_Path a) \<noteq> '''' \<Longrightarrow> dep_reason a b"
| conflict_copy: "a_Type a = ActionDownload \<Longrightarrow> a_Type b = ActionConflictCopy \<Longrightarrow> a_Path b = a_Path a \<Longrightarrow> dep_reason a b"
| child_delete: "a_Type a = ActionLocalDelete \<or> a_Type a = ActionRemoteDelete \<Longrightarrow>
    resolveItemType (a_View a) = ItemTypeFolder \<Longrightarrow> is_delete_type (a_Type b) \<Longrightarrow>
    below (a_Path b) (a_Path a) \<Longrightarrow> dep_reason a b"
| remote_move: "\<not> is_delete_type (a_Type a) \<Longrightarrow> a_Type a \<noteq> ActionRemoteMove \<Longrightarrow> a_Type b = ActionRemoteMove \<Longrightarrow>
    a_Path b = a_Path a \<or> (resolveItemType (a_View b) = ItemTypeFolder \<and> below (a_Path a) (a_Path b)) \<Longrightarrow>
    dep_reason a b"

inductive_cases dep_reasonE: "dep_reason a b"

lemma deps_of_D:
  assumes "j \<in> set (deps_of order acts i)"
  shows "j < length acts" "j \<noteq> i" "dep_reason (acts ! i) (acts ! j)"
proof -
  let ?a = "acts ! i"
  consider
    (p) "last_index_map folder_create_key acts (path_dir (a_Path ?a)) = Some j"
        "path_dir (a_Path ?a) \<noteq> ''.''" "path_dir (a_Path ?a) \<noteq> ''''" "j \<noteq> i"
  | (c) "a_Type ?a = ActionDownload" "last_index_map conflict_copy_key acts (a_Path ?a) = Some j" "j \<noteq> i"
  | (d) q where "a_Type ?a = ActionLocalDelete \<or> a_Type ?a = ActionRemoteDelete"
        "resolveItemType (a_View ?a) = ItemTypeFolder" "last_index_map delete_key acts q = Some j"
        "j \<noteq> i" "below q (a_Path ?a)"
  | (m) "\<not> is_delete_type (a_Type ?a)" "a_Type ?a \<noteq> ActionRemoteMove" "j < length acts" "j \<noteq> i"
        "a_Type (acts ! j) = ActionRemoteMove"
        "a_Path (acts ! j) = a_Path ?a \<or>
           (resolveItemType (a_View (acts ! j)) = ItemTypeFolder \<and> below (a_Path ?a) (a_Path (acts ! j)))"
    using assms
    by (auto simp: deps_of_def Let_def addParentFolderDep_def addConflictCopyDep_def addChildDeleteDeps_def
        addRemoteMoveDeps_def is_delete_type_def map_filter_set split: if_splits option.splits)
  then have "j < length acts \<and> j \<noteq> i \<and> dep_reason ?a (acts ! j)"
  proof cases
    case p
    then show ?thesis using last_index_map_Some [OF p(1)] parent_folder [of "acts ! j" ?a]
      by (simp add: folder_create_key_def split: if_splits)
  next
    case c
    then show ?thesis using last_index_map_Some [OF c(2)] conflict_copy [of ?a "acts ! j"]
      by (simp add: conflict_copy_key_def split: if_splits)
  next
    case d
    then show ?thesis using last_index_map_Some [OF d(3)] child_delete [of ?a "acts ! j"]
      by (simp add: delete_key_def split: if_splits)
  next
    case m
    then show ?thesis using remote_move [of ?a "acts ! j"] by simp
  qed
  then show "j < length acts" "j \<noteq> i" "dep_reason ?a (acts ! j)" by blast+
qed

section \<open>A plan is acyclic\<close>

text \<open>
  A rank that every edge lowers: creations and edits by path length, with a remote move
  before a conflict copy before everything else at one path; deletes above all of them, longer
  paths first.
\<close>

definition type_rank :: "action_type \<Rightarrow> nat" where
  "type_rank t = (if t = ActionRemoteMove then 0 else if t = ActionConflictCopy then 1 else 2)"

definition dep_rank :: "nat \<Rightarrow> action \<Rightarrow> nat" where
  "dep_rank M a =
     (if is_delete_type (a_Type a) then 3 * M + 3 + (M - length (a_Path a))
      else 3 * length (a_Path a) + type_rank (a_Type a))"

lemma dep_rank_decreases:
  assumes "dep_reason a b" "a_Path a \<noteq> ''/''" "length (a_Path a) \<le> M" "length (a_Path b) \<le> M"
  shows "dep_rank M b < dep_rank M a"
  using assms(1)
proof (cases rule: dep_reason.cases)
  case parent_folder
  have "length (a_Path b) < length (a_Path a)"
    using path_dir_shorter [of "a_Path a"] parent_folder assms(2) by simp
  then show ?thesis
    using parent_folder assms(3,4) by (auto simp: dep_rank_def type_rank_def is_delete_type_def)
next
  case conflict_copy
  then show ?thesis by (simp add: dep_rank_def type_rank_def is_delete_type_def)
next
  case child_delete
  then have "length (a_Path a) < length (a_Path b)" using below_length by blast
  then show ?thesis
    using child_delete assms(3,4) by (auto simp: dep_rank_def is_delete_type_def)
next
  case remote_move
  then have "length (a_Path b) \<le> length (a_Path a)" "a_Path b = a_Path a \<or> length (a_Path b) < length (a_Path a)"
    using below_length [of "a_Path a" "a_Path b"] by auto
  then show ?thesis
    using remote_move by (auto simp: dep_rank_def type_rank_def is_delete_type_def)
qed

lemma buildDependencies_edges:
  "(i, j) \<in> edges (buildDependencies order acts) \<Longrightarrow>
     i < length acts \<and> j < length acts \<and> j \<noteq> i \<and> dep_reason (acts ! i) (acts ! j)"
  using deps_of_D [of j order acts i] by (auto simp: edges_def buildDependencies_def)

lemma buildDependencies_in_range: "in_range (buildDependencies order acts)"
  using deps_of_D(1) by (auto simp: in_range_def buildDependencies_def list_all_iff)

lemma buildDependencies_acyclic:
  assumes "list_all (\<lambda>a. a_Path a \<noteq> ''/'') acts"
  shows "acyclic (edges (buildDependencies order acts))"
proof -
  let ?M = "Max (insert 0 ((\<lambda>a. length (a_Path a)) ` set acts))"
  have M: "length (a_Path (acts ! i)) \<le> ?M" if "i < length acts" for i
    using that by (auto intro!: Max_ge)
  have "edges (buildDependencies order acts) \<subseteq> (measure (\<lambda>i. dep_rank ?M (acts ! i)))\<inverse>"
  proof
    fix e assume e: "e \<in> edges (buildDependencies order acts)"
    obtain i j where ij: "e = (i, j)" by force
    have "i < length acts" "j < length acts" "dep_reason (acts ! i) (acts ! j)"
      using buildDependencies_edges e ij by blast+
    moreover from this(1) have "a_Path (acts ! i) \<noteq> ''/''" using assms by (simp add: list_all_length)
    ultimately show "e \<in> (measure (\<lambda>i. dep_rank ?M (acts ! i)))\<inverse>"
      using dep_rank_decreases [of "acts ! i" "acts ! j" ?M] M ij by simp
  qed
  moreover have "acyclic ((measure (\<lambda>i. dep_rank ?M (acts ! i)))\<inverse>)"
    by (simp add: wf_acyclic)
  ultimately show ?thesis using acyclic_subset by blast
qed

text \<open>
  C9: Every plan the dependency builder makes is acyclic: for any list of actions none of which is
  at the path \<^verbatim>\<open>/\<close> (paths are relative to the sync root), the dependencies are in range, no
  action depends on itself, the graph has no cycle, and the cycle check accepts it. The
  \<^verbatim>\<open>ErrDependencyCycle\<close> branch of the planner is unreachable for such plans.
\<close>

theorem plan_dependencies_acyclic:
  assumes "list_all (\<lambda>a. a_Path a \<noteq> ''/'') acts"
  shows "in_range (buildDependencies order acts) \<and> irrefl (edges (buildDependencies order acts)) \<and>
    acyclic (edges (buildDependencies order acts)) \<and>
    detectDependencyCycle (buildDependencies order acts) = Some False"
  using buildDependencies_acyclic [OF assms] buildDependencies_edges [of _ _ order acts]
    detect_correct [OF buildDependencies_in_range, of order acts] buildDependencies_in_range
  by (auto simp: acyclic_def irrefl_def)

lemma sort_mset_cong: "mset xs = mset ys \<Longrightarrow> sort xs = sort ys"
  by (rule properties_for_sort) simp_all

text \<open>
  The dependency lists do not depend on the order in which Go iterates the delete index: any
  two enumerations of its keys give the same plan, because the lists are sorted.
\<close>

theorem dependencies_deterministic:
  assumes "mset order = mset order'"
  shows "buildDependencies order acts = buildDependencies order' acts"
proof -
  have mf: "mset (List.map_filter f order) = mset (List.map_filter f order')" for f :: "string \<Rightarrow> nat option"
    unfolding List.map_filter_def mset_map mset_filter assms ..
  have "deps_of order acts i = deps_of order' acts i" for i
    unfolding deps_of_def Let_def addChildDeleteDeps_def addRemoteMoveDeps_def
    by (rule sort_mset_cong) (simp add: mf)
  then show ?thesis by (simp add: buildDependencies_def)
qed

section \<open>The planning pipeline\<close>

definition PlanCurrentState ::
  "comparison_row list \<Rightarrow> reconciliation_row list \<Rightarrow> local_state_row list \<Rightarrow> remote_state_row list \<Rightarrow>
   observation_issue_row list \<Rightarrow> baseline \<Rightarrow> planner_mount_context \<Rightarrow> sync_mode \<Rightarrow> plan_error + action_plan" where
  "PlanCurrentState comparisons reconciliations localRows remoteRows observationIssues bl mount mode =
     (let truthStatusByPath =
            StatusByPath (NewTruthAvailabilityIndex observationIssues) (comparisonPaths comparisons)
      in case buildSQLitePathViews comparisons localRows remoteRows bl truthStatusByPath of
           Inl e \<Rightarrow> Inl e
         | Inr (views, comparisonByPath) \<Rightarrow>
           (case actions_for_rows reconciliations comparisonByPath views of
              Inl e \<Rightarrow> Inl e
            | Inr allActions \<Rightarrow>
              (case partitionCurrentActionsForMode (normalizeCurrentPlanActions allActions mode) mode of
                 (admitted0, deferred) \<Rightarrow>
                   (let admitted = bindMountContext admitted0 mount;
                        deps = buildDependencies (delete_order admitted) admitted
                    in if detectDependencyCycle deps = Some True then Inl ErrDependencyCycle
                       else Inr \<lparr>ap_Actions = admitted, ap_Deps = deps, ap_DeferredByMode = deferred\<rparr>))))"

section \<open>Partition by direction\<close>

lemma partition_loop_eq:
  "partition_loop mode admitted deferred as =
     (admitted @ filter (\<lambda>a. actionAllowedInMode a mode) as,
      fold (\<lambda>a d. deferred_AddAction d a) (filter (\<lambda>a. \<not> actionAllowedInMode a mode) as) deferred)"
  by (induction mode admitted deferred as rule: partition_loop.induct) auto

lemma deferred_Total_fold:
  "deferred_Total (fold (\<lambda>a d. deferred_AddAction d a) as d) =
     deferred_Total d +
     length (filter (\<lambda>a. a_Type a \<notin> {ActionConflictCopy, ActionBaselineUpdate, ActionCleanup}) as)"
  by (induction as arbitrary: d) (auto simp: deferred_Total_AddAction)

text \<open>
  The direction split loses nothing: the admitted actions are, in order, those the mode allows,
  every other action is counted as deferred in exactly one class except conflict copies
  (which only upload-only mode holds back and does not count), and in bidirectional mode
  nothing is deferred.
\<close>

theorem partition_complete:
  "fst (partitionCurrentActionsForMode acts mode) = filter (\<lambda>a. actionAllowedInMode a mode) acts \<and>
   length (fst (partitionCurrentActionsForMode acts mode)) +
     deferred_Total (snd (partitionCurrentActionsForMode acts mode)) +
     length (filter (\<lambda>a. a_Type a = ActionConflictCopy \<and> mode = SyncUploadOnly) acts) = length acts \<and>
   partitionCurrentActionsForMode acts SyncBidirectional = (acts, zero_deferred)"
proof -
  have all: "actionAllowedInMode a SyncBidirectional" for a
    by (simp add: actionAllowedInMode_def split: action_type.splits folder_create_side.splits)
  have allowed: "\<not> actionAllowedInMode a mode \<Longrightarrow> a_Type a \<notin> {ActionBaselineUpdate, ActionCleanup}" for a
    by (auto simp: actionAllowedInMode_def)
  have cc: "a_Type a = ActionConflictCopy \<Longrightarrow> \<not> actionAllowedInMode a mode \<longleftrightarrow> mode = SyncUploadOnly" for a
    by (simp add: actionAllowedInMode_def)
  have "length (filter (\<lambda>a. actionAllowedInMode a mode) acts) +
      length (filter (\<lambda>a. a_Type a \<notin> {ActionConflictCopy, ActionBaselineUpdate, ActionCleanup})
                (filter (\<lambda>a. \<not> actionAllowedInMode a mode) acts)) +
      length (filter (\<lambda>a. a_Type a = ActionConflictCopy \<and> mode = SyncUploadOnly) acts) = length acts"
  proof (induction acts)
    case (Cons a as)
    then show ?case using allowed [of a] cc [of a] by auto
  qed simp
  then show ?thesis
    by (simp add: partitionCurrentActionsForMode_def partition_loop_eq deferred_Total_fold zero_deferred_def
        deferred_Total_def [of zero_deferred] all) (simp add: deferred_Total_def)
qed

section \<open>Where the actions of a plan come from\<close>

lemma path_view_for_D:
  assumes "path_view_for lm rm bl ts row = Inr v"
  shows "pv_Path v = cr_Path row" "ts (cr_Path row) = Some (pv_TruthStatus v)"
  using assms by (auto simp: path_view_for_def split: option.splits sum.splits)

lemma buildSQLitePathViews_D:
  assumes "buildSQLitePathViews cs ls rs bl ts = Inr (views, cmps)" "views p = Some v"
  shows "pv_Path v = p" "ts p = Some (pv_TruthStatus v)"
proof -
  obtain vs where vs: "map (path_view_for (index_by lr_Path ls) (index_by rr_Path rs) bl ts) cs = map Inr vs"
    and views: "views = index_by pv_Path vs"
    using assms(1) collect_results_single [of "path_view_for (index_by lr_Path ls) (index_by rr_Path rs) bl ts" cs]
    by (auto simp: buildSQLitePathViews_def split: sum.splits)
  have v: "v \<in> set vs" "pv_Path v = p" using index_by_Some [of pv_Path vs p v] assms(2) views by auto
  then have "Inr v \<in> path_view_for (index_by lr_Path ls) (index_by rr_Path rs) bl ts ` set cs"
    using arg_cong [OF vs, of set] by auto
  then obtain row where row: "path_view_for (index_by lr_Path ls) (index_by rr_Path rs) bl ts row = Inr v"
    by force
  show "pv_Path v = p" by (rule v(2))
  show "ts p = Some (pv_TruthStatus v)" using path_view_for_D [OF row] v(2) by simp
qed

text \<open>One row: which actions it yields.\<close>

lemma row_action_delete:
  assumes "buildActionsForReconciliation rec cmp views = Inr acts" "a \<in> set acts" "is_delete_type (a_Type a)"
  obtains view where "views (rc_Path rec) = Some view" "a_View a = Some view" "a_Path a = pv_Path view"
    "\<not> plannerSuppressesUnavailableTruth (Some (pv_TruthStatus view))"
    "(a_Type a, rc_ReconciliationKind rec) \<in>
       {(ActionLocalDelete, RLocalDelete), (ActionRemoteDelete, RRemoteDelete), (ActionCleanup, RBaselineRemove)}"
  using assms
  by (auto simp: buildActionsForReconciliation_def buildLocalMoveReconciliationActions_def
      buildRemoteMoveReconciliationActions_def localMoveContentUpdateAfterMove_def is_delete_type_def
      split: option.splits if_splits reconciliation_kind.splits)

lemma rows_action_delete:
  assumes "buildSQLitePathViews cs ls rs bl ts = Inr (views, cmps)" "actions_for_rows recs cmps views = Inr acts"
    "a \<in> set acts" "is_delete_type (a_Type a)"
  obtains rec view where "rec \<in> set recs" "a_View a = Some view" "a_Path a = rc_Path rec" "pv_Path view = rc_Path rec"
    "ts (rc_Path rec) = Some (pv_TruthStatus view)"
    "\<not> plannerSuppressesUnavailableTruth (Some (pv_TruthStatus view))"
    "(a_Type a, rc_ReconciliationKind rec) \<in>
       {(ActionLocalDelete, RLocalDelete), (ActionRemoteDelete, RRemoteDelete), (ActionCleanup, RBaselineRemove)}"
proof -
  obtain rec cmp zs where rec: "rec \<in> set recs" "buildActionsForReconciliation rec cmp views = Inr zs" "a \<in> set zs"
    using assms(2,3) collect_results_Inr by (fastforce simp: actions_for_rows_def split: option.splits)
  obtain view where v: "views (rc_Path rec) = Some view" "a_View a = Some view" "a_Path a = pv_Path view"
    "\<not> plannerSuppressesUnavailableTruth (Some (pv_TruthStatus view))"
    "(a_Type a, rc_ReconciliationKind rec) \<in>
       {(ActionLocalDelete, RLocalDelete), (ActionRemoteDelete, RRemoteDelete), (ActionCleanup, RBaselineRemove)}"
    using row_action_delete [OF rec(2,3) assms(4)] .
  show ?thesis
    using that [OF rec(1) v(2)] v buildSQLitePathViews_D [OF assms(1) v(1)] by simp
qed

lemma rows_delete_view_ok:
  assumes "buildSQLitePathViews cs ls rs bl ts = Inr (views, cmps)" "actions_for_rows recs cmps views = Inr acts"
  shows "list_all delete_view_ok acts"
  unfolding list_all_iff delete_view_ok_def
proof (intro ballI impI)
  fix a assume "a \<in> set acts" "is_delete_type (a_Type a)"
  then show "case a_View a of None \<Rightarrow> True | Some v \<Rightarrow> pv_Path v = a_Path a"
    by (rule rows_action_delete [OF assms]) simp
qed

lemma omit_subset: "set (omitDescendantRemoteMoveActionsCoveredByGraphFolderMoves acts) \<subseteq> set acts"
  by (auto simp: omitDescendantRemoteMoveActionsCoveredByGraphFolderMoves_def Let_def)

lemma preserve_one_delete:
  "is_delete_type (a_Type (preserve_one mode acts a)) \<Longrightarrow> preserve_one mode acts a = a"
  by (auto simp: preserve_one_def preserved_action_def is_delete_type_def isFolderDelete_def resolveItemType_def
      split: option.splits action_type.splits)

lemma normalize_delete:
  assumes "list_all delete_view_ok acts" "a \<in> set (normalizeCurrentPlanActions acts mode)" "is_delete_type (a_Type a)"
  shows "a \<in> set acts"
proof -
  let ?o = "omitDescendantRemoteMoveActionsCoveredByGraphFolderMoves acts"
  have "list_all delete_view_ok ?o" using assms(1) omit_subset by (auto simp: list_all_iff)
  then obtain b where "b \<in> set ?o" "a = preserve_one mode ?o b"
    using assms(2) by (auto simp: normalizeCurrentPlanActions_def preserve_is_map)
  with preserve_one_delete [of mode ?o b] assms(3) omit_subset show ?thesis by auto
qed

lemma bindMountContext_mem:
  "a \<in> set (bindMountContext as mount) \<Longrightarrow>
     \<exists>b \<in> set as. a_Type a = a_Type b \<and> a_Path a = a_Path b \<and> a_View a = a_View b"
  by (auto simp: bindMountContext_def)

lemma PlanCurrentState_Inr:
  assumes "PlanCurrentState cs recs ls rs issues bl mount mode = Inr plan"
  obtains views cmps acts where
    "buildSQLitePathViews cs ls rs bl (StatusByPath (NewTruthAvailabilityIndex issues) (comparisonPaths cs)) = Inr (views, cmps)"
    "actions_for_rows recs cmps views = Inr acts"
    "ap_Actions plan = bindMountContext (filter (\<lambda>a. actionAllowedInMode a mode) (normalizeCurrentPlanActions acts mode)) mount"
    "ap_Deps plan = buildDependencies (delete_order (ap_Actions plan)) (ap_Actions plan)"
  using assms
  by (auto simp: PlanCurrentState_def Let_def partitionCurrentActionsForMode_def partition_loop_eq
      split: sum.splits prod.splits if_splits)

lemma plan_delete_origin:
  assumes "PlanCurrentState cs recs ls rs issues bl mount mode = Inr plan" "a \<in> set (ap_Actions plan)"
    "is_delete_type (a_Type a)"
  obtains rec where "rec \<in> set recs" "a_Path a = rc_Path rec"
    "\<not> plannerSuppressesUnavailableTruth (Some (StatusForPath (NewTruthAvailabilityIndex issues) (a_Path a)))"
    "(a_Type a, rc_ReconciliationKind rec) \<in>
       {(ActionLocalDelete, RLocalDelete), (ActionRemoteDelete, RRemoteDelete), (ActionCleanup, RBaselineRemove)}"
proof -
  let ?ts = "StatusByPath (NewTruthAvailabilityIndex issues) (comparisonPaths cs)"
  obtain views cmps acts where
    v: "buildSQLitePathViews cs ls rs bl ?ts = Inr (views, cmps)" and
    r: "actions_for_rows recs cmps views = Inr acts" and
    p: "ap_Actions plan = bindMountContext (filter (\<lambda>a. actionAllowedInMode a mode) (normalizeCurrentPlanActions acts mode)) mount"
    using PlanCurrentState_Inr [OF assms(1)] .
  obtain b where b: "b \<in> set (normalizeCurrentPlanActions acts mode)" "a_Type a = a_Type b" "a_Path a = a_Path b"
    using bindMountContext_mem assms(2) unfolding p by fastforce
  have "b \<in> set acts" "is_delete_type (a_Type b)"
    using normalize_delete [OF rows_delete_view_ok [OF v r] b(1)] b(2) assms(3) by auto
  then obtain rec and view :: path_view where rec: "rec \<in> set recs" "a_Path b = rc_Path rec"
    "?ts (rc_Path rec) = Some (pv_TruthStatus view)"
    "\<not> plannerSuppressesUnavailableTruth (Some (pv_TruthStatus view))"
    "(a_Type b, rc_ReconciliationKind rec) \<in>
       {(ActionLocalDelete, RLocalDelete), (ActionRemoteDelete, RRemoteDelete), (ActionCleanup, RBaselineRemove)}"
    by (rule rows_action_delete [OF v r]) blast
  from rec(3) have "pv_TruthStatus view = StatusForPath (NewTruthAvailabilityIndex issues) (rc_Path rec)"
    by (simp add: StatusByPath_apply split: if_splits)
  with rec b that show ?thesis by metis
qed

end
