(* ===== verification/PlanSafety.thy ===== *)
theory PlanSafety
  imports PlannerDeps
begin

text \<open>
  Planning end to end: from the three tables, through the two structural queries, to the plan
  of \<^verbatim>\<open>PlanCurrentState\<close>. The planner reads the same snapshot the queries ran on
  (\<^verbatim>\<open>engine_current_plan.go\<close> loads the rows and the baseline cache and then calls the
  planner): the local and remote rows are the scanned tables, and the baseline cache holds an
  entry exactly for the paths of the baseline table.
\<close>

text \<open>A call of the planner on the snapshot of a database.\<close>

definition plan_of ::
  "sync_tables \<Rightarrow> drive_id \<Rightarrow> baseline \<Rightarrow> observation_issue_row list \<Rightarrow> planner_mount_context \<Rightarrow> sync_mode \<Rightarrow>
   (plan_error + action_plan) option" where
  "plan_of t d bl issues mount mode =
     (case (queryComparisonState t, queryReconciliationState t) of
        (Some cs, Some rs) \<Rightarrow>
          Some (PlanCurrentState cs rs (map scan_local_row (st_local t)) (map (scan_remote_row d) (st_remote t))
                  issues bl mount mode)
      | _ \<Rightarrow> None)"

definition cache_covers :: "baseline \<Rightarrow> sync_tables \<Rightarrow> bool" where
  "cache_covers bl t \<longleftrightarrow> list_all (\<lambda>b. bl_GetByPath bl (sb_path b) \<noteq> None) (st_baseline t)"

definition relative_path :: "string \<Rightarrow> bool" where
  "relative_path p \<longleftrightarrow> p \<noteq> '''' \<and> p \<noteq> ''/''"

section \<open>Deletes\<close>

lemma planned_delete_rows:
  assumes "unique_paths t" "plan_of t d bl issues mount mode = Some (Inr plan)" "a \<in> set (ap_Actions plan)"
  shows "(a_Type a = ActionLocalDelete \<longrightarrow>
            (\<exists>b l. baseline_row_at t (a_Path a) = Some b \<and> local_row_at t (a_Path a) = Some l \<and>
               \<not> local_changed (Some b) (Some l) \<and> remote_row_at t (a_Path a) = None)) \<and>
         (a_Type a = ActionRemoteDelete \<longrightarrow>
            (\<exists>b r. baseline_row_at t (a_Path a) = Some b \<and> remote_row_at t (a_Path a) = Some r \<and>
               \<not> remote_changed (Some b) (Some r) \<and> local_row_at t (a_Path a) = None)) \<and>
         (is_delete_type (a_Type a) \<longrightarrow>
            \<not> side_blocked sk_IsPermLocalRead observationIssueBlocksLocalTruth issues (a_Path a) \<and>
            \<not> side_blocked sk_IsPermRemoteRead observationIssueBlocksRemoteTruth issues (a_Path a))"
proof (cases "is_delete_type (a_Type a)")
  case False
  then show ?thesis by (auto simp: is_delete_type_def)
next
  case True
  obtain cs rs where q: "queryReconciliationState t = Some rs" and
    p: "PlanCurrentState cs rs (map scan_local_row (st_local t)) (map (scan_remote_row d) (st_remote t))
          issues bl mount mode = Inr plan"
    using assms(2) by (auto simp: plan_of_def split: option.splits)
  obtain rec where rec: "rec \<in> set rs" "a_Path a = rc_Path rec"
    and truth: "\<not> plannerSuppressesUnavailableTruth (Some (StatusForPath (NewTruthAvailabilityIndex issues) (a_Path a)))"
    and kind: "(a_Type a, rc_ReconciliationKind rec) \<in>
       {(ActionLocalDelete, RLocalDelete), (ActionRemoteDelete, RRemoteDelete), (ActionCleanup, RBaselineRemove)}"
    using plan_delete_origin [OF p assms(3) True] .
  have safe: "row_safe t rec"
    using reconciliation_rows_safe [OF assms(1) q] rec(1) by (simp add: list_all_iff)
  show ?thesis
    using safe kind truth side_available_iff [of issues "a_Path a"]
    by (auto simp: row_safe_def Let_def rec(2) plannerSuppressesUnavailableTruth_def SuppressesStructuralActions_def)
qed

text \<open>
  C1: No plan deletes data that is not known to be superseded. In any plan built from a database
  snapshot, every local delete is at a path whose local item is unchanged since the last
  sync and absent from the remote snapshot; every remote delete is at a path whose remote item
  is unchanged and absent from the local snapshot; and neither is ever planned at a path whose
  local or remote truth is unavailable, in particular nowhere below an unreadable folder.
\<close>

theorem plan_deletes_safe:
  assumes "unique_paths t" "plan_of t d bl issues mount mode = Some (Inr plan)" "a \<in> set (ap_Actions plan)"
  shows "(a_Type a = ActionLocalDelete \<longrightarrow>
            (\<exists>b l. baseline_row_at t (a_Path a) = Some b \<and> local_row_at t (a_Path a) = Some l \<and>
               \<not> local_changed (Some b) (Some l) \<and> remote_row_at t (a_Path a) = None)) \<and>
         (a_Type a = ActionRemoteDelete \<longrightarrow>
            (\<exists>b r. baseline_row_at t (a_Path a) = Some b \<and> remote_row_at t (a_Path a) = Some r \<and>
               \<not> remote_changed (Some b) (Some r) \<and> local_row_at t (a_Path a) = None)) \<and>
         (is_delete_type (a_Type a) \<longrightarrow>
            \<not> side_blocked sk_IsPermLocalRead observationIssueBlocksLocalTruth issues (a_Path a) \<and>
            \<not> side_blocked sk_IsPermRemoteRead observationIssueBlocksRemoteTruth issues (a_Path a))"
  using assms by (rule planned_delete_rows)

section \<open>Planning always succeeds\<close>

lemma reconciliation_row_cases:
  assumes "queryReconciliationState t = Some rs" "rec \<in> set rs"
  obtains j where "(rc_Path rec, j) \<in> set (joined_rows t)" "reconciliation_row_of (rc_Path rec) j = Some rec"
  using reconciliation_row_mem [OF assms] reconciliation_row_kind by metis

lemma comparison_row_cases:
  assumes "queryComparisonState t = Some cs" "row \<in> set cs"
  obtains j where "(cr_Path row, j) \<in> set (joined_rows t)" "comparison_row_of (cr_Path row) j = Some row"
  using comparison_row_mem [OF assms] comparison_row_kind by metis

lemma comparison_row_exists:
  assumes "queryComparisonState t = Some cs" "(p, j) \<in> set (joined_rows t)"
  shows "p \<in> cr_Path ` set cs"
proof -
  obtain row where row: "comparison_row_of p j = Some row"
    using ParseItemType_joined [OF assms(2)] by (auto simp: comparison_row_of_def)
  then have "Some row \<in> set [comparison_row_of p j. (p, j) \<leftarrow> joined_rows t]"
    using assms(2) by force
  then have "row \<in> set cs"
    using assms(1) collect_options_set [of _ cs row] by (simp add: queryComparisonState_def)
  then show ?thesis using comparison_row_kind [OF row] by force
qed

lemma comparison_row_present:
  "comparison_row_of p j = Some row \<Longrightarrow>
     (cr_BaselinePresent row \<longleftrightarrow> j_b j \<noteq> None) \<and> (cr_LocalPresent row \<longleftrightarrow> j_l j \<noteq> None) \<and>
     (cr_RemotePresent row \<longleftrightarrow> j_r j \<noteq> None)"
  by (auto simp: comparison_row_of_def split: option.splits)

lemma reconciliation_row_targets:
  "reconciliation_row_of p j = Some row \<Longrightarrow>
     rc_LocalMoveTarget row = text_of (map_option fst (j_lms j)) \<and>
     rc_RemoteMoveSource row = text_of (j_rmt j)"
  by (auto simp: reconciliation_row_of_def split: option.splits)

lemma index_by_mapped:
  assumes "x \<in> set xs" "\<And>y. key (f y) = key' y"
  shows "index_by key (map f xs) (key' x) \<noteq> None"
proof -
  have "key (f x) \<in> key ` set (map f xs)" using assms(1) by simp
  then show ?thesis using assms(2) [of x] by (simp only: index_by_None) simp
qed

lemma view_for_row:
  assumes "queryComparisonState t = Some cs" "row \<in> set cs" "cache_covers bl t"
  shows "\<exists>v. path_view_for (index_by lr_Path (map scan_local_row (st_local t)))
           (index_by rr_Path (map (scan_remote_row d) (st_remote t))) bl
           (StatusByPath index (comparisonPaths cs)) row = Inr v"
proof -
  let ?p = "cr_Path row"
  obtain j where j: "(?p, j) \<in> set (joined_rows t)" "comparison_row_of ?p j = Some row"
    using comparison_row_cases [OF assms(1,2)] .
  note D = joined_rows_D [OF j(1)]
  have cols: "cr_BaselinePresent row \<longleftrightarrow> j_b j \<noteq> None" "cr_LocalPresent row \<longleftrightarrow> j_l j \<noteq> None"
    "cr_RemotePresent row \<longleftrightarrow> j_r j \<noteq> None"
    using comparison_row_present [OF j(2)] by simp_all
  have b: "cr_BaselinePresent row \<Longrightarrow> bl_GetByPath bl ?p \<noteq> None"
    using cols(1) D(2) assms(3) by (fastforce simp: cache_covers_def list_all_iff)
  have l: "cr_LocalPresent row \<Longrightarrow> index_by lr_Path (map scan_local_row (st_local t)) ?p \<noteq> None"
    using cols(2) D(4) index_by_mapped [of _ "st_local t" lr_Path scan_local_row sl_path] by fastforce
  have r: "cr_RemotePresent row \<Longrightarrow> index_by rr_Path (map (scan_remote_row d) (st_remote t)) ?p \<noteq> None"
    using cols(3) D(6) index_by_mapped [of _ "st_remote t" rr_Path "scan_remote_row d" sr_path] by fastforce
  have "StatusByPath index (comparisonPaths cs) ?p \<noteq> None"
    using assms(2) by (simp add: StatusByPath_apply comparisonPaths_def)
  with b l r show ?thesis
    by (auto simp: path_view_for_def side_of_def split: option.splits)
qed

lemma joined_same_baseline:
  assumes "(p, j) \<in> set (joined_rows t)" "(p, j') \<in> set (joined_rows t)"
  shows "j_b j = None \<longleftrightarrow> j_b j' = None"
  using joined_rows_D(2,3) [OF assms(1)] joined_rows_D(2,3) [OF assms(2)] by (metis image_eqI not_None_eq)

lemma local_move_target_path:
  assumes "(p, j) \<in> set (joined_rows t)" "j_lms j = Some (q, n)"
  shows "q \<in> set (all_paths t)"
  using joined_rows_D(8) [OF assms] local_move_source_D(1) local_move_candidates_D(2) by (metis all_paths_iff)

lemma joined_reconciliation_not_other: "joined_reconciliation j \<noteq> ROther k"
  by (simp add: joined_reconciliation_def reconciliation_kind_of_def)

lemma move_row_kinds:
  "joined_reconciliation j = RLocalMove \<Longrightarrow> comparison_kind_rec j \<in> {CLocalMoveSource, CLocalMoveDest}"
  "joined_reconciliation j = RRemoteMove \<Longrightarrow> comparison_kind_rec j \<in> {CRemoteMoveSource, CRemoteMoveDest}"
  by (auto simp: joined_reconciliation_def reconciliation_kind_of_def split: if_splits)

lemma move_kind_columns:
  assumes "(p, j) \<in> set (joined_rows t)"
  shows "comparison_kind_cmp j = CLocalMoveSource \<Longrightarrow> j_b j \<noteq> None"
    and "comparison_kind_cmp j = CRemoteMoveDest \<Longrightarrow> j_b j = None"
    and "comparison_kind_rec j = CLocalMoveSource \<Longrightarrow> j_lms j \<noteq> None"
    and "comparison_kind_rec j = CLocalMoveDest \<Longrightarrow> j_b j = None"
    and "comparison_kind_rec j = CRemoteMoveSource \<Longrightarrow> j_b j \<noteq> None"
    and "comparison_kind_rec j = CRemoteMoveDest \<Longrightarrow> text_of (j_rmt j) \<noteq> ''''"
  using joined_move_columns [OF assms]
  by (auto simp: comparison_kind_cmp_def comparison_kind_rec_def Let_def candidate_count_def
      split: if_splits option.splits)

lemma build_actions_total:
  assumes q: "queryComparisonState t = Some cs" "queryReconciliationState t = Some rs"
    and rel: "list_all relative_path (all_paths t)"
    and rec: "rec \<in> set rs" and cmp: "cmp \<in> set cs" "cr_Path cmp = rc_Path rec"
    and view: "views (rc_Path rec) = Some view"
  shows "\<exists>acts. buildActionsForReconciliation rec cmp views = Inr acts"
proof -
  let ?p = "rc_Path rec"
  obtain j where j: "(?p, j) \<in> set (joined_rows t)" "reconciliation_row_of ?p j = Some rec"
    using reconciliation_row_cases [OF q(2) rec] .
  obtain j' where j': "(?p, j') \<in> set (joined_rows t)" "comparison_row_of ?p j' = Some cmp"
    using comparison_row_cases [OF q(1) cmp(1)] cmp(2) by metis
  have kinds: "rc_ReconciliationKind rec = joined_reconciliation j" "cr_ComparisonKind cmp = comparison_kind_cmp j'"
    using reconciliation_row_kind [OF j(2)] comparison_row_kind [OF j'(2)] by simp_all
  have lm: "rc_LocalMoveTarget rec \<noteq> ''''"
    if "joined_reconciliation j = RLocalMove" "comparison_kind_cmp j' = CLocalMoveSource"
  proof -
    have "j_b j \<noteq> None"
      using move_kind_columns(1) [OF j'(1) that(2)] joined_same_baseline [OF j(1) j'(1)] by simp
    then have "comparison_kind_rec j = CLocalMoveSource"
      using move_row_kinds(1) [OF that(1)] move_kind_columns(4) [OF j(1)] by auto
    then obtain q' n where lms: "j_lms j = Some (q', n)"
      using move_kind_columns(3) [OF j(1)] by auto
    then have "relative_path q'"
      using local_move_target_path [OF j(1)] rel by (simp add: list_all_iff)
    then show ?thesis
      using reconciliation_row_targets [OF j(2)] lms by (simp add: text_of_def coalesce_text_def relative_path_def)
  qed
  have rm: "rc_RemoteMoveSource rec \<noteq> ''''"
    if "joined_reconciliation j = RRemoteMove" "comparison_kind_cmp j' = CRemoteMoveDest"
  proof -
    have "j_b j = None"
      using move_kind_columns(2) [OF j'(1) that(2)] joined_same_baseline [OF j(1) j'(1)] by simp
    then have "comparison_kind_rec j = CRemoteMoveDest"
      using move_row_kinds(2) [OF that(1)] move_kind_columns(5) [OF j(1)] by auto
    then show ?thesis
      using move_kind_columns(6) [OF j(1)] reconciliation_row_targets [OF j(2)] by simp
  qed
  show ?thesis
    using lm rm joined_reconciliation_not_other [of j]
    by (auto simp: buildActionsForReconciliation_def view kinds buildLocalMoveReconciliationActions_def
        buildRemoteMoveReconciliationActions_def split: reconciliation_kind.splits)
qed

text \<open>Every action of a row is at the row's path or at the row's move target.\<close>

lemma row_action_path:
  assumes "buildActionsForReconciliation rec cmp views = Inr acts" "a \<in> set acts"
    "\<And>v. views (rc_Path rec) = Some v \<Longrightarrow> pv_Path v = rc_Path rec"
  shows "a_Path a = rc_Path rec \<or> (a_Path a = rc_LocalMoveTarget rec \<and> rc_LocalMoveTarget rec \<noteq> '''')"
  using assms
  by (auto simp: buildActionsForReconciliation_def buildLocalMoveReconciliationActions_def
      buildRemoteMoveReconciliationActions_def localMoveContentUpdateAfterMove_def
      split: option.splits if_splits reconciliation_kind.splits)

lemma preserve_one_path: "delete_view_ok a \<Longrightarrow> a_Path (preserve_one mode acts a) = a_Path a"
  by (simp add: preserve_one_def preserved_action_path)

lemma normalize_path:
  assumes "list_all delete_view_ok acts" "a \<in> set (normalizeCurrentPlanActions acts mode)"
  shows "a_Path a \<in> a_Path ` set acts"
proof -
  let ?o = "omitDescendantRemoteMoveActionsCoveredByGraphFolderMoves acts"
  have ok: "list_all delete_view_ok ?o" using assms(1) omit_subset by (auto simp: list_all_iff)
  then obtain b where "b \<in> set ?o" "a = preserve_one mode ?o b"
    using assms(2) by (auto simp: normalizeCurrentPlanActions_def preserve_is_map)
  with ok preserve_one_path [of b mode ?o] omit_subset [of acts] show ?thesis
    by (force simp: list_all_iff)
qed

lemma views_and_rows_total:
  assumes q: "queryComparisonState t = Some cs" "queryReconciliationState t = Some rs"
    and rel: "list_all relative_path (all_paths t)" and cache: "cache_covers bl t"
  obtains views cmps acts where
    "buildSQLitePathViews cs (map scan_local_row (st_local t)) (map (scan_remote_row d) (st_remote t)) bl
       (StatusByPath index (comparisonPaths cs)) = Inr (views, cmps)"
    "actions_for_rows rs cmps views = Inr acts"
proof -
  let ?f = "path_view_for (index_by lr_Path (map scan_local_row (st_local t)))
              (index_by rr_Path (map (scan_remote_row d) (st_remote t))) bl (StatusByPath index (comparisonPaths cs))"
  let ?g = "\<lambda>row. case ?f row of Inl e \<Rightarrow> Inl e | Inr v \<Rightarrow> Inr [v]"
  have "\<exists>zs. ?g row = Inr zs" if "row \<in> set cs" for row
    using view_for_row [OF q(1) that cache, of d index] by auto
  then obtain vs where vs: "collect_results ?g cs = Inr vs" using collect_results_all_Inr [of cs ?g] by blast
  have views: "buildSQLitePathViews cs (map scan_local_row (st_local t)) (map (scan_remote_row d) (st_remote t)) bl
       (StatusByPath index (comparisonPaths cs)) = Inr (index_by pv_Path vs, index_by cr_Path cs)"
    by (simp add: buildSQLitePathViews_def vs)
  have fvs: "map ?f cs = map Inr vs" using collect_results_single [of ?f cs vs] vs by simp
  have dom: "cr_Path row \<in> pv_Path ` set vs" if row: "row \<in> set cs" for row
  proof -
    obtain v where v: "?f row = Inr v" using view_for_row [OF q(1) row cache, of d index] by blast
    then have "Inr v \<in> set (map ?f cs)" using row by (metis image_eqI list.set_map)
    then have "v \<in> set vs" unfolding fvs by auto
    then show ?thesis using path_view_for_D(1) [OF v] by force
  qed
  have "\<exists>zs. (case index_by cr_Path cs (rc_Path rec) of
                None \<Rightarrow> Inl (MissingComparisonRow (rc_Path rec))
              | Some cmp \<Rightarrow> buildActionsForReconciliation rec cmp (index_by pv_Path vs)) = Inr zs"
    if rec: "rec \<in> set rs" for rec
  proof -
    obtain j where "(rc_Path rec, j) \<in> set (joined_rows t)"
      using reconciliation_row_cases [OF q(2) rec] .
    then have mem: "rc_Path rec \<in> cr_Path ` set cs" by (rule comparison_row_exists [OF q(1)])
    then obtain cmp where cmp: "index_by cr_Path cs (rc_Path rec) = Some cmp"
      using index_by_None [of cr_Path cs "rc_Path rec"] by auto
    obtain view where view: "index_by pv_Path vs (rc_Path rec) = Some view"
      using index_by_None [of pv_Path vs "rc_Path rec"] mem dom by fastforce
    show ?thesis
      using build_actions_total [where views = "index_by pv_Path vs", OF q rel rec] view
        index_by_Some [OF cmp] cmp by auto
  qed
  then have "\<exists>acts. actions_for_rows rs (index_by cr_Path cs) (index_by pv_Path vs) = Inr acts"
    unfolding actions_for_rows_def by (rule collect_results_all_Inr)
  with views that show ?thesis by blast
qed

lemma planned_paths_relative:
  assumes q: "queryReconciliationState t = Some rs" and rel: "list_all relative_path (all_paths t)"
    and v: "buildSQLitePathViews cs ls rrs bl ts = Inr (views, cmps)" and r: "actions_for_rows rs cmps views = Inr acts"
    and a: "a \<in> set acts"
  shows "relative_path (a_Path a)"
proof -
  obtain rec cmp zs where rec: "rec \<in> set rs" "buildActionsForReconciliation rec cmp views = Inr zs" "a \<in> set zs"
    using r a collect_results_Inr by (fastforce simp: actions_for_rows_def split: option.splits)
  obtain j where j: "(rc_Path rec, j) \<in> set (joined_rows t)" "reconciliation_row_of (rc_Path rec) j = Some rec"
    using reconciliation_row_cases [OF q rec(1)] .
  have p: "a_Path a = rc_Path rec \<or> (a_Path a = rc_LocalMoveTarget rec \<and> rc_LocalMoveTarget rec \<noteq> '''')"
    using row_action_path [OF rec(2,3)] buildSQLitePathViews_D(1) [OF v] by blast
  have "rc_LocalMoveTarget rec \<in> set (all_paths t)" if "rc_LocalMoveTarget rec \<noteq> ''''"
    using that reconciliation_row_targets [OF j(2)] local_move_target_path [OF j(1)]
    by (cases "j_lms j") (auto simp: text_of_def coalesce_text_def)
  moreover have "rc_Path rec \<in> set (all_paths t)" using joined_rows_D(1) [OF j(1)] .
  ultimately show ?thesis using p rel by (auto simp: list_all_iff)
qed

text \<open>
  C3: Planning never fails on a consistent snapshot: for every database whose paths are relative
  (not empty, not \<^verbatim>\<open>/\<close>) and a baseline cache that covers the baseline table, in every mode and
  for any observation issues, the planner returns a plan. None of its internal-consistency
  errors and no dependency cycle can occur.
\<close>

theorem planning_total:
  assumes rel: "list_all relative_path (all_paths t)" and cache: "cache_covers bl t"
  shows "\<exists>plan. plan_of t d bl issues mount mode = Some (Inr plan)"
proof -
  obtain cs rs where q: "queryComparisonState t = Some cs" "queryReconciliationState t = Some rs"
    using structural_queries_total by blast
  obtain views cmps acts where
    v: "buildSQLitePathViews cs (map scan_local_row (st_local t)) (map (scan_remote_row d) (st_remote t)) bl
       (StatusByPath (NewTruthAvailabilityIndex issues) (comparisonPaths cs)) = Inr (views, cmps)" and
    r: "actions_for_rows rs cmps views = Inr acts"
    using views_and_rows_total [OF q rel cache] .
  let ?n = "normalizeCurrentPlanActions acts mode"
  let ?adm = "bindMountContext (filter (\<lambda>a. actionAllowedInMode a mode) ?n) mount"
  have "relative_path (a_Path a)" if a: "a \<in> set ?adm" for a
  proof -
    obtain b where "b \<in> set ?n" "a_Path a = a_Path b" using bindMountContext_mem [OF a] by auto
    then show ?thesis
      using normalize_path [OF rows_delete_view_ok [OF v r], of b mode] planned_paths_relative [OF q(2) rel v r] by auto
  qed
  then have "list_all (\<lambda>a. a_Path a \<noteq> ''/'') ?adm" by (auto simp: list_all_iff relative_path_def)
  then have "\<not> (\<exists>i. (i, i) \<in> (edges (buildDependencies (delete_order ?adm) ?adm))\<^sup>+)"
    using buildDependencies_acyclic by (auto simp: acyclic_def)
  then have "detectDependencyCycle (buildDependencies (delete_order ?adm) ?adm) = Some False"
    using detect_correct [OF buildDependencies_in_range, of "delete_order ?adm" ?adm] by simp
  then show ?thesis
    by (simp add: plan_of_def q PlanCurrentState_def Let_def v r partitionCurrentActionsForMode_def partition_loop_eq)
qed

section \<open>A concrete plan\<close>

text \<open>The database of \<open>edited_db\<close>: \<^verbatim>\<open>a\<close> was deleted locally, \<^verbatim>\<open>b\<close> changed remotely.\<close>

definition demo_drive :: drive_id where
  "demo_drive = New_id ''d''"

definition edited_cache :: baseline where
  "edited_cache = load_entries (map (scanBaselineRow demo_drive) (st_baseline edited_db))"

definition edited_plan :: "(plan_error + action_plan) option" where
  "edited_plan = plan_of edited_db demo_drive edited_cache [] \<lparr>pmc_DriveID = demo_drive\<rparr> SyncBidirectional"

lemma edited_plan_actions:
  "case edited_plan of
     Some (Inr p) \<Rightarrow> map (\<lambda>a. (a_Type a, a_Path a)) (ap_Actions p) = [(ActionRemoteDelete, ''a''), (ActionDownload, ''b'')]
   | _ \<Rightarrow> False"
  by code_simp

theorem plan_deletes_safe_witness:
  "\<exists>plan a. edited_plan = Some (Inr plan) \<and> a \<in> set (ap_Actions plan) \<and> a_Type a = ActionRemoteDelete \<and>
     local_row_at edited_db (a_Path a) = None"
proof -
  obtain plan and a :: action where p: "edited_plan = Some (Inr plan)" "a \<in> set (ap_Actions plan)" "a_Type a = ActionRemoteDelete"
    using edited_plan_actions by (fastforce split: option.splits sum.splits)
  then show ?thesis
    using plan_deletes_safe [OF edited_db_unique, of demo_drive edited_cache "[]" "\<lparr>pmc_DriveID = demo_drive\<rparr>"
        SyncBidirectional plan a] by (auto simp: edited_plan_def)
qed

theorem planning_total_witness:
  "list_all relative_path (all_paths edited_db) \<and> cache_covers edited_cache edited_db \<and>
   (\<exists>plan. plan_of edited_db demo_drive edited_cache [] \<lparr>pmc_DriveID = demo_drive\<rparr> SyncUploadOnly = Some (Inr plan))"
proof -
  have "list_all relative_path (all_paths edited_db)" "cache_covers edited_cache edited_db" by code_simp+
  then show ?thesis using planning_total [of edited_db edited_cache demo_drive "[]"] by simp
qed

text \<open>A folder that is gone remotely, with a file in it that was edited locally.\<close>

definition demo_view :: "string \<Rightarrow> item_type \<Rightarrow> path_view" where
  "demo_view p ty =
     \<lparr>pv_Path = p, pv_Remote = None,
      pv_Local = Some \<lparr>ls_Name = p, ls_ItemType = ty, ls_Size = 1, ls_Hash = '''', ls_Mtime = 0, ls_LocalDevice = 0,
                      ls_LocalInode = 0, ls_LocalHasIdentity = False\<rparr>,
      pv_Baseline = None,
      pv_TruthStatus = \<lparr>pt_Local = availablePathTruthSideStatus, pt_Remote = availablePathTruthSideStatus\<rparr>\<rparr>"

definition folder_gone :: "action list" where
  "folder_gone = [MakeAction ActionLocalDelete (demo_view ''d'' ItemTypeFolder),
                  MakeAction ActionLocalDelete (demo_view ''d/e'' ItemTypeFolder),
                  MakeAction ActionUpload (demo_view ''d/e/f'' ItemTypeFile),
                  MakeAction ActionLocalDelete (demo_view ''d/g'' ItemTypeFile)]"

lemma folder_gone_preserved:
  "map (\<lambda>a. (a_Type a, a_Path a)) (preserveParentFoldersForRunnableDescendants folder_gone SyncBidirectional) =
     [(ActionFolderCreate, ''d''), (ActionFolderCreate, ''d/e''), (ActionUpload, ''d/e/f''), (ActionLocalDelete, ''d/g'')]"
  by code_simp

theorem preserve_pass_correct_witness:
  "list_all delete_view_ok folder_gone \<and>
   preserveParentFoldersForRunnableDescendants folder_gone SyncBidirectional =
     map (preserve_one SyncBidirectional folder_gone) folder_gone"
proof -
  have "list_all delete_view_ok folder_gone" by code_simp
  then show ?thesis using preserve_pass_correct [of folder_gone SyncBidirectional] by simp
qed

theorem plan_dependencies_acyclic_witness:
  "buildDependencies [''d'', ''d/e'', ''d/g''] folder_gone = [[1, 3], [], [], []] \<and>
   detectDependencyCycle (buildDependencies [''d'', ''d/e'', ''d/g''] folder_gone) = Some False"
proof -
  have "list_all (\<lambda>a. a_Path a \<noteq> ''/'') folder_gone" by code_simp
  moreover have "buildDependencies [''d'', ''d/e'', ''d/g''] folder_gone = [[1, 3], [], [], []]" by code_simp
  ultimately show ?thesis
    using plan_dependencies_acyclic [of folder_gone "[''d'', ''d/e'', ''d/g'']"] by blast
qed

theorem dependencies_deterministic_witness:
  "buildDependencies [''d/g'', ''d'', ''d/e''] folder_gone = buildDependencies [''d'', ''d/e'', ''d/g''] folder_gone"
proof -
  have "mset [''d/g'', ''d'', ''d/e''] = mset [''d'', ''d/e'', ''d/g'']" by simp
  then show ?thesis by (rule dependencies_deterministic)
qed

section \<open>A folder that was replaced locally\<close>

text \<open>A synced folder whose local directory was removed and made again: the inode differs.\<close>

definition replaced_db :: sync_tables where
  "replaced_db =
     \<lparr>st_baseline = [(file_b ''i1'' ''d'' '''' 10)\<lparr>sb_item_type := ItemTypeFolder\<rparr>],
      st_local = [(file_l ''d'' '''' 20)\<lparr>sl_item_type := ItemTypeFolder\<rparr>],
      st_remote = [(file_r ''i1'' ''d'' '''')\<lparr>sr_item_type := ItemTypeFolder\<rparr>]\<rparr>"


end
