(* ===== verification/DepGraph.thy ===== *)
theory DepGraph
  imports SyncTypes "HOL-Library.AList" "HOL-Library.Multiset"
begin

text \<open>
  The runtime dependency graph (\<^verbatim>\<open>dep_graph.go\<close>) and its use by the engine
  (\<^verbatim>\<open>registerPlanActions\<close> of \<^verbatim>\<open>engine_runtime_start.go\<close>, \<^verbatim>\<open>completeSubtree\<close> of
  \<^verbatim>\<open>engine_runtime_graph.go\<close>). Nodes are shared by pointer: a node is reached through the
  id index and through the dependents of other nodes. The model keeps the nodes in a heap, a
  list indexed by reference, and a pointer is a reference. Counters stay far below the bound of
  the 32-bit counter and are integers.
\<close>

record tracked_action =
  ta_Action :: action
  ta_ID :: int
  ta_IsTrial :: bool
  ta_TrialScopeKey :: scope_key

record tracked_node =
  tn_TA :: tracked_action
  tn_depsLeft :: int
  tn_dependents :: "nat list"

record dep_graph =
  dg_heap :: "tracked_node list"
  dg_actions :: "(int \<times> nat) list"

definition NewDepGraph :: dep_graph where
  "NewDepGraph = \<lparr>dg_heap = [], dg_actions = []\<rparr>"

definition new_node :: "action \<Rightarrow> int \<Rightarrow> int \<Rightarrow> tracked_node" where
  "new_node a i left =
     \<lparr>tn_TA = \<lparr>ta_Action = a, ta_ID = i, ta_IsTrial = False, ta_TrialScopeKey = zero_scope_key\<rparr>,
      tn_depsLeft = left, tn_dependents = []\<rparr>"

definition heap_upd :: "nat \<Rightarrow> (tracked_node \<Rightarrow> tracked_node) \<Rightarrow> dep_graph \<Rightarrow> dep_graph" where
  "heap_upd r f g = g\<lparr>dg_heap := (dg_heap g)[r := f (dg_heap g ! r)]\<rparr>"

text \<open>The loop that appends the node to the dependents of each known dependency and counts them.\<close>

fun wire_loop :: "dep_graph \<Rightarrow> nat \<Rightarrow> int list \<Rightarrow> int \<Rightarrow> dep_graph \<times> int" where
  "wire_loop g node [] remaining = (g, remaining)"
| "wire_loop g node (d # ds) remaining =
     (case map_of (dg_actions g) d of
        None \<Rightarrow> wire_loop g node ds remaining
      | Some dep \<Rightarrow>
          wire_loop (heap_upd dep (\<lambda>n. n\<lparr>tn_dependents := tn_dependents n @ [node]\<rparr>) g) node ds (remaining + 1))"

text \<open>The returned reference stands for the ready \<^verbatim>\<open>*TrackedAction\<close>, \<open>None\<close> for nil.\<close>

definition dg_Add :: "dep_graph \<Rightarrow> action \<Rightarrow> int \<Rightarrow> int list \<Rightarrow> dep_graph \<times> nat option" where
  "dg_Add g a i depIDs =
     (let node = length (dg_heap g);
          g1 = g\<lparr>dg_heap := dg_heap g @ [new_node a i 0], dg_actions := AList.update i node (dg_actions g)\<rparr>
      in case wire_loop g1 node depIDs 0 of
           (g2, remaining) \<Rightarrow>
             (heap_upd node (\<lambda>n. n\<lparr>tn_depsLeft := remaining\<rparr>) g2, if remaining = 0 then Some node else None))"

definition dg_Register :: "dep_graph \<Rightarrow> action \<Rightarrow> int \<Rightarrow> dep_graph" where
  "dg_Register g a i =
     g\<lparr>dg_heap := dg_heap g @ [new_node a i 1], dg_actions := AList.update i (length (dg_heap g)) (dg_actions g)\<rparr>"

definition dg_WireDeps :: "dep_graph \<Rightarrow> int \<Rightarrow> int list \<Rightarrow> dep_graph \<times> nat option" where
  "dg_WireDeps g i depIDs =
     (case map_of (dg_actions g) i of
        None \<Rightarrow> (g, None)
      | Some node \<Rightarrow>
          (case wire_loop g node depIDs 0 of
             (g2, remaining) \<Rightarrow>
               (heap_upd node (\<lambda>n. n\<lparr>tn_depsLeft := remaining\<rparr>) g2, if remaining = 0 then Some node else None)))"

definition dg_MarkTrial :: "dep_graph \<Rightarrow> int \<Rightarrow> scope_key \<Rightarrow> dep_graph \<times> bool" where
  "dg_MarkTrial g i sk =
     (case map_of (dg_actions g) i of
        None \<Rightarrow> (g, False)
      | Some node \<Rightarrow>
          (heap_upd node (\<lambda>n. n\<lparr>tn_TA := (tn_TA n)\<lparr>ta_IsTrial := True, ta_TrialScopeKey := sk\<rparr>\<rparr>) g, True))"

definition dg_Get :: "dep_graph \<Rightarrow> int \<Rightarrow> nat option" where
  "dg_Get g i = map_of (dg_actions g) i"

fun complete_loop :: "tracked_node list \<Rightarrow> nat list \<Rightarrow> nat list \<Rightarrow> tracked_node list \<times> nat list" where
  "complete_loop heap [] ready = (heap, ready)"
| "complete_loop heap (r # rs) ready =
     (let left = tn_depsLeft (heap ! r) - 1;
          heap' = heap[r := (heap ! r)\<lparr>tn_depsLeft := left\<rparr>]
      in complete_loop heap' rs (if left = 0 then ready @ [r] else ready))"

definition dg_Complete :: "dep_graph \<Rightarrow> int \<Rightarrow> dep_graph \<times> nat list option" where
  "dg_Complete g i =
     (case map_of (dg_actions g) i of
        None \<Rightarrow> (g, None)
      | Some node \<Rightarrow>
          (case complete_loop (dg_heap g) (tn_dependents (dg_heap g ! node)) [] of
             (heap', ready) \<Rightarrow> (\<lparr>dg_heap = heap', dg_actions = AList.delete i (dg_actions g)\<rparr>, Some ready)))"

definition dg_InFlightCount :: "dep_graph \<Rightarrow> nat" where
  "dg_InFlightCount g = length (dg_actions g)"

section \<open>The engine's use of the graph\<close>

definition allocatePlanActionIDs :: "int \<Rightarrow> nat \<Rightarrow> int list \<times> int" where
  "allocatePlanActionIDs nextActionID n =
     (map (\<lambda>i. nextActionID + int i) [0..<n], nextActionID + int n)"

fun register_loop :: "dep_graph \<Rightarrow> action list \<Rightarrow> int list \<Rightarrow> dep_graph" where
  "register_loop g (a # as) (i # ids) = register_loop (dg_Register g a i) as ids"
| "register_loop g _ _ = g"

fun wire_all :: "dep_graph \<Rightarrow> int list \<Rightarrow> nat list list \<Rightarrow> nat list \<Rightarrow> nat list \<Rightarrow> dep_graph \<times> nat list" where
  "wire_all g ids deps [] ready = (g, ready)"
| "wire_all g ids deps (i # is) ready =
     (case dg_WireDeps g (ids ! i) (map (\<lambda>d. ids ! d) (deps ! i)) of
        (g', r) \<Rightarrow> wire_all g' ids deps is (case r of None \<Rightarrow> ready | Some n \<Rightarrow> ready @ [n]))"

definition registerPlanActions :: "dep_graph \<Rightarrow> int \<Rightarrow> action_plan \<Rightarrow> (dep_graph \<times> int) \<times> nat list" where
  "registerPlanActions g nextActionID plan =
     (if ap_Actions plan = [] then ((g, nextActionID), [])
      else
      case allocatePlanActionIDs nextActionID (length (ap_Actions plan)) of
        (ids, next) \<Rightarrow>
          (case wire_all (register_loop g (ap_Actions plan) ids) ids (ap_Deps plan) [0..<length (ap_Actions plan)] [] of
             (g', ready) \<Rightarrow> ((g', next), ready)))"

text \<open>
  \<^verbatim>\<open>completeSubtree\<close> panics on an unknown id (\<^verbatim>\<open>completeDepGraphAction\<close>). The loop is
  bounded by fuel; \<open>None\<close> is a panic or fuel that ran out.
\<close>

definition completeDepGraphAction :: "dep_graph \<Rightarrow> int \<Rightarrow> (dep_graph \<times> nat list) option" where
  "completeDepGraphAction g i =
     (case dg_Complete g i of (g', None) \<Rightarrow> None | (g', Some ready) \<Rightarrow> Some (g', ready))"

fun complete_subtree_loop :: "nat \<Rightarrow> dep_graph \<Rightarrow> int list \<Rightarrow> nat list \<Rightarrow> dep_graph option" where
  "complete_subtree_loop fuel g seen [] = Some g"
| "complete_subtree_loop 0 g seen (r # queue) = None"
| "complete_subtree_loop (Suc fuel) g seen (r # queue) =
     (let i = ta_ID (tn_TA (dg_heap g ! r)) in
      if i \<in> set seen then complete_subtree_loop fuel g seen queue
      else case completeDepGraphAction g i of
             None \<Rightarrow> None
           | Some (g', next) \<Rightarrow> complete_subtree_loop fuel g' (i # seen) (queue @ next))"

lemma dg_actions_heap_upd [simp]: "dg_actions (heap_upd r f g) = dg_actions g"
  by (simp add: heap_upd_def)

section \<open>The invariant\<close>

text \<open>
  A graph that runs a plan: \<open>deps\<close> are the dependency lists of the plan, the ids start at
  \<open>base\<close>, and \<open>C\<close> holds the indices completed so far. An action is in the index until it is
  completed, its counter is the number of its dependencies still open, and it is entered among
  the dependents of each dependency as often as it names it.
\<close>

definition tracks :: "int \<Rightarrow> nat list list \<Rightarrow> nat set \<Rightarrow> dep_graph \<Rightarrow> bool" where
  "tracks base deps C g \<longleftrightarrow>
     length (dg_heap g) = length deps \<and>
     distinct (map fst (dg_actions g)) \<and>
     (\<forall>k. map_of (dg_actions g) k =
        (if base \<le> k \<and> nat (k - base) < length deps \<and> nat (k - base) \<notin> C then Some (nat (k - base)) else None)) \<and>
     (\<forall>i < length deps.
        ta_ID (tn_TA (dg_heap g ! i)) = base + int i \<and>
        tn_depsLeft (dg_heap g ! i) = int (length (filter (\<lambda>j. j \<notin> C) (deps ! i))) \<and>
        (\<forall>k. count_list (tn_dependents (dg_heap g ! i)) k =
              (if k < length deps then count_list (deps ! k) i else 0)))"

lemma tracks_D:
  assumes "tracks base deps C g"
  shows "length (dg_heap g) = length deps" "distinct (map fst (dg_actions g))"
    and "map_of (dg_actions g) k =
        (if base \<le> k \<and> nat (k - base) < length deps \<and> nat (k - base) \<notin> C then Some (nat (k - base)) else None)"
    and "i < length deps \<Longrightarrow> ta_ID (tn_TA (dg_heap g ! i)) = base + int i"
    and "i < length deps \<Longrightarrow> tn_depsLeft (dg_heap g ! i) = int (length (filter (\<lambda>j. j \<notin> C) (deps ! i)))"
    and "i < length deps \<Longrightarrow> count_list (tn_dependents (dg_heap g ! i)) m =
          (if m < length deps then count_list (deps ! m) i else 0)"
  using assms unfolding tracks_def by blast+

lemma tracks_lookup:
  assumes "tracks base deps C g" "i < length deps"
  shows "map_of (dg_actions g) (base + int i) = (if i \<in> C then None else Some i)"
  using tracks_D(3) [OF assms(1), of "base + int i"] assms(2) by simp

text \<open>The number of index entries is the number of open actions.\<close>

lemma tracks_InFlight:
  assumes "tracks base deps C g"
  shows "dg_InFlightCount g = card ({0..<length deps} - C)"
proof -
  have "dom (map_of (dg_actions g)) = (\<lambda>i. base + int i) ` ({0..<length deps} - C)"
  proof (intro set_eqI iffI)
    fix k assume "k \<in> dom (map_of (dg_actions g))"
    then have "base \<le> k" "nat (k - base) < length deps" "nat (k - base) \<notin> C"
      using tracks_D(3) [OF assms, of k] by (auto split: if_splits)
    then show "k \<in> (\<lambda>i. base + int i) ` ({0..<length deps} - C)"
      by (intro image_eqI [of _ _ "nat (k - base)"]) auto
  next
    fix k assume "k \<in> (\<lambda>i. base + int i) ` ({0..<length deps} - C)"
    then show "k \<in> dom (map_of (dg_actions g))" using tracks_lookup [OF assms] by auto
  qed
  moreover have "card (dom (map_of (dg_actions g))) = length (dg_actions g)"
    using tracks_D(2) [OF assms] by (metis dom_map_of_conv_image_fst distinct_card length_map list.set_map)
  moreover have "inj (\<lambda>i. base + int i)" by (simp add: inj_def)
  ultimately show ?thesis by (metis card_image dg_InFlightCount_def inj_on_subset subset_UNIV)
qed

section \<open>Completing one action\<close>

text \<open>What the decrement loop does to every counter, and which references it reports.\<close>

lemma complete_loop_spec:
  assumes "complete_loop heap rs ready = (heap', ready')" "set rs \<subseteq> {0..<length heap}"
  shows "length heap' = length heap"
    and "\<And>i. i < length heap \<Longrightarrow>
           heap' ! i = (heap ! i)\<lparr>tn_depsLeft := tn_depsLeft (heap ! i) - int (count_list rs i)\<rparr>"
    and "\<And>i. i < length heap \<Longrightarrow>
           count_list ready' i = count_list ready i +
             (if 1 \<le> tn_depsLeft (heap ! i) \<and> tn_depsLeft (heap ! i) \<le> int (count_list rs i) then 1 else 0)"
    and "set ready' \<subseteq> set ready \<union> set rs"
proof -
  have "length heap' = length heap \<and>
    (\<forall>i < length heap.
       heap' ! i = (heap ! i)\<lparr>tn_depsLeft := tn_depsLeft (heap ! i) - int (count_list rs i)\<rparr> \<and>
       count_list ready' i = count_list ready i +
             (if 1 \<le> tn_depsLeft (heap ! i) \<and> tn_depsLeft (heap ! i) \<le> int (count_list rs i) then 1 else 0)) \<and>
    set ready' \<subseteq> set ready \<union> set rs"
    using assms
  proof (induction heap rs ready rule: complete_loop.induct)
    case (1 heap ready)
    then show ?case by auto
  next
    case (2 heap r rs ready)
    let ?left = "tn_depsLeft (heap ! r) - 1"
    let ?heap = "heap[r := (heap ! r)\<lparr>tn_depsLeft := ?left\<rparr>]"
    let ?ready = "if ?left = 0 then ready @ [r] else ready"
    have r: "r < length heap" using 2(3) by simp
    have IH: "length heap' = length ?heap \<and>
      (\<forall>i < length ?heap.
       heap' ! i = (?heap ! i)\<lparr>tn_depsLeft := tn_depsLeft (?heap ! i) - int (count_list rs i)\<rparr> \<and>
       count_list ready' i = count_list ?ready i +
             (if 1 \<le> tn_depsLeft (?heap ! i) \<and> tn_depsLeft (?heap ! i) \<le> int (count_list rs i) then 1 else 0)) \<and>
      set ready' \<subseteq> set ?ready \<union> set rs"
      by (rule 2(1) [OF refl refl]) (use 2(2,3) in \<open>simp_all add: Let_def\<close>)
    show ?case
    proof (intro conjI allI impI)
      show "length heap' = length heap" using IH by simp
      show "set ready' \<subseteq> set ready \<union> set (r # rs)" using IH by (auto split: if_splits)
      fix i assume i: "i < length heap"
      show "heap' ! i = (heap ! i)\<lparr>tn_depsLeft := tn_depsLeft (heap ! i) - int (count_list (r # rs) i)\<rparr>"
        using IH i r by (cases "i = r") (auto simp: algebra_simps)
      show "count_list ready' i = count_list ready i +
             (if 1 \<le> tn_depsLeft (heap ! i) \<and> tn_depsLeft (heap ! i) \<le> int (count_list (r # rs) i) then 1 else 0)"
        using IH i r by (cases "i = r") (auto simp: count_list_append)
    qed
  qed
  then show "length heap' = length heap"
    "\<And>i. i < length heap \<Longrightarrow>
           heap' ! i = (heap ! i)\<lparr>tn_depsLeft := tn_depsLeft (heap ! i) - int (count_list rs i)\<rparr>"
    "\<And>i. i < length heap \<Longrightarrow> count_list ready' i = count_list ready i +
             (if 1 \<le> tn_depsLeft (heap ! i) \<and> tn_depsLeft (heap ! i) \<le> int (count_list rs i) then 1 else 0)"
    "set ready' \<subseteq> set ready \<union> set rs"
    by blast+
qed

lemma open_deps_split:
  "c \<notin> C \<Longrightarrow> length (filter (\<lambda>j. j \<notin> C) xs) = count_list xs c + length (filter (\<lambda>j. j \<notin> insert c C) xs)"
  by (induction xs) auto

lemma no_open_deps: "length (filter (\<lambda>j. j \<notin> C) xs) = 0 \<longleftrightarrow> set xs \<subseteq> C"
  by (auto simp: filter_empty_conv)

lemma distinct_count_le_1: "(\<And>x. count_list xs x \<le> 1) \<Longrightarrow> distinct xs"
proof (induction xs)
  case (Cons a xs)
  have "count_list xs a = 0" using Cons.prems [of a] by simp
  moreover have "count_list xs x \<le> 1" for x using Cons.prems [of x] by (simp split: if_splits)
  ultimately show ?case using Cons.IH by (simp add: count_list_0_iff)
qed simp

lemma Complete_tracks:
  assumes t: "tracks base deps C g" and c: "c < length deps" "c \<notin> C"
  obtains g' new where "dg_Complete g (base + int c) = (g', Some new)" "tracks base deps (insert c C) g'"
    "distinct new" "set new = {i. i < length deps \<and> c \<in> set (deps ! i) \<and> set (deps ! i) \<subseteq> insert c C}"
proof -
  note D = tracks_D [OF t]
  let ?rs = "tn_dependents (dg_heap g ! c)"
  obtain heap' new where loop: "complete_loop (dg_heap g) ?rs [] = (heap', new)" by force
  have rs: "set ?rs \<subseteq> {0..<length (dg_heap g)}"
  proof
    fix k assume "k \<in> set ?rs"
    then have "count_list ?rs k \<noteq> 0" by (simp add: count_list_0_iff)
    then show "k \<in> {0..<length (dg_heap g)}" using D(6) [OF c(1), of k] D(1) by (simp split: if_splits)
  qed
  note S = complete_loop_spec [OF loop rs]
  have cnt: "count_list ?rs i = count_list (deps ! i) c" if "i < length deps" for i
    using D(6) [OF c(1), of i] that by simp
  have left: "tn_depsLeft (dg_heap g ! i) =
      int (count_list (deps ! i) c) + int (length (filter (\<lambda>j. j \<notin> insert c C) (deps ! i)))"
    if "i < length deps" for i
    using D(5) [OF that] open_deps_split [OF c(2), of "deps ! i"] by simp
  let ?g = "\<lparr>dg_heap = heap', dg_actions = AList.delete (base + int c) (dg_actions g)\<rparr>"
  have step: "dg_Complete g (base + int c) = (?g, Some new)"
    using tracks_lookup [OF t c(1)] c(2) loop by (simp add: dg_Complete_def)
  have newcount: "count_list new i =
      (if c \<in> set (deps ! i) \<and> set (deps ! i) \<subseteq> insert c C then 1 else 0)" if i: "i < length deps" for i
  proof -
    have "count_list (deps ! i) c = 0 \<longleftrightarrow> c \<notin> set (deps ! i)" by (simp add: count_list_0_iff)
    then show ?thesis
      using S(3) [of i] i D(1) cnt [OF i] left [OF i] no_open_deps [of "insert c C" "deps ! i"] by auto
  qed
  have sub: "set new \<subseteq> {0..<length deps}" using S(4) rs D(1) by auto
  have "count_list new i \<le> 1" for i
  proof (cases "i < length deps")
    case True
    then show ?thesis using newcount by simp
  next
    case False
    then have "i \<notin> set new" using sub by auto
    then show ?thesis by (simp add: count_notin)
  qed
  then have "distinct new" by (rule distinct_count_le_1)
  moreover have "i \<in> set new \<longleftrightarrow> i < length deps \<and> c \<in> set (deps ! i) \<and> set (deps ! i) \<subseteq> insert c C" for i
  proof (cases "i < length deps")
    case True
    then show ?thesis using newcount [OF True] count_list_0_iff [of new i] by (auto split: if_splits)
  next
    case False
    then show ?thesis using sub by auto
  qed
  moreover have "tracks base deps (insert c C) ?g"
    unfolding tracks_def
  proof (intro conjI allI impI)
    show "length (dg_heap ?g) = length deps" using S(1) D(1) by simp
    show "distinct (map fst (dg_actions ?g))" using D(2) by (simp add: AList.distinct_delete)
    show "map_of (dg_actions ?g) k =
        (if base \<le> k \<and> nat (k - base) < length deps \<and> nat (k - base) \<notin> insert c C then Some (nat (k - base)) else None)" for k
      using D(3) [of k] by (auto simp: delete_conv')
    fix i assume i: "i < length deps"
    then have i': "i < length (dg_heap g)" using D(1) by simp
    show "ta_ID (tn_TA (dg_heap ?g ! i)) = base + int i" using S(2) [OF i'] D(4) [OF i] by simp
    show "tn_depsLeft (dg_heap ?g ! i) = int (length (filter (\<lambda>j. j \<notin> insert c C) (deps ! i)))"
      using S(2) [OF i'] left [OF i] cnt [OF i] by simp
    show "count_list (tn_dependents (dg_heap ?g ! i)) k = (if k < length deps then count_list (deps ! k) i else 0)" for k
      using S(2) [OF i'] D(6) [OF i] by simp
  qed
  ultimately show ?thesis using step that by blast
qed

section \<open>Registering a plan\<close>

definition indexed :: "int \<Rightarrow> nat \<Rightarrow> dep_graph \<Rightarrow> bool" where
  "indexed base n g \<longleftrightarrow>
     length (dg_heap g) = n \<and> distinct (map fst (dg_actions g)) \<and>
     (\<forall>k. map_of (dg_actions g) k = (if base \<le> k \<and> nat (k - base) < n then Some (nat (k - base)) else None))"

lemma indexed_lookup: "indexed base n g \<Longrightarrow> i < n \<Longrightarrow> map_of (dg_actions g) (base + int i) = Some i"
  by (simp add: indexed_def)

lemma Register_indexed:
  assumes "indexed base n g"
  shows "indexed base (Suc n) (dg_Register g a (base + int n))"
proof -
  have "(base \<le> k \<and> nat (k - base) < Suc n) \<longleftrightarrow> k = base + int n \<or> (base \<le> k \<and> nat (k - base) < n)" for k
    by auto
  then show ?thesis
    using assms by (auto simp: indexed_def dg_Register_def update_conv' AList.distinct_update)
qed

lemma register_loop_spec:
  assumes "indexed base n g" "ids = map (\<lambda>i. base + int i) [n..<n + length as]"
  shows "indexed base (n + length as) (register_loop g as ids) \<and>
    dg_heap (register_loop g as ids) =
      dg_heap g @ map (\<lambda>i. new_node (as ! i) (base + int (n + i)) 1) [0..<length as]"
  using assms
proof (induction as arbitrary: g n ids)
  case Nil
  then show ?case by simp
next
  case (Cons a as)
  have ids: "ids = (base + int n) # map (\<lambda>i. base + int i) [Suc n..<Suc n + length as]"
    using Cons.prems(2) by (simp add: upt_conv_Cons del: upt_Suc)
  have "map (\<lambda>i. new_node (as ! i) (base + int (Suc n + i)) 1) [0..<length as] =
        map (\<lambda>i. new_node ((a # as) ! i) (base + int (n + i)) 1) [Suc 0..<Suc (length as)]"
    by (simp add: map_Suc_upt [symmetric] algebra_simps del: upt_Suc)
  with Cons.IH [OF Register_indexed [OF Cons.prems(1), of a] refl] show ?case
    by (simp add: ids dg_Register_def upt_conv_Cons del: upt_Suc)
qed

lemma wire_loop_spec:
  assumes "indexed base n g" "set ds \<subseteq> {0..<n}"
  shows "\<exists>g'. wire_loop g node (map (\<lambda>d. base + int d) ds) rem = (g', rem + int (length ds)) \<and>
    dg_actions g' = dg_actions g \<and> length (dg_heap g') = n \<and>
    (\<forall>i < n. dg_heap g' ! i =
       (dg_heap g ! i)\<lparr>tn_dependents := tn_dependents (dg_heap g ! i) @ replicate (count_list ds i) node\<rparr>)"
  using assms
proof (induction ds arbitrary: g rem)
  case Nil
  then show ?case by (simp add: indexed_def)
next
  case (Cons d ds)
  let ?g = "heap_upd d (\<lambda>n. n\<lparr>tn_dependents := tn_dependents n @ [node]\<rparr>) g"
  have d: "d < n" and g: "indexed base n ?g" and len: "length (dg_heap g) = n"
    using Cons.prems by (auto simp: indexed_def heap_upd_def)
  obtain g' where g': "wire_loop ?g node (map (\<lambda>d. base + int d) ds) (rem + 1) = (g', rem + 1 + int (length ds))"
    "dg_actions g' = dg_actions ?g" "length (dg_heap g') = n"
    "\<forall>i < n. dg_heap g' ! i =
       (dg_heap ?g ! i)\<lparr>tn_dependents := tn_dependents (dg_heap ?g ! i) @ replicate (count_list ds i) node\<rparr>"
    using Cons.IH [OF g, of "rem + 1"] Cons.prems(2) by auto
  have "dg_heap g' ! i = (dg_heap g ! i)\<lparr>tn_dependents :=
      tn_dependents (dg_heap g ! i) @ replicate (count_list (d # ds) i) node\<rparr>" if "i < n" for i
    using g'(4) that d len by (cases "i = d") (simp_all add: heap_upd_def)
  then show ?case
    using g' indexed_lookup [OF Cons.prems(1) d] by (auto simp: heap_upd_def)
qed

definition wired :: "int \<Rightarrow> nat list list \<Rightarrow> nat \<Rightarrow> dep_graph \<Rightarrow> bool" where
  "wired base deps k g \<longleftrightarrow>
     indexed base (length deps) g \<and>
     (\<forall>i < length deps.
        ta_ID (tn_TA (dg_heap g ! i)) = base + int i \<and>
        (i < k \<longrightarrow> tn_depsLeft (dg_heap g ! i) = int (length (deps ! i))) \<and>
        (\<forall>m. count_list (tn_dependents (dg_heap g ! i)) m = (if m < k then count_list (deps ! m) i else 0)))"

lemma count_list_replicate: "count_list (replicate n x) y = (if x = y then n else 0)"
  by (induction n) auto

lemma WireDeps_wired:
  assumes w: "wired base deps k g" and k: "k < length deps" "set (deps ! k) \<subseteq> {0..<length deps}"
  shows "\<exists>g'. dg_WireDeps g (base + int k) (map (\<lambda>d. base + int d) (deps ! k)) =
           (g', if deps ! k = [] then Some k else None) \<and> wired base deps (Suc k) g'"
proof -
  have idx: "indexed base (length deps) g" using w by (simp add: wired_def)
  obtain g1 where g1: "wire_loop g k (map (\<lambda>d. base + int d) (deps ! k)) 0 = (g1, int (length (deps ! k)))"
    "dg_actions g1 = dg_actions g" "length (dg_heap g1) = length deps"
    "\<forall>i < length deps. dg_heap g1 ! i =
       (dg_heap g ! i)\<lparr>tn_dependents := tn_dependents (dg_heap g ! i) @ replicate (count_list (deps ! k) i) k\<rparr>"
    using wire_loop_spec [OF idx k(2), of k 0] by auto
  let ?g = "heap_upd k (\<lambda>n. n\<lparr>tn_depsLeft := int (length (deps ! k))\<rparr>) g1"
  have "dg_WireDeps g (base + int k) (map (\<lambda>d. base + int d) (deps ! k)) =
      (?g, if deps ! k = [] then Some k else None)"
    by (simp add: dg_WireDeps_def indexed_lookup [OF idx k(1)] g1(1))
  moreover have "wired base deps (Suc k) ?g"
    unfolding wired_def
  proof (intro conjI allI impI)
    show "indexed base (length deps) ?g" using idx g1(2,3) by (simp add: indexed_def heap_upd_def)
    fix i assume i: "i < length deps"
    have at: "dg_heap ?g ! i = (if i = k then (dg_heap g1 ! i)\<lparr>tn_depsLeft := int (length (deps ! k))\<rparr> else dg_heap g1 ! i)"
      using k(1) g1(3) by (simp add: heap_upd_def)
    show "ta_ID (tn_TA (dg_heap ?g ! i)) = base + int i"
      using w i g1(4) by (simp add: at wired_def)
    show "i < Suc k \<Longrightarrow> tn_depsLeft (dg_heap ?g ! i) = int (length (deps ! i))"
      using w i g1(4) by (auto simp: at wired_def less_Suc_eq)
    show "count_list (tn_dependents (dg_heap ?g ! i)) m = (if m < Suc k then count_list (deps ! m) i else 0)" for m
      using w i g1(4) by (auto simp: at wired_def less_Suc_eq count_list_append count_list_replicate)
  qed
  ultimately show ?thesis by blast
qed

lemma wire_all_spec:
  assumes "wired base deps k g" "k \<le> length deps" "\<forall>i < length deps. set (deps ! i) \<subseteq> {0..<length deps}"
    "ids = map (\<lambda>i. base + int i) [0..<length deps]"
  shows "\<exists>g'. wire_all g ids deps [k..<length deps] ready =
           (g', ready @ filter (\<lambda>i. deps ! i = []) [k..<length deps]) \<and> wired base deps (length deps) g'"
  using assms(1,2)
proof (induction "length deps - k" arbitrary: k g ready)
  case 0
  then show ?case by simp
next
  case (Suc n)
  then have k: "k < length deps" by simp
  have ds: "map (\<lambda>d. ids ! d) (deps ! k) = map (\<lambda>d. base + int d) (deps ! k)"
    using assms(3,4) k by fastforce
  have at: "ids ! k = base + int k" using assms(4) k by simp
  obtain g1 where g1: "dg_WireDeps g (base + int k) (map (\<lambda>d. base + int d) (deps ! k)) =
           (g1, if deps ! k = [] then Some k else None)" "wired base deps (Suc k) g1"
    using WireDeps_wired [OF Suc.prems(1) k] assms(3) k by blast
  have "n = length deps - Suc k" using Suc.hyps(2) by simp
  from Suc.hyps(1) [OF this g1(2), of "if deps ! k = [] then ready @ [k] else ready"] k
  show ?case using k g1(1) by (auto simp: upt_conv_Cons at ds simp del: upt_Suc)
qed

lemma wired_tracks: "wired base deps (length deps) g \<Longrightarrow> tracks base deps {} g"
  by (auto simp: wired_def tracks_def indexed_def)

definition plan_wf :: "action_plan \<Rightarrow> bool" where
  "plan_wf plan \<longleftrightarrow> length (ap_Deps plan) = length (ap_Actions plan) \<and>
     list_all (list_all (\<lambda>j. j < length (ap_Actions plan))) (ap_Deps plan)"

lemma registerPlanActions_spec:
  assumes "plan_wf plan"
  shows "\<exists>g. registerPlanActions NewDepGraph base plan =
           ((g, base + int (length (ap_Actions plan))), filter (\<lambda>i. ap_Deps plan ! i = []) [0..<length (ap_Actions plan)]) \<and>
         tracks base (ap_Deps plan) {} g"
proof (cases "ap_Actions plan = []")
  case True
  then show ?thesis
    using assms by (auto simp: registerPlanActions_def NewDepGraph_def plan_wf_def tracks_def)
next
  case False
  let ?n = "length (ap_Actions plan)" and ?deps = "ap_Deps plan"
  let ?ids = "map (\<lambda>i. base + int i) [0..<?n]"
  have n: "length ?deps = ?n" using assms by (simp add: plan_wf_def)
  have range: "\<forall>i < length ?deps. set (?deps ! i) \<subseteq> {0..<length ?deps}"
    using assms by (fastforce simp: plan_wf_def list_all_iff)
  have "indexed base 0 NewDepGraph" by (simp add: indexed_def NewDepGraph_def)
  from register_loop_spec [OF this, of ?ids "ap_Actions plan"]
  have reg: "indexed base ?n (register_loop NewDepGraph (ap_Actions plan) ?ids)"
    "dg_heap (register_loop NewDepGraph (ap_Actions plan) ?ids) =
       map (\<lambda>i. new_node (ap_Actions plan ! i) (base + int i) 1) [0..<?n]"
    by (simp_all add: NewDepGraph_def)
  have "wired base ?deps 0 (register_loop NewDepGraph (ap_Actions plan) ?ids)"
    using reg n by (simp add: wired_def new_node_def)
  from wire_all_spec [OF this _ range, of ?ids "[]"] n
  obtain g where "wire_all (register_loop NewDepGraph (ap_Actions plan) ?ids) ?ids ?deps [0..<?n] [] =
      (g, filter (\<lambda>i. ?deps ! i = []) [0..<?n])" "wired base ?deps ?n g"
    by auto
  then show ?thesis
    using False wired_tracks [of base ?deps g] n by (simp add: registerPlanActions_def allocatePlanActionIDs_def)
qed

section \<open>Running a plan\<close>

text \<open>
  The runs of a registered plan: the engine may complete any announced action that is not
  completed yet, in any order (workers finish in any order). A state holds the graph, the
  indices announced as ready so far and the indices completed so far, both in order.
\<close>

inductive plan_run :: "int \<Rightarrow> action_plan \<Rightarrow> dep_graph \<Rightarrow> nat list \<Rightarrow> nat list \<Rightarrow> bool"
  for base plan where
  run_start: "registerPlanActions NewDepGraph base plan = ((g, next), ready) \<Longrightarrow> plan_run base plan g ready []"
| run_complete: "plan_run base plan g announced completed \<Longrightarrow> i \<in> set announced \<Longrightarrow> i \<notin> set completed \<Longrightarrow>
    dg_Complete g (base + int i) = (g', Some new) \<Longrightarrow> plan_run base plan g' (announced @ new) (completed @ [i])"

inductive_cases plan_runE: "plan_run base plan g announced completed"

definition run_inv :: "int \<Rightarrow> action_plan \<Rightarrow> dep_graph \<Rightarrow> nat list \<Rightarrow> nat list \<Rightarrow> bool" where
  "run_inv base plan g announced completed \<longleftrightarrow>
     tracks base (ap_Deps plan) (set completed) g \<and> distinct announced \<and> distinct completed \<and>
     set announced = {i. i < length (ap_Deps plan) \<and> set (ap_Deps plan ! i) \<subseteq> set completed} \<and>
     set completed \<subseteq> set announced \<and>
     (\<forall>k < length completed. set (ap_Deps plan ! (completed ! k)) \<subseteq> set (take k completed))"

lemma plan_run_inv:
  assumes "plan_wf plan" "plan_run base plan g announced completed"
  shows "run_inv base plan g announced completed"
  using assms(2)
proof (induction rule: plan_run.induct)
  case (run_start g "next" ready)
  then show ?case
    using registerPlanActions_spec [OF assms(1), of base] assms(1) by (auto simp: run_inv_def plan_wf_def)
next
  case (run_complete g announced completed i g' new)
  let ?deps = "ap_Deps plan"
  note inv = run_complete.IH [unfolded run_inv_def]
  have i: "i < length ?deps" using inv run_complete.hyps(2) by auto
  obtain g1 new1 where s: "dg_Complete g (base + int i) = (g1, Some new1)"
    "tracks base ?deps (insert i (set completed)) g1" "distinct new1"
    "set new1 = {k. k < length ?deps \<and> i \<in> set (?deps ! k) \<and> set (?deps ! k) \<subseteq> insert i (set completed)}"
    using Complete_tracks [of base ?deps "set completed" g i] inv i run_complete.hyps(3) by auto
  then have eq: "g1 = g'" "new1 = new" using run_complete.hyps(4) by simp_all
  have "set announced \<inter> set new = {}"
    using inv s(4) run_complete.hyps(3) eq by auto
  moreover have "set (announced @ new) = {k. k < length ?deps \<and> set (?deps ! k) \<subseteq> set (completed @ [i])}"
    using inv s(4) eq by auto
  moreover have "set (?deps ! ((completed @ [i]) ! k)) \<subseteq> set (take k (completed @ [i]))"
    if "k < length (completed @ [i])" for k
    using that inv run_complete.hyps(2) by (auto simp: nth_append less_Suc_eq)
  ultimately show ?case
    using inv s eq run_complete.hyps(2,3) unfolding run_inv_def by auto
qed

text \<open>
  C5: Running a plan in any order of completions is correct: an action is announced as ready
  exactly once, and exactly when all its dependencies are completed; every action completes
  after all of its dependencies; completing an announced action always succeeds (the engine's
  panic on an unknown id is unreachable); and the in-flight count is the number of actions not
  completed.
\<close>

theorem dep_graph_run_correct:
  assumes "plan_wf plan" "plan_run base plan g announced completed"
  shows "distinct announced \<and>
    set announced = {i. i < length (ap_Deps plan) \<and> set (ap_Deps plan ! i) \<subseteq> set completed} \<and>
    (\<forall>k < length completed. set (ap_Deps plan ! (completed ! k)) \<subseteq> set (take k completed)) \<and>
    (\<forall>i \<in> set announced - set completed. completeDepGraphAction g (base + int i) \<noteq> None) \<and>
    dg_InFlightCount g + length completed = length (ap_Actions plan)"
proof -
  note inv = plan_run_inv [OF assms, unfolded run_inv_def]
  let ?n = "length (ap_Deps plan)"
  have t: "tracks base (ap_Deps plan) (set completed) g" using inv by blast
  have "completeDepGraphAction g (base + int i) \<noteq> None" if "i \<in> set announced - set completed" for i
    using Complete_tracks [OF t, of i] that inv by (fastforce simp: completeDepGraphAction_def)
  moreover have "dg_InFlightCount g + length completed = length (ap_Actions plan)"
  proof -
    have sub: "set completed \<subseteq> {0..<?n}" using inv by auto
    have "card (set completed) = length completed" using inv distinct_card by blast
    moreover have "card ({0..<?n} - set completed) = ?n - card (set completed)"
      using sub by (simp add: card_Diff_subset)
    moreover have "card (set completed) \<le> ?n" using card_mono [OF _ sub] by simp
    ultimately show ?thesis
      using tracks_InFlight [OF t] assms(1) by (simp add: plan_wf_def)
  qed
  ultimately show ?thesis using inv by blast
qed

section \<open>Retiring a subtree\<close>

lemma run_complete_step:
  assumes "plan_wf plan" "plan_run base plan g announced completed" "i \<in> set announced" "i \<notin> set completed"
  obtains g' new where "dg_Complete g (base + int i) = (g', Some new)"
    "plan_run base plan g' (announced @ new) (completed @ [i])"
proof -
  note inv = plan_run_inv [OF assms(1,2), unfolded run_inv_def]
  then have t: "tracks base (ap_Deps plan) (set completed) g" and i: "i < length (ap_Deps plan)"
    using assms(3) by auto
  obtain g' new where s: "dg_Complete g (base + int i) = (g', Some new)"
    by (rule Complete_tracks [OF t i assms(4)]) blast
  then show ?thesis using that run_complete [OF assms(2,3,4) s] by blast
qed

lemma complete_subtree_runs:
  assumes wf: "plan_wf plan"
  shows "plan_run base plan g announced completed \<Longrightarrow> distinct queue \<Longrightarrow>
    set queue \<subseteq> set announced - set completed \<Longrightarrow> set seen \<subseteq> (\<lambda>i. base + int i) ` set completed \<Longrightarrow>
    length (ap_Actions plan) - length completed \<le> fuel \<Longrightarrow>
    \<exists>g' announced' completed'. complete_subtree_loop fuel g seen queue = Some g' \<and>
      plan_run base plan g' announced' completed' \<and>
      set announced' - set completed' = (set announced - set completed) - set queue"
proof (induction fuel g seen queue arbitrary: announced completed rule: complete_subtree_loop.induct)
  case (1 fuel g seen)
  then show ?case by auto
next
  case (2 g seen r queue)
  note inv = plan_run_inv [OF wf 2(1), unfolded run_inv_def]
  have "set completed \<union> {r} \<subseteq> {0..<length (ap_Deps plan)}" using inv 2(3) by auto
  then have "card (set completed \<union> {r}) \<le> length (ap_Deps plan)" by (metis card_atLeastLessThan card_mono finite_atLeastLessThan minus_nat.diff_0)
  moreover have "card (set completed \<union> {r}) = Suc (length completed)"
    using inv 2(3) by (simp add: distinct_card)
  ultimately show ?case using 2(5) wf by (simp add: plan_wf_def)
next
  case (3 fuel g seen r queue)
  note inv = plan_run_inv [OF wf 3(3), unfolded run_inv_def]
  have r: "r \<in> set announced" "r \<notin> set completed" "r < length (ap_Deps plan)" using 3(5) inv by auto
  have rid: "ta_ID (tn_TA (dg_heap g ! r)) = base + int r" using tracks_D(4) inv r(3) by blast
  have notseen: "base + int r \<notin> set seen" using 3(6) r(2) by auto
  obtain g1 new where s: "dg_Complete g (base + int r) = (g1, Some new)"
    and run: "plan_run base plan g1 (announced @ new) (completed @ [r])"
    using run_complete_step [OF wf 3(3) r(1,2)] .
  note inv1 = plan_run_inv [OF wf run, unfolded run_inv_def]
  have disj: "set new \<inter> set announced = {}" "distinct new" using inv1 by auto
  have new_open: "set new \<inter> set (completed @ [r]) = {}" using disj inv r(1) by auto
  have "\<exists>g' announced' completed'. complete_subtree_loop fuel g1 ((base + int r) # seen) (queue @ new) = Some g' \<and>
      plan_run base plan g' announced' completed' \<and>
      set announced' - set completed' = (set (announced @ new) - set (completed @ [r])) - set (queue @ new)"
  proof (rule 3(2) [OF rid [symmetric], of "(g1, new)" g1 new])
    show "distinct (queue @ new)" using 3(4,5) disj by auto
    show "set (queue @ new) \<subseteq> set (announced @ new) - set (completed @ [r])" using 3(4,5) new_open by auto
    show "set ((base + int r) # seen) \<subseteq> (\<lambda>i. base + int i) ` set (completed @ [r])" using 3(6) by auto
    show "length (ap_Actions plan) - length (completed @ [r]) \<le> fuel" using 3(7) by simp
  qed (use s run notseen in \<open>auto simp: completeDepGraphAction_def\<close>)
  moreover have "(set (announced @ new) - set (completed @ [r])) - set (queue @ new) =
      (set announced - set completed) - set (r # queue)"
    using new_open disj(1) by auto
  ultimately show ?case
    using s notseen by (simp add: rid Let_def completeDepGraphAction_def)
qed

text \<open>
  Retiring a subtree always finishes and never panics: from any state of a run, with any set
  of announced, open actions as the start queue, the worklist loop ends within as many
  iterations as there are open actions, completes every action of the queue and everything
  that becomes ready because of it, and leaves the other announced actions alone.
\<close>

theorem completeSubtree_total:
  assumes "plan_wf plan" "plan_run base plan g announced completed" "distinct queue"
    "set queue \<subseteq> set announced - set completed"
  shows "\<exists>g' announced' completed'.
    complete_subtree_loop (length (ap_Actions plan)) g [] queue = Some g' \<and>
    plan_run base plan g' announced' completed' \<and>
    set announced' - set completed' = (set announced - set completed) - set queue"
  using complete_subtree_runs [OF assms, of "[]" "length (ap_Actions plan)"] by simp

section \<open>The other operations\<close>

lemma MarkTrial_tracks:
  assumes "tracks base deps C g"
  shows "tracks base deps C (fst (dg_MarkTrial g i sk))"
proof (cases "map_of (dg_actions g) i")
  case None
  then show ?thesis using assms by (simp add: dg_MarkTrial_def)
next
  case (Some r)
  let ?f = "\<lambda>n. n\<lparr>tn_TA := (tn_TA n)\<lparr>ta_IsTrial := True, ta_TrialScopeKey := sk\<rparr>\<rparr>"
  have "r < length (dg_heap g)"
    using Some tracks_D(1) [OF assms] tracks_D(3) [OF assms, of i] by (auto split: if_splits)
  then have "dg_heap (heap_upd r ?f g) ! k = (if k = r then ?f (dg_heap g ! k) else dg_heap g ! k)" for k
    by (simp add: heap_upd_def)
  then show ?thesis
    using assms Some unfolding tracks_def dg_MarkTrial_def
    by (auto simp: heap_upd_def nth_list_update)
qed

lemma wire_loop_depsLeft:
  "wire_loop (heap_upd node (\<lambda>n. n\<lparr>tn_depsLeft := x\<rparr>) g) node ds rem =
     (case wire_loop g node ds rem of (g', r) \<Rightarrow> (heap_upd node (\<lambda>n. n\<lparr>tn_depsLeft := x\<rparr>) g', r))"
proof (induction g node ds rem rule: wire_loop.induct)
  case (1 g node rem)
  then show ?case by simp
next
  case (2 g node d ds rem)
  have comm: "heap_upd dep (\<lambda>n. n\<lparr>tn_dependents := tn_dependents n @ [node]\<rparr>)
        (heap_upd node (\<lambda>n. n\<lparr>tn_depsLeft := x\<rparr>) g) =
      heap_upd node (\<lambda>n. n\<lparr>tn_depsLeft := x\<rparr>)
        (heap_upd dep (\<lambda>n. n\<lparr>tn_dependents := tn_dependents n @ [node]\<rparr>) g)" for dep
    by (cases "dep = node"; cases "node < length (dg_heap g)"; cases "dg_heap g ! node")
      (simp_all add: heap_upd_def list_update_swap list_update_beyond)
  show ?case
    using 2 by (cases "map_of (dg_actions g) d") (simp_all add: comm)
qed

lemma heap_upd_twice:
  "heap_upd r (\<lambda>n. n\<lparr>tn_depsLeft := x\<rparr>) (heap_upd r (\<lambda>n. n\<lparr>tn_depsLeft := y\<rparr>) g) = heap_upd r (\<lambda>n. n\<lparr>tn_depsLeft := x\<rparr>) g"
  by (cases "r < length (dg_heap g)") (simp_all add: heap_upd_def list_update_beyond)

text \<open>
  \<^verbatim>\<open>Add\<close> is the two-phase protocol in one call: on every graph it equals
  \<^verbatim>\<open>Register\<close> followed by \<^verbatim>\<open>WireDeps\<close>, with the same graph, the same readiness answer, and
  the same treatment of unknown dependencies.
\<close>

theorem Add_is_Register_WireDeps:
  "dg_Add g a i depIDs = dg_WireDeps (dg_Register g a i) i depIDs"
proof -
  let ?node = "length (dg_heap g)"
  let ?g1 = "g\<lparr>dg_heap := dg_heap g @ [new_node a i 0], dg_actions := AList.update i ?node (dg_actions g)\<rparr>"
  have reg: "dg_Register g a i = heap_upd ?node (\<lambda>n. n\<lparr>tn_depsLeft := 1\<rparr>) ?g1"
    by (simp add: dg_Register_def heap_upd_def new_node_def)
  have "map_of (dg_actions (dg_Register g a i)) i = Some ?node"
    by (simp add: dg_Register_def update_conv')
  then show ?thesis
    by (cases "wire_loop ?g1 ?node depIDs 0")
      (simp add: dg_Add_def dg_WireDeps_def Let_def reg wire_loop_depsLeft heap_upd_twice)
qed

section \<open>A concrete run\<close>

definition demo_action :: "string \<Rightarrow> action" where
  "demo_action p = \<lparr>a_Type = ActionUpload, a_DriveID = zero_id, a_ItemID = '''', a_Path = p, a_OldPath = '''',
                    a_CreateSide = CreateLocal, a_View = None, a_RequireMissingLocalTarget = False\<rparr>"

text \<open>The second and third action wait for the first.\<close>

definition demo_plan :: action_plan where
  "demo_plan = \<lparr>ap_Actions = [demo_action ''d'', demo_action ''d/x'', demo_action ''d/y''],
                ap_Deps = [[], [0], [0]], ap_DeferredByMode = zero_deferred\<rparr>"

lemma demo_plan_wf: "plan_wf demo_plan"
  by code_simp

definition demo_start :: dep_graph where
  "demo_start = fst (fst (registerPlanActions NewDepGraph 1 demo_plan))"

lemma demo_plan_run: "plan_run 1 demo_plan demo_start [0] []"
proof -
  have "snd (registerPlanActions NewDepGraph 1 demo_plan) = [0]" by code_simp
  then show ?thesis
    by (intro run_start [of 1 demo_plan demo_start "snd (fst (registerPlanActions NewDepGraph 1 demo_plan))"])
      (simp add: demo_start_def prod_eq_iff)
qed

theorem dep_graph_run_correct_witness:
  "completeDepGraphAction demo_start 1 \<noteq> None \<and> dg_InFlightCount demo_start = 3"
  using dep_graph_run_correct [OF demo_plan_wf demo_plan_run] by (simp add: demo_plan_def)

theorem completeSubtree_total_witness:
  "\<exists>g'. complete_subtree_loop (length (ap_Actions demo_plan)) demo_start [] [0] = Some g'"
  using completeSubtree_total [OF demo_plan_wf demo_plan_run, of "[0]"] by force

end
