(* ===== verification/PlanExecution.thy ===== *)
theory PlanExecution
  imports PlanSafety DepGraph
begin

text \<open>
  The planner and the dependency graph together: every plan the planner returns can be run to
  the end, whatever order the workers finish in.
\<close>

lemma acyclic_progress:
  assumes "acyclic (edges deps)" "in_range deps" "i < length deps" "i \<notin> C"
  obtains k where "k < length deps" "k \<notin> C" "set (deps ! k) \<subseteq> C"
proof -
  have "edges deps \<subseteq> {0..<length deps} \<times> {0..<length deps}"
    using in_range_D [OF assms(2)] by (auto simp: edges_def)
  then have "finite (edges deps)" by (rule finite_subset) simp
  then have "wf ((edges deps)\<inverse>)" using assms(1) by (rule finite_acyclic_wf_converse)
  moreover have "i \<in> {k. k < length deps \<and> k \<notin> C}" using assms(3,4) by simp
  ultimately obtain k where k: "k \<in> {k. k < length deps \<and> k \<notin> C}"
    "\<And>y. (y, k) \<in> (edges deps)\<inverse> \<Longrightarrow> y \<notin> {k. k < length deps \<and> k \<notin> C}"
    by (rule wfE_min) blast
  have "set (deps ! k) \<subseteq> C"
  proof
    fix y assume "y \<in> set (deps ! k)"
    then have "(k, y) \<in> edges deps" "y < length deps"
      using k(1) in_range_D [OF assms(2), of k y] by (auto simp: edges_def)
    then show "y \<in> C" using k(2) [of y] by auto
  qed
  then show ?thesis using that k(1) by blast
qed

lemma plan_of_graph:
  assumes "plan_of t d bl issues mount mode = Some (Inr plan)"
  shows "plan_wf plan" "in_range (ap_Deps plan)" "acyclic (edges (ap_Deps plan))"
proof -
  obtain cs rs where p: "PlanCurrentState cs rs (map scan_local_row (st_local t))
      (map (scan_remote_row d) (st_remote t)) issues bl mount mode = Inr plan"
    using assms by (auto simp: plan_of_def split: option.splits)
  have deps: "ap_Deps plan = buildDependencies (delete_order (ap_Actions plan)) (ap_Actions plan)"
    by (rule PlanCurrentState_Inr [OF p])
  show r: "in_range (ap_Deps plan)" unfolding deps by (rule buildDependencies_in_range)
  have len: "length (ap_Deps plan) = length (ap_Actions plan)" by (simp add: deps buildDependencies_def)
  then show "plan_wf plan" using r by (simp add: plan_wf_def in_range_def)
  have "detectDependencyCycle (ap_Deps plan) \<noteq> Some True"
    using p by (auto simp: PlanCurrentState_def Let_def split: sum.splits prod.splits if_splits)
  then show "acyclic (edges (ap_Deps plan))" using detect_correct [OF r] by (auto simp: acyclic_def)
qed

lemma plan_run_progress:
  assumes "plan_wf plan" "in_range (ap_Deps plan)" "acyclic (edges (ap_Deps plan))"
    and run: "plan_run base plan g announced completed" and "length completed < length (ap_Actions plan)"
  obtains i g' new where "i \<in> set announced" "i \<notin> set completed"
    "dg_Complete g (base + int i) = (g', Some new)" "plan_run base plan g' (announced @ new) (completed @ [i])"
proof -
  let ?n = "length (ap_Deps plan)"
  note inv = plan_run_inv [OF assms(1) run, unfolded run_inv_def]
  have "\<not> {0..<?n} \<subseteq> set completed"
  proof
    assume "{0..<?n} \<subseteq> set completed"
    then have "?n \<le> card (set completed)" using card_mono [of "set completed" "{0..<?n}"] by simp
    then show False using assms(1,5) card_length [of completed] by (simp add: plan_wf_def)
  qed
  then obtain i where i: "i < ?n" "i \<notin> set completed" by (meson atLeastLessThan_iff subsetI)
  obtain k where k: "k < ?n" "k \<notin> set completed" "set (ap_Deps plan ! k) \<subseteq> set completed"
    by (rule acyclic_progress [OF assms(3,2) i])
  then have "k \<in> set announced" using inv by auto
  then show ?thesis using that run_complete_step [OF assms(1) run _ k(2)] k(2) by metis
qed

text \<open>
  C4: Every plan can be executed to completion. In each state of each run of a plan the planner
  returned, while some action is not completed there is an announced action to complete next,
  and completing it is again a state of a run: the dependency graph never deadlocks. A run that
  completed every action exists, and in it the in-flight count is zero.
\<close>

theorem plan_execution_drains:
  assumes "plan_of t d bl issues mount mode = Some (Inr plan)"
  shows "(\<forall>g announced completed.
            plan_run base plan g announced completed \<and> length completed < length (ap_Actions plan) \<longrightarrow>
            (\<exists>i g' new. i \<in> set announced \<and> i \<notin> set completed \<and> plan_run base plan g' (announced @ new) (completed @ [i]))) \<and>
         (\<exists>g announced completed.
            plan_run base plan g announced completed \<and> length completed = length (ap_Actions plan) \<and>
            dg_InFlightCount g = 0)"
proof -
  note P = plan_of_graph [OF assms]
  have progress: "\<exists>i g' new. i \<in> set announced \<and> i \<notin> set completed \<and> plan_run base plan g' (announced @ new) (completed @ [i])"
    if "plan_run base plan g announced completed" "length completed < length (ap_Actions plan)" for g announced completed
    by (rule plan_run_progress [OF P that]) blast
  have "\<exists>g announced completed. plan_run base plan g announced completed \<and> length completed = k"
    if "k \<le> length (ap_Actions plan)" for k
    using that
  proof (induction k)
    case 0
    obtain g where "registerPlanActions NewDepGraph base plan =
        ((g, base + int (length (ap_Actions plan))), filter (\<lambda>i. ap_Deps plan ! i = []) [0..<length (ap_Actions plan)])"
      using registerPlanActions_spec [OF P(1), of base] by blast
    then show ?case using run_start by fastforce
  next
    case (Suc k)
    then obtain g announced completed where r: "plan_run base plan g announced completed" "length completed = k" by auto
    with Suc.prems progress [OF r(1)] show ?case by fastforce
  qed
  then obtain g announced completed where r: "plan_run base plan g announced completed"
    "length completed = length (ap_Actions plan)" by blast
  note inv = plan_run_inv [OF P(1) r(1), unfolded run_inv_def]
  have "dg_InFlightCount g = 0"
  proof -
    have sub: "set completed \<subseteq> {0..<length (ap_Deps plan)}" using inv by auto
    have "card (set completed) = length (ap_Deps plan)"
      using inv r(2) P(1) by (simp add: distinct_card plan_wf_def)
    then have "set completed = {0..<length (ap_Deps plan)}" using card_subset_eq [OF _ sub] by simp
    then show ?thesis using tracks_InFlight inv by (metis Diff_cancel card.empty)
  qed
  with r progress show ?thesis by blast
qed

theorem plan_execution_drains_witness:
  "\<exists>plan g announced completed. edited_plan = Some (Inr plan) \<and>
     plan_run 1 plan g announced completed \<and> dg_InFlightCount g = 0"
proof -
  obtain plan where "edited_plan = Some (Inr plan)"
    using edited_plan_actions by (auto split: option.splits sum.splits)
  then show ?thesis using plan_execution_drains [of edited_db demo_drive edited_cache "[]" _ SyncBidirectional plan 1]
    unfolding edited_plan_def by blast
qed

end
