(* ===== verification/ObservationStore.thy ===== *)
theory ObservationStore
  imports BaselineIndex
begin

text \<open>
  The sync store and the observation state in it (\<^verbatim>\<open>store_observation_state.go\<close>): one row
  with the content drive, the delta cursor, the next full refresh and the trust in the local
  snapshot, plus the content drive the process remembers in memory. A statement fails only when
  it violates a constraint of the schema; a failed transaction is rolled back, which restores
  the database but not the memory.
\<close>

section \<open>State\<close>

record obs_row =
  ob_content_drive_id :: string
  ob_cursor :: string
  ob_next_full_remote_refresh_at :: int
  ob_local_truth_complete :: bool
  ob_local_truth_recovery_reason :: string

record sql_issue =
  si_path :: string
  si_issue_type :: string
  si_scope_key :: string

record store_db =
  db_baseline :: "sql_baseline list"
  db_remote :: "sql_remote list"
  db_local :: "sql_local list"
  db_issues :: "sql_issue list"
  db_obs :: "obs_row option"

record sync_store =
  ss_db :: store_db
  ss_baseline :: "baseline option"
  ss_cachedContentDriveID :: drive_id

record observation_state =
  os_ContentDriveID :: drive_id
  os_Cursor :: string
  os_NextFullRemoteRefreshAt :: int
  os_LocalTruthComplete :: bool
  os_LocalTruthRecoveryReason :: string

datatype store_error =
    ErrContentDriveMismatch | ErrUniquePath string | ErrNilMutation | ErrNotPublicationOnly
  | ErrIssueWithoutPath | ErrMissingPlannerView | ErrFreshnessCanceled

datatype remote_observation_mode = remoteObservationModeDelta | remoteObservationModeEnumerate

text \<open>Durations are in nanoseconds, as \<^verbatim>\<open>time.Duration\<close> has them.\<close>

definition hour_ns :: int where
  "hour_ns = 3600 * 1000000000"

definition remoteRefreshIntervalForMode :: "remote_observation_mode \<Rightarrow> int" where
  "remoteRefreshIntervalForMode mode =
     (case mode of remoteObservationModeDelta \<Rightarrow> 24 * hour_ns | remoteObservationModeEnumerate \<Rightarrow> hour_ns)"

definition applyRemoteRefreshSchedule ::
  "observation_state \<Rightarrow> int \<Rightarrow> remote_observation_mode \<Rightarrow> observation_state" where
  "applyRemoteRefreshSchedule state at mode =
     state\<lparr>os_NextFullRemoteRefreshAt := at + remoteRefreshIntervalForMode mode\<rparr>"

section \<open>The content drive\<close>

definition rememberContentDriveID :: "drive_id \<Rightarrow> sync_store \<Rightarrow> sync_store" where
  "rememberContentDriveID d m = (if id_IsZero d then m else m\<lparr>ss_cachedContentDriveID := d\<rparr>)"

definition contentDriveIDForDB :: "store_db \<Rightarrow> drive_id" where
  "contentDriveIDForDB db =
     (case db_obs db of
        None \<Rightarrow> zero_id
      | Some r \<Rightarrow> if ob_content_drive_id r = '''' then zero_id else New_id (ob_content_drive_id r))"

definition contentDriveIDForRead :: "sync_store \<Rightarrow> drive_id \<Rightarrow> sync_store \<times> drive_id" where
  "contentDriveIDForRead m fallback =
     (if \<not> id_IsZero (ss_cachedContentDriveID m) then (m, ss_cachedContentDriveID m)
      else let d = contentDriveIDForDB (ss_db m) in
        if \<not> id_IsZero d then (rememberContentDriveID d m, d)
        else if \<not> id_IsZero fallback then (rememberContentDriveID fallback m, fallback)
        else (m, zero_id))"

definition ensureMatchingContentDriveID :: "drive_id \<Rightarrow> drive_id \<Rightarrow> store_error option" where
  "ensureMatchingContentDriveID expected actual =
     (if id_IsZero expected \<or> id_IsZero actual then None
      else if id_Equal expected actual then None
      else Some ErrContentDriveMismatch)"

section \<open>Reading and writing the row\<close>

definition default_obs_row :: obs_row where
  "default_obs_row =
     \<lparr>ob_content_drive_id = '''', ob_cursor = '''', ob_next_full_remote_refresh_at = 0,
      ob_local_truth_complete = False, ob_local_truth_recovery_reason = ''''\<rparr>"

definition readObservationStateFromTx :: "store_db \<Rightarrow> store_db \<times> observation_state" where
  "readObservationStateFromTx db =
     (let row = (case db_obs db of None \<Rightarrow> default_obs_row | Some r \<Rightarrow> r) in
      (db\<lparr>db_obs := Some row\<rparr>,
       \<lparr>os_ContentDriveID = (if ob_content_drive_id row \<noteq> '''' then New_id (ob_content_drive_id row) else zero_id),
        os_Cursor = ob_cursor row, os_NextFullRemoteRefreshAt = ob_next_full_remote_refresh_at row,
        os_LocalTruthComplete = ob_local_truth_complete row,
        os_LocalTruthRecoveryReason = ob_local_truth_recovery_reason row\<rparr>))"

definition writeObservationStateToTx :: "observation_state \<Rightarrow> store_db \<Rightarrow> store_db" where
  "writeObservationStateToTx state db =
     db\<lparr>db_obs := Some
         \<lparr>ob_content_drive_id = id_value (os_ContentDriveID state), ob_cursor = os_Cursor state,
          ob_next_full_remote_refresh_at = os_NextFullRemoteRefreshAt state,
          ob_local_truth_complete = os_LocalTruthComplete state,
          ob_local_truth_recovery_reason = os_LocalTruthRecoveryReason state\<rparr>\<rparr>"

text \<open>
  Inside a transaction the database and the remembered drive are threaded together; a helper
  takes and returns both.
\<close>

definition writeObservationStateTx ::
  "observation_state \<Rightarrow> store_db \<Rightarrow> sync_store \<Rightarrow> store_db \<times> sync_store" where
  "writeObservationStateTx state tx m =
     (writeObservationStateToTx state tx, rememberContentDriveID (os_ContentDriveID state) m)"

definition ensureContentDriveIDTx ::
  "drive_id \<Rightarrow> observation_state \<Rightarrow> store_db \<Rightarrow> sync_store \<Rightarrow>
   store_error option \<times> observation_state \<times> store_db \<times> sync_store" where
  "ensureContentDriveIDTx d state tx m =
     (if id_IsZero d then (None, state, tx, m)
      else if id_IsZero (os_ContentDriveID state) then
        (let state' = state\<lparr>os_ContentDriveID := d\<rparr> in
         case writeObservationStateTx state' tx m of (tx', m') \<Rightarrow> (None, state', tx', rememberContentDriveID d m'))
      else case ensureMatchingContentDriveID d (os_ContentDriveID state) of
             Some e \<Rightarrow> (Some e, state, tx, m)
           | None \<Rightarrow> (None, state, tx, rememberContentDriveID (os_ContentDriveID state) m))"

section \<open>Operations\<close>

definition ReadObservationState :: "sync_store \<Rightarrow> sync_store \<times> observation_state" where
  "ReadObservationState m =
     (case readObservationStateFromTx (ss_db m) of
        (db, state) \<Rightarrow> (rememberContentDriveID (os_ContentDriveID state) (m\<lparr>ss_db := db\<rparr>), state))"

text \<open>A transaction that checks the content drive, changes the row and commits.\<close>

definition markObservationRefresh ::
  "drive_id \<Rightarrow> (observation_state \<Rightarrow> observation_state) \<Rightarrow> sync_store \<Rightarrow> store_error option \<times> sync_store" where
  "markObservationRefresh d update m =
     (case readObservationStateFromTx (ss_db m) of
        (tx, state) \<Rightarrow>
          (case ensureContentDriveIDTx d state tx m of
             (Some e, _, _, m1) \<Rightarrow> (Some e, m1)
           | (None, state1, tx1, m1) \<Rightarrow>
               (case writeObservationStateTx (update state1) tx1 m1 of
                  (tx2, m2) \<Rightarrow> (None, m2\<lparr>ss_db := tx2\<rparr>))))"

definition CommitObservationCursor :: "drive_id \<Rightarrow> string \<Rightarrow> sync_store \<Rightarrow> store_error option \<times> sync_store" where
  "CommitObservationCursor d cursor m =
     (case readObservationStateFromTx (ss_db m) of
        (tx, state) \<Rightarrow>
          (case ensureContentDriveIDTx d state tx m of
             (Some e, _, _, m1) \<Rightarrow> (Some e, m1)
           | (None, state1, tx1, m1) \<Rightarrow>
               (case writeObservationStateTx (state1\<lparr>os_Cursor := cursor\<rparr>) tx1 m1 of
                  (tx2, m2) \<Rightarrow> (None, m2\<lparr>ss_db := tx2\<rparr>))))"

definition replaceObservationState :: "observation_state \<Rightarrow> sync_store \<Rightarrow> sync_store" where
  "replaceObservationState state m =
     (case writeObservationStateTx state (ss_db m) m of (tx, m') \<Rightarrow> m'\<lparr>ss_db := tx\<rparr>)"

definition ClearObservationCursor :: "sync_store \<Rightarrow> sync_store" where
  "ClearObservationCursor m =
     (case ReadObservationState m of (m1, state) \<Rightarrow> replaceObservationState (state\<lparr>os_Cursor := ''''\<rparr>) m1)"

definition MarkFullRemoteRefresh ::
  "drive_id \<Rightarrow> int \<Rightarrow> remote_observation_mode \<Rightarrow> sync_store \<Rightarrow> store_error option \<times> sync_store" where
  "MarkFullRemoteRefresh d at mode m =
     markObservationRefresh d (\<lambda>state. applyRemoteRefreshSchedule state at mode) m"

text \<open>A zero time reads as \<open>None\<close>; the result says whether the deadline changed.\<close>

definition ClampFullRemoteRefreshDeadline ::
  "drive_id \<Rightarrow> int option \<Rightarrow> sync_store \<Rightarrow> bool \<times> store_error option \<times> sync_store" where
  "ClampFullRemoteRefreshDeadline d notAfter m =
     (case notAfter of
        None \<Rightarrow> (False, None, m)
      | Some deadline \<Rightarrow>
          (let late = (\<lambda>s. os_NextFullRemoteRefreshAt s = 0 \<or> os_NextFullRemoteRefreshAt s > deadline);
               upd = (\<lambda>s. if late s then s\<lparr>os_NextFullRemoteRefreshAt := deadline\<rparr> else s)
           in case markObservationRefresh d upd m of
                (Some e, m') \<Rightarrow> (False, Some e, m')
              | (None, m') \<Rightarrow> (late (snd (readObservationStateFromTx (ss_db m))), None, m')))"

definition updateObservationState :: "(observation_state \<Rightarrow> observation_state) \<Rightarrow> sync_store \<Rightarrow> sync_store" where
  "updateObservationState update m =
     (case readObservationStateFromTx (ss_db m) of
        (tx, state) \<Rightarrow> (case writeObservationStateTx (update state) tx m of (tx2, m2) \<Rightarrow> m2\<lparr>ss_db := tx2\<rparr>))"

definition MarkLocalTruthComplete :: "sync_store \<Rightarrow> sync_store" where
  "MarkLocalTruthComplete m =
     updateObservationState (\<lambda>s. s\<lparr>os_LocalTruthComplete := True, os_LocalTruthRecoveryReason := ''''\<rparr>) m"

definition MarkLocalTruthSuspect :: "string \<Rightarrow> sync_store \<Rightarrow> sync_store" where
  "MarkLocalTruthSuspect reason m =
     updateObservationState (\<lambda>s. s\<lparr>os_LocalTruthComplete := False, os_LocalTruthRecoveryReason := reason\<rparr>) m"

section \<open>Properties\<close>

text \<open>A drive id as every constructor of the program makes it.\<close>

definition id_normal :: "drive_id \<Rightarrow> bool" where
  "id_normal d \<longleftrightarrow> New_id (id_value d) = d"

lemma id_normal_simps [simp]: "id_normal (New_id raw)" "id_normal zero_id"
  by (simp_all add: id_normal_def New_id_normal) (simp add: zero_id_def)

lemma id_normal_empty: "id_normal d \<Longrightarrow> id_value d = '''' \<longleftrightarrow> d = zero_id"
  by (metis New_id_empty drive_id.sel id_normal_def zero_id_def)

abbreviation obs_of :: "store_db \<Rightarrow> observation_state" where
  "obs_of db \<equiv> snd (readObservationStateFromTx db)"

lemma obs_of_normal: "id_normal (os_ContentDriveID (obs_of db))"
  by (simp add: readObservationStateFromTx_def Let_def)

lemma obs_of_write: "id_normal (os_ContentDriveID s) \<Longrightarrow> obs_of (writeObservationStateToTx s db) = s"
  by (cases s)
    (auto simp: readObservationStateFromTx_def writeObservationStateToTx_def Let_def id_normal_empty id_normal_def)

lemma obs_of_read [simp]: "obs_of (fst (readObservationStateFromTx db)) = obs_of db"
  by (simp add: readObservationStateFromTx_def Let_def)

lemma contentDrive_obs: "contentDriveIDForDB db = os_ContentDriveID (obs_of db)"
  by (simp add: contentDriveIDForDB_def readObservationStateFromTx_def Let_def default_obs_row_def split: option.splits)

lemma ss_db_remember [simp]: "ss_db (rememberContentDriveID d m) = ss_db m"
  by (simp add: rememberContentDriveID_def)

text \<open>Which drive a transaction accepts, and the drive recorded afterwards.\<close>

definition drive_accepted :: "drive_id \<Rightarrow> drive_id \<Rightarrow> bool" where
  "drive_accepted d stored \<longleftrightarrow> id_IsZero d \<or> id_IsZero stored \<or> id_Equal d stored"

definition drive_after :: "drive_id \<Rightarrow> drive_id \<Rightarrow> drive_id" where
  "drive_after d stored = (if \<not> id_IsZero d \<and> id_IsZero stored then d else stored)"

lemma ensureContentDriveIDTx_spec:
  assumes "ensureContentDriveIDTx d state tx m = (r, state', tx', m')"
  shows "r = None \<longleftrightarrow> drive_accepted d (os_ContentDriveID state)"
    and "r = None \<Longrightarrow> state' = state\<lparr>os_ContentDriveID := drive_after d (os_ContentDriveID state)\<rparr>"
    and "ss_db m' = ss_db m"
    and "db_baseline tx' = db_baseline tx" "db_remote tx' = db_remote tx"
    and "db_local tx' = db_local tx" "db_issues tx' = db_issues tx"
  using assms
  by (auto simp: ensureContentDriveIDTx_def drive_accepted_def drive_after_def Let_def
      ensureMatchingContentDriveID_def writeObservationStateTx_def writeObservationStateToTx_def
      split: if_splits option.splits)

lemma drive_after_normal: "id_normal d \<Longrightarrow> id_normal s \<Longrightarrow> id_normal (drive_after d s)"
  by (simp add: drive_after_def)

lemma markObservationRefresh_spec:
  assumes "markObservationRefresh d update m = (r, m')" "id_normal d"
    "\<And>s. os_ContentDriveID (update s) = os_ContentDriveID s"
  shows "r = None \<longleftrightarrow> drive_accepted d (os_ContentDriveID (obs_of (ss_db m)))"
    and "r = None \<Longrightarrow> obs_of (ss_db m') =
           update ((obs_of (ss_db m))\<lparr>os_ContentDriveID := drive_after d (os_ContentDriveID (obs_of (ss_db m)))\<rparr>)"
    and "r \<noteq> None \<Longrightarrow> ss_db m' = ss_db m"
proof -
  obtain r1 state1 tx1 m1 where e: "ensureContentDriveIDTx d (obs_of (ss_db m)) (fst (readObservationStateFromTx (ss_db m))) m =
      (r1, state1, tx1, m1)" by (metis prod_cases4)
  note E = ensureContentDriveIDTx_spec [OF e]
  have run: "(r, m') = (case r1 of Some e \<Rightarrow> (Some e, m1)
      | None \<Rightarrow> (None, (rememberContentDriveID (os_ContentDriveID (update state1)) m1)
                  \<lparr>ss_db := writeObservationStateToTx (update state1) tx1\<rparr>))"
    using assms(1) e
    by (cases r1) (auto simp: markObservationRefresh_def writeObservationStateTx_def split_beta)
  show "r = None \<longleftrightarrow> drive_accepted d (os_ContentDriveID (obs_of (ss_db m)))"
    using run E(1) by (cases r1) auto
  show "r \<noteq> None \<Longrightarrow> ss_db m' = ss_db m" using run E(3) by (cases r1) auto
  assume "r = None"
  then have r1: "r1 = None" using run by (cases r1) auto
  have "id_normal (os_ContentDriveID (update state1))"
    using E(2) [OF r1] assms(2,3) obs_of_normal drive_after_normal by simp
  then show "obs_of (ss_db m') =
      update ((obs_of (ss_db m))\<lparr>os_ContentDriveID := drive_after d (os_ContentDriveID (obs_of (ss_db m)))\<rparr>)"
    using run r1 E(2) by (simp add: obs_of_write)
qed

lemma CommitObservationCursor_alt:
  "CommitObservationCursor d cursor m = markObservationRefresh d (\<lambda>s. s\<lparr>os_Cursor := cursor\<rparr>) m"
  by (simp add: CommitObservationCursor_def markObservationRefresh_def)

text \<open>
  The delta cursor is committed atomically and only for the right drive: committing a cursor
  for a drive succeeds exactly when no other drive is recorded, then the stored state has the
  new cursor, the recorded drive (the given one if there was none) and every other field
  unchanged; otherwise the database is untouched, so a mount can never mix the cursors of two
  drives.
\<close>

theorem cursor_commit_atomic:
  assumes "CommitObservationCursor (New_id raw) cursor m = (r, m')"
  shows "(r = None \<longleftrightarrow> drive_accepted (New_id raw) (contentDriveIDForDB (ss_db m))) \<and>
    (r \<noteq> None \<longrightarrow> ss_db m' = ss_db m) \<and>
    (r = None \<longrightarrow>
       snd (ReadObservationState m') =
         (snd (ReadObservationState m))\<lparr>os_Cursor := cursor,
            os_ContentDriveID := drive_after (New_id raw) (contentDriveIDForDB (ss_db m))\<rparr>)"
  using markObservationRefresh_spec [OF assms [unfolded CommitObservationCursor_alt]]
  by (simp add: contentDrive_obs ReadObservationState_def split_beta)

text \<open>The trust in the local snapshot is independent of the remote cursor.\<close>

lemma updateObservationState_obs:
  assumes "\<And>s. os_ContentDriveID (update s) = os_ContentDriveID s"
  shows "obs_of (ss_db (updateObservationState update m)) = update (obs_of (ss_db m))"
  using assms obs_of_normal
  by (simp add: updateObservationState_def writeObservationStateTx_def split_beta obs_of_write)

lemma MarkLocalTruth_obs:
  "obs_of (ss_db (MarkLocalTruthComplete m)) =
     (obs_of (ss_db m))\<lparr>os_LocalTruthComplete := True, os_LocalTruthRecoveryReason := ''''\<rparr>"
  "obs_of (ss_db (MarkLocalTruthSuspect reason m)) =
     (obs_of (ss_db m))\<lparr>os_LocalTruthComplete := False, os_LocalTruthRecoveryReason := reason\<rparr>"
  by (simp_all add: MarkLocalTruthComplete_def MarkLocalTruthSuspect_def updateObservationState_obs)

text \<open>
  Clamping the refresh deadline only ever brings it closer: after a successful clamp the
  scheduled full refresh is set and not later than the bound, it is never later than an
  already scheduled one, and the answer says exactly whether it moved.
\<close>

theorem clamp_deadline_bounds:
  assumes "ClampFullRemoteRefreshDeadline (New_id raw) (Some t) m = (changed, None, m')" "t \<noteq> 0"
  shows "let before = os_NextFullRemoteRefreshAt (snd (ReadObservationState m));
             after = os_NextFullRemoteRefreshAt (snd (ReadObservationState m'))
         in after \<noteq> 0 \<and> after \<le> t \<and> (before \<noteq> 0 \<longrightarrow> after \<le> before) \<and> (changed \<longleftrightarrow> after \<noteq> before)"
proof -
  let ?upd = "\<lambda>s. if os_NextFullRemoteRefreshAt s = 0 \<or> os_NextFullRemoteRefreshAt s > t
                  then s\<lparr>os_NextFullRemoteRefreshAt := t\<rparr> else s"
  have r: "markObservationRefresh (New_id raw) ?upd m = (None, m')"
    and c: "changed \<longleftrightarrow> os_NextFullRemoteRefreshAt (obs_of (ss_db m)) = 0 \<or> os_NextFullRemoteRefreshAt (obs_of (ss_db m)) > t"
    using assms(1) by (auto simp: ClampFullRemoteRefreshDeadline_def split: prod.splits option.splits)
  have "obs_of (ss_db m') = ?upd ((obs_of (ss_db m))\<lparr>os_ContentDriveID :=
      drive_after (New_id raw) (os_ContentDriveID (obs_of (ss_db m)))\<rparr>)"
    using markObservationRefresh_spec(2) [OF r] by simp
  then show ?thesis using c assms(2) by (auto simp: ReadObservationState_def split_beta Let_def)
qed

section \<open>A concrete store\<close>

definition fresh_store :: sync_store where
  "fresh_store =
     \<lparr>ss_db = \<lparr>db_baseline = [], db_remote = [], db_local = [], db_issues = [], db_obs = None\<rparr>, ss_baseline = None, ss_cachedContentDriveID = zero_id\<rparr>"

theorem cursor_commit_atomic_witness:
  "os_Cursor (snd (ReadObservationState (snd (CommitObservationCursor (New_id ''d1'') ''token'' fresh_store)))) = ''token''"
proof -
  obtain r m' where c: "CommitObservationCursor (New_id ''d1'') ''token'' fresh_store = (r, m')" by force
  have "drive_accepted (New_id ''d1'') (contentDriveIDForDB (ss_db fresh_store))" by code_simp
  then show ?thesis using cursor_commit_atomic [OF c] c by simp
qed

theorem clamp_deadline_bounds_witness:
  "os_NextFullRemoteRefreshAt
     (snd (ReadObservationState (snd (snd (ClampFullRemoteRefreshDeadline (New_id ''d1'') (Some 5) fresh_store))))) \<le> 5"
proof -
  have "fst (snd (ClampFullRemoteRefreshDeadline (New_id ''d1'') (Some 5) fresh_store)) = None" by code_simp
  then obtain changed m' where "ClampFullRemoteRefreshDeadline (New_id ''d1'') (Some 5) fresh_store = (changed, None, m')"
    by (cases "ClampFullRemoteRefreshDeadline (New_id ''d1'') (Some 5) fresh_store") auto
  then show ?thesis using clamp_deadline_bounds [of "''d1''" 5 fresh_store changed m'] by (simp add: Let_def)
qed

end
