(* ===== verification/BaselineStore.thy ===== *)
theory BaselineStore
  imports Planner ObservationStore
begin

text \<open>
  Writing the baseline (\<^verbatim>\<open>store_write_baseline.go\<close>): outcomes of actions become mutations
  of the baseline and remote tables in one transaction, and the in-memory baseline is patched
  instead of reloaded. The table keeps item ids and paths unique: a statement that would break
  this fails and the transaction is rolled back.
\<close>

section \<open>Mutations\<close>

record baseline_mutation =
  bm_Action :: action_type
  bm_Success :: bool
  bm_Path :: string
  bm_OldPath :: string
  bm_DriveID :: drive_id
  bm_ItemID :: string
  bm_ParentID :: string
  bm_ItemType :: item_type
  bm_LocalHash :: string
  bm_RemoteHash :: string
  bm_LocalSize :: int
  bm_LocalSizeKnown :: bool
  bm_LocalDevice :: nat
  bm_LocalInode :: nat
  bm_LocalHasIdentity :: bool
  bm_LocalIdentityObserved :: bool
  bm_RemoteSize :: int
  bm_RemoteSizeKnown :: bool
  bm_LocalMtime :: int
  bm_RemoteMtime :: int
  bm_ETag :: string

datatype baseline_mutation_kind =
  baselineMutationNoop | baselineMutationUpsert | baselineMutationDelete | baselineMutationMove

definition classifyBaselineMutation :: "action_type \<Rightarrow> baseline_mutation_kind" where
  "classifyBaselineMutation a =
     (case a of
        ActionConflictCopy \<Rightarrow> baselineMutationNoop
      | ActionDownload \<Rightarrow> baselineMutationUpsert
      | ActionUpload \<Rightarrow> baselineMutationUpsert
      | ActionFolderCreate \<Rightarrow> baselineMutationUpsert
      | ActionBaselineUpdate \<Rightarrow> baselineMutationUpsert
      | ActionLocalDelete \<Rightarrow> baselineMutationDelete
      | ActionRemoteDelete \<Rightarrow> baselineMutationDelete
      | ActionCleanup \<Rightarrow> baselineMutationDelete
      | ActionLocalMove \<Rightarrow> baselineMutationMove
      | ActionRemoteMove \<Rightarrow> baselineMutationMove)"

definition mutationToEntry :: "baseline_mutation \<Rightarrow> baseline_entry" where
  "mutationToEntry m =
     \<lparr>be_Path = bm_Path m, be_DriveID = bm_DriveID m, be_ItemID = bm_ItemID m, be_ParentID = bm_ParentID m,
      be_ItemType = bm_ItemType m, be_LocalHash = bm_LocalHash m, be_RemoteHash = bm_RemoteHash m,
      be_LocalSize = bm_LocalSize m, be_LocalSizeKnown = bm_LocalSizeKnown m, be_RemoteSize = bm_RemoteSize m,
      be_RemoteSizeKnown = bm_RemoteSizeKnown m, be_LocalMtime = bm_LocalMtime m, be_RemoteMtime = bm_RemoteMtime m,
      be_LocalDevice = bm_LocalDevice m, be_LocalInode = bm_LocalInode m,
      be_LocalHasIdentity = bm_LocalHasIdentity m, be_ETag = bm_ETag m\<rparr>"

definition publicationDriveIDForAction :: "action \<Rightarrow> drive_id \<Rightarrow> drive_id" where
  "publicationDriveIDForAction a defaultDriveID =
     (if \<not> id_IsZero (a_DriveID a) then a_DriveID a
      else case a_View a of
             None \<Rightarrow> defaultDriveID
           | Some v \<Rightarrow>
               (case pv_Remote v of
                  Some r \<Rightarrow> if \<not> id_IsZero (rs_DriveID r) then rs_DriveID r
                            else (case pv_Baseline v of
                                    Some b \<Rightarrow> if \<not> id_IsZero (be_DriveID b) then be_DriveID b else defaultDriveID
                                  | None \<Rightarrow> defaultDriveID)
                | None \<Rightarrow> (case pv_Baseline v of
                             Some b \<Rightarrow> if \<not> id_IsZero (be_DriveID b) then be_DriveID b else defaultDriveID
                           | None \<Rightarrow> defaultDriveID)))"

definition actionItemType :: "action \<Rightarrow> item_type" where
  "actionItemType a =
     (case a_View a of
        None \<Rightarrow> ItemTypeFile
      | Some v \<Rightarrow>
          (let remote = (case pv_Remote v of Some r \<Rightarrow> rs_ItemType r | None \<Rightarrow> ItemTypeFile);
               base = (case pv_Baseline v of Some b \<Rightarrow> be_ItemType b | None \<Rightarrow> ItemTypeFile);
               loc = (case pv_Local v of Some l \<Rightarrow> ls_ItemType l | None \<Rightarrow> ItemTypeFile)
           in if remote \<noteq> ItemTypeFile then remote
              else if base \<noteq> ItemTypeFile then base
              else if loc \<noteq> ItemTypeFile then loc
              else ItemTypeFile))"

definition fillMutationFromBaselineDefaults ::
  "baseline_mutation \<Rightarrow> baseline_entry option \<Rightarrow> baseline_mutation" where
  "fillMutationFromBaselineDefaults m bo =
     (case bo of
        None \<Rightarrow> m
      | Some b \<Rightarrow>
          m\<lparr>bm_ItemID := if bm_ItemID m = '''' then be_ItemID b else bm_ItemID m,
            bm_ParentID := if bm_ParentID m = '''' then be_ParentID b else bm_ParentID m,
            bm_LocalHash := if bm_LocalHash m = '''' then be_LocalHash b else bm_LocalHash m,
            bm_LocalSize := if \<not> bm_LocalSizeKnown m then be_LocalSize b else bm_LocalSize m,
            bm_LocalSizeKnown := if \<not> bm_LocalSizeKnown m then be_LocalSizeKnown b else bm_LocalSizeKnown m,
            bm_LocalMtime := if bm_LocalMtime m = 0 then be_LocalMtime b else bm_LocalMtime m,
            bm_LocalDevice := if \<not> bm_LocalIdentityObserved m then be_LocalDevice b else bm_LocalDevice m,
            bm_LocalInode := if \<not> bm_LocalIdentityObserved m then be_LocalInode b else bm_LocalInode m,
            bm_LocalHasIdentity := if \<not> bm_LocalIdentityObserved m then be_LocalHasIdentity b else bm_LocalHasIdentity m,
            bm_RemoteHash := if bm_RemoteHash m = '''' then be_RemoteHash b else bm_RemoteHash m,
            bm_RemoteSize := if \<not> bm_RemoteSizeKnown m then be_RemoteSize b else bm_RemoteSize m,
            bm_RemoteSizeKnown := if \<not> bm_RemoteSizeKnown m then be_RemoteSizeKnown b else bm_RemoteSizeKnown m,
            bm_RemoteMtime := if bm_RemoteMtime m = 0 then be_RemoteMtime b else bm_RemoteMtime m,
            bm_ETag := if bm_ETag m = '''' then be_ETag b else bm_ETag m\<rparr>)"

definition publicationMutationFromAction :: "action option \<Rightarrow> drive_id \<Rightarrow> store_error + baseline_mutation" where
  "publicationMutationFromAction ao defaultDriveID =
     (case ao of
        None \<Rightarrow> Inl ErrNilMutation
      | Some a \<Rightarrow>
        if a_Type a \<noteq> ActionBaselineUpdate \<and> a_Type a \<noteq> ActionCleanup then Inl ErrNotPublicationOnly
        else
        (let m0 = \<lparr>bm_Action = a_Type a, bm_Success = True, bm_Path = a_Path a, bm_OldPath = a_OldPath a,
                   bm_DriveID = publicationDriveIDForAction a defaultDriveID, bm_ItemID = a_ItemID a,
                   bm_ParentID = '''', bm_ItemType = actionItemType a, bm_LocalHash = '''', bm_RemoteHash = '''',
                   bm_LocalSize = 0, bm_LocalSizeKnown = False, bm_LocalDevice = 0, bm_LocalInode = 0,
                   bm_LocalHasIdentity = False, bm_LocalIdentityObserved = False, bm_RemoteSize = 0,
                   bm_RemoteSizeKnown = False, bm_LocalMtime = 0, bm_RemoteMtime = 0, bm_ETag = ''''\<rparr>
         in case a_View a of
              None \<Rightarrow> Inr m0
            | Some v \<Rightarrow>
              (let m1 = (case pv_Remote v of
                           None \<Rightarrow> m0
                         | Some r \<Rightarrow> m0\<lparr>bm_ItemID := rs_ItemID r, bm_RemoteHash := rs_Hash r, bm_RemoteSize := rs_Size r,
                                        bm_RemoteSizeKnown := True, bm_RemoteMtime := rs_Mtime r, bm_ETag := rs_ETag r,
                                        bm_ItemType := rs_ItemType r,
                                        bm_DriveID := if \<not> id_IsZero (rs_DriveID r) then rs_DriveID r else bm_DriveID m0\<rparr>);
                   m2 = (case pv_Local v of
                           None \<Rightarrow> m1
                         | Some l \<Rightarrow> m1\<lparr>bm_LocalHash := ls_Hash l, bm_LocalSize := ls_Size l, bm_LocalSizeKnown := True,
                                        bm_LocalMtime := ls_Mtime l, bm_LocalDevice := ls_LocalDevice l,
                                        bm_LocalInode := ls_LocalInode l, bm_LocalHasIdentity := ls_LocalHasIdentity l,
                                        bm_LocalIdentityObserved := True\<rparr>);
                   m3 = fillMutationFromBaselineDefaults m2 (pv_Baseline v)
               in Inr (case pv_Baseline v of
                         Some b \<Rightarrow> if bm_ItemType m3 = ItemTypeFile \<and> be_ItemType b \<noteq> ItemTypeFile
                                   then m3\<lparr>bm_ItemType := be_ItemType b\<rparr> else m3
                       | None \<Rightarrow> m3))))"

record action_outcome =
  ao_Action :: action_type
  ao_Success :: bool
  ao_Path :: string
  ao_FailurePath :: string
  ao_OldPath :: string
  ao_DriveID :: drive_id
  ao_ItemID :: string
  ao_ParentID :: string
  ao_ItemType :: item_type
  ao_FailureCapability :: permission_capability
  ao_LocalHash :: string
  ao_RemoteHash :: string
  ao_LocalSize :: int
  ao_LocalSizeKnown :: bool
  ao_LocalDevice :: nat
  ao_LocalInode :: nat
  ao_LocalHasIdentity :: bool
  ao_LocalIdentityObserved :: bool
  ao_RemoteSize :: int
  ao_RemoteSizeKnown :: bool
  ao_LocalMtime :: int
  ao_RemoteMtime :: int
  ao_ETag :: string
  ao_Error :: "go_error option"

definition mutationFromActionOutcome :: "action_outcome option \<Rightarrow> baseline_mutation option" where
  "mutationFromActionOutcome oo =
     (case oo of
        None \<Rightarrow> None
      | Some ou \<Rightarrow>
        if ao_Action ou = ActionConflictCopy then None
        else Some
          \<lparr>bm_Action = ao_Action ou, bm_Success = ao_Success ou, bm_Path = ao_Path ou, bm_OldPath = ao_OldPath ou,
           bm_DriveID = ao_DriveID ou, bm_ItemID = ao_ItemID ou, bm_ParentID = ao_ParentID ou, bm_ItemType = ao_ItemType ou,
           bm_LocalHash = ao_LocalHash ou, bm_RemoteHash = ao_RemoteHash ou, bm_LocalSize = ao_LocalSize ou,
           bm_LocalSizeKnown = ao_LocalSizeKnown ou, bm_LocalDevice = ao_LocalDevice ou, bm_LocalInode = ao_LocalInode ou,
           bm_LocalHasIdentity = ao_LocalHasIdentity ou, bm_LocalIdentityObserved = ao_LocalIdentityObserved ou,
           bm_RemoteSize = ao_RemoteSize ou, bm_RemoteSizeKnown = ao_RemoteSizeKnown ou, bm_LocalMtime = ao_LocalMtime ou,
           bm_RemoteMtime = ao_RemoteMtime ou, bm_ETag = ao_ETag ou\<rparr>)"

section \<open>Statements on the tables\<close>

text \<open>
  \<^verbatim>\<open>INSERT ... ON CONFLICT(item_id) DO UPDATE\<close>: the row with the same item id is replaced, else
  the row is added; another row with the same path violates \<^verbatim>\<open>UNIQUE(path)\<close>.
\<close>

definition sqlUpsertBaseline :: "sql_baseline \<Rightarrow> sql_baseline list \<Rightarrow> store_error + sql_baseline list" where
  "sqlUpsertBaseline r rows =
     (if list_ex (\<lambda>x. sb_path x = sb_path r \<and> sb_item_id x \<noteq> sb_item_id r) rows then Inl (ErrUniquePath (sb_path r))
      else if list_ex (\<lambda>x. sb_item_id x = sb_item_id r) rows
      then Inr (map (\<lambda>x. if sb_item_id x = sb_item_id r then r else x) rows)
      else Inr (rows @ [r]))"

definition commitUpsert :: "baseline_mutation \<Rightarrow> store_db \<Rightarrow> store_error + store_db" where
  "commitUpsert o' tx =
     (let kept = filter (\<lambda>x. \<not> (sb_path x = bm_Path o' \<and> sb_item_id x \<noteq> bm_ItemID o')) (db_baseline tx)
      in case sqlUpsertBaseline (bind_baseline_entry (mutationToEntry o')) kept of
           Inl e \<Rightarrow> Inl e
         | Inr rows \<Rightarrow> Inr (tx\<lparr>db_baseline := rows\<rparr>))"

definition commitDelete :: "string \<Rightarrow> store_db \<Rightarrow> store_error + store_db" where
  "commitDelete p tx = Inr (tx\<lparr>db_baseline := filter (\<lambda>x. sb_path x \<noteq> p) (db_baseline tx)\<rparr>)"

definition commitMove :: "baseline_mutation \<Rightarrow> store_db \<Rightarrow> store_error + store_db" where
  "commitMove o' tx = commitUpsert o' tx"

definition remote_row_of_mutation :: "baseline_mutation \<Rightarrow> sql_remote" where
  "remote_row_of_mutation o' =
     \<lparr>sr_drive_id = id_value (bm_DriveID o'), sr_item_id = bm_ItemID o', sr_path = bm_Path o',
      sr_item_type = bm_ItemType o', sr_hash = nullString (bm_RemoteHash o'),
      sr_size = nullKnownInt64 (bm_RemoteSize o') (bm_RemoteSizeKnown o'),
      sr_mtime = nullOptionalInt64 (bm_RemoteMtime o'), sr_etag = nullString (bm_ETag o')\<rparr>"

definition sql_upsert_remote :: "sql_remote \<Rightarrow> sql_remote list \<Rightarrow> store_error + sql_remote list" where
  "sql_upsert_remote r rows =
     (if list_ex (\<lambda>x. sr_path x = sr_path r \<and> sr_item_id x \<noteq> sr_item_id r) rows then Inl (ErrUniquePath (sr_path r))
      else if list_ex (\<lambda>x. sr_item_id x = sr_item_id r) rows
      then Inr (map (\<lambda>x. if sr_item_id x = sr_item_id r then r else x) rows)
      else Inr (rows @ [r]))"

definition sql_move_remote :: "string \<Rightarrow> string \<Rightarrow> string \<Rightarrow> sql_remote list \<Rightarrow> store_error + sql_remote list" where
  "sql_move_remote d p i rows =
     (if list_ex (\<lambda>x. sr_item_id x = i) rows \<and> list_ex (\<lambda>x. sr_path x = p \<and> sr_item_id x \<noteq> i) rows
      then Inl (ErrUniquePath p)
      else Inr (map (\<lambda>x. if sr_item_id x = i then x\<lparr>sr_drive_id := d, sr_path := p\<rparr> else x) rows))"

definition updateRemoteStateOnOutcome :: "baseline_mutation \<Rightarrow> store_db \<Rightarrow> store_error + store_db" where
  "updateRemoteStateOnOutcome o' tx =
     (if bm_ItemID o' = '''' \<or> id_IsZero (bm_DriveID o') then Inr tx
      else if bm_Action o' = ActionUpload \<or> bm_Action o' = ActionFolderCreate then
        (case sql_upsert_remote (remote_row_of_mutation o') (db_remote tx) of
           Inl e \<Rightarrow> Inl e | Inr rows \<Rightarrow> Inr (tx\<lparr>db_remote := rows\<rparr>))
      else if bm_Action o' = ActionRemoteDelete then
        Inr (tx\<lparr>db_remote := filter (\<lambda>x. sr_item_id x \<noteq> bm_ItemID o') (db_remote tx)\<rparr>)
      else if bm_Action o' = ActionRemoteMove then
        (case sql_move_remote (id_value (bm_DriveID o')) (bm_Path o') (bm_ItemID o') (db_remote tx) of
           Inl e \<Rightarrow> Inl e | Inr rows \<Rightarrow> Inr (tx\<lparr>db_remote := rows\<rparr>))
      else Inr tx)"

definition applySingleMutation :: "baseline_mutation \<Rightarrow> store_db \<Rightarrow> store_error + store_db" where
  "applySingleMutation o' tx =
     (case (case classifyBaselineMutation (bm_Action o') of
              baselineMutationNoop \<Rightarrow> Inr tx
            | baselineMutationUpsert \<Rightarrow> commitUpsert o' tx
            | baselineMutationDelete \<Rightarrow> commitDelete (bm_Path o') tx
            | baselineMutationMove \<Rightarrow> commitMove o' tx) of
        Inl e \<Rightarrow> Inl e
      | Inr tx' \<Rightarrow> updateRemoteStateOnOutcome o' tx')"

section \<open>Loading and committing\<close>

definition Load :: "sync_store \<Rightarrow> sync_store \<times> baseline" where
  "Load m =
     (case ss_baseline m of
        Some b \<Rightarrow> (m, b)
      | None \<Rightarrow>
          (case contentDriveIDForRead m zero_id of
             (m1, d) \<Rightarrow>
               (let b = load_entries (map (scanBaselineRow d) (db_baseline (ss_db m1)))
                in (m1\<lparr>ss_baseline := Some b\<rparr>, b))))"

definition reloadBaselineCache :: "sync_store \<Rightarrow> sync_store" where
  "reloadBaselineCache m = fst (Load (m\<lparr>ss_baseline := None\<rparr>))"

text \<open>Every action type is classified, so the reload for an unknown type is not reached.\<close>

definition updateBaselineCache :: "baseline_mutation \<Rightarrow> baseline \<Rightarrow> baseline" where
  "updateBaselineCache o' b =
     (case classifyBaselineMutation (bm_Action o') of
        baselineMutationNoop \<Rightarrow> b
      | baselineMutationUpsert \<Rightarrow> bl_Put (mutationToEntry o') b
      | baselineMutationDelete \<Rightarrow> bl_Delete (bm_Path o') b
      | baselineMutationMove \<Rightarrow> bl_Put (mutationToEntry o') (bl_Delete (bm_OldPath o') b))"

text \<open>
  The error and the store; the drive id the transaction writes back into the caller's mutation
  is the one of the mutation applied. A failed transaction leaves the database as it was.
\<close>

definition CommitMutation :: "baseline_mutation option \<Rightarrow> sync_store \<Rightarrow> store_error option \<times> sync_store" where
  "CommitMutation oo m =
     (case oo of
        None \<Rightarrow> (Some ErrNilMutation, m)
      | Some o1 \<Rightarrow>
        if \<not> bm_Success o1 then (None, m)
        else
          (case Load m of
             (m1, b) \<Rightarrow>
               (case readObservationStateFromTx (ss_db m1) of
                  (tx, state) \<Rightarrow>
                    (case ensureContentDriveIDTx (bm_DriveID o1) state tx m1 of
                       (Some e, _, _, m2) \<Rightarrow> (Some e, m2)
                     | (None, state', tx', m2) \<Rightarrow>
                         (let o2 = (if \<not> id_IsZero (os_ContentDriveID state')
                                    then o1\<lparr>bm_DriveID := os_ContentDriveID state'\<rparr> else o1)
                          in case applySingleMutation o2 tx' of
                               Inl e \<Rightarrow> (Some e, m2)
                             | Inr tx'' \<Rightarrow>
                                 (None, m2\<lparr>ss_db := tx'', ss_baseline := Some (updateBaselineCache o2 b)\<rparr>))))))"

record local_baseline_refresh =
  lb_Path :: string
  lb_DriveID :: drive_id
  lb_ItemID :: string
  lb_ItemType :: item_type
  lb_LocalHash :: string
  lb_LocalSize :: int
  lb_LocalSizeKnown :: bool
  lb_LocalMtime :: int
  lb_LocalDevice :: nat
  lb_LocalInode :: nat
  lb_LocalHasIdentity :: bool

definition refreshed_entry :: "local_baseline_refresh \<Rightarrow> baseline_entry option \<Rightarrow> baseline_entry" where
  "refreshed_entry r existing =
     (let e0 = \<lparr>be_Path = lb_Path r, be_DriveID = lb_DriveID r, be_ItemID = lb_ItemID r, be_ParentID = '''',
                be_ItemType = lb_ItemType r, be_LocalHash = lb_LocalHash r, be_RemoteHash = '''',
                be_LocalSize = lb_LocalSize r, be_LocalSizeKnown = lb_LocalSizeKnown r, be_RemoteSize = 0,
                be_RemoteSizeKnown = False, be_LocalMtime = lb_LocalMtime r, be_RemoteMtime = 0,
                be_LocalDevice = lb_LocalDevice r, be_LocalInode = lb_LocalInode r,
                be_LocalHasIdentity = lb_LocalHasIdentity r, be_ETag = ''''\<rparr>
      in case existing of
           None \<Rightarrow> e0
         | Some x \<Rightarrow> e0\<lparr>be_ParentID := be_ParentID x, be_RemoteHash := be_RemoteHash x, be_RemoteSize := be_RemoteSize x,
                       be_RemoteSizeKnown := be_RemoteSizeKnown x, be_RemoteMtime := be_RemoteMtime x,
                       be_ETag := be_ETag x\<rparr>)"

definition RefreshLocalBaseline :: "local_baseline_refresh \<Rightarrow> sync_store \<Rightarrow> store_error option \<times> sync_store" where
  "RefreshLocalBaseline r m =
     (case Load m of
        (m1, b) \<Rightarrow>
          (let e = refreshed_entry r (bl_GetByPath b (lb_Path r)) in
           case readObservationStateFromTx (ss_db m1) of
             (tx, state) \<Rightarrow>
               (case ensureContentDriveIDTx (be_DriveID e) state tx m1 of
                  (Some err, _, _, m2) \<Rightarrow> (Some err, m2)
                | (None, state', tx', m2) \<Rightarrow>
                    (let e2 = (if \<not> id_IsZero (os_ContentDriveID state')
                               then e\<lparr>be_DriveID := os_ContentDriveID state'\<rparr> else e)
                     in case sqlUpsertBaseline (bind_baseline_entry e2) (db_baseline tx') of
                          Inl err \<Rightarrow> (Some err, m2)
                        | Inr rows \<Rightarrow>
                            (None, m2\<lparr>ss_db := tx'\<lparr>db_baseline := rows\<rparr>, ss_baseline := Some (bl_Put e2 b)\<rparr>)))))"

section \<open>The consistency check\<close>

definition baselineEntriesEqual :: "baseline_entry \<Rightarrow> baseline_entry \<Rightarrow> bool" where
  "baselineEntriesEqual a b \<longleftrightarrow>
     be_LocalHash a = be_LocalHash b \<and> be_RemoteHash a = be_RemoteHash b \<and> be_LocalSize a = be_LocalSize b \<and>
     be_LocalSizeKnown a = be_LocalSizeKnown b \<and> be_RemoteSize a = be_RemoteSize b \<and>
     be_RemoteSizeKnown a = be_RemoteSizeKnown b \<and> be_LocalMtime a = be_LocalMtime b \<and>
     be_RemoteMtime a = be_RemoteMtime b \<and> be_LocalDevice a = be_LocalDevice b \<and>
     be_LocalInode a = be_LocalInode b \<and> be_LocalHasIdentity a = be_LocalHasIdentity b \<and> be_ItemID a = be_ItemID b"

text \<open>
  The number of mismatches; \<open>order\<close> and \<open>order2\<close> list the keys of the cache and of the
  table in the order the two loops see them.
\<close>

definition CheckCacheConsistency :: "string list \<Rightarrow> string list \<Rightarrow> sync_store \<Rightarrow> nat \<times> sync_store" where
  "CheckCacheConsistency order order2 m =
     (case ss_baseline m of
        None \<Rightarrow> (0, m)
      | Some b \<Rightarrow>
          (case contentDriveIDForRead m zero_id of
             (m1, d) \<Rightarrow>
               (let db = index_by be_Path (map (scanBaselineRow d) (db_baseline (ss_db m1)));
                    n1 = length (filter (\<lambda>p. case bl_ByPath b p of
                                               None \<Rightarrow> False
                                             | Some cached \<Rightarrow>
                                                 (case db p of None \<Rightarrow> True | Some e \<Rightarrow> \<not> baselineEntriesEqual cached e)) order);
                    n2 = length (filter (\<lambda>p. bl_ByPath b p = None) order2)
                in (n1 + n2, m1))))"

section \<open>The table as an entry store\<close>

definition table_wf :: "sql_baseline list \<Rightarrow> bool" where
  "table_wf rows \<longleftrightarrow> distinct (map sb_item_id rows) \<and> distinct (map sb_path rows)"

text \<open>What a load would find at a path.\<close>

definition table_get :: "drive_id \<Rightarrow> sql_baseline list \<Rightarrow> string \<Rightarrow> baseline_entry option" where
  "table_get d rows = index_by be_Path (map (scanBaselineRow d) rows)"

definition stale_removed :: "string \<Rightarrow> string \<Rightarrow> sql_baseline list \<Rightarrow> sql_baseline list" where
  "stale_removed p i rows = filter (\<lambda>x. \<not> (sb_path x = p \<and> sb_item_id x \<noteq> i)) rows"

definition upsert_row :: "sql_baseline \<Rightarrow> sql_baseline list \<Rightarrow> sql_baseline list" where
  "upsert_row r rows =
     (if list_ex (\<lambda>x. sb_item_id x = sb_item_id r) rows
      then map (\<lambda>x. if sb_item_id x = sb_item_id r then r else x) rows else rows @ [r])"

definition table_put :: "baseline_entry \<Rightarrow> sql_baseline list \<Rightarrow> sql_baseline list" where
  "table_put e rows = upsert_row (bind_baseline_entry e) (stale_removed (be_Path e) (be_ItemID e) rows)"

definition table_del :: "string \<Rightarrow> sql_baseline list \<Rightarrow> sql_baseline list" where
  "table_del p rows = filter (\<lambda>x. sb_path x \<noteq> p) rows"

text \<open>An entry the table can hold: its unknown sizes are zero and it has the content drive.\<close>

definition row_entry :: "drive_id \<Rightarrow> baseline_entry \<Rightarrow> bool" where
  "row_entry d e \<longleftrightarrow> entry_normal e \<and> be_DriveID e = d"

definition table_admits :: "drive_id \<Rightarrow> baseline_entry \<Rightarrow> sql_baseline list \<Rightarrow> bool" where
  "table_admits d e rows \<longleftrightarrow>
     row_entry d e \<and> list_all (\<lambda>x. sb_item_id x = be_ItemID e \<longrightarrow> sb_path x = be_Path e) rows"

text \<open>The statement of \<^verbatim>\<open>commitUpsert\<close> cannot violate a constraint: the stale row is gone.\<close>

lemma commitUpsert_table:
  "commitUpsert o' tx = Inr (tx\<lparr>db_baseline := table_put (mutationToEntry o') (db_baseline tx)\<rparr>)"
  by (auto simp: commitUpsert_def sqlUpsertBaseline_def table_put_def upsert_row_def stale_removed_def list_ex_iff
      mutationToEntry_def Let_def)

lemma commitDelete_table: "commitDelete p tx = Inr (tx\<lparr>db_baseline := table_del p (db_baseline tx)\<rparr>)"
  by (simp add: commitDelete_def table_del_def)

lemma table_wf_filter: "table_wf rows \<Longrightarrow> table_wf (filter P rows)"
  by (simp add: table_wf_def distinct_map_filter)

lemma table_wf_D:
  assumes "table_wf rows" "x \<in> set rows" "y \<in> set rows"
  shows "sb_path x = sb_path y \<Longrightarrow> x = y" "sb_item_id x = sb_item_id y \<Longrightarrow> x = y"
  using assms by (auto simp: table_wf_def distinct_map inj_on_def)

lemma table_wf_map_row:
  assumes "table_wf rows" "\<And>x. x \<in> set rows \<Longrightarrow> sb_path x = sb_path r \<Longrightarrow> sb_item_id x = sb_item_id r"
  shows "table_wf (map (\<lambda>x. if sb_item_id x = sb_item_id r then r else x) rows)"
proof -
  let ?f = "\<lambda>x. if sb_item_id x = sb_item_id r then r else x"
  have ids: "map sb_item_id (map ?f rows) = map sb_item_id rows" by simp
  have "inj_on (\<lambda>x. sb_path (?f x)) (set rows)"
  proof (rule inj_onI)
    fix x y
    assume m: "x \<in> set rows" "y \<in> set rows" and eq: "sb_path (?f x) = sb_path (?f y)"
    show "x = y"
      using eq assms(2) [OF m(1)] assms(2) [OF m(2)] table_wf_D [OF assms(1) m]
      by (auto split: if_splits)
  qed
  then have "distinct (map (\<lambda>x. sb_path (?f x)) rows)"
    using assms(1) by (simp add: table_wf_def distinct_map)
  then have "distinct (map sb_path (map ?f rows))" by (simp add: comp_def)
  then show ?thesis using assms(1) unfolding table_wf_def ids by blast
qed

lemma table_wf_upsert:
  assumes "table_wf rows" "\<And>x. x \<in> set rows \<Longrightarrow> sb_path x = sb_path r \<Longrightarrow> sb_item_id x = sb_item_id r"
  shows "table_wf (upsert_row r rows)"
proof (cases "list_ex (\<lambda>x. sb_item_id x = sb_item_id r) rows")
  case True
  then show ?thesis using table_wf_map_row [OF assms] by (simp add: upsert_row_def)
next
  case False
  then have "sb_path r \<notin> sb_path ` set rows" "sb_item_id r \<notin> sb_item_id ` set rows"
    using assms(2) by (force simp: list_ex_iff)+
  then show ?thesis using assms(1) False by (simp add: upsert_row_def table_wf_def)
qed

lemma set_upsert_row: "set (upsert_row r rows) = insert r {x \<in> set rows. sb_item_id x \<noteq> sb_item_id r}"
  by (auto simp: upsert_row_def list_ex_iff)

lemma table_get_Some:
  assumes "table_wf rows"
  shows "table_get d rows p = Some e \<longleftrightarrow> (\<exists>r \<in> set rows. sb_path r = p \<and> e = scanBaselineRow d r)"
proof -
  have dist: "distinct (map be_Path (map (scanBaselineRow d) rows))"
    using assms by (simp add: table_wf_def comp_def)
  show ?thesis
  proof
    assume "table_get d rows p = Some e"
    then show "\<exists>r \<in> set rows. sb_path r = p \<and> e = scanBaselineRow d r"
      unfolding table_get_def by (drule_tac index_by_Some) auto
  next
    assume "\<exists>r \<in> set rows. sb_path r = p \<and> e = scanBaselineRow d r"
    then show "table_get d rows p = Some e"
      using index_by_distinct [OF dist, of e] by (auto simp: table_get_def)
  qed
qed

lemma table_wf_put: "table_wf rows \<Longrightarrow> table_wf (table_put e rows)"
  unfolding table_put_def
  by (rule table_wf_upsert) (auto simp: stale_removed_def table_wf_filter)

lemma set_table_put:
  "set (table_put e rows) =
     insert (bind_baseline_entry e)
       {x \<in> set rows. sb_item_id x \<noteq> be_ItemID e \<and> sb_path x \<noteq> be_Path e}"
  by (auto simp: table_put_def set_upsert_row stale_removed_def)

lemma option_eq_by_Some: "(\<And>x. a = Some x \<longleftrightarrow> b = Some x) \<Longrightarrow> a = b"
  by (cases a; cases b) auto

lemma option_guard_Some:
  "(case a of Some x \<Rightarrow> if P x then None else Some x | None \<Rightarrow> None) = Some y \<longleftrightarrow> a = Some y \<and> \<not> P y"
  by (cases a) auto

text \<open>A row stored at a path displaces the row at that path and the row with that item id.\<close>

lemma table_get_put:
  assumes "table_wf rows" "row_entry d e"
  shows "table_get d (table_put e rows) p =
     (if p = be_Path e then Some e
      else case table_get d rows p of
             Some x \<Rightarrow> if be_ItemID x = be_ItemID e then None else Some x
           | None \<Rightarrow> None)"
proof (rule option_eq_by_Some)
  fix x
  have "scanBaselineRow d (bind_baseline_entry e) = e"
    using assms(2) by (simp add: scan_bind_baseline row_entry_def)
  then show "table_get d (table_put e rows) p = Some x \<longleftrightarrow>
     (if p = be_Path e then Some e
      else case table_get d rows p of
             Some x \<Rightarrow> if be_ItemID x = be_ItemID e then None else Some x
           | None \<Rightarrow> None) = Some x"
    unfolding table_get_Some [OF table_wf_put [OF assms(1)]] set_table_put
    by (cases "p = be_Path e") (auto simp: option_guard_Some table_get_Some [OF assms(1)])
qed

lemma table_get_del:
  assumes "table_wf rows"
  shows "table_get d (table_del p rows) q = (if q = p then None else table_get d rows q)"
  by (rule option_eq_by_Some)
    (auto simp: table_get_Some [OF assms] table_get_Some [OF table_wf_filter [OF assms]] table_del_def)

lemma table_get_ids:
  assumes "table_wf rows" "table_get d rows p = Some e" "table_get d rows q = Some f" "be_ItemID e = be_ItemID f"
  shows "p = q"
proof -
  obtain r where r: "r \<in> set rows" "sb_path r = p" "e = scanBaselineRow d r"
    using assms(2) table_get_Some [OF assms(1)] by blast
  obtain r' where r': "r' \<in> set rows" "sb_path r' = q" "f = scanBaselineRow d r'"
    using assms(3) table_get_Some [OF assms(1)] by blast
  have "r = r'" using table_wf_D(2) [OF assms(1) r(1) r'(1)] assms(4) r(3) r'(3) by simp
  then show ?thesis using r(2) r'(2) by simp
qed

lemma table_admits_iff:
  assumes "table_wf rows" "row_entry d e"
  shows "table_admits d e rows \<longleftrightarrow>
     (\<forall>p x. table_get d rows p = Some x \<longrightarrow> be_ItemID x = be_ItemID e \<longrightarrow> p = be_Path e)"
proof -
  have "(\<forall>p x. table_get d rows p = Some x \<longrightarrow> be_ItemID x = be_ItemID e \<longrightarrow> p = be_Path e) \<longleftrightarrow>
      (\<forall>r \<in> set rows. be_ItemID (scanBaselineRow d r) = be_ItemID e \<longrightarrow> sb_path r = be_Path e)"
    unfolding table_get_Some [OF assms(1)] by blast
  then show ?thesis using assms(2) by (simp add: table_admits_def list_all_iff)
qed

interpretation tab: moving_store table_wf "table_get d" "row_entry d" "table_admits d" table_put table_del for d
proof
  fix s e p q f x old
  assume wf: "table_wf s"
  show "table_wf (table_put e s)" using wf by (rule table_wf_put)
  show "table_wf (table_del p s)" using wf by (simp add: table_del_def table_wf_filter)
  show "table_get d (table_del p s) q = (if q = p then None else table_get d s q)"
    using wf by (rule table_get_del)
  show "table_get d s p = Some e \<Longrightarrow> be_Path e = p" by (auto simp: table_get_Some [OF wf])
  show "table_get d s p = Some e \<Longrightarrow> table_get d s q = Some f \<Longrightarrow> be_ItemID e = be_ItemID f \<Longrightarrow> p = q"
    using wf by (rule table_get_ids)
  show "row_entry d e \<Longrightarrow> table_admits d e s \<longleftrightarrow>
      (\<forall>p x. table_get d s p = Some x \<longrightarrow> be_ItemID x = be_ItemID e \<longrightarrow> p = be_Path e)"
    using wf by (rule table_admits_iff)
  show "table_get d (table_put e s) p = (if p = be_Path e then Some e else table_get d s p)"
    if "table_admits d e s"
  proof -
    have e: "row_entry d e" using that by (simp add: table_admits_def)
    have "be_ItemID x \<noteq> be_ItemID e" if "table_get d s p = Some x" "p \<noteq> be_Path e" for x
      using that \<open>table_admits d e s\<close> table_admits_iff [OF wf e] by blast
    then show ?thesis by (simp add: table_get_put [OF wf e] split: option.splits)
  qed
  assume e: "row_entry d e" and old: "table_get d s old = Some x" "be_ItemID x = be_ItemID e"
  have "table_get d (table_put e s) p = table_get d (table_put e (table_del old s)) p" for p
  proof -
    have wf': "table_wf (table_del old s)" using wf by (simp add: table_del_def table_wf_filter)
    have "be_ItemID y = be_ItemID e \<longleftrightarrow> p = old" if "table_get d s p = Some y" for y
      using table_get_ids [OF wf that old(1)] old that by auto
    then show ?thesis
      unfolding table_get_put [OF wf e] table_get_put [OF wf' e] table_get_del [OF wf]
      by (simp split: option.splits)
  qed
  then show "table_wf (table_put e s) \<and> (\<forall>p. table_get d (table_put e s) p = table_get d (table_put e (table_del old s)) p)"
    using table_wf_put [OF wf] by blast
qed

interpretation mirror: mirrored_stores baseline_wf bl_GetByPath "\<lambda>_. True" put_ok bl_Put bl_Delete
    table_wf "table_get d" "row_entry d" "table_admits d" table_put table_del for d
  by unfold_locales simp

section \<open>The cache and the database\<close>

abbreviation content_drive :: "sync_store \<Rightarrow> drive_id" where
  "content_drive m \<equiv> contentDriveIDForDB (ss_db m)"

text \<open>The remembered drive is the recorded one, unless one of the two is not set yet.\<close>

definition drive_coherent :: "drive_id \<Rightarrow> drive_id \<Rightarrow> bool" where
  "drive_coherent remembered stored \<longleftrightarrow> id_IsZero remembered \<or> id_IsZero stored \<or> remembered = stored"

text \<open>
  The store is consistent: item ids and paths are unique in the table, a table with rows has a
  recorded drive, and the cache, when there is one, holds exactly what a load would find.
\<close>

definition store_ok :: "sync_store \<Rightarrow> bool" where
  "store_ok m \<longleftrightarrow>
     table_wf (db_baseline (ss_db m)) \<and>
     (id_IsZero (content_drive m) \<longrightarrow> db_baseline (ss_db m) = []) \<and>
     drive_coherent (ss_cachedContentDriveID m) (content_drive m) \<and>
     (case ss_baseline m of
        None \<Rightarrow> True
      | Some b \<Rightarrow> baseline_wf b \<and> bl_GetByPath b = table_get (content_drive m) (db_baseline (ss_db m)))"

lemma table_get_Nil [simp]: "table_get d [] = Map.empty"
  by (simp add: table_get_def)

lemma load_table:
  assumes "table_wf rows"
  shows "baseline_wf (load_entries (map (scanBaselineRow d) rows))"
    and "bl_GetByPath (load_entries (map (scanBaselineRow d) rows)) = table_get d rows"
  using load_entries_wf [of "map (scanBaselineRow d) rows"] assms
  by (auto simp: table_wf_def comp_def table_get_def bl_GetByPath_def)

lemma read_drive:
  assumes "contentDriveIDForRead m zero_id = (m1, d)"
    "drive_coherent (ss_cachedContentDriveID m) (content_drive m)"
  shows "ss_db m1 = ss_db m" "ss_baseline m1 = ss_baseline m" "drive_coherent (ss_cachedContentDriveID m1) (content_drive m)"
    and "id_IsZero (content_drive m) \<or> d = content_drive m"
  using assms
  by (auto simp: contentDriveIDForRead_def drive_coherent_def Let_def rememberContentDriveID_def split: if_splits)

lemma Load_ok:
  assumes ok: "store_ok m" and L: "Load m = (m1, b)"
  shows "store_ok m1" "ss_db m1 = ss_db m" "ss_baseline m1 = Some b" "baseline_wf b"
    and "bl_GetByPath b = table_get (content_drive m) (db_baseline (ss_db m))"
proof -
  have "store_ok m1 \<and> ss_db m1 = ss_db m \<and> ss_baseline m1 = Some b \<and> baseline_wf b \<and>
      bl_GetByPath b = table_get (content_drive m) (db_baseline (ss_db m))"
  proof (cases "ss_baseline m")
    case (Some b0)
    then show ?thesis using ok L by (simp add: Load_def store_ok_def)
  next
    case None
    obtain m0 d where r: "contentDriveIDForRead m zero_id = (m0, d)" by force
    have w: "table_wf (db_baseline (ss_db m))" "drive_coherent (ss_cachedContentDriveID m) (content_drive m)"
      using ok by (simp_all add: store_ok_def)
    note R = read_drive [OF r w(2)]
    have b: "b = load_entries (map (scanBaselineRow d) (db_baseline (ss_db m)))" "m1 = m0\<lparr>ss_baseline := Some b\<rparr>"
      using L None r R(1) by (auto simp: Load_def Let_def)
    have "table_get d (db_baseline (ss_db m)) = table_get (content_drive m) (db_baseline (ss_db m))"
      using R(4) ok by (auto simp: store_ok_def)
    then show ?thesis
      using load_table [OF w(1), of d] R ok by (simp add: b store_ok_def)
  qed
  then show "store_ok m1" "ss_db m1 = ss_db m" "ss_baseline m1 = Some b" "baseline_wf b"
    "bl_GetByPath b = table_get (content_drive m) (db_baseline (ss_db m))" by blast+
qed

lemma contentDrive_write:
  "id_normal (os_ContentDriveID s) \<Longrightarrow> contentDriveIDForDB (writeObservationStateToTx s db) = os_ContentDriveID s"
  using obs_of_write [of s db] by (simp add: contentDrive_obs)

lemma ensure_tx:
  assumes e: "ensureContentDriveIDTx d (obs_of (ss_db m)) (fst (readObservationStateFromTx (ss_db m))) m = (r, s', tx', m')"
    and n: "id_normal d" and c: "drive_coherent (ss_cachedContentDriveID m) (content_drive m)"
  shows "ss_baseline m' = ss_baseline m"
    and "r = None \<Longrightarrow> contentDriveIDForDB tx' = drive_after d (content_drive m)"
    and "r = None \<Longrightarrow> drive_coherent (ss_cachedContentDriveID m') (drive_after d (content_drive m))"
    and "r \<noteq> None \<Longrightarrow> m' = m"
    and "r = None \<Longrightarrow> id_IsZero (content_drive m) \<or> drive_coherent (ss_cachedContentDriveID m') (content_drive m)"
proof -
  have w: "contentDriveIDForDB (writeObservationStateToTx ((obs_of (ss_db m))\<lparr>os_ContentDriveID := d\<rparr>) db) = d" for db
    using n by (simp add: contentDrive_write)
  have f: "contentDriveIDForDB (fst (readObservationStateFromTx (ss_db m))) = content_drive m"
    by (simp add: contentDrive_obs)
  show "ss_baseline m' = ss_baseline m"
    and "r = None \<Longrightarrow> contentDriveIDForDB tx' = drive_after d (content_drive m)"
    and "r = None \<Longrightarrow> drive_coherent (ss_cachedContentDriveID m') (drive_after d (content_drive m))"
    and "r \<noteq> None \<Longrightarrow> m' = m"
    and "r = None \<Longrightarrow> id_IsZero (content_drive m) \<or> drive_coherent (ss_cachedContentDriveID m') (content_drive m)"
    using e c f w
    by (auto simp: ensureContentDriveIDTx_def drive_after_def drive_coherent_def Let_def contentDrive_obs
        writeObservationStateTx_def rememberContentDriveID_def split: if_splits option.splits)
qed

text \<open>What an applied mutation does to the table, and the mutations the executor produces.\<close>

definition mutated_rows :: "baseline_mutation \<Rightarrow> sql_baseline list \<Rightarrow> sql_baseline list" where
  "mutated_rows o' rows =
     (case classifyBaselineMutation (bm_Action o') of
        baselineMutationNoop \<Rightarrow> rows
      | baselineMutationUpsert \<Rightarrow> table_put (mutationToEntry o') rows
      | baselineMutationDelete \<Rightarrow> table_del (bm_Path o') rows
      | baselineMutationMove \<Rightarrow> table_put (mutationToEntry o') rows)"

lemma updateRemoteStateOnOutcome_keeps:
  "updateRemoteStateOnOutcome o' tx = Inr tx' \<Longrightarrow> db_baseline tx' = db_baseline tx \<and> db_obs tx' = db_obs tx"
  by (auto simp: updateRemoteStateOnOutcome_def split: if_splits sum.splits)

lemma applySingleMutation_rows:
  assumes "applySingleMutation o' tx = Inr tx'"
  shows "db_baseline tx' = mutated_rows o' (db_baseline tx)" "contentDriveIDForDB tx' = contentDriveIDForDB tx"
  using assms
  by (auto simp: applySingleMutation_def mutated_rows_def commitUpsert_table commitDelete_table commitMove_def
      contentDriveIDForDB_def dest!: updateRemoteStateOnOutcome_keeps split: baseline_mutation_kind.splits)

definition mutation_ok :: "baseline_mutation \<Rightarrow> sync_store \<Rightarrow> bool" where
  "mutation_ok o' m \<longleftrightarrow>
     id_normal (bm_DriveID o') \<and> \<not> (id_IsZero (bm_DriveID o') \<and> id_IsZero (content_drive m)) \<and>
     entry_normal (mutationToEntry o') \<and>
     (case classifyBaselineMutation (bm_Action o') of
        baselineMutationUpsert \<Rightarrow>
          list_all (\<lambda>x. sb_item_id x = bm_ItemID o' \<longrightarrow> sb_path x = bm_Path o') (db_baseline (ss_db m))
      | baselineMutationMove \<Rightarrow>
          list_ex (\<lambda>x. sb_path x = bm_OldPath o' \<and> sb_item_id x = bm_ItemID o') (db_baseline (ss_db m))
      | _ \<Rightarrow> True)"

text \<open>The contract of a commit: what it does to the paths the baseline knows.\<close>

definition commit_spec ::
  "baseline_mutation \<Rightarrow> (string \<Rightarrow> baseline_entry option) \<Rightarrow> string \<Rightarrow> baseline_entry option" where
  "commit_spec o' f =
     (case classifyBaselineMutation (bm_Action o') of
        baselineMutationNoop \<Rightarrow> f
      | baselineMutationUpsert \<Rightarrow> f(bm_Path o' \<mapsto> mutationToEntry o')
      | baselineMutationDelete \<Rightarrow> f(bm_Path o' := None)
      | baselineMutationMove \<Rightarrow> f(bm_OldPath o' := None, bm_Path o' \<mapsto> mutationToEntry o'))"

lemma mutationToEntry_sel [simp]:
  "be_Path (mutationToEntry o') = bm_Path o'" "be_ItemID (mutationToEntry o') = bm_ItemID o'"
  "be_DriveID (mutationToEntry o') = bm_DriveID o'"
  by (simp_all add: mutationToEntry_def)

lemma GetByPath_fun [simp]:
  "bl_GetByPath (bl_Put e b) = (bl_GetByPath b)(be_Path e \<mapsto> e)"
  "bl_GetByPath (bl_Delete p b) = (bl_GetByPath b)(p := None)"
  by (simp_all add: bl_GetByPath_def fun_eq_iff)

text \<open>The cache and the table make the same step, and it is the step of the contract.\<close>

lemma mirror_mutation:
  assumes b: "baseline_wf b" and t: "table_wf rows" and eq: "bl_GetByPath b = table_get d rows"
    and e: "row_entry d (mutationToEntry o')"
    and up: "classifyBaselineMutation (bm_Action o') = baselineMutationUpsert \<Longrightarrow>
        list_all (\<lambda>x. sb_item_id x = bm_ItemID o' \<longrightarrow> sb_path x = bm_Path o') rows"
    and mv: "classifyBaselineMutation (bm_Action o') = baselineMutationMove \<Longrightarrow>
        list_ex (\<lambda>x. sb_path x = bm_OldPath o' \<and> sb_item_id x = bm_ItemID o') rows"
  shows "baseline_wf (updateBaselineCache o' b) \<and> table_wf (mutated_rows o' rows) \<and>
    bl_GetByPath (updateBaselineCache o' b) = table_get d (mutated_rows o' rows) \<and>
    bl_GetByPath (updateBaselineCache o' b) = commit_spec o' (bl_GetByPath b)"
proof (cases "classifyBaselineMutation (bm_Action o')")
  case baselineMutationNoop
  then show ?thesis using b t eq by (simp add: updateBaselineCache_def mutated_rows_def commit_spec_def)
next
  case baselineMutationUpsert
  then have "table_admits d (mutationToEntry o') rows" using up e by (simp add: table_admits_def)
  from mirror.mirror_put [OF b t eq e this] baselineMutationUpsert show ?thesis
    by (simp add: updateBaselineCache_def mutated_rows_def commit_spec_def)
next
  case baselineMutationDelete
  from mirror.mirror_del [OF b t eq] baselineMutationDelete show ?thesis
    by (simp add: updateBaselineCache_def mutated_rows_def commit_spec_def)
next
  case baselineMutationMove
  then obtain r where r: "r \<in> set rows" "sb_path r = bm_OldPath o'" "sb_item_id r = bm_ItemID o'"
    using mv by (auto simp: list_ex_iff)
  have g: "table_get d rows (bm_OldPath o') = Some (scanBaselineRow d r)"
    using r by (auto simp: table_get_Some [OF t])
  have i: "be_ItemID (scanBaselineRow d r) = be_ItemID (mutationToEntry o')"
    using r(3) by simp
  from mirror.mirror_move [OF b t eq e g i] baselineMutationMove show ?thesis
    by (simp add: updateBaselineCache_def mutated_rows_def commit_spec_def)
qed

lemma commit_consistent:
  assumes ok: "store_ok m" and mo: "mutation_ok o' m" and s: "bm_Success o'"
    and C: "CommitMutation (Some o') m = (r, m')"
  shows "store_ok m' \<and> (r \<noteq> None \<longrightarrow> ss_db m' = ss_db m) \<and>
    (r = None \<longrightarrow>
       bl_GetByPath (snd (Load m')) =
         commit_spec (o'\<lparr>bm_DriveID := drive_after (bm_DriveID o') (content_drive m)\<rparr>) (bl_GetByPath (snd (Load m))))"
proof -
  obtain m1 b where L: "Load m = (m1, b)" by force
  note L' = Load_ok [OF ok L]
  let ?c = "content_drive m" let ?rows = "db_baseline (ss_db m)" let ?d = "drive_after (bm_DriveID o') ?c"
  obtain r1 s1 tx1 m2 where e: "ensureContentDriveIDTx (bm_DriveID o') (obs_of (ss_db m1))
      (fst (readObservationStateFromTx (ss_db m1))) m1 = (r1, s1, tx1, m2)" by (metis prod_cases4)
  have coh: "drive_coherent (ss_cachedContentDriveID m1) (content_drive m1)" and n: "id_normal (bm_DriveID o')"
    using L'(1) mo by (simp_all add: store_ok_def mutation_ok_def)
  note E = ensureContentDriveIDTx_spec [OF e] and F = ensure_tx [OF e n coh]
  have nz: "\<not> id_IsZero ?d" using mo by (auto simp: mutation_ok_def drive_after_def)
  show ?thesis
  proof (cases r1)
    case (Some err)
    then have "r = Some err" "m' = m1" using C L e s F(4)
      by (auto simp: CommitMutation_def split_beta split: option.splits)
    then show ?thesis using L' by simp
  next
    case None
    let ?o = "o'\<lparr>bm_DriveID := ?d\<rparr>"
    have drv: "os_ContentDriveID s1 = ?d" using E(2) [OF None] L'(2) by (simp add: contentDrive_obs)
    have db: "db_baseline tx1 = ?rows" "contentDriveIDForDB tx1 = ?d" "ss_db m2 = ss_db m"
      using E(3,4) F(2) [OF None] L'(2) by (simp_all add: readObservationStateFromTx_def Let_def)
    have coh2: "drive_coherent (ss_cachedContentDriveID m2) ?d" "ss_baseline m2 = Some b"
        "drive_coherent (ss_cachedContentDriveID m2) ?c"
      using F(1,3,5) None L'(2,3) by (auto simp: drive_coherent_def)
    have run: "(r, m') = (case applySingleMutation ?o tx1 of Inl err \<Rightarrow> (Some err, m2)
        | Inr tx2 \<Rightarrow> (None, m2\<lparr>ss_db := tx2, ss_baseline := Some (updateBaselineCache ?o b)\<rparr>))"
      using C L e s None nz drv by (auto simp: CommitMutation_def split_beta Let_def split: sum.splits)
    have eq: "bl_GetByPath b = table_get ?d ?rows"
      using L'(5) ok by (auto simp: store_ok_def drive_after_def)
    have M: "baseline_wf (updateBaselineCache ?o b) \<and> table_wf (mutated_rows ?o ?rows) \<and>
        bl_GetByPath (updateBaselineCache ?o b) = table_get ?d (mutated_rows ?o ?rows) \<and>
        bl_GetByPath (updateBaselineCache ?o b) = commit_spec ?o (bl_GetByPath b)"
      by (rule mirror_mutation [OF L'(4) _ eq])
        (use ok mo in \<open>auto simp: store_ok_def mutation_ok_def row_entry_def mutationToEntry_def entry_normal_def\<close>)
    show ?thesis
    proof (cases "applySingleMutation ?o tx1")
      case (Inl err)
      then show ?thesis using run ok coh2 L' db(3) by (auto simp: store_ok_def)
    next
      case (Inr tx2)
      note A = applySingleMutation_rows [OF Inr]
      have m': "r = None" "m' = m2\<lparr>ss_db := tx2, ss_baseline := Some (updateBaselineCache ?o b)\<rparr>"
        using run Inr by simp_all
      have "store_ok m'" using M A db coh2(1) nz by (simp add: store_ok_def m'(2))
      moreover have "snd (Load m') = updateBaselineCache ?o b" "snd (Load m) = b"
        by (simp_all only: L snd_conv) (simp add: m'(2) Load_def)
      ultimately show ?thesis using conjunct2 [OF conjunct2 [OF conjunct2 [OF M]]] m'(1) by simp
    qed
  qed
qed

section \<open>Properties\<close>


lemma reload_agrees:
  assumes "store_ok m"
  shows "bl_GetByPath (snd (Load (reloadBaselineCache m))) = bl_GetByPath (snd (Load m))"
proof -
  obtain m1 b where L: "Load m = (m1, b)" by force
  obtain m2 b2 where L2: "Load (m\<lparr>ss_baseline := None\<rparr>) = (m2, b2)" by force
  have ok: "store_ok (m\<lparr>ss_baseline := None\<rparr>)" using assms by (simp add: store_ok_def)
  have r: "reloadBaselineCache m = m2" using L2 by (simp add: reloadBaselineCache_def)
  have "Load m2 = (m2, b2)" using Load_ok(3) [OF ok L2] by (simp add: Load_def)
  then show ?thesis using Load_ok(5) [OF assms L] Load_ok(5) [OF ok L2] L r by simp
qed

text \<open>A sequence of commits, as the engine issues them one at a time.\<close>

fun commit_all :: "baseline_mutation list \<Rightarrow> sync_store \<Rightarrow> sync_store" where
  "commit_all [] m = m"
| "commit_all (o' # os) m = commit_all os (snd (CommitMutation (Some o') m))"

fun mutations_ok :: "baseline_mutation list \<Rightarrow> sync_store \<Rightarrow> bool" where
  "mutations_ok [] m \<longleftrightarrow> True"
| "mutations_ok (o' # os) m \<longleftrightarrow> mutation_ok o' m \<and> mutations_ok os (snd (CommitMutation (Some o') m))"

lemma CommitMutation_store_ok:
  assumes "store_ok m" "mutation_ok o' m"
  shows "store_ok (snd (CommitMutation (Some o') m))"
proof (cases "bm_Success o'")
  case True
  then show ?thesis using commit_consistent [OF assms, of "fst (CommitMutation (Some o') m)"] by simp
next
  case False
  then show ?thesis using assms(1) by (simp add: CommitMutation_def)
qed

lemma commit_all_ok: "store_ok m \<Longrightarrow> mutations_ok os m \<Longrightarrow> store_ok (commit_all os m)"
  by (induction os arbitrary: m) (auto simp: CommitMutation_store_ok)

lemma filter_False_length: "(\<And>x. x \<in> set xs \<Longrightarrow> \<not> P x) \<Longrightarrow> length (filter P xs) = 0"
  by (induction xs) auto

lemma store_ok_consistent:
  assumes "store_ok m" and o: "set order2 = sb_path ` set (db_baseline (ss_db m))"
  shows "fst (CheckCacheConsistency order order2 m) = 0"
proof (cases "ss_baseline m")
  case None
  then show ?thesis by (simp add: CheckCacheConsistency_def)
next
  case (Some b)
  obtain m1 d where r: "contentDriveIDForRead m zero_id = (m1, d)" by force
  have c: "drive_coherent (ss_cachedContentDriveID m) (content_drive m)" using assms by (simp add: store_ok_def)
  note R = read_drive [OF r c]
  have "table_get d (db_baseline (ss_db m)) = table_get (content_drive m) (db_baseline (ss_db m))"
    using R(4) assms(1) by (auto simp: store_ok_def)
  then have eq: "bl_ByPath b = index_by be_Path (map (scanBaselineRow d) (db_baseline (ss_db m)))"
    using assms(1) Some by (simp add: store_ok_def bl_GetByPath_def fun_eq_iff table_get_def)
  have "length (filter (\<lambda>p. bl_ByPath b p = None) order2) = 0"
    using o by (intro filter_False_length) (simp add: eq index_by_None image_image)
  moreover have "length (filter (\<lambda>p. case bl_ByPath b p of None \<Rightarrow> False
      | Some cached \<Rightarrow> (case index_by be_Path (map (scanBaselineRow d) (db_baseline (ss_db m1))) p of
           None \<Rightarrow> True | Some e \<Rightarrow> \<not> baselineEntriesEqual cached e)) order) = 0"
    unfolding eq R(1) by (rule filter_False_length) (simp add: baselineEntriesEqual_def split: option.splits)
  ultimately show ?thesis using Some r by (simp add: CheckCacheConsistency_def Let_def)
qed

text \<open>
  The cache of the baseline never drifts from the database: after any sequence of such
  commits, successful or not, the cache has the same entry at every path as a reload from the
  table, and the consistency check, whatever the order of its loops, counts no mismatch.
\<close>

theorem commits_keep_cache:
  assumes "store_ok m" "mutations_ok os m"
    "set order2 = sb_path ` set (db_baseline (ss_db (commit_all os m)))"
  shows "bl_GetByPath (snd (Load (reloadBaselineCache (commit_all os m)))) p =
       bl_GetByPath (snd (Load (commit_all os m))) p \<and>
     fst (CheckCacheConsistency order order2 (commit_all os m)) = 0"
  using commit_all_ok [OF assms(1,2)] reload_agrees store_ok_consistent assms(3) by simp

section \<open>Concrete commits\<close>

definition seeded_store :: sync_store where
  "seeded_store =
     fresh_store\<lparr>ss_db := \<lparr>db_baseline = [bind_baseline_entry (entry_at ''a'' ''i1'')], db_remote = [], db_local = [], db_issues = [],
                            db_obs = Some (default_obs_row\<lparr>ob_content_drive_id := ''d1''\<rparr>)\<rparr>\<rparr>"

definition outcome_at :: "action_type \<Rightarrow> string \<Rightarrow> string \<Rightarrow> string \<Rightarrow> baseline_mutation" where
  "outcome_at t old p i =
     \<lparr>bm_Action = t, bm_Success = True, bm_Path = p, bm_OldPath = old, bm_DriveID = New_id ''d1'', bm_ItemID = i,
      bm_ParentID = '''', bm_ItemType = ItemTypeFile, bm_LocalHash = ''h'', bm_RemoteHash = ''h'', bm_LocalSize = 1,
      bm_LocalSizeKnown = True, bm_LocalDevice = 0, bm_LocalInode = 0, bm_LocalHasIdentity = False,
      bm_LocalIdentityObserved = True, bm_RemoteSize = 1, bm_RemoteSizeKnown = True, bm_LocalMtime = 1,
      bm_RemoteMtime = 1, bm_ETag = ''e''\<rparr>"


lemma seeded_ok: "store_ok seeded_store"
proof -
  have "table_wf (db_baseline (ss_db seeded_store))" "\<not> id_IsZero (contentDriveIDForDB (ss_db seeded_store))"
    "drive_coherent (ss_cachedContentDriveID seeded_store) (contentDriveIDForDB (ss_db seeded_store))"
    "ss_baseline seeded_store = None"
    by code_simp+
  then show ?thesis by (simp add: store_ok_def)
qed


theorem commits_keep_cache_witness:
  "fst (CheckCacheConsistency [''b'', ''c''] [''c'', ''b'']
     (commit_all [outcome_at ActionLocalMove ''a'' ''b'' ''i1'', outcome_at ActionUpload '''' ''c'' ''i2''] seeded_store)) = 0"
proof -
  let ?os = "[outcome_at ActionLocalMove ''a'' ''b'' ''i1'', outcome_at ActionUpload '''' ''c'' ''i2'']"
  have "mutations_ok ?os seeded_store" by code_simp
  moreover have "set [''c'', ''b''] = sb_path ` set (db_baseline (ss_db (commit_all ?os seeded_store)))" by code_simp
  ultimately show ?thesis by (rule conjunct2 [OF commits_keep_cache [OF seeded_ok]])
qed

end
