(* ===== verification/ScopeBlocks.thy ===== *)
theory ScopeBlocks
  imports DepGraph
begin

text \<open>
  Timed block scopes: the working set in memory (\<^verbatim>\<open>active_scopes.go\<close>), the persisted rows
  (\<^verbatim>\<open>scope_block.go\<close>, \<^verbatim>\<open>block_scope_rows.go\<close>, \<^verbatim>\<open>store_write_block_scopes.go\<close>), and the sliding
  windows that decide when a scope opens (\<^verbatim>\<open>scope.go\<close>). A \<^verbatim>\<open>time.Time\<close> is the number of
  nanoseconds since the epoch, \<open>None\<close> for the zero time.
\<close>

section \<open>Time\<close>

type_synonym go_time = "int option"

text \<open>\<^verbatim>\<open>t.After(now)\<close> and \<^verbatim>\<open>t.Before(u)\<close>: the zero time lies before every other.\<close>

definition time_after :: "go_time \<Rightarrow> int \<Rightarrow> bool" where
  "time_after t now = (case t of None \<Rightarrow> False | Some n \<Rightarrow> now < n)"

definition time_before :: "go_time \<Rightarrow> go_time \<Rightarrow> bool" where
  "time_before t u = (case u of None \<Rightarrow> False | Some m \<Rightarrow> (case t of None \<Rightarrow> True | Some n \<Rightarrow> n < m))"

section \<open>The working set\<close>

record active_scope =
  as_Key :: scope_key
  as_TrialInterval :: int
  as_NextTrialAt :: go_time

definition scopeBlocksTrackedAction :: "scope_key \<Rightarrow> action \<Rightarrow> string \<Rightarrow> bool" where
  "scopeBlocksTrackedAction key a throttleTargetKey =
     list_ex (\<lambda>candidate. sk_BlocksAction key candidate throttleTargetKey (a_Type a))
       (a_Path a # (if a_OldPath a \<noteq> '''' \<and> a_OldPath a \<noteq> a_Path a then [a_OldPath a] else []))"

fun find_blocking_loop ::
  "active_scope list \<Rightarrow> action \<Rightarrow> string \<Rightarrow> int \<Rightarrow> int \<Rightarrow> scope_key \<Rightarrow> scope_key" where
  "find_blocking_loop [] a tk bestRank bestSpecificity best = best"
| "find_blocking_loop (b # bs) a tk bestRank bestSpecificity best =
     (let key = as_Key b in
      if \<not> scopeBlocksTrackedAction key a tk then find_blocking_loop bs a tk bestRank bestSpecificity best
      else let rank = sd_Priority (DescribeScopeKey key);
               specificity = int (length (sk_Param key))
           in if rank < bestRank \<or> (rank = bestRank \<and> specificity > bestSpecificity)
              then find_blocking_loop bs a tk rank specificity key
              else find_blocking_loop bs a tk bestRank bestSpecificity best)"

definition FindBlockingScope :: "active_scope list \<Rightarrow> action \<Rightarrow> scope_key" where
  "FindBlockingScope blocks a =
     (if blocks = [] then zero_scope_key
      else find_blocking_loop blocks a (action_ThrottleTargetKey (Some a)) scopePriorityMax (- 1) zero_scope_key)"

text \<open>Replacing the first scope with the key, or appending one.\<close>

fun UpsertScope :: "active_scope \<Rightarrow> active_scope list \<Rightarrow> active_scope list" where
  "UpsertScope block [] = [block]"
| "UpsertScope block (b # bs) = (if as_Key b = as_Key block then block # bs else b # UpsertScope block bs)"

fun RemoveScope :: "scope_key \<Rightarrow> active_scope list \<Rightarrow> active_scope list" where
  "RemoveScope key [] = []"
| "RemoveScope key (b # bs) = (if as_Key b = key then bs else b # RemoveScope key bs)"

fun LookupScope :: "active_scope list \<Rightarrow> scope_key \<Rightarrow> active_scope option" where
  "LookupScope [] key = None"
| "LookupScope (b # bs) key = (if as_Key b = key then Some b else LookupScope bs key)"

definition HasScope :: "active_scope list \<Rightarrow> scope_key \<Rightarrow> bool" where
  "HasScope blocks key \<longleftrightarrow> LookupScope blocks key \<noteq> None"

fun ExtendScopeTrial :: "active_scope list \<Rightarrow> scope_key \<Rightarrow> go_time \<Rightarrow> int \<Rightarrow> active_scope list \<times> bool" where
  "ExtendScopeTrial [] key nextAt newInterval = ([], False)"
| "ExtendScopeTrial (b # bs) key nextAt newInterval =
     (if as_Key b = key then (b\<lparr>as_NextTrialAt := nextAt, as_TrialInterval := newInterval\<rparr> # bs, True)
      else case ExtendScopeTrial bs key nextAt newInterval of (bs', found) \<Rightarrow> (b # bs', found))"

definition DueTrials :: "active_scope list \<Rightarrow> int \<Rightarrow> scope_key list" where
  "DueTrials blocks now =
     map as_Key (filter (\<lambda>b. as_NextTrialAt b \<noteq> None \<and> \<not> time_after (as_NextTrialAt b) now) blocks)"

fun earliest_loop :: "active_scope list \<Rightarrow> go_time \<Rightarrow> bool \<Rightarrow> go_time \<times> bool" where
  "earliest_loop [] earliest found = (earliest, found)"
| "earliest_loop (b # bs) earliest found =
     (if as_NextTrialAt b = None then earliest_loop bs earliest found
      else if \<not> found \<or> time_before (as_NextTrialAt b) earliest then earliest_loop bs (as_NextTrialAt b) True
      else earliest_loop bs earliest found)"

definition EarliestTrialAt :: "active_scope list \<Rightarrow> go_time \<times> bool" where
  "EarliestTrialAt blocks = earliest_loop blocks None False"

definition ScopeKeysOf :: "active_scope list \<Rightarrow> scope_key list" where
  "ScopeKeysOf blocks = map as_Key blocks"

section \<open>Persisted rows\<close>

record block_scope =
  bs_Key :: scope_key
  bs_TrialInterval :: int
  bs_NextTrialAt :: go_time

record sql_block_scope =
  qb_scope_key :: string
  qb_trial_interval :: int
  qb_next_trial_at :: int

datatype scope_error =
    ErrScopeMissingKey | ErrScopeUnknownKey string | ErrScopeReadBoundary string | ErrScopeNoInterval string
  | ErrScopeNoTrialTime string | ErrRetryMissingPath | ErrRetryMissingScope string
  | ErrRetryMissingRow string | ErrRetryScan string

definition activeScopeFromBlockScopeRow :: "block_scope \<Rightarrow> active_scope" where
  "activeScopeFromBlockScopeRow r =
     \<lparr>as_Key = bs_Key r, as_TrialInterval = bs_TrialInterval r, as_NextTrialAt = bs_NextTrialAt r\<rparr>"

definition blockScopeRowFromActiveScope :: "active_scope \<Rightarrow> scope_error + block_scope" where
  "blockScopeRowFromActiveScope s =
     (if sd_IsZero (DescribeScopeKey (as_Key s)) then Inl (ErrScopeUnknownKey (sk_String (as_Key s)))
      else if \<not> sk_PersistsInBlockScopes (as_Key s) then Inl (ErrScopeReadBoundary (sk_String (as_Key s)))
      else Inr \<lparr>bs_Key = as_Key s, bs_TrialInterval = as_TrialInterval s, bs_NextTrialAt = as_NextTrialAt s\<rparr>)"

definition validateBlockScope :: "block_scope \<Rightarrow> scope_error option" where
  "validateBlockScope b =
     (if sk_IsZero (bs_Key b) then Some ErrScopeMissingKey
      else if sd_IsZero (DescribeScopeKey (bs_Key b)) then Some (ErrScopeUnknownKey (sk_String (bs_Key b)))
      else if \<not> sk_PersistsInBlockScopes (bs_Key b) then Some (ErrScopeReadBoundary (sk_String (bs_Key b)))
      else if bs_TrialInterval b \<le> 0 then Some (ErrScopeNoInterval (sk_String (bs_Key b)))
      else if bs_NextTrialAt b = None then Some (ErrScopeNoTrialTime (sk_String (bs_Key b)))
      else None)"

text \<open>\<^verbatim>\<open>INSERT OR REPLACE\<close>: the row with the primary key is removed and the new one added.\<close>

definition upsertBlockScopeWithRunner :: "block_scope \<Rightarrow> sql_block_scope list \<Rightarrow> scope_error + sql_block_scope list" where
  "upsertBlockScopeWithRunner b rows =
     (case validateBlockScope b of
        Some e \<Rightarrow> Inl e
      | None \<Rightarrow>
          Inr (filter (\<lambda>r. qb_scope_key r \<noteq> sk_String (bs_Key b)) rows @
            [\<lparr>qb_scope_key = sk_String (bs_Key b), qb_trial_interval = bs_TrialInterval b,
              qb_next_trial_at = (case bs_NextTrialAt b of None \<Rightarrow> 0 | Some n \<Rightarrow> n)\<rparr>]))"

definition deleteBlockScopeWithRunner :: "scope_key \<Rightarrow> sql_block_scope list \<Rightarrow> sql_block_scope list" where
  "deleteBlockScopeWithRunner key rows = filter (\<lambda>r. qb_scope_key r \<noteq> sk_String key) rows"

definition scanBlockScopeRow :: "sql_block_scope \<Rightarrow> scope_error + block_scope" where
  "scanBlockScopeRow r =
     (let key = ParseScopeKey (qb_scope_key r) in
      if sk_IsZero key then Inr \<lparr>bs_Key = zero_scope_key, bs_TrialInterval = 0, bs_NextTrialAt = None\<rparr>
      else if sd_IsZero (DescribeScopeKey key) then Inl (ErrScopeUnknownKey (qb_scope_key r))
      else if \<not> sk_PersistsInBlockScopes key then Inl (ErrScopeReadBoundary (qb_scope_key r))
      else Inr \<lparr>bs_Key = key, bs_TrialInterval = qb_trial_interval r,
                bs_NextTrialAt = (if qb_next_trial_at r \<noteq> 0 then Some (qb_next_trial_at r) else None)\<rparr>)"

fun queryBlockScopeRowsWithRunner :: "sql_block_scope list \<Rightarrow> scope_error + block_scope list" where
  "queryBlockScopeRowsWithRunner [] = Inr []"
| "queryBlockScopeRowsWithRunner (r # rs) =
     (case scanBlockScopeRow r of
        Inl e \<Rightarrow> Inl e
      | Inr b \<Rightarrow>
          (case queryBlockScopeRowsWithRunner rs of
             Inl e \<Rightarrow> Inl e
           | Inr bs \<Rightarrow> Inr (if sk_IsZero (bs_Key b) then bs else b # bs)))"

section \<open>Sliding windows\<close>

record window_entry =
  we_path :: string
  we_at :: int

record sliding_window =
  sw_entries :: "window_entry list"
  sw_window :: int
  sw_threshold :: int

record scope_update_result =
  sur_Block :: bool
  sur_ScopeKey :: scope_key
  sur_ConditionType :: string
  sur_RetryAfter :: int

definition no_scope_update :: scope_update_result where
  "no_scope_update = \<lparr>sur_Block = False, sur_ScopeKey = zero_scope_key, sur_ConditionType = '''', sur_RetryAfter = 0\<rparr>"

type_synonym scope_windows = "scope_key \<rightharpoonup> sliding_window"

definition second_ns :: int where
  "second_ns = 1000000000"

definition quotaWindowThreshold :: int where "quotaWindowThreshold = 3"
definition quotaWindowDuration :: int where "quotaWindowDuration = 10 * second_ns"
definition serviceWindowThreshold :: int where "serviceWindowThreshold = 5"
definition serviceWindowDuration :: int where "serviceWindowDuration = 30 * second_ns"

definition sw_uniqueCount :: "sliding_window \<Rightarrow> int \<Rightarrow> int" where
  "sw_uniqueCount w now =
     int (length (remdups (map we_path (filter (\<lambda>e. we_at e > now - sw_window w) (sw_entries w)))))"

definition sw_add :: "string \<Rightarrow> int \<Rightarrow> sliding_window \<Rightarrow> sliding_window \<times> bool" where
  "sw_add path now w =
     (let fresh = filter (\<lambda>e. we_at e > now - sw_window w) (sw_entries w);
          w' = w\<lparr>sw_entries := fresh @ [\<lparr>we_path = path, we_at = now\<rparr>]\<rparr>
      in (w', sw_uniqueCount w' now \<ge> sw_threshold w))"

definition checkWindow ::
  "scope_key \<Rightarrow> string \<Rightarrow> int \<Rightarrow> int \<Rightarrow> string \<Rightarrow> int \<Rightarrow> scope_windows \<Rightarrow> scope_windows \<times> scope_update_result" where
  "checkWindow sk path threshold window conditionType now ws =
     (let w = (case ws sk of Some w \<Rightarrow> w | None \<Rightarrow> \<lparr>sw_entries = [], sw_window = window, sw_threshold = threshold\<rparr>)
      in case sw_add path now w of
           (w', triggered) \<Rightarrow>
             if triggered then (ws(sk := None),
               \<lparr>sur_Block = True, sur_ScopeKey = sk, sur_ConditionType = conditionType, sur_RetryAfter = 0\<rparr>)
             else (ws(sk \<mapsto> w'), no_scope_update))"

text \<open>The fields of an action completion that the detection reads.\<close>

definition UpdateScope ::
  "int \<Rightarrow> drive_id \<Rightarrow> string \<Rightarrow> int \<Rightarrow> int \<Rightarrow> scope_windows \<Rightarrow> scope_windows \<times> scope_update_result" where
  "UpdateScope httpStatus driveID path retryAfter now ws =
     (if httpStatus = 429 then
        (let sk = ScopeKeyForResult httpStatus driveID in
         if sk_IsZero sk then (ws, no_scope_update)
         else (ws, \<lparr>sur_Block = True, sur_ScopeKey = sk, sur_ConditionType = IssueRateLimited, sur_RetryAfter = retryAfter\<rparr>))
      else if httpStatus = 503 \<and> retryAfter > 0 then
        (ws, \<lparr>sur_Block = True, sur_ScopeKey = SKService, sur_ConditionType = IssueServiceOutage, sur_RetryAfter = retryAfter\<rparr>)
      else if httpStatus = 507 then
        checkWindow (ScopeKeyForResult httpStatus driveID) path quotaWindowThreshold quotaWindowDuration IssueQuotaExceeded now ws
      else if httpStatus \<ge> 500 then
        checkWindow (ScopeKeyForResult httpStatus driveID) path serviceWindowThreshold serviceWindowDuration IssueServiceOutage now ws
      else (ws, no_scope_update))"

definition RecordSuccess :: "scope_windows \<Rightarrow> scope_windows" where
  "RecordSuccess ws = ws(SKQuotaOwn := None, SKService := None)"

section \<open>The contract of a scope table\<close>

text \<open>
  What the engine relies on, for the working set in memory and for the table: both are keyed
  tables of scopes, and moving an open scope to another trial time touches only its own key.
\<close>

locale scope_table = keyed_table inv look as_Key admissible keyed ups del
  for inv :: "'s \<Rightarrow> bool" and look :: "'s \<Rightarrow> scope_key \<Rightarrow> active_scope option"
    and admissible keyed ups del
begin

lemma rearm:
  assumes "inv s" "look s k = Some b" "admissible (b\<lparr>as_NextTrialAt := t, as_TrialInterval := i\<rparr>)"
  shows "look (ups (b\<lparr>as_NextTrialAt := t, as_TrialInterval := i\<rparr>) s) j =
    (if j = k then Some (b\<lparr>as_NextTrialAt := t, as_TrialInterval := i\<rparr>) else look s j)"
  using look_ups [OF assms(1,3), of j] look_key [OF assms(1,2)] by simp

end

section \<open>The working set is a scope table\<close>

definition scopes_wf :: "active_scope list \<Rightarrow> bool" where
  "scopes_wf blocks \<longleftrightarrow> distinct (map as_Key blocks)"

lemma LookupScope_Some: "LookupScope bs k = Some b \<Longrightarrow> b \<in> set bs \<and> as_Key b = k"
  by (induction bs) (auto split: if_splits)

lemma LookupScope_None: "LookupScope bs k = None \<longleftrightarrow> k \<notin> as_Key ` set bs"
  by (induction bs) auto

lemma Upsert_keys: "as_Key ` set (UpsertScope b bs) = insert (as_Key b) (as_Key ` set bs)"
  by (induction bs) auto

lemma Upsert_wf: "scopes_wf bs \<Longrightarrow> scopes_wf (UpsertScope b bs)"
  unfolding scopes_wf_def
proof (induction bs)
  case (Cons a bs)
  then show ?case using Upsert_keys [of b bs] by auto
qed simp

lemma Remove_keys: "as_Key ` set (RemoveScope k bs) \<subseteq> as_Key ` set bs"
  by (induction bs) auto

lemma Remove_wf: "scopes_wf bs \<Longrightarrow> scopes_wf (RemoveScope k bs)"
  unfolding scopes_wf_def
proof (induction bs)
  case (Cons a bs)
  then show ?case using Remove_keys [of k bs] by auto
qed simp

lemma Lookup_Upsert: "LookupScope (UpsertScope b bs) k = (if k = as_Key b then Some b else LookupScope bs k)"
  by (induction bs) auto

lemma Lookup_Remove:
  "scopes_wf bs \<Longrightarrow> LookupScope (RemoveScope k bs) j = (if j = k then None else LookupScope bs j)"
  unfolding scopes_wf_def by (induction bs) (auto simp: LookupScope_None)

interpretation live: scope_table scopes_wf LookupScope "\<lambda>_. True" "\<lambda>_. True" UpsertScope RemoveScope
  by unfold_locales (auto simp: Upsert_wf Remove_wf Lookup_Upsert Lookup_Remove dest: LookupScope_Some)

section \<open>The persisted rows are a scope table\<close>

definition row_scope :: "sql_block_scope \<Rightarrow> active_scope" where
  "row_scope r =
     \<lparr>as_Key = ParseScopeKey (qb_scope_key r), as_TrialInterval = qb_trial_interval r,
      as_NextTrialAt = Some (qb_next_trial_at r)\<rparr>"

text \<open>A row that \<^verbatim>\<open>UpsertBlockScope\<close> writes.\<close>

definition row_valid :: "sql_block_scope \<Rightarrow> bool" where
  "row_valid r \<longleftrightarrow>
     sk_PersistsInBlockScopes (ParseScopeKey (qb_scope_key r)) \<and> qb_trial_interval r > 0 \<and> qb_next_trial_at r \<noteq> 0"

definition block_rows_wf :: "sql_block_scope list \<Rightarrow> bool" where
  "block_rows_wf rows \<longleftrightarrow> distinct (map qb_scope_key rows) \<and> list_all row_valid rows"

text \<open>What a load of the table would find under a key.\<close>

definition rows_lookup :: "sql_block_scope list \<Rightarrow> scope_key \<Rightarrow> active_scope option" where
  "rows_lookup rows k =
     (case queryBlockScopeRowsWithRunner rows of
        Inl _ \<Rightarrow> None
      | Inr bs \<Rightarrow> LookupScope (map activeScopeFromBlockScopeRow bs) k)"

text \<open>A scope with a trial time, which the engine takes from the clock, and a positive interval.\<close>

definition scope_timed :: "active_scope \<Rightarrow> bool" where
  "scope_timed b \<longleftrightarrow>
     sk_wf (as_Key b) \<and> sk_PersistsInBlockScopes (as_Key b) \<and> as_TrialInterval b > 0 \<and>
     as_NextTrialAt b \<noteq> None \<and> as_NextTrialAt b \<noteq> Some 0"

definition upsert_rows :: "active_scope \<Rightarrow> sql_block_scope list \<Rightarrow> sql_block_scope list" where
  "upsert_rows b rows =
     (case blockScopeRowFromActiveScope b of
        Inl _ \<Rightarrow> rows
      | Inr r \<Rightarrow> (case upsertBlockScopeWithRunner r rows of Inl _ \<Rightarrow> rows | Inr rows' \<Rightarrow> rows'))"

lemma persists_not_zero:
  assumes "sk_PersistsInBlockScopes k"
  shows "\<not> sk_IsZero k" "\<not> sd_IsZero (DescribeScopeKey k)"
  using assms by (auto simp: sk_PersistsInBlockScopes_def sd_PersistsInBlockScopes_def sk_IsZero_def
      DescribeScopeKey_def sd_IsZero_def split: scope_key_kind.splits)

lemma scan_valid_row:
  assumes "row_valid r"
  shows "\<exists>b. scanBlockScopeRow r = Inr b \<and> \<not> sk_IsZero (bs_Key b) \<and> activeScopeFromBlockScopeRow b = row_scope r"
  using assms persists_not_zero [of "ParseScopeKey (qb_scope_key r)"]
  by (auto simp: scanBlockScopeRow_def row_valid_def Let_def activeScopeFromBlockScopeRow_def row_scope_def)

lemma query_valid_rows:
  "list_all row_valid rows \<Longrightarrow>
     \<exists>bs. queryBlockScopeRowsWithRunner rows = Inr bs \<and> map activeScopeFromBlockScopeRow bs = map row_scope rows"
proof (induction rows)
  case (Cons r rows)
  then obtain bs where "queryBlockScopeRowsWithRunner rows = Inr bs" "map activeScopeFromBlockScopeRow bs = map row_scope rows"
    by auto
  with scan_valid_row [of r] Cons.prems show ?case by auto
qed simp

lemma rows_lookup_eq: "list_all row_valid rows \<Longrightarrow> rows_lookup rows k = LookupScope (map row_scope rows) k"
  using query_valid_rows [of rows] by (auto simp: rows_lookup_def)

lemma timed_row:
  assumes "scope_timed b"
  shows "upsert_rows b rows =
      filter (\<lambda>r. qb_scope_key r \<noteq> sk_String (as_Key b)) rows @
        [\<lparr>qb_scope_key = sk_String (as_Key b), qb_trial_interval = as_TrialInterval b,
          qb_next_trial_at = the (as_NextTrialAt b)\<rparr>]"
    and "row_scope \<lparr>qb_scope_key = sk_String (as_Key b), qb_trial_interval = as_TrialInterval b,
          qb_next_trial_at = the (as_NextTrialAt b)\<rparr> = b"
    and "row_valid \<lparr>qb_scope_key = sk_String (as_Key b), qb_trial_interval = as_TrialInterval b,
          qb_next_trial_at = the (as_NextTrialAt b)\<rparr>"
  using assms persists_not_zero [of "as_Key b"]
  by (auto simp: upsert_rows_def blockScopeRowFromActiveScope_def upsertBlockScopeWithRunner_def validateBlockScope_def
      scope_timed_def row_scope_def row_valid_def sk_parse_String)

lemma upsert_rows_wf:
  assumes "block_rows_wf rows" "scope_timed b"
  shows "block_rows_wf (upsert_rows b rows)"
  using assms timed_row [OF assms(2)]
  by (auto simp: block_rows_wf_def list_all_iff distinct_map_filter)

lemma Lookup_append: "LookupScope (xs @ ys) k = (case LookupScope xs k of None \<Rightarrow> LookupScope ys k | Some b \<Rightarrow> Some b)"
  by (induction xs) auto

lemma Lookup_filter_rows:
  assumes "list_all row_valid rows" "sk_wf k"
  shows "LookupScope (map row_scope (filter (\<lambda>r. qb_scope_key r \<noteq> sk_String k) rows)) j =
    (if j = k then None else LookupScope (map row_scope rows) j)"
proof -
  have "as_Key (row_scope r) = k \<longleftrightarrow> qb_scope_key r = sk_String k" if "r \<in> set rows" for r
    using that assms persists_not_zero(1) [of "ParseScopeKey (qb_scope_key r)"] sk_String_parse [of "qb_scope_key r"]
    by (auto simp: list_all_iff row_valid_def sk_parse_String row_scope_def)
  then show ?thesis by (induction rows) auto
qed

lemma rows_lookup_upsert:
  assumes "block_rows_wf rows" "scope_timed b"
  shows "rows_lookup (upsert_rows b rows) k = (if k = as_Key b then Some b else rows_lookup rows k)"
proof -
  have v: "list_all row_valid rows" "sk_wf (as_Key b)" using assms by (simp_all add: block_rows_wf_def scope_timed_def)
  have "list_all row_valid (upsert_rows b rows)"
    using upsert_rows_wf [OF assms] by (simp add: block_rows_wf_def)
  then show ?thesis
    using timed_row [OF assms(2)] v
    by (auto simp: rows_lookup_eq Lookup_append Lookup_filter_rows split: option.splits)
qed

interpretation kept: scope_table block_rows_wf rows_lookup scope_timed sk_wf upsert_rows deleteBlockScopeWithRunner
proof
  fix s b k j
  assume wf: "block_rows_wf s"
  show "scope_timed b \<Longrightarrow> block_rows_wf (upsert_rows b s)" using wf by (rule upsert_rows_wf)
  show del: "block_rows_wf (deleteBlockScopeWithRunner k s)"
    using wf by (auto simp: block_rows_wf_def deleteBlockScopeWithRunner_def distinct_map_filter list_all_iff)
  show "scope_timed b \<Longrightarrow> rows_lookup (upsert_rows b s) k = (if k = as_Key b then Some b else rows_lookup s k)"
    using wf by (rule rows_lookup_upsert)
  show "sk_wf k \<Longrightarrow> rows_lookup (deleteBlockScopeWithRunner k s) j = (if j = k then None else rows_lookup s j)"
    using del wf Lookup_filter_rows [of s k j]
    by (auto simp: block_rows_wf_def rows_lookup_eq deleteBlockScopeWithRunner_def)
  show "rows_lookup s k = Some b \<Longrightarrow> as_Key b = k"
    using wf by (auto simp: block_rows_wf_def rows_lookup_eq dest: LookupScope_Some)
qed

interpretation scopes: mirrored_tables scopes_wf LookupScope as_Key "\<lambda>_. True" "\<lambda>_. True" UpsertScope RemoveScope
    block_rows_wf rows_lookup scope_timed sk_wf upsert_rows deleteBlockScopeWithRunner
  by unfold_locales simp_all

section \<open>Which scope is reported\<close>

text \<open>The order of the loop: a smaller priority number, then a longer parameter.\<close>

definition scope_rank :: "scope_key \<Rightarrow> int" where
  "scope_rank k = sd_Priority (DescribeScopeKey k)"

definition better_scope :: "scope_key \<Rightarrow> scope_key \<Rightarrow> bool" where
  "better_scope k j \<longleftrightarrow>
     scope_rank k < scope_rank j \<or> (scope_rank k = scope_rank j \<and> length (sk_Param k) > length (sk_Param j))"

lemma blocking_rank: "sk_BlocksAction k p tk t \<Longrightarrow> \<not> sk_IsZero k \<and> scope_rank k < scopePriorityMax"
  by (cases "sk_Kind k")
    (simp_all add: sk_BlocksAction_def sd_BlocksAction_def DescribeScopeKey_def scope_rank_def sk_IsZero_def scopePriorityMax_def)

lemma blocks_tracked_rank:
  "scopeBlocksTrackedAction k a tk \<Longrightarrow> \<not> sk_IsZero k \<and> scope_rank k < scopePriorityMax"
  by (auto simp: scopeBlocksTrackedAction_def dest: blocking_rank split: if_splits)

lemma find_blocking_loop_spec:
  assumes "r = find_blocking_loop bs a tk rank spec best"
  shows "(r = best \<and> (\<forall>b \<in> set bs. scopeBlocksTrackedAction (as_Key b) a tk \<longrightarrow>
            \<not> (scope_rank (as_Key b) < rank \<or> (scope_rank (as_Key b) = rank \<and> int (length (sk_Param (as_Key b))) > spec)))) \<or>
         (r \<in> as_Key ` set bs \<and> scopeBlocksTrackedAction r a tk \<and>
            (scope_rank r < rank \<or> (scope_rank r = rank \<and> int (length (sk_Param r)) > spec)) \<and>
            (\<forall>b \<in> set bs. scopeBlocksTrackedAction (as_Key b) a tk \<longrightarrow> \<not> better_scope (as_Key b) r))"
  using assms
proof (induction bs arbitrary: rank spec best)
  case (Cons b bs)
  let ?k = "as_Key b"
  let ?beats = "\<lambda>k r s. scope_rank k < r \<or> (scope_rank k = r \<and> int (length (sk_Param k)) > s)"
  let ?max = "\<lambda>bs r. \<forall>b \<in> set bs. scopeBlocksTrackedAction (as_Key b) a tk \<longrightarrow> \<not> better_scope (as_Key b) r"
  show ?case
  proof (cases "scopeBlocksTrackedAction ?k a tk \<and> ?beats ?k rank spec")
    case True
    then have "r = find_blocking_loop bs a tk (scope_rank ?k) (int (length (sk_Param ?k))) ?k"
      using Cons.prems by (simp add: Let_def scope_rank_def)
    from Cons.IH [OF this] have "(r = ?k \<and> ?max bs r) \<or>
        (r \<in> as_Key ` set bs \<and> scopeBlocksTrackedAction r a tk \<and> ?beats r (scope_rank ?k) (int (length (sk_Param ?k))) \<and> ?max bs r)"
      by (elim disjE) (simp_all add: better_scope_def)
    then have "r \<in> as_Key ` set (b # bs) \<and> scopeBlocksTrackedAction r a tk \<and> \<not> better_scope ?k r \<and> ?beats r rank spec \<and> ?max bs r"
    proof (elim disjE)
      assume "r = ?k \<and> ?max bs r"
      then have rk: "r = ?k" and mx: "?max bs r" by blast+
      have "\<not> better_scope ?k ?k" by (simp add: better_scope_def)
      then show ?thesis using True mx unfolding rk by simp
    next
      assume "r \<in> as_Key ` set bs \<and> scopeBlocksTrackedAction r a tk \<and>
        ?beats r (scope_rank ?k) (int (length (sk_Param ?k))) \<and> ?max bs r"
      moreover from this have "\<not> better_scope ?k r" "?beats r rank spec"
        using True unfolding better_scope_def by linarith+
      ultimately show ?thesis by simp
    qed
    then show ?thesis by simp
  next
    case False
    then have "r = find_blocking_loop bs a tk rank spec best"
      using Cons.prems by (auto simp: Let_def scope_rank_def split: if_splits)
    moreover have "scopeBlocksTrackedAction ?k a tk \<longrightarrow> \<not> better_scope ?k j" if "?beats j rank spec" for j
      using False that by (auto simp: better_scope_def)
    ultimately show ?thesis using Cons.IH [of rank spec best] False by auto
  qed
qed simp

lemma FindBlockingScope_spec:
  "let tk = action_ThrottleTargetKey (Some a); r = FindBlockingScope blocks a
   in (sk_IsZero r \<longleftrightarrow> (\<forall>b \<in> set blocks. \<not> scopeBlocksTrackedAction (as_Key b) a tk)) \<and>
      (\<not> sk_IsZero r \<longrightarrow> r \<in> as_Key ` set blocks \<and> scopeBlocksTrackedAction r a tk \<and>
         (\<forall>b \<in> set blocks. scopeBlocksTrackedAction (as_Key b) a tk \<longrightarrow> \<not> better_scope (as_Key b) r))"
proof (cases "blocks = []")
  case True
  then show ?thesis by (simp add: FindBlockingScope_def sk_IsZero_def zero_scope_key_def)
next
  case False
  let ?tk = "action_ThrottleTargetKey (Some a)"
  have r: "FindBlockingScope blocks a = find_blocking_loop blocks a ?tk scopePriorityMax (- 1) zero_scope_key"
    using False by (simp add: FindBlockingScope_def)
  have z: "sk_IsZero zero_scope_key" by (simp add: sk_IsZero_def zero_scope_key_def)
  let ?r = "FindBlockingScope blocks a"
  from find_blocking_loop_spec [OF r] consider
      (none) "?r = zero_scope_key" "\<forall>b \<in> set blocks. \<not> scopeBlocksTrackedAction (as_Key b) a ?tk"
    | (some) "?r \<in> as_Key ` set blocks" "scopeBlocksTrackedAction ?r a ?tk"
        "\<forall>b \<in> set blocks. scopeBlocksTrackedAction (as_Key b) a ?tk \<longrightarrow> \<not> better_scope (as_Key b) ?r"
    using blocks_tracked_rank [of _ a ?tk] by blast
  then show ?thesis
  proof cases
    case none
    then show ?thesis using z by simp
  next
    case some
    then obtain b where "b \<in> set blocks" "?r = as_Key b" by blast
    with some show ?thesis using blocks_tracked_rank [OF some(2)] unfolding Let_def by auto
  qed
qed

text \<open>
  The scope reported for an action is the most important one: the engine reports a scope
  exactly when some active scope blocks the action on its path or its old path, the reported
  scope is active and blocks it, and no other blocking scope has a higher priority or the same
  priority and a longer boundary.
\<close>

theorem FindBlockingScope_best:
  "let tk = action_ThrottleTargetKey (Some a); r = FindBlockingScope blocks a
   in (sk_IsZero r \<longleftrightarrow> (\<forall>b \<in> set blocks. \<not> scopeBlocksTrackedAction (as_Key b) a tk)) \<and>
      (\<not> sk_IsZero r \<longrightarrow> r \<in> as_Key ` set blocks \<and> scopeBlocksTrackedAction r a tk \<and>
         (\<forall>b \<in> set blocks. scopeBlocksTrackedAction (as_Key b) a tk \<longrightarrow> \<not> better_scope (as_Key b) r))"
  by (rule FindBlockingScope_spec)

section \<open>When a window triggers\<close>

text \<open>The failures recorded since the last reset, each with its time, newest last.\<close>

fun window_run :: "(string \<times> int) list \<Rightarrow> sliding_window \<Rightarrow> sliding_window" where
  "window_run [] w = w"
| "window_run ((p, t) # es) w = window_run es (fst (sw_add p t w))"

definition recent_paths :: "(string \<times> int) list \<Rightarrow> int \<Rightarrow> int \<Rightarrow> string set" where
  "recent_paths hist window now = {p. \<exists>t. (p, t) \<in> set hist \<and> t > now - window}"

lemma sw_add_sel [simp]:
  "sw_window (fst (sw_add p t w)) = sw_window w" "sw_threshold (fst (sw_add p t w)) = sw_threshold w"
  by (simp_all add: sw_add_def Let_def)

lemma window_run_sel [simp]: "sw_window (window_run es w) = sw_window w" "sw_threshold (window_run es w) = sw_threshold w"
  by (induction es w rule: window_run.induct) auto

lemma window_run_snoc: "window_run (es @ [(p, t)]) w = fst (sw_add p t (window_run es w))"
  by (induction es w rule: window_run.induct) auto

definition sw_pairs :: "sliding_window \<Rightarrow> (string \<times> int) list" where
  "sw_pairs w = map (\<lambda>e. (we_path e, we_at e)) (sw_entries w)"

lemma sw_pairs_add: "sw_pairs (fst (sw_add p t w)) = filter (\<lambda>(q, u). u > t - sw_window w) (sw_pairs w) @ [(p, t)]"
  by (simp add: sw_pairs_def sw_add_def Let_def filter_map comp_def)

text \<open>Expired entries are dropped, but an entry young enough for a later check is never lost.\<close>

lemma window_run_pairs:
  assumes "sorted (map snd (es @ [(p, t)]))" "sw_entries w = []"
  shows "sw_pairs (window_run (es @ [(p, t)]) w) = filter (\<lambda>(q, u). u > t - sw_window w) es @ [(p, t)]"
  using assms
proof (induction es arbitrary: p t rule: rev_induct)
  case Nil
  then show ?case by (simp add: sw_pairs_add) (simp add: sw_pairs_def)
next
  case (snoc x es)
  obtain q u where x: "x = (q, u)" by force
  have le: "u \<le> t" and s: "sorted (map snd (es @ [(q, u)]))"
    using snoc.prems(1) by (auto simp: x sorted_append)
  have "filter (\<lambda>(q, v). v > t - sw_window w) (filter (\<lambda>(q, v). v > u - sw_window w) es) =
      filter (\<lambda>(q, v). v > t - sw_window w) es"
    unfolding filter_filter by (rule filter_cong) (use le in auto)
  then show ?case
    using snoc.IH [OF s snoc.prems(2)] by (simp add: x window_run_snoc [of "es @ [(q, u)]", simplified] sw_pairs_add)
qed

lemma sw_uniqueCount_card:
  "sw_uniqueCount w now = int (card (recent_paths (sw_pairs w) (sw_window w) now))"
proof -
  have "set (map we_path (filter (\<lambda>e. we_at e > now - sw_window w) (sw_entries w))) =
      recent_paths (sw_pairs w) (sw_window w) now" by (auto simp: recent_paths_def sw_pairs_def)
  then show ?thesis by (metis sw_uniqueCount_def length_remdups_card_conv)
qed

text \<open>
  C30: The sliding window forgets nothing that matters: although it drops expired entries at every
  failure, a failure triggers the window exactly when the number of distinct paths that failed
  within the window up to now, over the whole history since the last reset, reaches the
  threshold.
\<close>

theorem sliding_window_exact:
  assumes "sorted (map snd (hist @ [(p, now)]))" "sw_entries w = []" "sw_window w > 0"
  shows "snd (sw_add p now (window_run hist w)) \<longleftrightarrow>
    int (card (recent_paths (hist @ [(p, now)]) (sw_window w) now)) \<ge> sw_threshold w"
proof -
  let ?w = "window_run (hist @ [(p, now)]) w"
  have "recent_paths (sw_pairs ?w) (sw_window w) now = recent_paths (hist @ [(p, now)]) (sw_window w) now"
    using assms(3) unfolding window_run_pairs [OF assms(1,2)] by (auto simp: recent_paths_def)
  then have "sw_uniqueCount ?w now = int (card (recent_paths (hist @ [(p, now)]) (sw_window w) now))"
    by (simp add: sw_uniqueCount_card)
  moreover have "snd (sw_add p now (window_run hist w)) \<longleftrightarrow> sw_uniqueCount ?w now \<ge> sw_threshold w"
    by (simp add: window_run_snoc sw_add_def Let_def)
  ultimately show ?thesis by simp
qed

theorem sliding_window_exact_witness:
  "snd (sw_add ''c'' 30 (window_run [(''a'', 1), (''b'', 25), (''a'', 26)]
     \<lparr>sw_entries = [], sw_window = 10, sw_threshold = 3\<rparr>))"
proof -
  have "recent_paths ([(''a'', 1), (''b'', 25), (''a'', 26)] @ [(''c'', 30)]) 10 30 = {''a'', ''b'', ''c''}"
    by (auto simp: recent_paths_def)
  then show ?thesis
    using sliding_window_exact [of "[(''a'', 1), (''b'', 25), (''a'', 26)]" "''c''" 30
        "\<lparr>sw_entries = [], sw_window = 10, sw_threshold = 3\<rparr>"] by simp
qed

theorem FindBlockingScope_best_witness:
  "FindBlockingScope [\<lparr>as_Key = SKQuotaOwn, as_TrialInterval = 1, as_NextTrialAt = None\<rparr>,
      \<lparr>as_Key = SKService, as_TrialInterval = 1, as_NextTrialAt = None\<rparr>]
     ((demo_action ''a'')\<lparr>a_Type := ActionUpload\<rparr>) = SKService"
proof -
  let ?bs = "[\<lparr>as_Key = SKQuotaOwn, as_TrialInterval = 1, as_NextTrialAt = None\<rparr>,
      \<lparr>as_Key = SKService, as_TrialInterval = 1, as_NextTrialAt = None\<rparr>]"
  let ?a = "(demo_action ''a'')\<lparr>a_Type := ActionUpload\<rparr>"
  let ?tk = "action_ThrottleTargetKey (Some ?a)"
  have "scopeBlocksTrackedAction SKService ?a ?tk" "better_scope SKService SKQuotaOwn" by code_simp+
  then show ?thesis using FindBlockingScope_best [of ?a ?bs] unfolding Let_def by auto
qed

end
