(* ===== verification/RetryStore.thy ===== *)
theory RetryStore
  imports ScopeBlocks
begin

text \<open>
  The durable control state of the engine: retry work (\<^verbatim>\<open>store_retry_work.go\<close>) and the
  operations that release or discard a block scope together with the work under it
  (\<^verbatim>\<open>store_scope_admin.go\<close>). Each operation is one transaction on the two tables; a scan of a
  row whose action type is not known fails it. Attempt counts are unbounded integers.
\<close>

section \<open>Rows\<close>

record sql_retry =
  qr_path :: string
  qr_old_path :: string
  qr_action_type :: string
  qr_scope_key :: string
  qr_blocked :: bool
  qr_attempt_count :: int
  qr_next_retry_at :: int

record control_db =
  cd_retry :: "sql_retry list"
  cd_blocks :: "sql_block_scope list"

definition bind_retry_row :: "retry_work_row \<Rightarrow> sql_retry" where
  "bind_retry_row r =
     \<lparr>qr_path = rw_Path r, qr_old_path = rw_OldPath r, qr_action_type = action_type_String (rw_ActionType r),
      qr_scope_key = sk_String (rw_ScopeKey r), qr_blocked = rw_Blocked r, qr_attempt_count = rw_AttemptCount r,
      qr_next_retry_at = rw_NextRetryAt r\<rparr>"

definition scanRetryWorkRow :: "sql_retry \<Rightarrow> scope_error + retry_work_row" where
  "scanRetryWorkRow r =
     (case ParseActionType (qr_action_type r) of
        None \<Rightarrow> Inl (ErrRetryScan (qr_action_type r))
      | Some t \<Rightarrow>
          Inr \<lparr>rw_Path = qr_path r, rw_OldPath = qr_old_path r, rw_ActionType = t,
               rw_ScopeKey = ParseScopeKey (qr_scope_key r), rw_Blocked = qr_blocked r,
               rw_AttemptCount = qr_attempt_count r, rw_NextRetryAt = qr_next_retry_at r\<rparr>)"

fun scanRetryWorkRows :: "sql_retry list \<Rightarrow> scope_error + retry_work_row list" where
  "scanRetryWorkRows [] = Inr []"
| "scanRetryWorkRows (r # rs) =
     (case scanRetryWorkRow r of
        Inl e \<Rightarrow> Inl e
      | Inr row \<Rightarrow> (case scanRetryWorkRows rs of Inl e \<Rightarrow> Inl e | Inr rows \<Rightarrow> Inr (row # rows)))"

section \<open>Statements\<close>

definition row_has_key :: "retry_work_key \<Rightarrow> sql_retry \<Rightarrow> bool" where
  "row_has_key k r \<longleftrightarrow>
     qr_path r = rk_Path k \<and> qr_old_path r = rk_OldPath k \<and> qr_action_type r = action_type_String (rk_ActionType k)"

text \<open>\<^verbatim>\<open>INSERT ... ON CONFLICT(path, old_path, action_type) DO UPDATE\<close>.\<close>

definition upsertRetryWorkTx :: "retry_work_row \<Rightarrow> sql_retry list \<Rightarrow> sql_retry list" where
  "upsertRetryWorkTx row rows =
     (if list_ex (row_has_key (row_WorkKey row)) rows
      then map (\<lambda>r. if row_has_key (row_WorkKey row) r then bind_retry_row row else r) rows
      else rows @ [bind_retry_row row])"

definition deleteRetryWorkByWorkTx :: "retry_work_key \<Rightarrow> sql_retry list \<Rightarrow> sql_retry list" where
  "deleteRetryWorkByWorkTx work rows = filter (\<lambda>r. \<not> row_has_key work r) rows"

definition deleteRetryWorkByScopeTx :: "string \<Rightarrow> sql_retry list \<Rightarrow> sql_retry list" where
  "deleteRetryWorkByScopeTx wire rows = filter (\<lambda>r. qr_scope_key r \<noteq> wire) rows"

definition markRetryWorkScopeReadyTx :: "string \<Rightarrow> int \<Rightarrow> sql_retry list \<Rightarrow> sql_retry list" where
  "markRetryWorkScopeReadyTx wire now rows =
     map (\<lambda>r. if qr_scope_key r = wire \<and> qr_blocked r then r\<lparr>qr_blocked := False, qr_next_retry_at := now\<rparr> else r) rows"

definition loadRetryWorkByWorkTx :: "retry_work_key \<Rightarrow> sql_retry list \<Rightarrow> scope_error + retry_work_row option" where
  "loadRetryWorkByWorkTx work rows =
     (case find (row_has_key work) rows of
        None \<Rightarrow> Inr None
      | Some r \<Rightarrow> (case scanRetryWorkRow r of Inl e \<Rightarrow> Inl e | Inr row \<Rightarrow> Inr (Some row)))"

section \<open>Operations\<close>

definition UpsertRetryWork :: "retry_work_row \<Rightarrow> control_db \<Rightarrow> control_db" where
  "UpsertRetryWork row db = db\<lparr>cd_retry := upsertRetryWorkTx row (cd_retry db)\<rparr>"

definition DeleteRetryWorkByWork :: "retry_work_key \<Rightarrow> control_db \<Rightarrow> control_db" where
  "DeleteRetryWorkByWork work db = db\<lparr>cd_retry := deleteRetryWorkByWorkTx work (cd_retry db)\<rparr>"

definition next_attempt :: "retry_work_row option \<Rightarrow> int" where
  "next_attempt existing = (case existing of None \<Rightarrow> 1 | Some r \<Rightarrow> rw_AttemptCount r + 1)"

definition RecordRetryWorkFailure ::
  "retry_work_failure \<Rightarrow> (int \<Rightarrow> int) \<Rightarrow> int \<Rightarrow> control_db \<Rightarrow> (scope_error + retry_work_row) \<times> control_db" where
  "RecordRetryWorkFailure failure delayFn now db =
     (let work = rf_Work failure in
      if rk_Path work = '''' then (Inl ErrRetryMissingPath, db)
      else case loadRetryWorkByWorkTx work (cd_retry db) of
             Inl e \<Rightarrow> (Inl e, db)
           | Inr existing \<Rightarrow>
               (let attempts = next_attempt existing;
                    row = \<lparr>rw_Path = rk_Path work, rw_OldPath = rk_OldPath work, rw_ActionType = rk_ActionType work,
                           rw_ScopeKey = rf_ScopeKey failure, rw_Blocked = False, rw_AttemptCount = attempts,
                           rw_NextRetryAt = now + delayFn (attempts - 1)\<rparr>
                in (Inr row, UpsertRetryWork row db)))"

definition RecordBlockedRetryWork ::
  "retry_work_key \<Rightarrow> scope_key \<Rightarrow> control_db \<Rightarrow> (scope_error + retry_work_row) \<times> control_db" where
  "RecordBlockedRetryWork work scopeKey db =
     (if rk_Path work = '''' then (Inl ErrRetryMissingPath, db)
      else if sk_IsZero scopeKey then (Inl (ErrRetryMissingScope (rk_Path work)), db)
      else case loadRetryWorkByWorkTx work (cd_retry db) of
             Inl e \<Rightarrow> (Inl e, db)
           | Inr existing \<Rightarrow>
               (let row = \<lparr>rw_Path = rk_Path work, rw_OldPath = rk_OldPath work, rw_ActionType = rk_ActionType work,
                           rw_ScopeKey = scopeKey, rw_Blocked = True, rw_AttemptCount = next_attempt existing,
                           rw_NextRetryAt = 0\<rparr>
                in (Inr row, UpsertRetryWork row db)))"

definition ResolveRetryWork ::
  "retry_work_key \<Rightarrow> control_db \<Rightarrow> (scope_error + retry_work_row option) \<times> control_db" where
  "ResolveRetryWork work db =
     (case loadRetryWorkByWorkTx work (cd_retry db) of
        Inl e \<Rightarrow> (Inl e, db)
      | Inr row \<Rightarrow> (Inr row, DeleteRetryWorkByWork work db))"

definition ClearBlockedRetryWork :: "retry_work_key \<Rightarrow> scope_key \<Rightarrow> control_db \<Rightarrow> control_db" where
  "ClearBlockedRetryWork work scopeKey db =
     db\<lparr>cd_retry := filter (\<lambda>r. \<not> (row_has_key work r \<and> qr_scope_key r = sk_String scopeKey \<and> qr_blocked r)) (cd_retry db)\<rparr>"

text \<open>\<^verbatim>\<open>ORDER BY path, old_path, action_type\<close> as stable sorts, the least significant key first.\<close>

definition order_retry_rows :: "sql_retry list \<Rightarrow> sql_retry list" where
  "order_retry_rows rows = sort_key qr_path (sort_key qr_old_path (sort_key qr_action_type rows))"

definition ListRetryWork :: "control_db \<Rightarrow> scope_error + retry_work_row list" where
  "ListRetryWork db = scanRetryWorkRows (order_retry_rows (cd_retry db))"

definition ListBlockedRetryWork :: "control_db \<Rightarrow> scope_error + retry_work_row list" where
  "ListBlockedRetryWork db =
     scanRetryWorkRows (sort_key qr_scope_key (order_retry_rows (filter qr_blocked (cd_retry db))))"

definition CountRetryingWork :: "control_db \<Rightarrow> nat" where
  "CountRetryingWork db = length (filter (\<lambda>r. \<not> qr_blocked r \<and> qr_attempt_count r \<ge> 3) (cd_retry db))"

definition PruneRetryWorkToCurrentActions :: "retry_work_key list \<Rightarrow> control_db \<Rightarrow> scope_error option \<times> control_db" where
  "PruneRetryWorkToCurrentActions work db =
     (case ListRetryWork db of
        Inl e \<Rightarrow> (Some e, db)
      | Inr rows \<Rightarrow>
          (None, fold (\<lambda>row d. if row_WorkKey row \<in> set work then d else DeleteRetryWorkByWork (row_WorkKey row) d) rows db))"

definition retryConditionTypeForRow :: "retry_work_row \<Rightarrow> string" where
  "retryConditionTypeForRow row = (if sk_IsZero (rw_ScopeKey row) then '''' else sk_ConditionType (rw_ScopeKey row))"

definition UpsertBlockScope :: "block_scope \<Rightarrow> control_db \<Rightarrow> scope_error option \<times> control_db" where
  "UpsertBlockScope b db =
     (case upsertBlockScopeWithRunner b (cd_blocks db) of
        Inl e \<Rightarrow> (Some e, db)
      | Inr rows \<Rightarrow> (None, db\<lparr>cd_blocks := rows\<rparr>))"

definition DeleteBlockScope :: "scope_key \<Rightarrow> control_db \<Rightarrow> control_db" where
  "DeleteBlockScope key db = db\<lparr>cd_blocks := deleteBlockScopeWithRunner key (cd_blocks db)\<rparr>"

definition ListBlockScopes :: "control_db \<Rightarrow> scope_error + block_scope list" where
  "ListBlockScopes db = queryBlockScopeRowsWithRunner (cd_blocks db)"

definition ReleaseScope :: "scope_key \<Rightarrow> int \<Rightarrow> control_db \<Rightarrow> control_db" where
  "ReleaseScope scopeKey now db =
     (DeleteBlockScope scopeKey db)\<lparr>cd_retry := markRetryWorkScopeReadyTx (sk_String scopeKey) now (cd_retry db)\<rparr>"

definition DiscardScope :: "scope_key \<Rightarrow> control_db \<Rightarrow> scope_error option \<times> control_db" where
  "DiscardScope scopeKey db =
     (if sk_IsZero scopeKey then (Some ErrScopeMissingKey, db)
      else (None, (DeleteBlockScope scopeKey db)\<lparr>cd_retry := deleteRetryWorkByScopeTx (sk_String scopeKey) (cd_retry db)\<rparr>))"

definition scopeHasBlockedRetryWork :: "scope_key \<Rightarrow> control_db \<Rightarrow> scope_error + bool" where
  "scopeHasBlockedRetryWork scopeKey db =
     (case ListBlockedRetryWork db of
        Inl e \<Rightarrow> Inl e
      | Inr rows \<Rightarrow> Inr (list_ex (\<lambda>r. rw_ScopeKey r = scopeKey) rows))"

definition deleteBlockScopeOnly :: "scope_key \<Rightarrow> control_db \<Rightarrow> control_db" where
  "deleteBlockScopeOnly scopeKey db = DeleteBlockScope scopeKey db"

section \<open>Lifecycle policy\<close>

datatype timed_block_scope_action = timedBlockScopeKeep | timedBlockScopeDiscard

definition decideTimedBlockScopeAction :: "bool \<Rightarrow> timed_block_scope_action" where
  "decideTimedBlockScopeAction hasBlockedRetryWork =
     (if hasBlockedRetryWork then timedBlockScopeKeep else timedBlockScopeDiscard)"

definition shouldKeepTimedBlockScope :: "bool \<Rightarrow> bool" where
  "shouldKeepTimedBlockScope h \<longleftrightarrow> decideTimedBlockScopeAction h = timedBlockScopeKeep"

definition localScopeTrialInterval :: int where
  "localScopeTrialInterval = 60 * second_ns"

definition computeTrialInterval :: "int \<Rightarrow> int" where
  "computeTrialInterval retryAfter = (if retryAfter > 0 then retryAfter else localScopeTrialInterval)"

definition summarizePersistedBlockedRetries :: "retry_work_row list \<Rightarrow> scope_key \<Rightarrow> nat" where
  "summarizePersistedBlockedRetries rows k =
     length (filter (\<lambda>r. \<not> sk_IsZero (rw_ScopeKey r) \<and> rw_Blocked r \<and> rw_ScopeKey r = k) rows)"

definition planPersistedScopeNormalization :: "block_scope list \<Rightarrow> retry_work_row list \<Rightarrow> scope_key list" where
  "planPersistedScopeNormalization blocks blockedRetries =
     map bs_Key (filter (\<lambda>b. decideTimedBlockScopeAction (summarizePersistedBlockedRetries blockedRetries (bs_Key b) > 0)
                             \<noteq> timedBlockScopeKeep) blocks)"

fun prune_blocks_loop :: "block_scope list \<Rightarrow> control_db \<Rightarrow> scope_error option \<times> control_db" where
  "prune_blocks_loop [] db = (None, db)"
| "prune_blocks_loop (b # bs) db =
     (case scopeHasBlockedRetryWork (bs_Key b) db of
        Inl e \<Rightarrow> (Some e, db)
      | Inr h \<Rightarrow>
          if shouldKeepTimedBlockScope h then prune_blocks_loop bs db
          else prune_blocks_loop bs (deleteBlockScopeOnly (bs_Key b) db))"

definition PruneBlockScopesWithoutBlockedWork :: "control_db \<Rightarrow> scope_error option \<times> control_db" where
  "PruneBlockScopesWithoutBlockedWork db =
     (case ListBlockScopes db of
        Inl e \<Rightarrow> (Some e, db)
      | Inr blocks \<Rightarrow> prune_blocks_loop blocks db)"

section \<open>Retry work is a keyed table\<close>

definition retry_get :: "sql_retry list \<Rightarrow> retry_work_key \<Rightarrow> retry_work_row option" where
  "retry_get rows k =
     (case find (row_has_key k) rows of
        None \<Rightarrow> None
      | Some r \<Rightarrow> (case scanRetryWorkRow r of Inl _ \<Rightarrow> None | Inr row \<Rightarrow> Some row))"

definition sql_key :: "sql_retry \<Rightarrow> string \<times> string \<times> string" where
  "sql_key r = (qr_path r, qr_old_path r, qr_action_type r)"

text \<open>
  The invariant of the table, which the engine also asserts at run time: the key is unique and
  every row names a known action, a path and at least one attempt; a blocked row has a scope and
  no retry time, an unblocked one has a retry time.
\<close>

definition retry_row_ok :: "sql_retry \<Rightarrow> bool" where
  "retry_row_ok r \<longleftrightarrow>
     ParseActionType (qr_action_type r) \<noteq> None \<and> qr_path r \<noteq> '''' \<and> qr_attempt_count r \<ge> 1 \<and>
     (qr_blocked r \<longrightarrow> \<not> sk_IsZero (ParseScopeKey (qr_scope_key r)) \<and> qr_next_retry_at r = 0) \<and>
     (\<not> qr_blocked r \<longrightarrow> qr_next_retry_at r > 0)"

definition retry_rows_wf :: "sql_retry list \<Rightarrow> bool" where
  "retry_rows_wf rows \<longleftrightarrow> distinct (map sql_key rows) \<and> list_all retry_row_ok rows"

definition work_row_ok :: "retry_work_row \<Rightarrow> bool" where
  "work_row_ok row \<longleftrightarrow>
     sk_wf (rw_ScopeKey row) \<and> rw_Path row \<noteq> '''' \<and> rw_AttemptCount row \<ge> 1 \<and>
     (rw_Blocked row \<longrightarrow> \<not> sk_IsZero (rw_ScopeKey row) \<and> rw_NextRetryAt row = 0) \<and>
     (\<not> rw_Blocked row \<longrightarrow> rw_NextRetryAt row > 0)"

lemma row_has_key_sql: "row_has_key k r \<longleftrightarrow> sql_key r = (rk_Path k, rk_OldPath k, action_type_String (rk_ActionType k))"
  by (auto simp: row_has_key_def sql_key_def)

lemma key_text_inj:
  fixes k j :: retry_work_key
  shows "(rk_Path k, rk_OldPath k, action_type_String (rk_ActionType k)) =
   (rk_Path j, rk_OldPath j, action_type_String (rk_ActionType j)) \<longleftrightarrow> k = j"
  by (cases k; cases j) (auto simp: action_type_String_inj)

lemma scan_bind_retry: "sk_wf (rw_ScopeKey row) \<Longrightarrow> scanRetryWorkRow (bind_retry_row row) = Inr row"
  by (cases row) (simp add: scanRetryWorkRow_def bind_retry_row_def sk_parse_String)

lemma bind_retry_ok: "work_row_ok row \<Longrightarrow> retry_row_ok (bind_retry_row row)"
  by (simp add: work_row_ok_def retry_row_ok_def bind_retry_row_def sk_parse_String)

lemma bind_retry_key: "sql_key (bind_retry_row row) =
    (rk_Path (row_WorkKey row), rk_OldPath (row_WorkKey row), action_type_String (rk_ActionType (row_WorkKey row)))"
  by (simp add: sql_key_def bind_retry_row_def)

lemma has_key_bind: "row_has_key k (bind_retry_row row) \<longleftrightarrow> k = row_WorkKey row"
  unfolding row_has_key_sql bind_retry_key key_text_inj by auto

lemma scan_ok_row:
  assumes "retry_row_ok r"
  obtains row where "scanRetryWorkRow r = Inr row" "row_has_key (row_WorkKey row) r" "work_row_ok row"
    "rw_Blocked row = qr_blocked r" "rw_ScopeKey row = ParseScopeKey (qr_scope_key r)"
proof -
  obtain t where t: "ParseActionType (qr_action_type r) = Some t" using assms by (auto simp: retry_row_ok_def)
  let ?row = "\<lparr>rw_Path = qr_path r, rw_OldPath = qr_old_path r, rw_ActionType = t,
               rw_ScopeKey = ParseScopeKey (qr_scope_key r), rw_Blocked = qr_blocked r,
               rw_AttemptCount = qr_attempt_count r, rw_NextRetryAt = qr_next_retry_at r\<rparr>"
  have "scanRetryWorkRow r = Inr ?row" using t by (simp add: scanRetryWorkRow_def)
  moreover have "row_has_key (row_WorkKey ?row) r" using ParseActionType_inverse [OF t] by (simp add: row_has_key_def)
  moreover have "work_row_ok ?row" using assms by (simp add: retry_row_ok_def work_row_ok_def)
  ultimately show ?thesis by (rule that) simp_all
qed

lemma find_has_key:
  assumes "distinct (map sql_key rows)"
  shows "find (row_has_key k) rows = Some r \<longleftrightarrow> r \<in> set rows \<and> row_has_key k r"
  using assms
  by (induction rows) (auto simp: row_has_key_sql image_iff)

lemma retry_get_Some:
  assumes "retry_rows_wf rows"
  shows "retry_get rows k = Some row \<longleftrightarrow> (\<exists>r \<in> set rows. row_has_key k r \<and> scanRetryWorkRow r = Inr row)"
proof -
  have f: "find (row_has_key k) rows = Some r \<longleftrightarrow> r \<in> set rows \<and> row_has_key k r" for r
    using assms by (simp add: retry_rows_wf_def find_has_key)
  have "(\<exists>r. find (row_has_key k) rows = Some r \<and> scanRetryWorkRow r = Inr row) \<longleftrightarrow> retry_get rows k = Some row"
    by (auto simp: retry_get_def split: option.splits sum.splits)
  then show ?thesis unfolding f by blast
qed

lemma retry_get_key:
  assumes "retry_rows_wf rows" "retry_get rows k = Some row"
  shows "row_WorkKey row = k" "work_row_ok row"
proof -
  obtain r where r: "r \<in> set rows" "row_has_key k r" "scanRetryWorkRow r = Inr row"
    using assms retry_get_Some by blast
  have "retry_row_ok r" using assms(1) r(1) by (simp add: retry_rows_wf_def list_all_iff)
  then obtain row' where row': "scanRetryWorkRow r = Inr row'" "row_has_key (row_WorkKey row') r" "work_row_ok row'"
    by (rule scan_ok_row) blast
  then have "row' = row" using r(3) by simp
  then show "row_WorkKey row = k" using row'(2) r(2) by (metis row_has_key_sql key_text_inj)
  show "work_row_ok row" using row'(3) \<open>row' = row\<close> by simp
qed

lemma upsert_retry_keys:
  "map sql_key (upsertRetryWorkTx row rows) =
     (if list_ex (row_has_key (row_WorkKey row)) rows then map sql_key rows else map sql_key rows @ [sql_key (bind_retry_row row)])"
  by (auto simp: upsertRetryWorkTx_def row_has_key_sql bind_retry_key)

lemma upsert_retry_wf:
  assumes "retry_rows_wf rows" "work_row_ok row"
  shows "retry_rows_wf (upsertRetryWorkTx row rows)"
proof -
  have "distinct (map sql_key (upsertRetryWorkTx row rows))"
    using assms(1) unfolding upsert_retry_keys
    by (auto simp: retry_rows_wf_def list_ex_iff row_has_key_sql bind_retry_key)
  moreover have "list_all retry_row_ok (upsertRetryWorkTx row rows)"
    using assms bind_retry_ok [OF assms(2)] by (auto simp: upsertRetryWorkTx_def retry_rows_wf_def list_all_iff)
  ultimately show ?thesis by (simp add: retry_rows_wf_def)
qed

lemma filter_retry_wf: "retry_rows_wf rows \<Longrightarrow> retry_rows_wf (filter P rows)"
  by (simp add: retry_rows_wf_def distinct_map_filter list_all_iff)

lemma set_upsert_retry:
  "set (upsertRetryWorkTx row rows) = insert (bind_retry_row row) {r \<in> set rows. \<not> row_has_key (row_WorkKey row) r}"
  by (auto simp: upsertRetryWorkTx_def list_ex_iff)

lemma option_ext: "(\<And>x. a = Some x \<longleftrightarrow> b = Some x) \<Longrightarrow> a = b"
  by (cases a; cases b) auto

interpretation work: keyed_table retry_rows_wf retry_get row_WorkKey work_row_ok "\<lambda>_. True" upsertRetryWorkTx
    deleteRetryWorkByWorkTx
proof
  fix s b k j
  assume wf: "retry_rows_wf s"
  show "work_row_ok b \<Longrightarrow> retry_rows_wf (upsertRetryWorkTx b s)" using wf by (rule upsert_retry_wf)
  show del: "retry_rows_wf (deleteRetryWorkByWorkTx k s)" using wf by (simp add: deleteRetryWorkByWorkTx_def filter_retry_wf)
  show "retry_get s k = Some b \<Longrightarrow> row_WorkKey b = k" using wf by (rule retry_get_key)
  show "retry_get (upsertRetryWorkTx b s) k = (if k = row_WorkKey b then Some b else retry_get s k)" if "work_row_ok b"
  proof (rule option_ext)
    fix x
    have "scanRetryWorkRow (bind_retry_row b) = Inr b" using that by (simp add: scan_bind_retry work_row_ok_def)
    moreover have "row_has_key k r \<Longrightarrow> row_has_key (row_WorkKey b) r \<Longrightarrow> k = row_WorkKey b" for r
      by (metis row_has_key_sql key_text_inj)
    ultimately show "retry_get (upsertRetryWorkTx b s) k = Some x \<longleftrightarrow>
        (if k = row_WorkKey b then Some b else retry_get s k) = Some x"
      unfolding retry_get_Some [OF upsert_retry_wf [OF wf that]] set_upsert_retry
      by (auto simp: has_key_bind retry_get_Some [OF wf])
  qed
  show "retry_get (deleteRetryWorkByWorkTx k s) j = (if j = k then None else retry_get s j)"
  proof (rule option_ext)
    fix x
    have "row_has_key j r \<Longrightarrow> row_has_key k r \<Longrightarrow> j = k" for r by (metis row_has_key_sql key_text_inj)
    then show "retry_get (deleteRetryWorkByWorkTx k s) j = Some x \<longleftrightarrow> (if j = k then None else retry_get s j) = Some x"
      unfolding retry_get_Some [OF del]
      by (auto simp: deleteRetryWorkByWorkTx_def retry_get_Some [OF wf])
  qed
qed

section \<open>Invariant and effect of the operations\<close>

definition control_ok :: "control_db \<Rightarrow> bool" where
  "control_ok db \<longleftrightarrow> retry_rows_wf (cd_retry db) \<and> block_rows_wf (cd_blocks db)"

abbreviation work_at :: "control_db \<Rightarrow> retry_work_key \<Rightarrow> retry_work_row option" where
  "work_at db \<equiv> retry_get (cd_retry db)"

abbreviation scope_at :: "control_db \<Rightarrow> scope_key \<Rightarrow> active_scope option" where
  "scope_at db \<equiv> rows_lookup (cd_blocks db)"

lemma scan_rows_ok:
  "list_all retry_row_ok rows \<Longrightarrow>
     \<exists>rs. scanRetryWorkRows rows = Inr rs \<and> set rs = {row. \<exists>r \<in> set rows. scanRetryWorkRow r = Inr row}"
proof (induction rows)
  case (Cons r rows)
  then obtain rs where rs: "scanRetryWorkRows rows = Inr rs" "set rs = {row. \<exists>r \<in> set rows. scanRetryWorkRow r = Inr row}"
    by auto
  have "retry_row_ok r" using Cons.prems by simp
  then obtain row where "scanRetryWorkRow r = Inr row" by (rule scan_ok_row) blast
  then show ?case using rs by auto
qed simp

lemma load_is_get:
  assumes "control_ok db"
  shows "loadRetryWorkByWorkTx k (cd_retry db) = Inr (work_at db k)"
proof (cases "find (row_has_key k) (cd_retry db)")
  case None
  then show ?thesis by (simp add: loadRetryWorkByWorkTx_def retry_get_def)
next
  case (Some r)
  then have "retry_row_ok r"
    using assms find_has_key [of "cd_retry db" k r] by (auto simp: control_ok_def retry_rows_wf_def list_all_iff)
  then obtain row where "scanRetryWorkRow r = Inr row" by (rule scan_ok_row) blast
  then show ?thesis using Some by (simp add: loadRetryWorkByWorkTx_def retry_get_def)
qed

lemma list_retry_set:
  assumes "control_ok db"
  obtains rs where "ListRetryWork db = Inr rs" "set rs = {row. \<exists>k. work_at db k = Some row}"
proof -
  have wf: "retry_rows_wf (cd_retry db)" using assms by (simp add: control_ok_def)
  have ok: "list_all retry_row_ok (order_retry_rows (cd_retry db))"
    using wf by (simp add: retry_rows_wf_def order_retry_rows_def list_all_iff)
  obtain rs where rs: "ListRetryWork db = Inr rs" "set rs = {row. \<exists>r \<in> set (cd_retry db). scanRetryWorkRow r = Inr row}"
    using scan_rows_ok [OF ok] by (auto simp: ListRetryWork_def order_retry_rows_def)
  have "(\<exists>r \<in> set (cd_retry db). scanRetryWorkRow r = Inr row) \<longleftrightarrow> (\<exists>k. work_at db k = Some row)" for row
  proof
    assume "\<exists>r \<in> set (cd_retry db). scanRetryWorkRow r = Inr row"
    then obtain r where r: "r \<in> set (cd_retry db)" "scanRetryWorkRow r = Inr row" by blast
    have "retry_row_ok r" using r(1) wf by (simp add: retry_rows_wf_def list_all_iff)
    then obtain row' where "scanRetryWorkRow r = Inr row'" "row_has_key (row_WorkKey row') r" by (rule scan_ok_row) blast
    then show "\<exists>k. work_at db k = Some row" using r retry_get_Some [OF wf] by fastforce
  next
    assume "\<exists>k. work_at db k = Some row"
    then show "\<exists>r \<in> set (cd_retry db). scanRetryWorkRow r = Inr row" using retry_get_Some [OF wf] by blast
  qed
  then show ?thesis using that [OF rs(1)] rs(2) by simp
qed

lemma blocked_work_iff:
  assumes "control_ok db"
  shows "scopeHasBlockedRetryWork k db = Inr (\<exists>w row. work_at db w = Some row \<and> rw_Blocked row \<and> rw_ScopeKey row = k)"
proof -
  have wf: "retry_rows_wf (cd_retry db)" using assms by (simp add: control_ok_def)
  have ok: "list_all retry_row_ok (sort_key qr_scope_key (order_retry_rows (filter qr_blocked (cd_retry db))))"
    using wf by (simp add: retry_rows_wf_def order_retry_rows_def list_all_iff)
  obtain rs where rs: "ListBlockedRetryWork db = Inr rs"
      "set rs = {row. \<exists>r. r \<in> set (cd_retry db) \<and> qr_blocked r \<and> scanRetryWorkRow r = Inr row}"
    using scan_rows_ok [OF ok] by (auto simp: ListBlockedRetryWork_def order_retry_rows_def)
  have "row \<in> set rs \<longleftrightarrow> (\<exists>w. work_at db w = Some row \<and> rw_Blocked row)" for row
  proof
    assume "row \<in> set rs"
    then obtain r where r: "r \<in> set (cd_retry db)" "qr_blocked r" "scanRetryWorkRow r = Inr row" using rs(2) by blast
    have "retry_row_ok r" using r(1) wf by (simp add: retry_rows_wf_def list_all_iff)
    then obtain row' where "scanRetryWorkRow r = Inr row'" "row_has_key (row_WorkKey row') r" "rw_Blocked row' = qr_blocked r"
      by (rule scan_ok_row) blast
    then show "\<exists>w. work_at db w = Some row \<and> rw_Blocked row" using r retry_get_Some [OF wf] by fastforce
  next
    assume "\<exists>w. work_at db w = Some row \<and> rw_Blocked row"
    then obtain w r where r: "r \<in> set (cd_retry db)" "scanRetryWorkRow r = Inr row" "rw_Blocked row"
      using retry_get_Some [OF wf] by blast
    then have "qr_blocked r" by (auto simp: scanRetryWorkRow_def split: option.splits)
    then show "row \<in> set rs" using r rs(2) by blast
  qed
  then have "(\<exists>row \<in> set rs. rw_ScopeKey row = k) \<longleftrightarrow>
      (\<exists>w row. work_at db w = Some row \<and> rw_Blocked row \<and> rw_ScopeKey row = k)" by blast
  then show ?thesis using rs(1) by (simp add: scopeHasBlockedRetryWork_def list_ex_iff)
qed

lemma record_failure_spec:
  assumes "control_ok db" "rk_Path (rf_Work f) \<noteq> ''''" "sk_wf (rf_ScopeKey f)" "now > 0" "\<And>n. delayFn n \<ge> 0"
  shows "\<exists>row. RecordRetryWorkFailure f delayFn now db = (Inr row, UpsertRetryWork row db) \<and> work_row_ok row \<and>
    row_WorkKey row = rf_Work f \<and> \<not> rw_Blocked row \<and> rw_ScopeKey row = rf_ScopeKey f \<and>
    rw_AttemptCount row = next_attempt (work_at db (rf_Work f)) \<and>
    rw_NextRetryAt row = now + delayFn (rw_AttemptCount row - 1)"
proof -
  have a: "next_attempt (work_at db (rf_Work f)) \<ge> 1"
    using retry_get_key(2) assms(1) by (auto simp: next_attempt_def control_ok_def work_row_ok_def split: option.splits) force
  show ?thesis
    using assms a add_pos_nonneg [OF assms(4,5)]
    by (simp add: RecordRetryWorkFailure_def load_is_get Let_def work_row_ok_def row_WorkKey_def retryWorkKey_def)
qed

lemma record_blocked_spec:
  assumes "control_ok db" "rk_Path w \<noteq> ''''" "sk_wf k" "\<not> sk_IsZero k"
  shows "\<exists>row. RecordBlockedRetryWork w k db = (Inr row, UpsertRetryWork row db) \<and> work_row_ok row \<and>
    row_WorkKey row = w \<and> rw_Blocked row \<and> rw_ScopeKey row = k \<and>
    rw_AttemptCount row = next_attempt (work_at db w) \<and> rw_NextRetryAt row = 0"
proof -
  have a: "next_attempt (work_at db w) \<ge> 1"
    using retry_get_key(2) assms(1) by (auto simp: next_attempt_def control_ok_def work_row_ok_def split: option.splits) force
  show ?thesis
    using assms a
    by (simp add: RecordBlockedRetryWork_def load_is_get Let_def work_row_ok_def row_WorkKey_def retryWorkKey_def)
qed

lemma UpsertRetryWork_ok:
  assumes "control_ok db" "work_row_ok row"
  shows "control_ok (UpsertRetryWork row db)"
    and "work_at (UpsertRetryWork row db) k = (if k = row_WorkKey row then Some row else work_at db k)"
    and "cd_blocks (UpsertRetryWork row db) = cd_blocks db"
  using assms work.inv_ups work.look_ups by (simp_all add: control_ok_def UpsertRetryWork_def)

lemma DeleteRetryWork_ok:
  assumes "control_ok db"
  shows "control_ok (DeleteRetryWorkByWork w db)"
    and "work_at (DeleteRetryWorkByWork w db) k = (if k = w then None else work_at db k)"
    and "cd_blocks (DeleteRetryWorkByWork w db) = cd_blocks db"
  using assms work.inv_del work.look_del by (simp_all add: control_ok_def DeleteRetryWorkByWork_def)

lemma DeleteBlockScope_ok:
  assumes "control_ok db" "sk_wf k"
  shows "control_ok (DeleteBlockScope k db)"
    and "scope_at (DeleteBlockScope k db) j = (if j = k then None else scope_at db j)"
    and "cd_retry (DeleteBlockScope k db) = cd_retry db"
  using assms kept.inv_del kept.look_del by (simp_all add: control_ok_def DeleteBlockScope_def)

text \<open>Writing an open scope through the row conversion, as the engine does.\<close>

definition store_scope :: "active_scope \<Rightarrow> control_db \<Rightarrow> scope_error option \<times> control_db" where
  "store_scope b db =
     (case blockScopeRowFromActiveScope b of Inl e \<Rightarrow> (Some e, db) | Inr r \<Rightarrow> UpsertBlockScope r db)"

lemma store_scope_ok:
  assumes "control_ok db" "scope_timed b"
  shows "fst (store_scope b db) = None" "control_ok (snd (store_scope b db))"
    "scope_at (snd (store_scope b db)) k = (if k = as_Key b then Some b else scope_at db k)"
    "cd_retry (snd (store_scope b db)) = cd_retry db"
proof -
  have e: "store_scope b db = (None, db\<lparr>cd_blocks := upsert_rows b (cd_blocks db)\<rparr>)"
    using timed_row(1) [OF assms(2), of "cd_blocks db"] assms(2) persists_not_zero [of "as_Key b"]
    by (auto simp: store_scope_def UpsertBlockScope_def upsert_rows_def blockScopeRowFromActiveScope_def
        upsertBlockScopeWithRunner_def validateBlockScope_def scope_timed_def)
  show "fst (store_scope b db) = None" "control_ok (snd (store_scope b db))"
    "scope_at (snd (store_scope b db)) k = (if k = as_Key b then Some b else scope_at db k)"
    "cd_retry (snd (store_scope b db)) = cd_retry db"
    using assms kept.inv_ups kept.look_ups by (simp_all add: e control_ok_def)
qed

text \<open>Updates of single rows that keep their keys.\<close>

lemma map_rows_get:
  assumes wf: "retry_rows_wf rows" and ok: "\<And>r. r \<in> set rows \<Longrightarrow> retry_row_ok (f r)"
    and key: "\<And>r. sql_key (f r) = sql_key r"
    and scan: "\<And>r row. r \<in> set rows \<Longrightarrow> scanRetryWorkRow r = Inr row \<Longrightarrow> scanRetryWorkRow (f r) = Inr (g row)"
  shows "retry_rows_wf (map f rows)" "retry_get (map f rows) k = map_option g (retry_get rows k)"
proof -
  have eq: "map sql_key (map f rows) = map sql_key rows" using key by simp
  then show wf': "retry_rows_wf (map f rows)"
    using wf ok unfolding retry_rows_wf_def eq by (simp add: list_all_iff)
  have has: "row_has_key k (f r) \<longleftrightarrow> row_has_key k r" for r by (simp add: row_has_key_sql key)
  show "retry_get (map f rows) k = map_option g (retry_get rows k)"
  proof (rule option_ext)
    fix x
    have "(\<exists>r \<in> set rows. row_has_key k r \<and> scanRetryWorkRow (f r) = Inr x) \<longleftrightarrow>
        (\<exists>r \<in> set rows. row_has_key k r \<and> (\<exists>row. scanRetryWorkRow r = Inr row \<and> x = g row))"
    proof -
      have "scanRetryWorkRow (f r) = Inr x \<longleftrightarrow> (\<exists>row. scanRetryWorkRow r = Inr row \<and> x = g row)" if "r \<in> set rows" for r
      proof -
        have "retry_row_ok r" using that wf by (simp add: retry_rows_wf_def list_all_iff)
        then obtain row where "scanRetryWorkRow r = Inr row" by (rule scan_ok_row) blast
        then show ?thesis using scan [OF that] by auto
      qed
      then show ?thesis by blast
    qed
    moreover have "retry_get (map f rows) k = Some x \<longleftrightarrow> (\<exists>r \<in> set rows. row_has_key k r \<and> scanRetryWorkRow (f r) = Inr x)"
      unfolding retry_get_Some [OF wf'] using has by auto
    moreover have "map_option g (retry_get rows k) = Some x \<longleftrightarrow>
        (\<exists>r \<in> set rows. row_has_key k r \<and> (\<exists>row. scanRetryWorkRow r = Inr row \<and> x = g row))"
    proof -
      have "map_option g (retry_get rows k) = Some x \<longleftrightarrow> (\<exists>row. retry_get rows k = Some row \<and> x = g row)" by auto
      then show ?thesis unfolding retry_get_Some [OF wf] by blast
    qed
    ultimately show "retry_get (map f rows) k = Some x \<longleftrightarrow> map_option g (retry_get rows k) = Some x" by blast
  qed
qed

lemma filter_rows_get:
  assumes wf: "retry_rows_wf rows"
    and P: "\<And>r row. r \<in> set rows \<Longrightarrow> scanRetryWorkRow r = Inr row \<Longrightarrow> row_has_key k r \<Longrightarrow> P r \<longleftrightarrow> Q row"
  shows "retry_get (filter P rows) k = (case retry_get rows k of None \<Rightarrow> None | Some row \<Rightarrow> if Q row then Some row else None)"
proof (rule option_ext)
  fix x
  have "(case retry_get rows k of None \<Rightarrow> None | Some row \<Rightarrow> if Q row then Some row else None) = Some x \<longleftrightarrow>
      retry_get rows k = Some x \<and> Q x" by (auto split: option.splits)
  then show "retry_get (filter P rows) k = Some x \<longleftrightarrow>
      (case retry_get rows k of None \<Rightarrow> None | Some row \<Rightarrow> if Q row then Some row else None) = Some x"
    unfolding retry_get_Some [OF wf] retry_get_Some [OF filter_retry_wf [OF wf]] using P by auto
qed

text \<open>A stored scope text names the key exactly when it is the text of the key.\<close>

lemma scope_text:
  assumes "sk_wf k" "\<not> sk_IsZero k"
  shows "ParseScopeKey t = k \<longleftrightarrow> t = sk_String k"
  using assms sk_String_parse [of t] by (auto simp: sk_parse_String)

lemma scan_sel:
  assumes "scanRetryWorkRow r = Inr row"
  shows "rw_Blocked row = qr_blocked r" "rw_ScopeKey row = ParseScopeKey (qr_scope_key r)"
  using assms by (auto simp: scanRetryWorkRow_def split: option.splits)

definition released_row :: "scope_key \<Rightarrow> int \<Rightarrow> retry_work_row \<Rightarrow> retry_work_row" where
  "released_row k now row =
     (if rw_Blocked row \<and> rw_ScopeKey row = k then row\<lparr>rw_Blocked := False, rw_NextRetryAt := now\<rparr> else row)"

lemma ReleaseScope_ok:
  assumes "control_ok db" "sk_wf k" "\<not> sk_IsZero k" "now > 0"
  shows "control_ok (ReleaseScope k now db)"
    and "scope_at (ReleaseScope k now db) j = (if j = k then None else scope_at db j)"
    and "work_at (ReleaseScope k now db) w = map_option (released_row k now) (work_at db w)"
proof -
  let ?f = "\<lambda>r. if qr_scope_key r = sk_String k \<and> qr_blocked r then r\<lparr>qr_blocked := False, qr_next_retry_at := now\<rparr> else r"
  have wf: "retry_rows_wf (cd_retry db)" using assms(1) by (simp add: control_ok_def)
  have ok: "retry_row_ok (?f r)" if "r \<in> set (cd_retry db)" for r
    using that wf assms(4) by (auto simp: retry_rows_wf_def list_all_iff retry_row_ok_def)
  have key: "sql_key (?f r) = sql_key r" for r by (simp add: sql_key_def)
  have scan: "scanRetryWorkRow (?f r) = Inr (released_row k now row)" if "scanRetryWorkRow r = Inr row" for r row
    using that scope_text [OF assms(2,3), of "qr_scope_key r"]
    by (auto simp: scanRetryWorkRow_def released_row_def split: option.splits)
  note M = map_rows_get [of "cd_retry db" ?f "released_row k now", OF wf ok key scan]
  have rel: "cd_retry (ReleaseScope k now db) = map ?f (cd_retry db)" "cd_blocks (ReleaseScope k now db) = cd_blocks (DeleteBlockScope k db)"
    by (simp_all add: ReleaseScope_def markRetryWorkScopeReadyTx_def)
  show "control_ok (ReleaseScope k now db)"
    using M(1) DeleteBlockScope_ok(1) [OF assms(1,2)] unfolding control_ok_def rel by blast
  show "scope_at (ReleaseScope k now db) j = (if j = k then None else scope_at db j)"
    unfolding rel by (rule DeleteBlockScope_ok(2) [OF assms(1,2)])
  show "work_at (ReleaseScope k now db) w = map_option (released_row k now) (work_at db w)"
    unfolding rel by (rule M(2))
qed

lemma DiscardScope_ok:
  assumes "control_ok db" "sk_wf k" "\<not> sk_IsZero k"
  shows "fst (DiscardScope k db) = None" "control_ok (snd (DiscardScope k db))"
    and "scope_at (snd (DiscardScope k db)) j = (if j = k then None else scope_at db j)"
    and "work_at (snd (DiscardScope k db)) w =
      (case work_at db w of None \<Rightarrow> None | Some row \<Rightarrow> if rw_ScopeKey row \<noteq> k then Some row else None)"
proof -
  have wf: "retry_rows_wf (cd_retry db)" using assms(1) by (simp add: control_ok_def)
  have d: "fst (DiscardScope k db) = None"
      "cd_retry (snd (DiscardScope k db)) = filter (\<lambda>r. qr_scope_key r \<noteq> sk_String k) (cd_retry db)"
      "cd_blocks (snd (DiscardScope k db)) = cd_blocks (DeleteBlockScope k db)"
    using assms(3) by (simp_all add: DiscardScope_def deleteRetryWorkByScopeTx_def)
  show "fst (DiscardScope k db) = None" by (rule d)
  show "control_ok (snd (DiscardScope k db))"
    using filter_retry_wf [OF wf] DeleteBlockScope_ok(1) [OF assms(1,2)] unfolding control_ok_def d by blast
  show "scope_at (snd (DiscardScope k db)) j = (if j = k then None else scope_at db j)"
    unfolding d by (rule DeleteBlockScope_ok(2) [OF assms(1,2)])
  show "work_at (snd (DiscardScope k db)) w =
      (case work_at db w of None \<Rightarrow> None | Some row \<Rightarrow> if rw_ScopeKey row \<noteq> k then Some row else None)"
    unfolding d
    by (rule filter_rows_get [OF wf]) (simp add: scan_sel(2) scope_text [OF assms(2,3)])
qed

lemma record_failure_ok:
  assumes "control_ok db" "sk_wf (rf_ScopeKey f)" "now > 0" "\<forall>n. delayFn n \<ge> 0"
  shows "control_ok (snd (RecordRetryWorkFailure f delayFn now db))"
proof (cases "rk_Path (rf_Work f) = ''''")
  case True
  then show ?thesis using assms(1) by (simp add: RecordRetryWorkFailure_def)
next
  case False
  obtain row where "RecordRetryWorkFailure f delayFn now db = (Inr row, UpsertRetryWork row db)" "work_row_ok row"
    using record_failure_spec [OF assms(1) False assms(2,3), of delayFn] assms(4) by blast
  then show ?thesis using UpsertRetryWork_ok(1) [OF assms(1)] by simp
qed

lemma record_blocked_ok:
  assumes "control_ok db" "sk_wf k"
  shows "control_ok (snd (RecordBlockedRetryWork w k db))"
proof (cases "rk_Path w = '''' \<or> sk_IsZero k")
  case True
  then show ?thesis using assms(1) by (auto simp: RecordBlockedRetryWork_def)
next
  case False
  then obtain row where "RecordBlockedRetryWork w k db = (Inr row, UpsertRetryWork row db)" "work_row_ok row"
    using record_blocked_spec [OF assms(1) _ assms(2)] by blast
  then show ?thesis using UpsertRetryWork_ok(1) [OF assms(1)] by simp
qed

text \<open>Pruning keeps the scopes that still block something.\<close>

lemma prune_blocks_loop_spec:
  assumes "control_ok db" "\<And>b. b \<in> set bs \<Longrightarrow> sk_wf (bs_Key b)"
  shows "\<exists>db'. prune_blocks_loop bs db = (None, db') \<and> control_ok db' \<and> cd_retry db' = cd_retry db \<and>
    (\<forall>k. scope_at db' k =
       (if k \<in> bs_Key ` set bs \<and> scopeHasBlockedRetryWork k db = Inr False then None else scope_at db k))"
  using assms
proof (induction bs arbitrary: db)
  case (Cons b bs)
  obtain h where h: "scopeHasBlockedRetryWork (bs_Key b) db = Inr h" using blocked_work_iff [OF Cons.prems(1)] by blast
  let ?db = "if h then db else DeleteBlockScope (bs_Key b) db"
  have ok: "control_ok ?db" "cd_retry ?db = cd_retry db" and wf: "sk_wf (bs_Key b)"
    using Cons.prems DeleteBlockScope_ok(1,3) by auto
  have same: "scopeHasBlockedRetryWork k ?db = scopeHasBlockedRetryWork k db" for k
    using ok(2) by (simp add: scopeHasBlockedRetryWork_def ListBlockedRetryWork_def)
  obtain db' where db': "prune_blocks_loop bs ?db = (None, db')" "control_ok db'" "cd_retry db' = cd_retry db"
      "\<forall>k. scope_at db' k =
        (if k \<in> bs_Key ` set bs \<and> scopeHasBlockedRetryWork k db = Inr False then None else scope_at ?db k)"
    using Cons.IH [OF ok(1)] Cons.prems(2) ok(2) unfolding same by auto
  have "prune_blocks_loop (b # bs) db = (None, db')"
    using h db'(1)
    by (cases h) (simp_all add: shouldKeepTimedBlockScope_def decideTimedBlockScopeAction_def deleteBlockScopeOnly_def)
  moreover have "scope_at ?db k = (if k = bs_Key b \<and> \<not> h then None else scope_at db k)" for k
    using DeleteBlockScope_ok(2) [OF Cons.prems(1) wf] by simp
  ultimately show ?case using db' h by auto
qed simp

lemma PruneBlock_spec:
  assumes "control_ok db"
  shows "\<exists>db'. PruneBlockScopesWithoutBlockedWork db = (None, db') \<and> control_ok db' \<and> cd_retry db' = cd_retry db \<and>
    (\<forall>k. scope_at db' k =
       (if \<exists>w row. work_at db w = Some row \<and> rw_Blocked row \<and> rw_ScopeKey row = k then scope_at db k else None))"
proof -
  have v: "list_all row_valid (cd_blocks db)" using assms by (simp add: control_ok_def block_rows_wf_def)
  obtain bs where bs: "ListBlockScopes db = Inr bs" "map activeScopeFromBlockScopeRow bs = map row_scope (cd_blocks db)"
    using query_valid_rows [OF v] by (auto simp: ListBlockScopes_def)
  have keys: "map bs_Key bs = map (\<lambda>r. ParseScopeKey (qb_scope_key r)) (cd_blocks db)"
    using arg_cong [OF bs(2), of "map as_Key"]
    by (simp add: comp_def activeScopeFromBlockScopeRow_def row_scope_def)
  have k: "sk_wf (bs_Key b)" if "b \<in> set bs" for b
    using arg_cong [OF keys, of set] that by (auto simp: image_iff) (metis sk_wf_Parse imageE image_eqI)
  have dom: "scope_at db k \<noteq> None \<Longrightarrow> k \<in> bs_Key ` set bs" for k
    using arg_cong [OF keys, of set] by (simp add: rows_lookup_eq [OF v] LookupScope_None row_scope_def image_image)
  obtain db' where db': "prune_blocks_loop bs db = (None, db')" "control_ok db'" "cd_retry db' = cd_retry db"
      "\<forall>k. scope_at db' k =
        (if k \<in> bs_Key ` set bs \<and> scopeHasBlockedRetryWork k db = Inr False then None else scope_at db k)"
    using prune_blocks_loop_spec [OF assms k] by blast
  have "scope_at db' k =
      (if \<exists>w row. work_at db w = Some row \<and> rw_Blocked row \<and> rw_ScopeKey row = k then scope_at db k else None)" for k
    using db'(4) dom [of k] unfolding blocked_work_iff [OF assms] by (cases "scope_at db k") auto
  then show ?thesis using db' bs(1) by (simp add: PruneBlockScopesWithoutBlockedWork_def)
qed

lemma prune_fold_spec:
  assumes "control_ok db"
  shows "control_ok (fold (\<lambda>row d. if row_WorkKey row \<in> set work then d else DeleteRetryWorkByWork (row_WorkKey row) d) rows db) \<and>
    cd_blocks (fold (\<lambda>row d. if row_WorkKey row \<in> set work then d else DeleteRetryWorkByWork (row_WorkKey row) d) rows db) = cd_blocks db \<and>
    work_at (fold (\<lambda>row d. if row_WorkKey row \<in> set work then d else DeleteRetryWorkByWork (row_WorkKey row) d) rows db) k =
      (if k \<in> row_WorkKey ` set rows \<and> k \<notin> set work then None else work_at db k)"
  using assms
proof (induction rows arbitrary: db)
  case (Cons r rows)
  then show ?case by (auto simp: DeleteRetryWork_ok)
qed simp

lemma PruneRetry_spec:
  assumes "control_ok db"
  shows "\<exists>db'. PruneRetryWorkToCurrentActions work db = (None, db') \<and> control_ok db' \<and> cd_blocks db' = cd_blocks db \<and>
    (\<forall>k. work_at db' k = (if k \<in> set work then work_at db k else None))"
proof -
  obtain rs where rs: "ListRetryWork db = Inr rs" "set rs = {row. \<exists>k. work_at db k = Some row}"
    by (rule list_retry_set [OF assms]) blast
  have "k \<in> row_WorkKey ` set rs \<longleftrightarrow> work_at db k \<noteq> None" for k
    using rs(2) retry_get_key(1) assms by (fastforce simp: control_ok_def image_iff)
  then show ?thesis using prune_fold_spec [OF assms, of work rs] rs(1)
    by (auto simp: PruneRetryWorkToCurrentActions_def)
qed

section \<open>Properties\<close>

text \<open>
  C31: The durable control state keeps its invariant under every operation of the store: recording a
  failure or blocked work, resolving or clearing work, pruning to the current plan, opening,
  deleting, releasing and discarding a scope. In every state reached this way each work item has
  one row, with at least one attempt; a blocked row has a scope and no retry time, an unblocked
  row has a retry time; and no read of the tables fails.
\<close>

theorem control_state_invariant:
  assumes "control_ok db" "now > 0" "\<forall>n. delayFn n \<ge> 0" "sk_wf k" "\<not> sk_IsZero k" "sk_wf (rf_ScopeKey f)"
  shows "control_ok (snd (RecordRetryWorkFailure f delayFn now db)) \<and>
    control_ok (snd (RecordBlockedRetryWork w k db)) \<and>
    control_ok (snd (ResolveRetryWork w db)) \<and>
    control_ok (ClearBlockedRetryWork w k db) \<and>
    control_ok (snd (PruneRetryWorkToCurrentActions ws db)) \<and>
    control_ok (snd (PruneBlockScopesWithoutBlockedWork db)) \<and>
    (scope_timed b \<longrightarrow> control_ok (snd (store_scope b db))) \<and>
    control_ok (DeleteBlockScope k db) \<and>
    control_ok (ReleaseScope k now db) \<and>
    control_ok (snd (DiscardScope k db)) \<and>
    (\<exists>rows. ListRetryWork db = Inr rows) \<and> (\<exists>h. scopeHasBlockedRetryWork k db = Inr h)"
proof (intro conjI)
  show "control_ok (snd (RecordRetryWorkFailure f delayFn now db))"
    using record_failure_ok [OF assms(1,6,2)] assms(3) by blast
  show "control_ok (snd (RecordBlockedRetryWork w k db))" by (rule record_blocked_ok [OF assms(1,4)])
  show "control_ok (snd (ResolveRetryWork w db))"
    using assms(1) DeleteRetryWork_ok(1) by (simp add: ResolveRetryWork_def load_is_get)
  show "control_ok (ClearBlockedRetryWork w k db)"
    using assms(1) by (simp add: ClearBlockedRetryWork_def control_ok_def filter_retry_wf)
  show "control_ok (snd (PruneRetryWorkToCurrentActions ws db))" using PruneRetry_spec [OF assms(1), of ws] by auto
  show "control_ok (snd (PruneBlockScopesWithoutBlockedWork db))" using PruneBlock_spec [OF assms(1)] by auto
  show "scope_timed b \<longrightarrow> control_ok (snd (store_scope b db))" using store_scope_ok(2) [OF assms(1)] by blast
  show "control_ok (DeleteBlockScope k db)" by (rule DeleteBlockScope_ok(1) [OF assms(1,4)])
  show "control_ok (ReleaseScope k now db)" by (rule ReleaseScope_ok(1) [OF assms(1,4,5,2)])
  show "control_ok (snd (DiscardScope k db))" by (rule DiscardScope_ok(2) [OF assms(1,4,5)])
  show "\<exists>rows. ListRetryWork db = Inr rows" by (rule list_retry_set [OF assms(1)]) blast
  show "\<exists>h. scopeHasBlockedRetryWork k db = Inr h" using blocked_work_iff [OF assms(1)] by blast
qed

text \<open>
  Releasing and discarding a scope do what their names say, in one step: after a release the
  scope is gone, the work that was blocked under it is unblocked and due now, and all other work
  and scopes are untouched; after a discard the scope and every work row of it are gone and the
  rest is untouched.
\<close>

theorem release_and_discard_exact:
  assumes "control_ok db" "sk_wf k" "\<not> sk_IsZero k" "now > 0"
  shows "rows_lookup (cd_blocks (ReleaseScope k now db)) j = (if j = k then None else rows_lookup (cd_blocks db) j) \<and>
    retry_get (cd_retry (ReleaseScope k now db)) w = map_option (released_row k now) (retry_get (cd_retry db) w) \<and>
    rows_lookup (cd_blocks (snd (DiscardScope k db))) j = (if j = k then None else rows_lookup (cd_blocks db) j) \<and>
    retry_get (cd_retry (snd (DiscardScope k db))) w =
      (case retry_get (cd_retry db) w of
         None \<Rightarrow> None
       | Some row \<Rightarrow> if rw_ScopeKey row \<noteq> k then Some row else None)"
  using ReleaseScope_ok [OF assms] DiscardScope_ok [OF assms(1-3)] by simp

text \<open>
  Preparing a plan prunes exactly what is obsolete: afterwards the retry work is the work of
  the current actions and nothing else, and a block scope is kept exactly when some remaining
  work is blocked under it.
\<close>

theorem prune_exact:
  assumes "control_ok db"
  shows "let db1 = snd (PruneRetryWorkToCurrentActions ws db); db2 = snd (PruneBlockScopesWithoutBlockedWork db1)
    in fst (PruneRetryWorkToCurrentActions ws db) = None \<and> fst (PruneBlockScopesWithoutBlockedWork db1) = None \<and>
       retry_get (cd_retry db2) w = (if w \<in> set ws then retry_get (cd_retry db) w else None) \<and>
       (rows_lookup (cd_blocks db2) k \<noteq> None \<longleftrightarrow>
          rows_lookup (cd_blocks db) k \<noteq> None \<and>
          (\<exists>v \<in> set ws. \<exists>row. retry_get (cd_retry db) v = Some row \<and> rw_Blocked row \<and> rw_ScopeKey row = k))"
proof -
  obtain db1 where p1: "PruneRetryWorkToCurrentActions ws db = (None, db1)" "control_ok db1" "cd_blocks db1 = cd_blocks db"
      "\<forall>k. work_at db1 k = (if k \<in> set ws then work_at db k else None)"
    using PruneRetry_spec [OF assms] by blast
  obtain db2 where p2: "PruneBlockScopesWithoutBlockedWork db1 = (None, db2)" "cd_retry db2 = cd_retry db1"
      "\<forall>k. scope_at db2 k =
        (if \<exists>w row. work_at db1 w = Some row \<and> rw_Blocked row \<and> rw_ScopeKey row = k then scope_at db1 k else None)"
    using PruneBlock_spec [OF p1(2)] by blast
  have "(\<exists>w row. work_at db1 w = Some row \<and> rw_Blocked row \<and> rw_ScopeKey row = k) \<longleftrightarrow>
      (\<exists>v \<in> set ws. \<exists>row. work_at db v = Some row \<and> rw_Blocked row \<and> rw_ScopeKey row = k)"
    using p1(4) by (metis option.distinct(1))
  then show ?thesis using p1 p2 by simp
qed

section \<open>A concrete control state\<close>

definition blocked_upload :: retry_work_key where
  "blocked_upload = \<lparr>rk_Path = ''a'', rk_OldPath = '''', rk_ActionType = ActionUpload\<rparr>"

definition blocked_db :: control_db where
  "blocked_db =
     snd (store_scope \<lparr>as_Key = SKQuotaOwn, as_TrialInterval = 60, as_NextTrialAt = Some 100\<rparr>
       (snd (RecordBlockedRetryWork blocked_upload SKQuotaOwn \<lparr>cd_retry = [], cd_blocks = []\<rparr>)))"

lemma blocked_db_ok: "control_ok blocked_db"
proof -
  have e: "control_ok \<lparr>cd_retry = [], cd_blocks = []\<rparr>"
    by (simp add: control_ok_def retry_rows_wf_def block_rows_wf_def)
  have q: "\<not> sk_IsZero SKQuotaOwn" by code_simp
  have t: "scope_timed \<lparr>as_Key = SKQuotaOwn, as_TrialInterval = 60, as_NextTrialAt = Some 100\<rparr>" by code_simp
  have "rk_Path blocked_upload \<noteq> ''''" by (simp add: blocked_upload_def)
  then obtain row where "RecordBlockedRetryWork blocked_upload SKQuotaOwn \<lparr>cd_retry = [], cd_blocks = []\<rparr> =
      (Inr row, UpsertRetryWork row \<lparr>cd_retry = [], cd_blocks = []\<rparr>)" "work_row_ok row"
    using record_blocked_spec [OF e _ sk_wf_constructors(3) q, of blocked_upload] by blast
  then show ?thesis unfolding blocked_db_def using store_scope_ok(2) [OF UpsertRetryWork_ok(1) [OF e] t] by simp
qed

lemma quota_key: "sk_wf SKQuotaOwn" "\<not> sk_IsZero SKQuotaOwn"
  by (simp, code_simp)

theorem control_state_invariant_witness:
  "control_ok (ReleaseScope SKQuotaOwn 7 blocked_db) \<and> control_ok (snd (DiscardScope SKQuotaOwn blocked_db))"
proof -
  have "\<forall>n::int. (\<lambda>_::int. 0::int) n \<ge> 0" "(7::int) > 0" by simp_all
  then show ?thesis
    using control_state_invariant [OF blocked_db_ok, of 7 "\<lambda>_. 0" SKQuotaOwn "\<lparr>rf_Work = blocked_upload, rf_ScopeKey = SKQuotaOwn\<rparr>"]
      quota_key by simp
qed

theorem release_and_discard_exact_witness:
  "retry_get (cd_retry (ReleaseScope SKQuotaOwn 7 blocked_db)) blocked_upload =
     map_option (released_row SKQuotaOwn 7) (retry_get (cd_retry blocked_db) blocked_upload) \<and>
   retry_get (cd_retry blocked_db) blocked_upload \<noteq> None"
proof -
  have "retry_get (cd_retry blocked_db) blocked_upload \<noteq> None" by code_simp
  then show ?thesis
    using release_and_discard_exact [OF blocked_db_ok quota_key, of 7 SKQuotaOwn blocked_upload] by simp
qed

theorem prune_exact_witness:
  "let db1 = snd (PruneRetryWorkToCurrentActions [] blocked_db)
   in rows_lookup (cd_blocks (snd (PruneBlockScopesWithoutBlockedWork db1))) SKQuotaOwn = None"
  using prune_exact [OF blocked_db_ok, of "[]" blocked_upload SKQuotaOwn] by (simp add: Let_def)

end
