(* ===== verification/Classify.thy ===== *)
theory Classify
  imports RetryStore BaselineStore
begin

text \<open>
  Classification of finished actions: the completion record (\<^verbatim>\<open>worker_result.go\<close>), the pure
  mapping to one decision (\<^verbatim>\<open>engine_result_classify.go\<close>), the condition keys derived from it
  (\<^verbatim>\<open>condition_keys.go\<close>) and the outcome of a scope trial (\<^verbatim>\<open>scope_lifecycle_policy.go\<close>).
\<close>

section \<open>Completions\<close>

record action_completion =
  ac_Path :: string
  ac_OldPath :: string
  ac_ItemID :: string
  ac_DriveID :: drive_id
  ac_ActionType :: action_type
  ac_Success :: bool
  ac_ErrMsg :: string
  ac_HTTPStatus :: int
  ac_FailurePath :: string
  ac_FailureCapability :: permission_capability
  ac_Err :: "go_error option"
  ac_RetryAfter :: int
  ac_IsTrial :: bool
  ac_TrialScopeKey :: scope_key
  ac_ActionID :: int

definition ExtractHTTPStatus :: "go_error option \<Rightarrow> int" where
  "ExtractHTTPStatus e =
     (case e of None \<Rightarrow> 0 | Some x \<Rightarrow> (case ge_Graph x of None \<Rightarrow> 0 | Some (status, _) \<Rightarrow> status))"

definition ExtractRetryAfter :: "go_error option \<Rightarrow> int" where
  "ExtractRetryAfter e =
     (case e of None \<Rightarrow> 0 | Some x \<Rightarrow> (case ge_Graph x of None \<Rightarrow> 0 | Some (_, retryAfter) \<Rightarrow> retryAfter))"

definition completion_ThrottleTargetKey :: "action_completion \<Rightarrow> string" where
  "completion_ThrottleTargetKey r = (if id_IsZero (ac_DriveID r) then '''' else throttleDriveParam (ac_DriveID r))"

definition actionCompletionFromTrackedAction ::
  "tracked_action \<Rightarrow> action_outcome option \<Rightarrow> go_error option \<Rightarrow> action_completion" where
  "actionCompletionFromTrackedAction ta outcome actionErr =
     (let a = ta_Action ta;
          driveID = (case outcome of
                       Some ou \<Rightarrow> if \<not> id_IsZero (ao_DriveID ou) then ao_DriveID ou else a_DriveID a
                     | None \<Rightarrow> a_DriveID a);
          r = \<lparr>ac_Path = a_Path a, ac_OldPath = a_OldPath a, ac_ItemID = a_ItemID a, ac_DriveID = driveID,
               ac_ActionType = a_Type a, ac_Success = False, ac_ErrMsg = '''',
               ac_HTTPStatus = ExtractHTTPStatus actionErr, ac_FailurePath = '''',
               ac_FailureCapability = PermissionCapabilityUnknown, ac_Err = actionErr,
               ac_RetryAfter = ExtractRetryAfter actionErr, ac_IsTrial = ta_IsTrial ta,
               ac_TrialScopeKey = ta_TrialScopeKey ta, ac_ActionID = ta_ID ta\<rparr>
      in case outcome of
           Some ou \<Rightarrow>
             (let r1 = r\<lparr>ac_Success := ao_Success ou, ac_FailurePath := ao_FailurePath ou,
                         ac_FailureCapability := ao_FailureCapability ou\<rparr>
              in case ao_Error ou of
                   Some e \<Rightarrow> r1\<lparr>ac_ErrMsg := ge_Message e, ac_Err := Some e,
                                ac_HTTPStatus := ExtractHTTPStatus (Some e), ac_RetryAfter := ExtractRetryAfter (Some e)\<rparr>
                 | None \<Rightarrow> r1)
         | None \<Rightarrow> (case actionErr of Some e \<Rightarrow> r\<lparr>ac_ErrMsg := ge_Message e\<rparr> | None \<Rightarrow> r))"

definition retryWorkKeyForCompletion :: "action_completion \<Rightarrow> retry_work_key" where
  "retryWorkKeyForCompletion r = retryWorkKey (ac_Path r) (ac_OldPath r) (ac_ActionType r)"

section \<open>Condition keys\<close>

definition conditionKeyForIssueType :: "string \<Rightarrow> string option" where
  "conditionKeyForIssueType issueType =
     map_of [(IssueUnauthorized, ''authentication_required''), (IssueQuotaExceeded, ''quota_exceeded''),
       (IssueServiceOutage, ''service_outage''), (IssueRateLimited, ''rate_limited''),
       (IssueRemoteWriteDenied, ''remote_write_denied''), (IssueRemoteReadDenied, ''remote_read_denied''),
       (IssueLocalReadDenied, ''local_read_denied''), (IssueLocalWriteDenied, ''local_permission_denied''),
       (IssueInvalidFilename, ''invalid_filename''), (IssuePathTooLong, ''path_too_long''),
       (IssueFileTooLarge, ''file_too_large''), (IssueCaseCollision, ''case_collision''),
       (IssueDiskFull, ''disk_full''), (IssueHashPanic, ''hash_error''),
       (IssueFileTooLargeForSpace, ''file_too_large_for_space'')] issueType"

definition ConditionUnexpectedCondition :: string where
  "ConditionUnexpectedCondition = ''unexpected_condition''"

definition ConditionKeyForRuntimeResult :: "err_class \<Rightarrow> string \<Rightarrow> string" where
  "ConditionKeyForRuntimeResult class conditionType =
     (case conditionKeyForIssueType conditionType of
        Some key \<Rightarrow> key
      | None \<Rightarrow>
          if class = ClassRetryableTransient \<or> class = ClassBlockScopeingTransient \<or> class = ClassActionable \<or>
             class = ClassFatal
          then ConditionUnexpectedCondition else '''')"

definition conditionKeyForIssueTypeOrScope :: "string \<Rightarrow> scope_key \<Rightarrow> string \<Rightarrow> string" where
  "conditionKeyForIssueTypeOrScope issueType scopeKey scopeFallbackIssueType =
     (case conditionKeyForIssueType issueType of
        Some key \<Rightarrow> key
      | None \<Rightarrow>
          (case conditionKeyForIssueType scopeFallbackIssueType of
             Some key \<Rightarrow> key
           | None \<Rightarrow> if \<not> sk_IsZero scopeKey \<or> issueType \<noteq> '''' then ConditionUnexpectedCondition else ''''))"

definition ConditionKeyForStoredCondition :: "string \<Rightarrow> scope_key \<Rightarrow> string" where
  "ConditionKeyForStoredCondition conditionType scopeKey =
     conditionKeyForIssueTypeOrScope conditionType scopeKey (sd_DefaultConditionType (DescribeScopeKey scopeKey))"

definition condition_order :: "string list" where
  "condition_order =
     [''authentication_required'', ''quota_exceeded'', ''service_outage'', ''rate_limited'', ''remote_write_denied'',
      ''remote_read_denied'', ''local_read_denied'', ''local_permission_denied'', ''invalid_filename'', ''path_too_long'',
      ''file_too_large'', ''case_collision'', ''disk_full'', ''hash_error'', ''file_too_large_for_space'',
      ''unexpected_condition'']"

fun index_of :: "'a \<Rightarrow> 'a list \<Rightarrow> nat" where
  "index_of x [] = 0"
| "index_of x (y # ys) = (if y = x then 0 else Suc (index_of x ys))"

definition conditionKeyRank :: "string \<Rightarrow> nat" where
  "conditionKeyRank key =
     (if key \<in> set condition_order then index_of key condition_order
      else if key = '''' then length condition_order + 1
      else length condition_order)"

definition ConditionKeyLess :: "string \<Rightarrow> string \<Rightarrow> bool" where
  "ConditionKeyLess left right =
     (if conditionKeyRank left \<noteq> conditionKeyRank right then conditionKeyRank left < conditionKeyRank right
      else left < right)"

section \<open>Decisions\<close>

datatype result_persistence_mode = persistNone | persistRetryWork

datatype trial_hint =
    trialHintRelease | trialHintExtendOnMatchingScope | trialHintReclassify | trialHintShutdown | trialHintFatal

record result_decision =
  rd_Class :: err_class
  rd_ConditionKey :: string
  rd_ScopeKey :: scope_key
  rd_ScopeEvidence :: scope_key
  rd_Persistence :: result_persistence_mode
  rd_RunScopeDetection :: bool
  rd_RecordSuccess :: bool
  rd_TrialHint :: trial_hint
  rd_ConditionType :: string

text \<open>The zero decision with the given class, persistence, hint and condition type.\<close>

definition decision :: "err_class \<Rightarrow> result_persistence_mode \<Rightarrow> trial_hint \<Rightarrow> string \<Rightarrow> result_decision" where
  "decision class persistence hint conditionType =
     \<lparr>rd_Class = class, rd_ConditionKey = '''', rd_ScopeKey = zero_scope_key, rd_ScopeEvidence = zero_scope_key,
      rd_Persistence = persistence, rd_RunScopeDetection = False, rd_RecordSuccess = False, rd_TrialHint = hint,
      rd_ConditionType = conditionType\<rparr>"

definition withRuntimeSummary :: "result_decision \<Rightarrow> result_decision" where
  "withRuntimeSummary d = d\<lparr>rd_ConditionKey := ConditionKeyForRuntimeResult (rd_Class d) (rd_ConditionType d)\<rparr>"

definition deriveScopeKey :: "action_completion \<Rightarrow> scope_key" where
  "deriveScopeKey r = ScopeKeyForResult (ac_HTTPStatus r) (ac_DriveID r)"

definition hasPermissionActionContext :: "action_completion \<Rightarrow> bool" where
  "hasPermissionActionContext r \<longleftrightarrow> ac_ActionID r \<noteq> 0 \<or> ac_Path r \<noteq> '''' \<or> \<not> id_IsZero (ac_DriveID r)"

definition effectiveRemotePermissionCapability :: "action_completion \<Rightarrow> permission_capability" where
  "effectiveRemotePermissionCapability r =
     (if ac_FailureCapability r = PermissionCapabilityRemoteRead \<or> ac_FailureCapability r = PermissionCapabilityRemoteWrite
      then ac_FailureCapability r
      else if \<not> hasPermissionActionContext r then PermissionCapabilityUnknown
      else case ac_ActionType r of
             ActionDownload \<Rightarrow> PermissionCapabilityRemoteRead
           | ActionUpload \<Rightarrow> PermissionCapabilityRemoteWrite
           | ActionRemoteDelete \<Rightarrow> PermissionCapabilityRemoteWrite
           | ActionRemoteMove \<Rightarrow> PermissionCapabilityRemoteWrite
           | ActionFolderCreate \<Rightarrow> PermissionCapabilityRemoteWrite
           | _ \<Rightarrow> PermissionCapabilityUnknown)"

definition effectiveLocalPermissionCapability :: "action_completion \<Rightarrow> permission_capability" where
  "effectiveLocalPermissionCapability r =
     (if ac_FailureCapability r = PermissionCapabilityLocalRead \<or> ac_FailureCapability r = PermissionCapabilityLocalWrite
      then ac_FailureCapability r
      else if \<not> hasPermissionActionContext r then PermissionCapabilityUnknown
      else case ac_ActionType r of
             ActionUpload \<Rightarrow> PermissionCapabilityLocalRead
           | ActionDownload \<Rightarrow> PermissionCapabilityLocalWrite
           | ActionLocalDelete \<Rightarrow> PermissionCapabilityLocalWrite
           | ActionLocalMove \<Rightarrow> PermissionCapabilityLocalWrite
           | ActionFolderCreate \<Rightarrow> PermissionCapabilityLocalWrite
           | ActionConflictCopy \<Rightarrow> PermissionCapabilityLocalWrite
           | ActionCleanup \<Rightarrow> PermissionCapabilityLocalWrite
           | _ \<Rightarrow> PermissionCapabilityUnknown)"

definition issueTypeForForbiddenResult :: "action_completion \<Rightarrow> string" where
  "issueTypeForForbiddenResult r =
     (if effectiveRemotePermissionCapability r = PermissionCapabilityRemoteRead then IssueRemoteReadDenied
      else IssueRemoteWriteDenied)"

definition issueTypeForLocalPermissionResult :: "action_completion \<Rightarrow> string" where
  "issueTypeForLocalPermissionResult r =
     (if effectiveLocalPermissionCapability r = PermissionCapabilityLocalRead then IssueLocalReadDenied
      else IssueLocalWriteDenied)"

definition issueTypeForHTTPResult :: "action_completion \<Rightarrow> string option" where
  "issueTypeForHTTPResult r =
     (let s = ac_HTTPStatus r in
      if s = 401 then Some IssueUnauthorized
      else if s = 429 then Some IssueRateLimited
      else if s = 507 then Some IssueQuotaExceeded
      else if s = 403 then Some (issueTypeForForbiddenResult r)
      else if s \<ge> 500 then Some IssueServiceOutage
      else if s = 408 then Some ''request_timeout''
      else if s = 412 then Some ''transient_conflict''
      else if s = 404 then Some ''transient_not_found''
      else if s = 423 then Some ''resource_locked''
      else None)"

definition issueTypeForFilesystemResult :: "action_completion \<Rightarrow> string option" where
  "issueTypeForFilesystemResult r =
     (let e = ac_Err r in
      if errors_Is e MarkDiskFull then Some IssueDiskFull
      else if errors_Is e MarkFileTooLargeForSpace then Some IssueFileTooLargeForSpace
      else if errors_Is e MarkFileExceedsOneDriveLimit then Some IssueFileTooLarge
      else if errors_Is e MarkPermission then Some (issueTypeForLocalPermissionResult r)
      else None)"

definition issueTypeForResult :: "action_completion \<Rightarrow> string" where
  "issueTypeForResult r =
     (case issueTypeForHTTPResult r of
        Some t \<Rightarrow> t
      | None \<Rightarrow> (case issueTypeForFilesystemResult r of Some t \<Rightarrow> t | None \<Rightarrow> ''''))"

definition isRetryableHTTPStatus :: "int \<Rightarrow> bool" where
  "isRetryableHTTPStatus status \<longleftrightarrow> status = 408 \<or> status = 412 \<or> status = 404 \<or> status = 423"

definition classifyHTTPResult :: "action_completion \<Rightarrow> result_decision option" where
  "classifyHTTPResult r =
     (let scopeEvidence = deriveScopeKey r;
          conditionType = issueTypeForResult r;
          s = ac_HTTPStatus r;
          detect = (\<lambda>d. d\<lparr>rd_ScopeEvidence := scopeEvidence, rd_RunScopeDetection := True\<rparr>)
      in if s = 0 then None
         else Some (withRuntimeSummary
          (if s = 401 then decision ClassFatal persistNone trialHintFatal conditionType
           else if s = 403 then decision ClassActionable persistRetryWork trialHintReclassify conditionType
           else if s = 429 \<or> s = 507 then
             (detect (decision ClassBlockScopeingTransient persistRetryWork trialHintExtendOnMatchingScope conditionType))
               \<lparr>rd_ScopeKey := scopeEvidence\<rparr>
           else if s \<ge> 500 \<or> isRetryableHTTPStatus s then
             detect (decision ClassRetryableTransient persistRetryWork trialHintExtendOnMatchingScope conditionType)
           else decision ClassActionable persistRetryWork trialHintReclassify conditionType)))"

definition classifyLocalResult :: "action_completion \<Rightarrow> result_decision" where
  "classifyLocalResult r =
     (let conditionType = issueTypeForResult r in
      withRuntimeSummary
       (if errors_Is (ac_Err r) MarkActionPreconditionChanged
        then decision ClassSuperseded persistNone trialHintReclassify ''''
        else if errors_Is (ac_Err r) MarkDiskFull
        then (decision ClassBlockScopeingTransient persistRetryWork trialHintExtendOnMatchingScope conditionType)
               \<lparr>rd_ScopeKey := SKDiskLocal, rd_ScopeEvidence := SKDiskLocal\<rparr>
        else decision ClassActionable persistRetryWork trialHintReclassify conditionType))"

definition classifyResult :: "action_completion \<Rightarrow> result_decision" where
  "classifyResult r =
     (if ac_Success r then
        withRuntimeSummary ((decision ClassSuccess persistNone trialHintRelease '''')\<lparr>rd_RecordSuccess := True\<rparr>)
      else if errors_Is (ac_Err r) MarkContextCanceled \<or> errors_Is (ac_Err r) MarkContextDeadlineExceeded then
        withRuntimeSummary (decision ClassShutdown persistNone trialHintShutdown '''')
      else case classifyHTTPResult r of
             Some d \<Rightarrow> d
           | None \<Rightarrow> classifyLocalResult r)"

section \<open>Trial outcomes\<close>

datatype scope_trial_outcome =
    scopeTrialOutcomeRelease | scopeTrialOutcomeExtend | scopeTrialOutcomeRearmOrDiscard
  | scopeTrialOutcomeShutdown | scopeTrialOutcomeFatal

definition trialScopeStillMatches :: "scope_key \<Rightarrow> result_decision \<Rightarrow> bool" where
  "trialScopeStillMatches trialScopeKey d \<longleftrightarrow> \<not> sk_IsZero (rd_ScopeEvidence d) \<and> rd_ScopeEvidence d = trialScopeKey"

definition evaluateScopeTrialOutcome :: "scope_key \<Rightarrow> result_decision \<Rightarrow> scope_trial_outcome" where
  "evaluateScopeTrialOutcome trialScopeKey d =
     (case rd_TrialHint d of
        trialHintRelease \<Rightarrow> scopeTrialOutcomeRelease
      | trialHintExtendOnMatchingScope \<Rightarrow>
          if trialScopeStillMatches trialScopeKey d then scopeTrialOutcomeExtend else scopeTrialOutcomeRearmOrDiscard
      | trialHintReclassify \<Rightarrow> scopeTrialOutcomeRearmOrDiscard
      | trialHintShutdown \<Rightarrow> scopeTrialOutcomeShutdown
      | trialHintFatal \<Rightarrow> scopeTrialOutcomeFatal)"

section \<open>Properties\<close>

definition result_canceled :: "action_completion \<Rightarrow> bool" where
  "result_canceled r \<longleftrightarrow> errors_Is (ac_Err r) MarkContextCanceled \<or> errors_Is (ac_Err r) MarkContextDeadlineExceeded"

lemmas classify_defs =
  classifyResult_def classifyHTTPResult_def classifyLocalResult_def withRuntimeSummary_def decision_def Let_def

lemma evidence_persists:
  "\<not> sk_IsZero (ScopeKeyForResult n d) \<Longrightarrow> sk_PersistsInBlockScopes (ScopeKeyForResult n d)"
  by (auto simp: ScopeKeyForResult_def sk_IsZero_def sk_PersistsInBlockScopes_def sd_PersistsInBlockScopes_def
      sd_IsZero_def DescribeScopeKey_def sk_constructor_defs split: if_splits)

lemma disk_persists: "sk_PersistsInBlockScopes SKDiskLocal" "\<not> sk_IsZero SKDiskLocal"
  by code_simp+

lemma classify_class:
  "rd_Class (classifyResult r) =
     (if ac_Success r then ClassSuccess
      else if result_canceled r then ClassShutdown
      else if ac_HTTPStatus r = 0 then
        (if errors_Is (ac_Err r) MarkActionPreconditionChanged then ClassSuperseded
         else if errors_Is (ac_Err r) MarkDiskFull then ClassBlockScopeingTransient else ClassActionable)
      else if ac_HTTPStatus r = 401 then ClassFatal
      else if ac_HTTPStatus r = 429 \<or> ac_HTTPStatus r = 507 then ClassBlockScopeingTransient
      else if ac_HTTPStatus r \<noteq> 403 \<and> (ac_HTTPStatus r \<ge> 500 \<or> isRetryableHTTPStatus (ac_HTTPStatus r)) then ClassRetryableTransient
      else ClassActionable)"
  by (simp add: classify_defs result_canceled_def)

lemma classify_persistence:
  "rd_Persistence (classifyResult r) = persistRetryWork \<longleftrightarrow>
     rd_Class (classifyResult r) \<in> {ClassRetryableTransient, ClassBlockScopeingTransient, ClassActionable}"
  by (simp add: classify_defs)

lemma classify_hint:
  "rd_TrialHint (classifyResult r) = trialHintRelease \<longleftrightarrow> ac_Success r"
  by (simp add: classify_defs)

lemma classify_scope:
  "rd_Class (classifyResult r) = ClassBlockScopeingTransient \<Longrightarrow> rd_ScopeKey (classifyResult r) = rd_ScopeEvidence (classifyResult r)"
  "rd_Class (classifyResult r) \<noteq> ClassBlockScopeingTransient \<Longrightarrow> sk_IsZero (rd_ScopeKey (classifyResult r))"
  "sk_wf (rd_ScopeEvidence (classifyResult r))"
  "\<not> sk_IsZero (rd_ScopeEvidence (classifyResult r)) \<Longrightarrow> sk_PersistsInBlockScopes (rd_ScopeEvidence (classifyResult r))"
  using evidence_persists disk_persists
  by (auto simp: classify_defs deriveScopeKey_def sk_IsZero_def zero_scope_key_def sk_wf_def [of "\<lparr>sk_Kind = ScopeInvalid, sk_Param = ''''\<rparr>"]
      split: if_splits)


definition quota_completion :: action_completion where
  "quota_completion =
     \<lparr>ac_Path = ''a'', ac_OldPath = '''', ac_ItemID = '''', ac_DriveID = New_id ''d1'', ac_ActionType = ActionUpload,
      ac_Success = False, ac_ErrMsg = ''insufficient storage'', ac_HTTPStatus = 507, ac_FailurePath = '''',
      ac_FailureCapability = PermissionCapabilityUnknown,
      ac_Err = Some \<lparr>ge_Marks = [], ge_Graph = Some (507, 0), ge_Message = ''insufficient storage''\<rparr>,
      ac_RetryAfter = 0, ac_IsTrial = False, ac_TrialScopeKey = zero_scope_key, ac_ActionID = 0\<rparr>"


end
