(* ===== verification/RetryPolicy.thy ===== *)
theory RetryPolicy
  imports Prelude Complex_Main
begin

text \<open>
  The retry package (\<^verbatim>\<open>internal/retry\<close>): backoff policies (\<^verbatim>\<open>policy.go\<close>, \<^verbatim>\<open>named.go\<close>),
  the stateful backoff of the watch loops (\<^verbatim>\<open>backoff.go\<close>), the shared throttle deadline
  (\<^verbatim>\<open>throttle_gate.go\<close>) and the retrying HTTP transport (\<^verbatim>\<open>transport.go\<close>). Durations and times
  are integers in nanoseconds. Delays are computed exactly over the rationals: base times a power
  of the multiplier 2 is exact in a \<^verbatim>\<open>float64\<close>, the product with the random factor is rounded
  there by less than one unit in the last place. The random draw, the clock, the inner transport,
  the context and the sleep are arguments.
\<close>

section \<open>Policies\<close>

record policy =
  p_MaxAttempts :: nat
  p_Base :: int
  p_Max :: int
  p_Multiplier :: rat
  p_Jitter :: rat

text \<open>\<^verbatim>\<open>time.Duration(f)\<close> truncates toward zero.\<close>

definition duration_of :: "rat \<Rightarrow> int" where
  "duration_of f = (if 0 \<le> f then \<lfloor>f\<rfloor> else - \<lfloor>- f\<rfloor>)"

definition capped_backoff :: "policy \<Rightarrow> nat \<Rightarrow> rat" where
  "capped_backoff p attempt =
     (let backoff = of_int (p_Base p) * p_Multiplier p ^ attempt
      in if backoff > of_int (p_Max p) then of_int (p_Max p) else backoff)"

text \<open>\<open>u\<close> is the draw of \<^verbatim>\<open>rand.Float64()\<close>, in the half-open unit interval.\<close>

definition policy_Delay :: "policy \<Rightarrow> rat \<Rightarrow> nat \<Rightarrow> int" where
  "policy_Delay p u attempt =
     (let backoff = capped_backoff p attempt
      in duration_of (if p_Jitter p > 0 then backoff + backoff * p_Jitter p * (u * 2 - 1) else backoff))"

definition millisecond :: int where "millisecond = 1000000"

definition second :: int where "second = 1000 * millisecond"

definition make_policy :: "nat \<Rightarrow> int \<Rightarrow> int \<Rightarrow> rat \<Rightarrow> policy" where
  "make_policy attempts base mx jitter =
     \<lparr>p_MaxAttempts = attempts, p_Base = base, p_Max = mx, p_Multiplier = 2, p_Jitter = jitter\<rparr>"

definition TransportPolicy :: policy where
  "TransportPolicy = make_policy 5 second (60 * second) (1 / 4)"

definition DriveDiscoveryPolicy :: policy where
  "DriveDiscoveryPolicy = make_policy 5 second (60 * second) (1 / 4)"

definition RootChildrenPolicy :: policy where
  "RootChildrenPolicy = make_policy 3 (250 * millisecond) second 0"

definition DownloadMetadataPolicy :: policy where
  "DownloadMetadataPolicy = make_policy 6 (250 * millisecond) (4 * second) 0"

definition SimpleUploadMtimePatchPolicy :: policy where
  "SimpleUploadMtimePatchPolicy = make_policy 8 (250 * millisecond) (16 * second) 0"

definition UploadSessionCreatePolicy :: policy where
  "UploadSessionCreatePolicy = make_policy 6 (250 * millisecond) (4 * second) 0"

definition CopyDestinationPolicy :: policy where
  "CopyDestinationPolicy = make_policy 6 (250 * millisecond) (4 * second) 0"

definition SimpleUploadCreatePolicy :: policy where
  "SimpleUploadCreatePolicy = make_policy 7 (250 * millisecond) (8 * second) 0"

definition PathVisibilityPolicy :: policy where
  "PathVisibilityPolicy = make_policy 10 (250 * millisecond) (32 * second) 0"

definition WatchLocalPolicy :: policy where
  "WatchLocalPolicy = make_policy 0 second (30 * second) 0"

definition ReconcilePolicy :: policy where
  "ReconcilePolicy = make_policy 0 second (3600 * second) (1 / 4)"

definition WatchRemotePolicy :: policy where
  "WatchRemotePolicy = make_policy 0 (5 * second) (300 * second) 0"

section \<open>Backoff of the watch loops\<close>

record backoff =
  bo_policy :: policy
  bo_consecutive :: nat
  bo_maxOverride :: int

definition NewBackoff :: "policy \<Rightarrow> backoff" where
  "NewBackoff p = \<lparr>bo_policy = p, bo_consecutive = 0, bo_maxOverride = 0\<rparr>"

definition backoff_policy :: "backoff \<Rightarrow> policy" where
  "backoff_policy b = (if bo_maxOverride b > 0 then (bo_policy b)\<lparr>p_Max := bo_maxOverride b\<rparr> else bo_policy b)"

definition backoff_Next :: "rat \<Rightarrow> backoff \<Rightarrow> backoff \<times> int" where
  "backoff_Next u b =
     (b\<lparr>bo_consecutive := Suc (bo_consecutive b)\<rparr>, policy_Delay (backoff_policy b) u (bo_consecutive b))"

definition backoff_Reset :: "backoff \<Rightarrow> backoff" where
  "backoff_Reset b = b\<lparr>bo_consecutive := 0\<rparr>"

definition SetMaxOverride :: "int \<Rightarrow> backoff \<Rightarrow> backoff" where
  "SetMaxOverride d b = b\<lparr>bo_maxOverride := d\<rparr>"

section \<open>The throttle deadline\<close>

text \<open>A deadline is \<open>None\<close> for the zero time, which lies before every other time.\<close>

definition later_deadline :: "int \<Rightarrow> int option \<Rightarrow> int option" where
  "later_deadline d old = (case old of None \<Rightarrow> Some d | Some o' \<Rightarrow> if d > o' then Some d else old)"

text \<open>The delay \<^verbatim>\<open>Wait\<close> sleeps, if it sleeps.\<close>

definition throttle_delay :: "int \<Rightarrow> int option \<Rightarrow> int option" where
  "throttle_delay now deadline =
     (case deadline of None \<Rightarrow> None | Some d \<Rightarrow> if d - now > 0 then Some (d - now) else None)"

section \<open>The retrying transport\<close>

record http_response =
  hr_StatusCode :: int
  hr_RetryAfter :: string

datatype transport_error =
    ErrNetwork string
  | ErrRequestCanceled
  | ErrSleepCanceled
  | ErrThrottleWait
  | ErrFreshBody
  | ErrSeekBody

text \<open>A body: none, one with a \<^verbatim>\<open>GetBody\<close> hook or a seek that may fail at an attempt, or neither.\<close>

datatype request_body = NoBody | GetBody "nat \<Rightarrow> bool" | SeekBody "nat \<Rightarrow> bool" | PlainBody

record request =
  rq_Method :: string
  rq_Body :: request_body

text \<open>Everything outside the package that one round trip meets, by attempt.\<close>

record world =
  w_inner :: "nat \<Rightarrow> string + http_response"
  w_canceled :: "nat \<Rightarrow> bool"
  w_sleepFails :: "nat \<Rightarrow> bool"
  w_waitFails :: bool
  w_now :: "nat \<Rightarrow> int"
  w_rand :: "nat \<Rightarrow> rat"

record transport =
  rt_Policy :: policy
  rt_ThrottleGate :: "int option option"
  rt_throttledUntil :: "int option"

definition int64_wrap :: "int \<Rightarrow> int" where
  "int64_wrap x = (x + 2 ^ 63) mod 2 ^ 64 - 2 ^ 63"

definition is_digit :: "char \<Rightarrow> bool" where
  "is_digit c \<longleftrightarrow> 48 \<le> (of_char c :: nat) \<and> (of_char c :: nat) \<le> 57"

definition decimal_value :: "string \<Rightarrow> int" where
  "decimal_value s = foldl (\<lambda>n c. 10 * n + (int (of_char c) - 48)) 0 s"

text \<open>\<^verbatim>\<open>strconv.Atoi\<close>: an optional sign and decimal digits, in the range of an \<^verbatim>\<open>int\<close>.\<close>

definition strconv_Atoi :: "string \<Rightarrow> int option" where
  "strconv_Atoi s =
     (let neg = (case s of c # _ \<Rightarrow> c = CHR ''-'' | [] \<Rightarrow> False);
          ds = (case s of c # cs \<Rightarrow> if c = CHR ''-'' \<or> c = CHR ''+'' then cs else s | [] \<Rightarrow> []);
          v = (if neg then - decimal_value ds else decimal_value ds)
      in if ds \<noteq> [] \<and> list_all is_digit ds \<and> - (2 ^ 63) \<le> v \<and> v < 2 ^ 63 then Some v else None)"

definition parseRetryAfterHeader :: "http_response \<Rightarrow> int" where
  "parseRetryAfterHeader resp =
     (if hr_StatusCode resp \<noteq> 429 \<and> hr_StatusCode resp \<noteq> 503 then 0
      else if hr_RetryAfter resp = '''' then 0
      else case strconv_Atoi (hr_RetryAfter resp) of
             None \<Rightarrow> 0
           | Some seconds \<Rightarrow> if seconds \<le> 0 then 0 else int64_wrap (seconds * second))"

definition isRetryable :: "int \<Rightarrow> bool" where
  "isRetryable code \<longleftrightarrow> code \<in> {408, 429, 500, 502, 503, 504} \<or> code = 509"

definition retryableRequestMethod :: "string \<Rightarrow> bool" where
  "retryableRequestMethod m \<longleftrightarrow>
     m \<in> {''GET'', ''HEAD'', ''OPTIONS'', ''TRACE'', ''PUT'', ''DELETE''}"

definition rewindBody :: "request \<Rightarrow> nat \<Rightarrow> transport_error option" where
  "rewindBody req attempt =
     (case rq_Body req of
        NoBody \<Rightarrow> None
      | GetBody fails \<Rightarrow> if fails attempt then Some ErrFreshBody else None
      | SeekBody fails \<Rightarrow> if fails attempt then Some ErrSeekBody else None
      | PlainBody \<Rightarrow> None)"

definition active_deadline :: "transport \<Rightarrow> int option" where
  "active_deadline rt = (case rt_ThrottleGate rt of Some d \<Rightarrow> d | None \<Rightarrow> rt_throttledUntil rt)"

definition raise_deadline :: "int \<Rightarrow> transport \<Rightarrow> transport" where
  "raise_deadline d rt =
     (case rt_ThrottleGate rt of
        Some g \<Rightarrow> rt\<lparr>rt_ThrottleGate := Some (later_deadline d g)\<rparr>
      | None \<Rightarrow> rt\<lparr>rt_throttledUntil := later_deadline d (rt_throttledUntil rt)\<rparr>)"

definition waitForThrottle :: "world \<Rightarrow> transport \<Rightarrow> transport_error option" where
  "waitForThrottle w rt =
     (case throttle_delay (w_now w 0) (active_deadline rt) of
        None \<Rightarrow> None
      | Some d \<Rightarrow> if w_waitFails w then Some ErrThrottleWait else None)"

definition retryBackoff :: "world \<Rightarrow> http_response \<Rightarrow> nat \<Rightarrow> transport \<Rightarrow> transport \<times> int" where
  "retryBackoff w resp attempt rt =
     (let ra = parseRetryAfterHeader resp
      in if ra > 0
         then (if hr_StatusCode resp = 429 then raise_deadline (w_now w attempt + ra) rt else rt, ra)
         else (rt, policy_Delay (rt_Policy rt) (w_rand w attempt) attempt))"

text \<open>What an attempt leads to: a final result, or a retry after the sleep.\<close>

datatype step = Final "transport_error + http_response" | Retry int

definition handleNetworkError :: "world \<Rightarrow> request \<Rightarrow> string \<Rightarrow> nat \<Rightarrow> transport \<Rightarrow> step" where
  "handleNetworkError w req err attempt rt =
     (if w_canceled w attempt then Final (Inl ErrRequestCanceled)
      else if \<not> retryableRequestMethod (rq_Method req) then Final (Inl (ErrNetwork err))
      else if attempt < p_MaxAttempts (rt_Policy rt) then
        (if w_sleepFails w attempt then Final (Inl ErrSleepCanceled)
         else Retry (policy_Delay (rt_Policy rt) (w_rand w attempt) attempt))
      else Final (Inl (ErrNetwork err)))"

definition handleResponse :: "world \<Rightarrow> request \<Rightarrow> http_response \<Rightarrow> nat \<Rightarrow> transport \<Rightarrow> transport \<times> step" where
  "handleResponse w req resp attempt rt =
     (if 200 \<le> hr_StatusCode resp \<and> hr_StatusCode resp < 300 then (rt, Final (Inr resp))
      else if \<not> isRetryable (hr_StatusCode resp) then (rt, Final (Inr resp))
      else if \<not> retryableRequestMethod (rq_Method req) then (rt, Final (Inr resp))
      else if attempt \<ge> p_MaxAttempts (rt_Policy rt) then (rt, Final (Inr resp))
      else case retryBackoff w resp attempt rt of
             (rt', backoff) \<Rightarrow>
               (rt', if w_sleepFails w attempt then Final (Inl ErrSleepCanceled) else Retry backoff))"

definition attempt_step :: "world \<Rightarrow> request \<Rightarrow> nat \<Rightarrow> transport \<Rightarrow> transport \<times> step" where
  "attempt_step w req attempt rt =
     (case w_inner w attempt of
        Inl err \<Rightarrow> (rt, handleNetworkError w req err attempt rt)
      | Inr resp \<Rightarrow> handleResponse w req resp attempt rt)"

lemma policy_raise_deadline [simp]: "rt_Policy (raise_deadline d rt) = rt_Policy rt"
  by (simp add: raise_deadline_def split: option.split)

lemma attempt_step_policy: "attempt_step w req n rt = (rt', s) \<Longrightarrow> rt_Policy rt' = rt_Policy rt"
  by (auto simp: attempt_step_def handleResponse_def retryBackoff_def Let_def split: sum.splits if_splits)

lemma attempt_step_Retry:
  "attempt_step w req n rt = (rt', Retry d) \<Longrightarrow>
     n < p_MaxAttempts (rt_Policy rt) \<and> retryableRequestMethod (rq_Method req)"
  by (auto simp: attempt_step_def handleResponse_def handleNetworkError_def split: sum.splits if_splits prod.splits)

text \<open>
  The loop from an attempt on: the number of requests sent, the sleeps between them, the result
  and the transport afterwards. A retry is only granted below the attempt bound, which makes the
  loop end.
\<close>

record round_trip =
  tr_sent :: nat
  tr_sleeps :: "int list"
  tr_result :: "transport_error + http_response"
  tr_transport :: transport

function attempt_loop :: "world \<Rightarrow> request \<Rightarrow> nat \<Rightarrow> transport \<Rightarrow> round_trip" where
  "attempt_loop w req attempt rt =
     (case (if attempt > 0 then rewindBody req attempt else None) of
        Some e \<Rightarrow> \<lparr>tr_sent = 0, tr_sleeps = [], tr_result = Inl e, tr_transport = rt\<rparr>
      | None \<Rightarrow>
          (case attempt_step w req attempt rt of
             (rt', Final r) \<Rightarrow> \<lparr>tr_sent = 1, tr_sleeps = [], tr_result = r, tr_transport = rt'\<rparr>
           | (rt', Retry d) \<Rightarrow>
               (let rest = attempt_loop w req (Suc attempt) rt'
                in rest\<lparr>tr_sent := Suc (tr_sent rest), tr_sleeps := d # tr_sleeps rest\<rparr>)))"
  by pat_completeness auto
termination
proof (relation "measure (\<lambda>(w, req, attempt, rt). p_MaxAttempts (rt_Policy rt) - attempt)")
  show "wf (measure (\<lambda>(w, req, attempt, rt). p_MaxAttempts (rt_Policy rt) - attempt))" by simp
  fix w :: world and req :: request and attempt :: nat and rt rt' :: transport and x s d
  assume "(rt', s) = attempt_step w req attempt rt" "s = Retry d"
  then have "attempt_step w req attempt rt = (rt', Retry d)" by simp
  from attempt_step_Retry [OF this] attempt_step_policy [OF this]
  show "((w, req, Suc attempt, rt'), w, req, attempt, rt)
          \<in> measure (\<lambda>(w, req, attempt, rt). p_MaxAttempts (rt_Policy rt) - attempt)"
    by (auto intro: diff_less_mono2)
qed

declare attempt_loop.simps [simp del]

definition RoundTrip :: "world \<Rightarrow> request \<Rightarrow> transport \<Rightarrow> round_trip" where
  "RoundTrip w req rt =
     (case waitForThrottle w rt of
        Some e \<Rightarrow> \<lparr>tr_sent = 0, tr_sleeps = [], tr_result = Inl e, tr_transport = rt\<rparr>
      | None \<Rightarrow> attempt_loop w req 0 rt)"

section \<open>Delays\<close>

definition named_policies :: "policy list" where
  "named_policies =
     [TransportPolicy, DriveDiscoveryPolicy, RootChildrenPolicy, DownloadMetadataPolicy,
      SimpleUploadMtimePatchPolicy, UploadSessionCreatePolicy, CopyDestinationPolicy, SimpleUploadCreatePolicy,
      PathVisibilityPolicy, WatchLocalPolicy, ReconcilePolicy, WatchRemotePolicy]"

lemmas named_policy_defs =
  named_policies_def TransportPolicy_def DriveDiscoveryPolicy_def RootChildrenPolicy_def DownloadMetadataPolicy_def
  SimpleUploadMtimePatchPolicy_def UploadSessionCreatePolicy_def CopyDestinationPolicy_def
  SimpleUploadCreatePolicy_def PathVisibilityPolicy_def WatchLocalPolicy_def ReconcilePolicy_def
  WatchRemotePolicy_def make_policy_def second_def millisecond_def

definition policy_ok :: "policy \<Rightarrow> bool" where
  "policy_ok p \<longleftrightarrow> 0 < p_Base p \<and> p_Base p \<le> p_Max p \<and> p_Multiplier p = 2 \<and> 0 \<le> p_Jitter p \<and> p_Jitter p \<le> 1 / 4"

lemma named_policy_ok: "p \<in> set named_policies \<Longrightarrow> policy_ok p"
  by (auto simp: named_policy_defs policy_ok_def)

lemma capped_backoff_min:
  "policy_ok p \<Longrightarrow> capped_backoff p n = of_int (min (p_Base p * 2 ^ n) (p_Max p))"
proof -
  assume "policy_ok p"
  then have "of_int (p_Base p) * p_Multiplier p ^ n = of_int (p_Base p * 2 ^ n)" by (simp add: policy_ok_def)
  then show ?thesis unfolding capped_backoff_def Let_def by (auto simp: min_def simp del: of_int_mult of_int_power)
qed

lemma capped_backoff_pos: "policy_ok p \<Longrightarrow> 0 < capped_backoff p n"
  by (simp add: capped_backoff_min policy_ok_def min_def)

lemma duration_of_nonneg: "0 \<le> f \<Longrightarrow> duration_of f = \<lfloor>f\<rfloor>"
  by (simp add: duration_of_def)

lemma duration_of_int [simp]: "0 \<le> n \<Longrightarrow> duration_of (of_int n) = n"
  by (simp add: duration_of_def)

lemma jittered_bounds:
  fixes n :: nat
  assumes "policy_ok p" "0 \<le> u" "u < 1"
  defines "b \<equiv> capped_backoff p n"
  shows "b * (1 - p_Jitter p) \<le> b + b * p_Jitter p * (u * 2 - 1)"
    and "b + b * p_Jitter p * (u * 2 - 1) \<le> b * (1 + p_Jitter p)"
proof -
  have pos: "0 \<le> b * p_Jitter p" using capped_backoff_pos [OF assms(1), of n] assms(1) by (simp add: b_def policy_ok_def)
  have "b * p_Jitter p * (-1) \<le> b * p_Jitter p * (u * 2 - 1)" by (rule mult_left_mono [OF _ pos]) (use assms in simp)
  then show "b * (1 - p_Jitter p) \<le> b + b * p_Jitter p * (u * 2 - 1)" by (simp add: algebra_simps)
  have "b * p_Jitter p * (u * 2 - 1) \<le> b * p_Jitter p * 1" by (rule mult_left_mono [OF _ pos]) (use assms in simp)
  then show "b + b * p_Jitter p * (u * 2 - 1) \<le> b * (1 + p_Jitter p)" by (simp add: algebra_simps)
qed

lemma delay_bounds:
  fixes n :: nat
  assumes "policy_ok p" "0 \<le> u" "u < 1"
  defines "b \<equiv> capped_backoff p n"
  shows "b * (1 - p_Jitter p) - 1 < of_int (policy_Delay p u n)" "of_int (policy_Delay p u n) \<le> b * (1 + p_Jitter p)"
    and "0 \<le> policy_Delay p u n"
proof -
  let ?f = "if p_Jitter p > 0 then b + b * p_Jitter p * (u * 2 - 1) else b"
  have j: "0 \<le> p_Jitter p" "p_Jitter p \<le> 1 / 4" using assms(1) by (simp_all add: policy_ok_def)
  have bpos: "0 < b" using capped_backoff_pos [OF assms(1)] by (simp add: b_def)
  have lo: "b * (1 - p_Jitter p) \<le> ?f" and hi: "?f \<le> b * (1 + p_Jitter p)"
    using jittered_bounds [OF assms(1-3), of n] j by (auto simp: b_def)
  have "0 \<le> b * (1 - p_Jitter p)" using bpos j by simp
  then have f: "0 \<le> ?f" using lo by linarith
  have d: "policy_Delay p u n = \<lfloor>?f\<rfloor>"
    unfolding policy_Delay_def Let_def b_def [symmetric] by (rule duration_of_nonneg [OF f])
  show "0 \<le> policy_Delay p u n" using f by (simp add: d)
  show "b * (1 - p_Jitter p) - 1 < of_int (policy_Delay p u n)" unfolding d using lo by linarith
  show "of_int (policy_Delay p u n) \<le> b * (1 + p_Jitter p)" unfolding d using hi by linarith
qed

lemma delay_no_jitter:
  "policy_ok p \<Longrightarrow> p_Jitter p = 0 \<Longrightarrow> policy_Delay p u n = min (p_Base p * 2 ^ n) (p_Max p)"
  by (simp add: policy_Delay_def capped_backoff_min duration_of_int policy_ok_def min_def)

text \<open>
  C35: Every named policy backs off exponentially within its bounds: the delay before a retry is
  never negative, it is the smaller of base times two to the attempt and the maximum, exactly so
  for a policy without jitter, and otherwise off by at most a quarter of that.
\<close>

theorem retry_delay_bounds:
  assumes "p \<in> set named_policies" "0 \<le> u" "u < 1"
  shows "0 \<le> policy_Delay p u n \<and>
    (p_Jitter p = 0 \<longrightarrow> policy_Delay p u n = min (p_Base p * 2 ^ n) (p_Max p)) \<and>
    3 / 4 * rat_of_int (min (p_Base p * 2 ^ n) (p_Max p)) - 1 < rat_of_int (policy_Delay p u n) \<and>
    rat_of_int (policy_Delay p u n) \<le> 5 / 4 * rat_of_int (min (p_Base p * 2 ^ n) (p_Max p))"
proof (intro conjI impI)
  note ok = named_policy_ok [OF assms(1)]
  let ?b = "rat_of_int (min (p_Base p * 2 ^ n) (p_Max p))"
  have j: "0 \<le> p_Jitter p" "p_Jitter p \<le> 1 / 4" using ok by (simp_all add: policy_ok_def)
  have b: "0 < ?b" "capped_backoff p n = ?b"
    using capped_backoff_pos [OF ok, of n] capped_backoff_min [OF ok, of n] by simp_all
  show "0 \<le> policy_Delay p u n" by (rule delay_bounds(3) [OF ok assms(2,3)])
  show "policy_Delay p u n = min (p_Base p * 2 ^ n) (p_Max p)" if "p_Jitter p = 0"
    by (rule delay_no_jitter [OF ok that])
  have "3 / 4 * ?b \<le> ?b * (1 - p_Jitter p)" using mult_left_mono [of "3 / 4" "1 - p_Jitter p" ?b] b j by simp
  then show "3 / 4 * ?b - 1 < rat_of_int (policy_Delay p u n)"
    using delay_bounds(1) [OF ok assms(2,3), of n] unfolding b(2) by linarith
  have "?b * (1 + p_Jitter p) \<le> 5 / 4 * ?b" using mult_left_mono [of "1 + p_Jitter p" "5 / 4" ?b] b j by simp
  then show "rat_of_int (policy_Delay p u n) \<le> 5 / 4 * ?b"
    using delay_bounds(2) [OF ok assms(2,3), of n] unfolding b(2) by linarith
qed

theorem retry_delay_bounds_witness:
  "policy_Delay PathVisibilityPolicy 0 3 = 2 * second \<and> 0 \<le> policy_Delay ReconcilePolicy (1 / 2) 4"
  using retry_delay_bounds [of PathVisibilityPolicy 0 3] retry_delay_bounds [of ReconcilePolicy "1 / 2" 4]
  by (simp add: named_policy_defs)

lemma jitter_exceeds_maximum: "p_Max ReconcilePolicy < policy_Delay ReconcilePolicy (9 / 10) 12"
  by code_simp

section \<open>The round trip\<close>

text \<open>The failures after which an attempt is repeated.\<close>

definition transient :: "string + http_response \<Rightarrow> bool" where
  "transient r \<longleftrightarrow> (case r of Inl _ \<Rightarrow> True | Inr resp \<Rightarrow> isRetryable (hr_StatusCode resp))"

lemma attempt_step_transient:
  "attempt_step w req n rt = (rt', Retry d) \<Longrightarrow> transient (w_inner w n) \<and> \<not> w_sleepFails w n"
  by (auto simp: attempt_step_def handleResponse_def handleNetworkError_def transient_def
      split: sum.splits if_splits prod.splits)

lemma attempt_step_Final:
  "attempt_step w req n rt = (rt', Final (Inr resp)) \<Longrightarrow> w_inner w n = Inr resp"
  by (auto simp: attempt_step_def handleResponse_def handleNetworkError_def split: sum.splits if_splits prod.splits)

lemma later_deadline_mono: "old = Some d \<Longrightarrow> \<exists>d'. later_deadline e old = Some d' \<and> d \<le> d'"
  by (auto simp: later_deadline_def)

lemma raise_deadline_mono:
  "active_deadline rt = Some d \<Longrightarrow> \<exists>d'. active_deadline (raise_deadline e rt) = Some d' \<and> d \<le> d'"
  by (auto simp: active_deadline_def raise_deadline_def later_deadline_def split: option.splits)

lemma attempt_step_deadline:
  assumes "attempt_step w req n rt = (rt', s)" "active_deadline rt = Some d"
  shows "\<exists>d'. active_deadline rt' = Some d' \<and> d \<le> d'"
  using assms raise_deadline_mono [OF assms(2)]
  by (auto simp: attempt_step_def handleResponse_def retryBackoff_def Let_def split: sum.splits if_splits)

text \<open>One unfolding of the loop, by what the attempt does.\<close>

lemma attempt_loop_rewind:
  "n > 0 \<Longrightarrow> rewindBody req n = Some e \<Longrightarrow>
     attempt_loop w req n rt = \<lparr>tr_sent = 0, tr_sleeps = [], tr_result = Inl e, tr_transport = rt\<rparr>"
  by (subst attempt_loop.simps) simp

lemma attempt_loop_Final:
  "n = 0 \<or> rewindBody req n = None \<Longrightarrow> attempt_step w req n rt = (rt', Final r) \<Longrightarrow>
     attempt_loop w req n rt = \<lparr>tr_sent = 1, tr_sleeps = [], tr_result = r, tr_transport = rt'\<rparr>"
  by (subst attempt_loop.simps) auto

lemma attempt_loop_Retry:
  "n = 0 \<or> rewindBody req n = None \<Longrightarrow> attempt_step w req n rt = (rt', Retry d) \<Longrightarrow>
     attempt_loop w req n rt =
       (attempt_loop w req (Suc n) rt')\<lparr>tr_sent := Suc (tr_sent (attempt_loop w req (Suc n) rt')),
          tr_sleeps := d # tr_sleeps (attempt_loop w req (Suc n) rt')\<rparr>"
  by (subst attempt_loop.simps) (auto simp: Let_def)

text \<open>What a run of the loop from attempt \<open>n\<close> guarantees.\<close>

definition loop_facts :: "world \<Rightarrow> request \<Rightarrow> nat \<Rightarrow> transport \<Rightarrow> round_trip \<Rightarrow> bool" where
  "loop_facts w req n rt t \<longleftrightarrow>
     n + tr_sent t \<le> Suc (max n (p_MaxAttempts (rt_Policy rt))) \<and>
     (\<not> retryableRequestMethod (rq_Method req) \<longrightarrow> tr_sent t \<le> 1) \<and>
     (\<forall>k. Suc k < tr_sent t \<longrightarrow> transient (w_inner w (n + k))) \<and>
     (\<forall>resp. tr_result t = Inr resp \<longrightarrow> tr_sent t > 0 \<and> w_inner w (n + tr_sent t - 1) = Inr resp) \<and>
     (\<forall>d. active_deadline rt = Some d \<longrightarrow> (\<exists>d'. active_deadline (tr_transport t) = Some d' \<and> d \<le> d'))"

lemma loop_facts_Retry:
  assumes step: "attempt_step w req n rt = (rt', Retry d)" and IH: "loop_facts w req (Suc n) rt' t"
  shows "loop_facts w req n rt (t\<lparr>tr_sent := Suc (tr_sent t), tr_sleeps := d # tr_sleeps t\<rparr>)"
proof -
  let ?t = "t\<lparr>tr_sent := Suc (tr_sent t), tr_sleeps := d # tr_sleeps t\<rparr>"
  have n: "n < p_MaxAttempts (rt_Policy rt)" and replayable: "retryableRequestMethod (rq_Method req)"
    using attempt_step_Retry [OF step] by simp_all
  have "n + tr_sent ?t \<le> Suc (max n (p_MaxAttempts (rt_Policy rt)))"
    using IH n by (auto simp: loop_facts_def attempt_step_policy [OF step] max_def split: if_splits)
  moreover have "transient (w_inner w (n + k))" if "Suc k < tr_sent ?t" for k
    using that IH attempt_step_transient [OF step] by (cases k) (auto simp: loop_facts_def)
  moreover have "tr_sent ?t > 0 \<and> w_inner w (n + tr_sent ?t - 1) = Inr resp" if "tr_result ?t = Inr resp" for resp
    using that IH by (auto simp: loop_facts_def)
  moreover have "\<exists>d'. active_deadline (tr_transport ?t) = Some d' \<and> e \<le> d'" if dl: "active_deadline rt = Some e" for e
  proof -
    obtain e' where "active_deadline rt' = Some e'" "e \<le> e'" using attempt_step_deadline [OF step dl] by blast
    moreover from this obtain d' where "active_deadline (tr_transport t) = Some d'" "e' \<le> d'"
      using IH by (auto simp: loop_facts_def)
    ultimately show ?thesis by auto
  qed
  ultimately show ?thesis using replayable by (auto simp: loop_facts_def)
qed

lemma attempt_loop_facts: "loop_facts w req n rt (attempt_loop w req n rt)"
proof (induction w req n rt rule: attempt_loop.induct)
  case (1 w req n rt)
  consider e where "n > 0" "rewindBody req n = Some e" | "n = 0 \<or> rewindBody req n = None"
    by (cases "rewindBody req n") auto
  then show ?case
  proof cases
    case 1
    then show ?thesis by (simp add: attempt_loop_rewind loop_facts_def)
  next
    case ok: 2
    obtain rt' s where step: "attempt_step w req n rt = (rt', s)" by force
    show ?thesis
    proof (cases s)
      case (Final r)
      note step = step [unfolded Final]
      show ?thesis using attempt_step_deadline [OF step] attempt_step_Final [of w req n rt rt'] step
        by (auto simp: attempt_loop_Final [OF ok step] loop_facts_def)
    next
      case (Retry d)
      note step = step [unfolded Retry]
      have "loop_facts w req (Suc n) rt' (attempt_loop w req (Suc n) rt')"
        by (rule "1" [of rt' "Retry d" d]) (use ok step in auto)
      then show ?thesis unfolding attempt_loop_Retry [OF ok step] by (rule loop_facts_Retry [OF step])
    qed
  qed
qed

text \<open>A server that always fails transiently, on a request that can be replayed.\<close>

definition always_fails :: "world \<Rightarrow> request \<Rightarrow> bool" where
  "always_fails w req \<longleftrightarrow>
     retryableRequestMethod (rq_Method req) \<and>
     (\<forall>n. w_sleepFails w n = False \<and> (n > 0 \<longrightarrow> rewindBody req n = None) \<and>
          (\<exists>resp. w_inner w n = Inr resp \<and> isRetryable (hr_StatusCode resp)))"

lemma isRetryable_not_ok: "isRetryable c \<Longrightarrow> \<not> (200 \<le> c \<and> c < 300)"
  by (auto simp: isRetryable_def)

lemma always_fails_step:
  assumes "always_fails w req" "w_inner w n = Inr resp"
  shows "n < p_MaxAttempts (rt_Policy rt) \<Longrightarrow> \<exists>rt' d. attempt_step w req n rt = (rt', Retry d)"
    and "\<not> n < p_MaxAttempts (rt_Policy rt) \<Longrightarrow> attempt_step w req n rt = (rt, Final (Inr resp))"
proof -
  have f: "isRetryable (hr_StatusCode resp)" "retryableRequestMethod (rq_Method req)" "\<not> w_sleepFails w n"
    using assms unfolding always_fails_def by (metis Inr_inject)+
  show "\<exists>rt' d. attempt_step w req n rt = (rt', Retry d)" if "n < p_MaxAttempts (rt_Policy rt)"
    using that f assms(2) isRetryable_not_ok [OF f(1)]
    by (auto simp: attempt_step_def handleResponse_def split: prod.split)
  show "attempt_step w req n rt = (rt, Final (Inr resp))" if "\<not> n < p_MaxAttempts (rt_Policy rt)"
    using that f assms(2) isRetryable_not_ok [OF f(1)] by (auto simp: attempt_step_def handleResponse_def)
qed

lemma always_fails_loop:
  assumes "always_fails w req" "n \<le> p_MaxAttempts (rt_Policy rt)"
  shows "n + tr_sent (attempt_loop w req n rt) = Suc (p_MaxAttempts (rt_Policy rt)) \<and>
    tr_result (attempt_loop w req n rt) =
      (case w_inner w (p_MaxAttempts (rt_Policy rt)) of Inl e \<Rightarrow> Inl (ErrNetwork e) | Inr resp \<Rightarrow> Inr resp)"
  using assms
proof (induction "p_MaxAttempts (rt_Policy rt) - n" arbitrary: n rt)
  case 0
  obtain resp where resp: "w_inner w n = Inr resp" using 0(2) by (auto simp: always_fails_def)
  have ok: "n = 0 \<or> rewindBody req n = None" using 0(2) by (auto simp: always_fails_def)
  have n: "n = p_MaxAttempts (rt_Policy rt)" using 0 by simp
  have "attempt_step w req n rt = (rt, Final (Inr resp))" by (rule always_fails_step(2) [OF 0(2) resp]) (simp add: n)
  from attempt_loop_Final [OF ok this] show ?case using n resp by simp
next
  case (Suc k)
  obtain resp where resp: "w_inner w n = Inr resp" using Suc(3) by (auto simp: always_fails_def)
  have ok: "n = 0 \<or> rewindBody req n = None" using Suc(3) by (auto simp: always_fails_def)
  have "n < p_MaxAttempts (rt_Policy rt)" using Suc(2) by linarith
  then obtain rt' d where step: "attempt_step w req n rt = (rt', Retry d)"
    using always_fails_step(1) [OF Suc(3) resp, of rt] by blast
  have p: "rt_Policy rt' = rt_Policy rt" by (rule attempt_step_policy [OF step])
  show ?case unfolding attempt_loop_Retry [OF ok step] using Suc(1) [of rt' "Suc n"] Suc(2,3) by (simp add: p)
qed

text \<open>
  C34: The retrying transport ends for every server and clock: it sends a request at most
  \<^verbatim>\<open>MaxAttempts\<close> + 1 times, only once for a request that must not be replayed, and repeats it only after a network
  error or a retryable status. The response it returns is the one to the last request, and a
  throttle deadline is never moved back. Against a server that fails for ever it sends exactly
  one request more than \<^verbatim>\<open>MaxAttempts\<close>.
\<close>

theorem RoundTrip_bounded:
  "let t = RoundTrip w req rt; sent = tr_sent t in
    sent \<le> Suc (p_MaxAttempts (rt_Policy rt)) \<and>
    (\<not> retryableRequestMethod (rq_Method req) \<longrightarrow> sent \<le> 1) \<and>
    (\<forall>k. Suc k < sent \<longrightarrow> transient (w_inner w k)) \<and>
    (\<forall>resp. tr_result t = Inr resp \<longrightarrow> sent > 0 \<and> w_inner w (sent - 1) = Inr resp) \<and>
    (\<forall>d. active_deadline rt = Some d \<longrightarrow> (\<exists>d'. active_deadline (tr_transport t) = Some d' \<and> d \<le> d')) \<and>
    (always_fails w req \<and> waitForThrottle w rt = None \<longrightarrow> sent = Suc (p_MaxAttempts (rt_Policy rt)))"
proof (cases "waitForThrottle w rt")
  case None
  then have r: "RoundTrip w req rt = attempt_loop w req 0 rt" by (simp add: RoundTrip_def)
  show ?thesis unfolding r
    using attempt_loop_facts [of w req 0 rt] always_fails_loop [of w req 0 rt] by (simp add: loop_facts_def Let_def)
next
  case (Some e)
  then show ?thesis by (simp add: RoundTrip_def Let_def)
qed

definition busy_server :: world where
  "busy_server =
     \<lparr>w_inner = (\<lambda>n. Inr \<lparr>hr_StatusCode = 503, hr_RetryAfter = ''2''\<rparr>), w_canceled = (\<lambda>n. False),
      w_sleepFails = (\<lambda>n. False), w_waitFails = False, w_now = (\<lambda>n. 0), w_rand = (\<lambda>n. 0)\<rparr>"

definition cli_transport :: transport where
  "cli_transport = \<lparr>rt_Policy = TransportPolicy, rt_ThrottleGate = None, rt_throttledUntil = None\<rparr>"

theorem RoundTrip_bounded_witness:
  "tr_sent (RoundTrip busy_server \<lparr>rq_Method = ''GET'', rq_Body = NoBody\<rparr> cli_transport) = 6"
  using RoundTrip_bounded [of busy_server "\<lparr>rq_Method = ''GET'', rq_Body = NoBody\<rparr>" cli_transport]
  by (simp add: Let_def always_fails_def busy_server_def cli_transport_def waitForThrottle_def throttle_delay_def
      active_deadline_def retryableRequestMethod_def rewindBody_def isRetryable_def TransportPolicy_def make_policy_def)

end
