(* ===== verification/SnapshotStore.thy ===== *)
theory SnapshotStore
  imports ObservationStore "HOL-Library.Product_Lexorder"
begin

text \<open>
  The durable snapshots the planner reads: the local tree (\<^verbatim>\<open>store_local_state.go\<close>), the mirror
  of the remote drive (\<^verbatim>\<open>store_read_remote_state.go\<close>, \<^verbatim>\<open>store_write_observation.go\<close>) and the
  problems found while observing (\<^verbatim>\<open>store_observation_issues.go\<close>,
  \<^verbatim>\<open>observation_reconcile_policy.go\<close>, \<^verbatim>\<open>observation_findings.go\<close>). Transactions are functions
  from the database to an error or a new database; a statement fails only when it violates a
  constraint of the schema.
\<close>

section \<open>The local snapshot\<close>

text \<open>\<^verbatim>\<open>INSERT OR REPLACE\<close>: a row with the same path is removed first.\<close>

definition upsertLocalStateRowTx :: "local_state_row \<Rightarrow> sql_local list \<Rightarrow> sql_local list" where
  "upsertLocalStateRowTx row rows = filter (\<lambda>x. sl_path x \<noteq> lr_Path row) rows @ [bind_local_row row]"

definition upsertLocalStateRowsTx :: "local_state_row list \<Rightarrow> sql_local list \<Rightarrow> sql_local list" where
  "upsertLocalStateRowsTx rs rows = fold upsertLocalStateRowTx rs rows"

definition replaceLocalStateTx :: "local_state_row list \<Rightarrow> sql_local list \<Rightarrow> sql_local list" where
  "replaceLocalStateTx rs rows = upsertLocalStateRowsTx rs []"

definition deleteLocalStatePathTx :: "string \<Rightarrow> sql_local list \<Rightarrow> sql_local list" where
  "deleteLocalStatePathTx p rows = filter (\<lambda>x. sl_path x \<noteq> p) rows"

definition deleteLocalStatePrefixTx :: "string \<Rightarrow> sql_local list \<Rightarrow> sql_local list" where
  "deleteLocalStatePrefixTx prefix rows =
     filter (\<lambda>x. \<not> (sl_path x = prefix \<or> has_prefix (sl_path x) (prefix @ ''/''))) rows"

definition markLocalTruthCompleteTx :: "store_db \<Rightarrow> store_db" where
  "markLocalTruthCompleteTx tx =
     (case readObservationStateFromTx tx of
        (tx1, state) \<Rightarrow>
          writeObservationStateToTx (state\<lparr>os_LocalTruthComplete := True, os_LocalTruthRecoveryReason := ''''\<rparr>) tx1)"

definition ReplaceLocalState :: "local_state_row list \<Rightarrow> sync_store \<Rightarrow> sync_store" where
  "ReplaceLocalState rs m =
     (let tx = (ss_db m)\<lparr>db_local := replaceLocalStateTx rs (db_local (ss_db m))\<rparr>
      in m\<lparr>ss_db := markLocalTruthCompleteTx tx\<rparr>)"

definition with_local :: "(sql_local list \<Rightarrow> sql_local list) \<Rightarrow> sync_store \<Rightarrow> sync_store" where
  "with_local f m = m\<lparr>ss_db := (ss_db m)\<lparr>db_local := f (db_local (ss_db m))\<rparr>\<rparr>"

definition UpsertLocalStateRows :: "local_state_row list \<Rightarrow> sync_store \<Rightarrow> sync_store" where
  "UpsertLocalStateRows rs m = with_local (upsertLocalStateRowsTx rs) m"

definition DeleteLocalStatePath :: "string \<Rightarrow> sync_store \<Rightarrow> sync_store" where
  "DeleteLocalStatePath p m = with_local (deleteLocalStatePathTx p) m"

definition DeleteLocalStatePrefix :: "string \<Rightarrow> sync_store \<Rightarrow> sync_store" where
  "DeleteLocalStatePrefix p m = with_local (deleteLocalStatePrefixTx p) m"

definition applyLocalStatePatch :: "local_state_row list \<Rightarrow> string list \<Rightarrow> string list \<Rightarrow> sync_store \<Rightarrow> sync_store" where
  "applyLocalStatePatch rs deletedPaths deletedPrefixes m =
     with_local (\<lambda>rows. upsertLocalStateRowsTx rs
                   (fold deleteLocalStatePathTx deletedPaths (fold deleteLocalStatePrefixTx deletedPrefixes rows))) m"

definition ListLocalState :: "sync_store \<Rightarrow> local_state_row list" where
  "ListLocalState m = map scan_local_row (sort_key sl_path (db_local (ss_db m)))"

definition GetLocalStateByPath :: "string \<Rightarrow> sync_store \<Rightarrow> local_state_row option" where
  "GetLocalStateByPath p m = map_option scan_local_row (find (\<lambda>r. sl_path r = p) (db_local (ss_db m)))"

section \<open>The remote mirror\<close>

definition ListRemoteState :: "sync_store \<Rightarrow> sync_store \<times> remote_state_row list" where
  "ListRemoteState m =
     (case contentDriveIDForRead m zero_id of (m1, d) \<Rightarrow> (m1, map (scan_remote_row d) (db_remote (ss_db m1))))"

definition getRemoteStateRow ::
  "drive_id \<Rightarrow> (sql_remote \<Rightarrow> bool) \<Rightarrow> sync_store \<Rightarrow> sync_store \<times> (store_error + remote_state_row option)" where
  "getRemoteStateRow driveID sel m =
     (case contentDriveIDForRead m driveID of
        (m1, contentDriveID) \<Rightarrow>
          (m1, case ensureMatchingContentDriveID driveID contentDriveID of
                 Some e \<Rightarrow> Inl e
               | None \<Rightarrow> Inr (map_option (scan_remote_row contentDriveID) (find sel (db_remote (ss_db m1))))))"

definition GetRemoteStateByPath ::
  "string \<Rightarrow> drive_id \<Rightarrow> sync_store \<Rightarrow> sync_store \<times> (store_error + remote_state_row option)" where
  "GetRemoteStateByPath p driveID m = getRemoteStateRow driveID (\<lambda>r. sr_path r = p) m"

definition GetRemoteStateByID ::
  "drive_id \<Rightarrow> string \<Rightarrow> sync_store \<Rightarrow> sync_store \<times> (store_error + remote_state_row option)" where
  "GetRemoteStateByID driveID itemID m = getRemoteStateRow driveID (\<lambda>r. sr_item_id r = itemID) m"

section \<open>Committing a remote observation\<close>

record observed_item =
  oe_DriveID :: drive_id
  oe_ItemID :: string
  oe_Path :: string
  oe_ItemType :: item_type
  oe_Hash :: string
  oe_Size :: int
  oe_Mtime :: int
  oe_ETag :: string
  oe_IsDeleted :: bool

definition scanRemoteStateRow :: "drive_id \<Rightarrow> string \<Rightarrow> sql_remote list \<Rightarrow> remote_state_row option" where
  "scanRemoteStateRow driveID itemID rows =
     map_option (scan_remote_row (New_id (id_value driveID))) (find (\<lambda>r. sr_item_id r = itemID) rows)"

definition observed_row :: "observed_item \<Rightarrow> sql_remote" where
  "observed_row item =
     \<lparr>sr_drive_id = id_value (oe_DriveID item), sr_item_id = oe_ItemID item, sr_path = oe_Path item,
      sr_item_type = oe_ItemType item, sr_hash = nullString (oe_Hash item),
      sr_size = nullKnownInt64 (oe_Size item) True, sr_mtime = nullOptionalInt64 (oe_Mtime item),
      sr_etag = nullString (oe_ETag item)\<rparr>"

definition insertRemoteState :: "observed_item \<Rightarrow> sql_remote list \<Rightarrow> store_error + sql_remote list" where
  "insertRemoteState item rows =
     (if list_ex (\<lambda>x. sr_path x = oe_Path item) rows then Inl (ErrUniquePath (oe_Path item))
      else Inr (rows @ [observed_row item]))"

definition updateRemoteStateFromObs :: "observed_item \<Rightarrow> sql_remote list \<Rightarrow> store_error + sql_remote list" where
  "updateRemoteStateFromObs item rows =
     (if list_ex (\<lambda>x. sr_path x = oe_Path item \<and> sr_item_id x \<noteq> oe_ItemID item) rows
      then Inl (ErrUniquePath (oe_Path item))
      else Inr (map (\<lambda>x. if sr_item_id x = oe_ItemID item then observed_row item else x) rows))"

definition deleteObservedRemoteState :: "observed_item \<Rightarrow> sql_remote list \<Rightarrow> sql_remote list" where
  "deleteObservedRemoteState item rows = filter (\<lambda>x. sr_item_id x \<noteq> oe_ItemID item) rows"

definition observedRemoteStateUpdate :: "remote_state_row \<Rightarrow> observed_item \<Rightarrow> bool" where
  "observedRemoteStateUpdate existing item \<longleftrightarrow>
     (oe_Path item \<noteq> '''' \<and> oe_Path item \<noteq> rr_Path existing) \<or>
     (\<not> id_IsZero (oe_DriveID item) \<and> oe_DriveID item \<noteq> rr_DriveID existing) \<or>
     oe_ItemType item \<noteq> rr_ItemType existing \<or> oe_Hash item \<noteq> rr_Hash existing \<or>
     oe_Size item \<noteq> rr_Size existing \<or> oe_Mtime item \<noteq> rr_Mtime existing \<or> oe_ETag item \<noteq> rr_ETag existing"

definition processObservedItem :: "observed_item \<Rightarrow> sql_remote list \<Rightarrow> store_error + sql_remote list" where
  "processObservedItem item rows =
     (case scanRemoteStateRow (oe_DriveID item) (oe_ItemID item) rows of
        None \<Rightarrow> if oe_IsDeleted item then Inr rows else insertRemoteState item rows
      | Some existing \<Rightarrow>
          if oe_IsDeleted item then Inr (deleteObservedRemoteState item rows)
          else if \<not> observedRemoteStateUpdate existing item then Inr rows
          else updateRemoteStateFromObs item rows)"

definition with_default_drive :: "drive_id \<Rightarrow> observed_item \<Rightarrow> observed_item" where
  "with_default_drive d item =
     (if id_IsZero (oe_DriveID item) \<and> \<not> id_IsZero d then item\<lparr>oe_DriveID := d\<rparr> else item)"

fun process_events :: "drive_id \<Rightarrow> observed_item list \<Rightarrow> sql_remote list \<Rightarrow> store_error + sql_remote list" where
  "process_events d [] rows = Inr rows"
| "process_events d (e # es) rows =
     (case processObservedItem (with_default_drive d e) rows of
        Inl err \<Rightarrow> Inl err
      | Inr rows' \<Rightarrow> process_events d es rows')"

text \<open>The error, the transaction's database and the store with the drive it remembers.\<close>

definition commitObservationTx ::
  "observed_item list \<Rightarrow> string \<Rightarrow> drive_id \<Rightarrow> sync_store \<Rightarrow> store_error option \<times> store_db \<times> sync_store" where
  "commitObservationTx events newToken driveID m =
     (case readObservationStateFromTx (ss_db m) of
        (tx, state) \<Rightarrow>
          (case ensureContentDriveIDTx driveID state tx m of
             (Some e, _, tx1, m1) \<Rightarrow> (Some e, tx1, m1)
           | (None, state1, tx1, m1) \<Rightarrow>
               (let d = (if id_IsZero driveID then os_ContentDriveID state1 else driveID)
                in case process_events d events (db_remote tx1) of
                     Inl e \<Rightarrow> (Some e, tx1, m1)
                   | Inr rows \<Rightarrow>
                       (let tx2 = tx1\<lparr>db_remote := rows\<rparr>
                        in if newToken \<noteq> ''''
                           then (case writeObservationStateTx (state1\<lparr>os_Cursor := newToken\<rparr>) tx2 m1 of
                                   (tx3, m2) \<Rightarrow> (None, tx3, m2))
                           else (None, tx2, m1)))))"

definition CommitObservation ::
  "observed_item list \<Rightarrow> string \<Rightarrow> drive_id \<Rightarrow> sync_store \<Rightarrow> store_error option \<times> sync_store" where
  "CommitObservation events newToken driveID m =
     (case commitObservationTx events newToken driveID m of
        (Some e, _, m1) \<Rightarrow> (Some e, m1)
      | (None, tx, m1) \<Rightarrow> (None, m1\<lparr>ss_db := tx\<rparr>))"

section \<open>Observation findings\<close>

record observation_findings_batch =
  fb_Issues :: "observation_issue_row list"
  fb_ManagedIssueTypes :: "string list"
  fb_ManagedPaths :: "string list"

record skipped_item =
  sk_item_Path :: string
  sk_item_Reason :: string
  sk_item_BlocksReadBoundary :: bool

definition localObservationManagedIssueTypes :: "string list" where
  "localObservationManagedIssueTypes =
     [IssueInvalidFilename, IssuePathTooLong, IssueFileTooLarge, IssueCaseCollision, IssueLocalReadDenied, IssueHashPanic]"

definition newLocalObservationFindingsBatch :: observation_findings_batch where
  "newLocalObservationFindingsBatch =
     \<lparr>fb_Issues = [], fb_ManagedIssueTypes = localObservationManagedIssueTypes, fb_ManagedPaths = []\<rparr>"

definition newRemoteObservationFindingsBatch :: observation_findings_batch where
  "newRemoteObservationFindingsBatch =
     \<lparr>fb_Issues = [], fb_ManagedIssueTypes = [IssueRemoteReadDenied], fb_ManagedPaths = []\<rparr>"

definition appendManagedObservationPath :: "string \<Rightarrow> observation_findings_batch \<Rightarrow> observation_findings_batch" where
  "appendManagedObservationPath p batch =
     (if p = '''' \<or> p \<in> set (fb_ManagedPaths batch) then batch
      else batch\<lparr>fb_ManagedPaths := fb_ManagedPaths batch @ [p]\<rparr>)"

definition appendSkippedObservationFinding ::
  "drive_id \<Rightarrow> skipped_item \<Rightarrow> observation_findings_batch \<Rightarrow> observation_findings_batch" where
  "appendSkippedObservationFinding d item batch =
     (if sk_item_Reason item = '''' \<or> sk_item_Path item = '''' then batch
      else batch\<lparr>fb_Issues := fb_Issues batch @
             [\<lparr>oi_Path = sk_item_Path item, oi_DriveID = d, oi_IssueType = sk_item_Reason item,
               oi_ScopeKey = (if sk_item_Reason item = IssueLocalReadDenied \<and> sk_item_BlocksReadBoundary item
                              then SKPermLocalRead (sk_item_Path item) else zero_scope_key)\<rparr>]\<rparr>)"

definition localObservationFindingsBatchFromSkippedItems ::
  "drive_id \<Rightarrow> skipped_item list \<Rightarrow> observation_findings_batch" where
  "localObservationFindingsBatchFromSkippedItems d skipped =
     fold (appendSkippedObservationFinding d) skipped newLocalObservationFindingsBatch"

text \<open>\<open>None\<close> stands for the false flag; the observation is given by its skipped item, if it has one.\<close>

definition singlePathObservationFindingsBatch ::
  "drive_id \<Rightarrow> string \<Rightarrow> skipped_item option \<Rightarrow> observation_findings_batch option" where
  "singlePathObservationFindingsBatch d managedPath skipped =
     (if managedPath = '''' then None
      else let batch = appendManagedObservationPath managedPath newLocalObservationFindingsBatch in
        case skipped of
          None \<Rightarrow> Some batch
        | Some item \<Rightarrow>
            (let batch1 = (if sk_item_Path item \<noteq> '''' \<and> sk_item_Path item \<noteq> managedPath
                           then appendManagedObservationPath (sk_item_Path item) batch else batch)
             in Some (appendSkippedObservationFinding d item batch1)))"

definition remoteReadDeniedObservationBatch :: "drive_id \<Rightarrow> string \<Rightarrow> scope_key \<Rightarrow> observation_findings_batch" where
  "remoteReadDeniedObservationBatch d p k =
     newRemoteObservationFindingsBatch\<lparr>fb_Issues :=
       [\<lparr>oi_Path = p, oi_DriveID = d, oi_IssueType = IssueRemoteReadDenied, oi_ScopeKey = k\<rparr>]\<rparr>"

definition rootRemoteReadDeniedObservationFindingsBatch :: "drive_id \<Rightarrow> observation_findings_batch" where
  "rootRemoteReadDeniedObservationFindingsBatch d = remoteReadDeniedObservationBatch d ''/'' (SKPermRemoteRead '''')"

type_synonym issue_key = "string \<times> string"

definition desiredManagedObservationIssues :: "observation_findings_batch \<Rightarrow> issue_key set" where
  "desiredManagedObservationIssues batch =
     set (map (\<lambda>i. (oi_Path i, oi_IssueType i))
       (filter (\<lambda>i. oi_Path i \<noteq> '''' \<and> oi_IssueType i \<noteq> '''') (fb_Issues batch)))"

definition managedObservationTypeSet :: "observation_findings_batch \<Rightarrow> string set" where
  "managedObservationTypeSet batch = set (filter (\<lambda>t. t \<noteq> '''') (fb_ManagedIssueTypes batch))"

definition managedObservationPathSet :: "observation_findings_batch \<Rightarrow> string set" where
  "managedObservationPathSet batch = set (filter (\<lambda>p. p \<noteq> '''') (fb_ManagedPaths batch))"

definition currentManagedObservationIssues ::
  "observation_findings_batch \<Rightarrow> observation_issue_row list \<Rightarrow> issue_key list" where
  "currentManagedObservationIssues batch current =
     (if fb_ManagedIssueTypes batch = [] then []
      else remdups (map (\<lambda>i. (oi_Path i, oi_IssueType i))
        (filter (\<lambda>i. oi_IssueType i \<noteq> '''' \<and> oi_IssueType i \<in> managedObservationTypeSet batch \<and>
                     (managedObservationPathSet batch \<noteq> {} \<longrightarrow> oi_Path i \<in> managedObservationPathSet batch))
           current)))"

definition observationIssueDeletesNotInDesired :: "issue_key list \<Rightarrow> issue_key set \<Rightarrow> issue_key list" where
  "observationIssueDeletesNotInDesired current desired =
     sort_key (\<lambda>k. (snd k, fst k)) (filter (\<lambda>k. k \<notin> desired) current)"

record observation_reconcile_plan =
  rp_issueUpserts :: "observation_issue_row list"
  rp_issueDeletes :: "issue_key list"

definition buildObservationReconcilePlan ::
  "observation_findings_batch \<Rightarrow> observation_issue_row list \<Rightarrow> observation_reconcile_plan" where
  "buildObservationReconcilePlan batch issues =
     \<lparr>rp_issueUpserts = fb_Issues batch,
      rp_issueDeletes = observationIssueDeletesNotInDesired (currentManagedObservationIssues batch issues)
                          (desiredManagedObservationIssues batch)\<rparr>"

definition scanObservationIssueRow :: "drive_id \<Rightarrow> sql_issue \<Rightarrow> observation_issue_row" where
  "scanObservationIssueRow d r =
     \<lparr>oi_Path = si_path r, oi_DriveID = d, oi_IssueType = si_issue_type r, oi_ScopeKey = ParseScopeKey (si_scope_key r)\<rparr>"

definition queryObservationIssueRowsWithRunner :: "store_db \<Rightarrow> observation_issue_row list" where
  "queryObservationIssueRowsWithRunner db =
     map (scanObservationIssueRow (contentDriveIDForDB db)) (sort_key si_path (db_issues db))"

definition ListObservationIssues :: "sync_store \<Rightarrow> sync_store \<times> observation_issue_row list" where
  "ListObservationIssues m =
     (case contentDriveIDForRead m zero_id of
        (m1, d) \<Rightarrow> (m1, map (scanObservationIssueRow d) (sort_key si_path (db_issues (ss_db m1)))))"

definition sql_upsert_issue :: "observation_issue_row \<Rightarrow> sql_issue list \<Rightarrow> sql_issue list" where
  "sql_upsert_issue i rows =
     (let r = \<lparr>si_path = oi_Path i, si_issue_type = oi_IssueType i, si_scope_key = sk_String (oi_ScopeKey i)\<rparr>
      in if list_ex (\<lambda>x. si_path x = oi_Path i) rows
         then map (\<lambda>x. if si_path x = oi_Path i then r else x) rows
         else rows @ [r])"

fun upsert_issues :: "observation_issue_row list \<Rightarrow> sql_issue list \<Rightarrow> store_error + sql_issue list" where
  "upsert_issues [] rows = Inr rows"
| "upsert_issues (i # is) rows =
     (if oi_Path i = '''' then Inl ErrIssueWithoutPath else upsert_issues is (sql_upsert_issue i rows))"

text \<open>The drive of the first issue that has one must be the content drive.\<close>

definition upsertObservationIssuesTx ::
  "observation_issue_row list \<Rightarrow> store_db \<Rightarrow> sync_store \<Rightarrow> store_error option \<times> store_db \<times> sync_store" where
  "upsertObservationIssuesTx issues tx m =
     (case readObservationStateFromTx tx of
        (tx1, state) \<Rightarrow>
          (case (case find (\<lambda>i. \<not> id_IsZero (oi_DriveID i)) issues of
                   None \<Rightarrow> (None, state, tx1, m)
                 | Some i \<Rightarrow> ensureContentDriveIDTx (oi_DriveID i) state tx1 m) of
             (Some e, _, tx2, m2) \<Rightarrow> (Some e, tx2, m2)
           | (None, _, tx2, m2) \<Rightarrow>
               (case upsert_issues issues (db_issues tx2) of
                  Inl e \<Rightarrow> (Some e, tx2, m2)
                | Inr rows \<Rightarrow> (None, tx2\<lparr>db_issues := rows\<rparr>, m2))))"

definition delete_issue :: "issue_key \<Rightarrow> sql_issue list \<Rightarrow> sql_issue list" where
  "delete_issue k rows = filter (\<lambda>r. \<not> (si_path r = fst k \<and> si_issue_type r = snd k)) rows"

definition deleteObservationIssuesTx :: "issue_key list \<Rightarrow> store_db \<Rightarrow> store_db" where
  "deleteObservationIssuesTx deletes tx = tx\<lparr>db_issues := fold delete_issue deletes (db_issues tx)\<rparr>"

definition ReconcileObservationFindings ::
  "observation_findings_batch option \<Rightarrow> sync_store \<Rightarrow> store_error option \<times> sync_store" where
  "ReconcileObservationFindings bo m =
     (case bo of
        None \<Rightarrow> (None, m)
      | Some batch \<Rightarrow>
          (let plan = buildObservationReconcilePlan batch (queryObservationIssueRowsWithRunner (ss_db m))
           in case upsertObservationIssuesTx (rp_issueUpserts plan) (ss_db m) m of
                (Some e, _, m1) \<Rightarrow> (Some e, m1)
              | (None, tx, m1) \<Rightarrow> (None, m1\<lparr>ss_db := deleteObservationIssuesTx (rp_issueDeletes plan) tx\<rparr>)))"

section \<open>The local snapshot is a keyed table\<close>

context keyed_table begin

text \<open>A list of entries written in order: the last one with a key wins.\<close>

lemma upss:
  assumes "inv s" "\<And>b. b \<in> set bs \<Longrightarrow> admissible b"
  shows "inv (fold ups bs s) \<and>
    look (fold ups bs s) k = (case index_by key bs k of Some b \<Rightarrow> Some b | None \<Rightarrow> look s k)"
  using assms(2)
proof (induction bs rule: rev_induct)
  case (snoc b bs)
  then show ?case by (auto simp: inv_ups look_ups)
qed (use assms(1) in simp)

end

definition local_wf :: "sql_local list \<Rightarrow> bool" where
  "local_wf rows \<longleftrightarrow> distinct (map sl_path rows)"

definition local_get :: "sql_local list \<Rightarrow> string \<Rightarrow> local_state_row option" where
  "local_get rows p = map_option scan_local_row (find (\<lambda>r. sl_path r = p) rows)"

lemma find_filter: "find P (filter Q xs) = find (\<lambda>x. Q x \<and> P x) xs"
  by (induction xs) auto

lemma find_append: "find P (xs @ ys) = (case find P xs of None \<Rightarrow> find P ys | Some x \<Rightarrow> Some x)"
  by (induction xs) auto

lemma find_None_False [simp]: "find (\<lambda>x. False) xs = None"
  by (induction xs) auto

lemma local_wf_filter: "local_wf rows \<Longrightarrow> local_wf (filter P rows)"
  by (simp add: local_wf_def distinct_map_filter)

lemma local_get_filter:
  "local_get (filter (\<lambda>x. P (sl_path x)) rows) p = (if P p then local_get rows p else None)"
proof -
  have "find (\<lambda>x. P (sl_path x) \<and> sl_path x = p) rows = (if P p then find (\<lambda>x. sl_path x = p) rows else None)"
    by (induction rows) auto
  then show ?thesis by (simp add: local_get_def find_filter)
qed

lemma local_get_snoc:
  "local_get (rows @ [r]) p =
     (case local_get rows p of None \<Rightarrow> if sl_path r = p then Some (scan_local_row r) else None | Some x \<Rightarrow> Some x)"
  by (simp add: local_get_def find_append split: option.split)

interpretation tree: keyed_table local_wf local_get lr_Path "\<lambda>_. True" "\<lambda>_. True" upsertLocalStateRowTx
    deleteLocalStatePathTx
proof
  fix s b k j
  assume wf: "local_wf s"
  show "local_wf (upsertLocalStateRowTx b s)"
    using wf by (auto simp: upsertLocalStateRowTx_def local_wf_def distinct_map_filter)
  show "local_wf (deleteLocalStatePathTx k s)" using wf by (simp add: deleteLocalStatePathTx_def local_wf_filter)
  show "local_get s k = Some b \<Longrightarrow> lr_Path b = k" by (auto simp: local_get_def find_Some_iff)
  have del: "local_get (filter (\<lambda>x. sl_path x \<noteq> q) s) p = (if p \<noteq> q then local_get s p else None)" for p q
    by (rule local_get_filter)
  show "local_get (upsertLocalStateRowTx b s) k = (if k = lr_Path b then Some b else local_get s k)"
    by (simp add: upsertLocalStateRowTx_def local_get_snoc del split: option.split)
  show "local_get (deleteLocalStatePathTx k s) j = (if j = k then None else local_get s j)"
    by (simp add: deleteLocalStatePathTx_def del)
qed

lemma GetLocal_get: "GetLocalStateByPath p m = local_get (db_local (ss_db m)) p"
  by (simp add: GetLocalStateByPath_def local_get_def)

definition in_subtree :: "string \<Rightarrow> string \<Rightarrow> bool" where
  "in_subtree p root \<longleftrightarrow> p = root \<or> below p root"

lemma delete_prefixes:
  "local_wf rows \<Longrightarrow> local_wf (fold deleteLocalStatePrefixTx ps rows) \<and>
     local_get (fold deleteLocalStatePrefixTx ps rows) p =
       (if list_ex (in_subtree p) ps then None else local_get rows p)"
proof (induction ps arbitrary: rows)
  case (Cons q ps)
  have del: "deleteLocalStatePrefixTx q rows = filter (\<lambda>x. \<not> in_subtree (sl_path x) q) rows"
    by (simp add: deleteLocalStatePrefixTx_def in_subtree_def)
  have "local_get (deleteLocalStatePrefixTx q rows) p = (if \<not> in_subtree p q then local_get rows p else None)"
    unfolding del by (rule local_get_filter)
  then show ?case using Cons.IH [of "deleteLocalStatePrefixTx q rows"] Cons.prems by (simp add: del local_wf_filter)
qed simp

text \<open>
  The local snapshot changes exactly as observed. After a patch a path has the last row
  given for it; else nothing, when it was reported deleted or lies in a deleted subtree; else
  what it had before. Replacing the snapshot leaves exactly the given rows and marks local truth
  as complete. Paths stay unique.
\<close>

theorem local_snapshot_exact:
  assumes "local_wf (db_local (ss_db m))"
  shows "local_wf (db_local (ss_db (applyLocalStatePatch rs dels prefixes m))) \<and>
    GetLocalStateByPath p (applyLocalStatePatch rs dels prefixes m) =
      (case index_by lr_Path rs p of
         Some r \<Rightarrow> Some r
       | None \<Rightarrow> if p \<in> set dels \<or> list_ex (in_subtree p) prefixes then None else GetLocalStateByPath p m) \<and>
    local_wf (db_local (ss_db (ReplaceLocalState rs m))) \<and>
    GetLocalStateByPath p (ReplaceLocalState rs m) = index_by lr_Path rs p \<and>
    os_LocalTruthComplete (snd (ReadObservationState (ReplaceLocalState rs m)))"
proof -
  let ?rows = "db_local (ss_db m)"
  let ?del = "fold deleteLocalStatePathTx dels (fold deleteLocalStatePrefixTx prefixes ?rows)"
  note pre = delete_prefixes [OF assms, of prefixes p]
  note del = tree.dels [of "fold deleteLocalStatePrefixTx prefixes ?rows" dels p]
  note ups = tree.upss [of ?del rs p] tree.upss [of "[]" rs p]
  have obs: "db_local (ss_db (ReplaceLocalState rs m)) = fold upsertLocalStateRowTx rs []"
    "os_LocalTruthComplete (obs_of (ss_db (ReplaceLocalState rs m)))"
    using obs_of_normal [of "ss_db m\<lparr>db_local := fold upsertLocalStateRowTx rs []\<rparr>"]
    by (simp_all add: ReplaceLocalState_def replaceLocalStateTx_def upsertLocalStateRowsTx_def
        markLocalTruthCompleteTx_def Let_def split_beta obs_of_write)
      (simp add: writeObservationStateToTx_def readObservationStateFromTx_def Let_def)
  have read: "snd (ReadObservationState x) = obs_of (ss_db x)" for x by (simp add: ReadObservationState_def split_beta)
  have "local_wf ([])" "local_get [] p = None" by (simp_all add: local_wf_def local_get_def)
  then show ?thesis using pre del ups obs
    by (auto simp: GetLocal_get applyLocalStatePatch_def with_local_def upsertLocalStateRowsTx_def read split: option.split)
qed

section \<open>What a remote observation does to the mirror\<close>

definition remote_wf :: "sql_remote list \<Rightarrow> bool" where
  "remote_wf rows \<longleftrightarrow> distinct (map sr_item_id rows) \<and> distinct (map sr_path rows)"

definition remote_get :: "drive_id \<Rightarrow> sql_remote list \<Rightarrow> string \<Rightarrow> remote_state_row option" where
  "remote_get d rows i = map_option (scan_remote_row d) (find (\<lambda>r. sr_item_id r = i) rows)"

text \<open>The mirror row an observed item stands for.\<close>

definition item_row :: "drive_id \<Rightarrow> observed_item \<Rightarrow> remote_state_row" where
  "item_row d item =
     \<lparr>rr_DriveID = d, rr_ItemID = oe_ItemID item, rr_Path = oe_Path item, rr_ItemType = oe_ItemType item,
      rr_Hash = oe_Hash item, rr_Size = oe_Size item, rr_Mtime = oe_Mtime item, rr_ETag = oe_ETag item\<rparr>"

definition path_taken :: "observed_item \<Rightarrow> sql_remote list \<Rightarrow> bool" where
  "path_taken item rows \<longleftrightarrow> (\<exists>r \<in> set rows. sr_path r = oe_Path item \<and> sr_item_id r \<noteq> oe_ItemID item)"

lemma find_item_None: "find (\<lambda>r. sr_item_id r = i) rows = None \<longleftrightarrow> (\<forall>r \<in> set rows. sr_item_id r \<noteq> i)"
  by (auto simp: find_None_iff)

lemma find_item_Some: "find (\<lambda>r. sr_item_id r = i) rows = Some r \<Longrightarrow> r \<in> set rows \<and> sr_item_id r = i"
  by (auto simp: find_Some_iff)

lemma remote_get_filter:
  "remote_get d (filter (\<lambda>x. sr_item_id x \<noteq> i) rows) j = (if j = i then None else remote_get d rows j)"
proof -
  have "find (\<lambda>x. sr_item_id x \<noteq> i \<and> sr_item_id x = j) rows =
      (if j = i then None else find (\<lambda>x. sr_item_id x = j) rows)"
    by (induction rows) auto
  then show ?thesis by (simp add: remote_get_def find_filter)
qed

lemma remote_get_map:
  assumes "sr_item_id new = i" "\<exists>r \<in> set rows. sr_item_id r = i"
  shows "remote_get d (map (\<lambda>x. if sr_item_id x = i then new else x) rows) j =
    (if j = i then Some (scan_remote_row d new) else remote_get d rows j)"
proof -
  have "find (\<lambda>x. sr_item_id x = j) (map (\<lambda>x. if sr_item_id x = i then new else x) rows) =
      (if j = i then if \<exists>r \<in> set rows. sr_item_id r = i then Some new else None
       else find (\<lambda>x. sr_item_id x = j) rows)"
    using assms(1) by (induction rows) auto
  then show ?thesis using assms(2) by (simp add: remote_get_def)
qed

lemma scan_observed_row:
  "id_normal d \<Longrightarrow> \<not> id_IsZero d \<Longrightarrow> oe_DriveID item = d \<Longrightarrow> scan_remote_row d (observed_row item) = item_row d item"
  by (auto simp: scan_remote_row_def observed_row_def item_row_def remoteStateDriveID_def id_normal_def id_IsZero_def)

lemma observed_row_sel [simp]:
  "sr_item_id (observed_row item) = oe_ItemID item" "sr_path (observed_row item) = oe_Path item"
  by (simp_all add: observed_row_def)

lemma remote_wf_update:
  assumes "remote_wf rows" "\<not> path_taken item rows"
  shows "remote_wf (map (\<lambda>x. if sr_item_id x = oe_ItemID item then observed_row item else x) rows)"
proof -
  let ?f = "\<lambda>x. if sr_item_id x = oe_ItemID item then observed_row item else x"
  have ids: "map sr_item_id (map ?f rows) = map sr_item_id rows" by auto
  have "inj_on (sr_path \<circ> ?f) (set rows)"
  proof (rule inj_onI)
    fix x y assume x: "x \<in> set rows" and y: "y \<in> set rows" and eq: "(sr_path \<circ> ?f) x = (sr_path \<circ> ?f) y"
    have inj: "inj_on sr_item_id (set rows)" "inj_on sr_path (set rows)"
      using assms(1) by (auto simp: remote_wf_def distinct_map)
    show "x = y"
    proof (cases "sr_item_id x = oe_ItemID item"; cases "sr_item_id y = oe_ItemID item")
      assume "sr_item_id x = oe_ItemID item" "sr_item_id y = oe_ItemID item"
      then show ?thesis using inj(1) x y by (metis inj_onD)
    next
      assume "sr_item_id x \<noteq> oe_ItemID item" "sr_item_id y \<noteq> oe_ItemID item"
      then have "sr_path x = sr_path y" using eq by simp
      then show ?thesis using inj(2) x y by (simp add: inj_on_def)
    qed (use x y eq assms(2) in \<open>force simp: path_taken_def\<close>)+
  qed
  moreover have "distinct rows" using assms(1) by (auto simp: remote_wf_def distinct_map)
  ultimately have "distinct (map (sr_path \<circ> ?f) rows)" by (simp add: distinct_map)
  then show ?thesis using assms(1) unfolding remote_wf_def ids by simp
qed

text \<open>An item of the drive \<open>d\<close> with a path, unless it is a deletion.\<close>

definition item_ok :: "drive_id \<Rightarrow> observed_item \<Rightarrow> bool" where
  "item_ok d item \<longleftrightarrow> oe_DriveID item = d \<and> (oe_IsDeleted item \<or> oe_Path item \<noteq> '''')"

lemma unchanged_row:
  assumes "item_ok d item" "\<not> oe_IsDeleted item" "\<not> id_IsZero d" "rr_ItemID row = oe_ItemID item"
  shows "observedRemoteStateUpdate row item \<longleftrightarrow> row \<noteq> item_row d item"
  using assms by (cases row) (auto simp: observedRemoteStateUpdate_def item_row_def item_ok_def)

lemma not_taken_unchanged:
  assumes "remote_wf rows" "remote_get d rows (oe_ItemID item) = Some (item_row d item)"
  shows "\<not> path_taken item rows"
proof
  assume "path_taken item rows"
  then obtain x where x: "x \<in> set rows" "sr_path x = oe_Path item" "sr_item_id x \<noteq> oe_ItemID item"
    by (auto simp: path_taken_def)
  obtain r where r: "find (\<lambda>r. sr_item_id r = oe_ItemID item) rows = Some r" "scan_remote_row d r = item_row d item"
    using assms(2) by (auto simp: remote_get_def)
  have "sr_path r = oe_Path item" using r(2) by (simp add: scan_remote_row_def item_row_def)
  moreover have "inj_on sr_path (set rows)" using assms(1) by (auto simp: remote_wf_def distinct_map)
  ultimately have "x = r" using x find_item_Some [OF r(1)] by (metis inj_onD)
  then show False using x(3) find_item_Some [OF r(1)] by simp
qed

lemma process_spec:
  assumes "remote_wf rows" "item_ok d item" "id_normal d" "\<not> id_IsZero d"
  shows "processObservedItem item rows = Inl e \<Longrightarrow> \<not> oe_IsDeleted item \<and> path_taken item rows"
    and "processObservedItem item rows = Inr rows' \<Longrightarrow> remote_wf rows' \<and>
           remote_get d rows' i =
             (if i = oe_ItemID item then (if oe_IsDeleted item then None else Some (item_row d item))
              else remote_get d rows i)"
proof -
  have New: "New_id (id_value (oe_DriveID item)) = d" using assms(2,3) by (simp add: item_ok_def id_normal_def)
  have scan: "scanRemoteStateRow (oe_DriveID item) (oe_ItemID item) rows = remote_get d rows (oe_ItemID item)"
    by (simp add: scanRemoteStateRow_def remote_get_def New)
  have taken: "list_ex (\<lambda>x. sr_path x = oe_Path item \<and> sr_item_id x \<noteq> oe_ItemID item) rows = path_taken item rows"
    by (auto simp: path_taken_def list_ex_iff)
  note row = scan_observed_row [OF assms(3,4), of item]
  have d: "oe_DriveID item = d" using assms(2) by (simp add: item_ok_def)
  have *: "(\<forall>e. processObservedItem item rows = Inl e \<longrightarrow> \<not> oe_IsDeleted item \<and> path_taken item rows) \<and>
    (\<forall>rows'. processObservedItem item rows = Inr rows' \<longrightarrow> remote_wf rows' \<and>
           remote_get d rows' i =
             (if i = oe_ItemID item then (if oe_IsDeleted item then None else Some (item_row d item))
              else remote_get d rows i))"
  proof (cases "remote_get d rows (oe_ItemID item)")
    case None
    then have fresh: "\<forall>r \<in> set rows. sr_item_id r \<noteq> oe_ItemID item" by (simp add: remote_get_def find_item_None)
    then have ins: "list_ex (\<lambda>x. sr_path x = oe_Path item) rows = path_taken item rows"
      by (auto simp: path_taken_def list_ex_iff)
    have get: "remote_get d (rows @ [observed_row item]) i =
        (if i = oe_ItemID item then Some (item_row d item) else remote_get d rows i)"
      using None by (auto simp: remote_get_def find_append row d split: option.split)
    have wf: "\<not> path_taken item rows \<Longrightarrow> remote_wf (rows @ [observed_row item])"
      using assms(1) fresh by (auto simp: remote_wf_def path_taken_def)
    show ?thesis using assms(1) None get wf
      by (auto simp: processObservedItem_def scan insertRemoteState_def ins)
  next
    case (Some existing)
    then obtain r where r: "find (\<lambda>r. sr_item_id r = oe_ItemID item) rows = Some r" "existing = scan_remote_row d r"
      by (auto simp: remote_get_def)
    have id: "rr_ItemID existing = oe_ItemID item" "\<exists>r \<in> set rows. sr_item_id r = oe_ItemID item"
      using find_item_Some [OF r(1)] r(2) by auto
    have wfd: "remote_wf (deleteObservedRemoteState item rows)"
      using assms(1) by (simp add: deleteObservedRemoteState_def remote_wf_def distinct_map_filter)
    have getd: "remote_get d (deleteObservedRemoteState item rows) i = (if i = oe_ItemID item then None else remote_get d rows i)"
      by (simp add: deleteObservedRemoteState_def remote_get_filter)
    have upd: "updateRemoteStateFromObs item rows =
        (if path_taken item rows then Inl (ErrUniquePath (oe_Path item))
         else Inr (map (\<lambda>x. if sr_item_id x = oe_ItemID item then observed_row item else x) rows))"
      by (simp add: updateRemoteStateFromObs_def taken)
    have getu: "remote_get d (map (\<lambda>x. if sr_item_id x = oe_ItemID item then observed_row item else x) rows) i =
        (if i = oe_ItemID item then Some (item_row d item) else remote_get d rows i)"
      unfolding remote_get_map [OF observed_row_sel(1) id(2)] by (simp add: row d)
    have run: "processObservedItem item rows =
        (if oe_IsDeleted item then Inr (deleteObservedRemoteState item rows)
         else if existing = item_row d item then Inr rows
         else updateRemoteStateFromObs item rows)"
      unfolding processObservedItem_def scan Some using unchanged_row [OF assms(2) _ assms(4) id(1)] by auto
    show ?thesis
      unfolding run upd using Some assms(1) wfd getd getu remote_wf_update [OF assms(1), of item]
      by (cases "oe_IsDeleted item"; cases "existing = item_row d item"; cases "path_taken item rows") simp_all
  qed
  show "processObservedItem item rows = Inl e \<Longrightarrow> \<not> oe_IsDeleted item \<and> path_taken item rows"
    and "processObservedItem item rows = Inr rows' \<Longrightarrow> remote_wf rows' \<and>
           remote_get d rows' i =
             (if i = oe_ItemID item then (if oe_IsDeleted item then None else Some (item_row d item))
              else remote_get d rows i)" using * by blast+
qed

text \<open>The last event of an item decides what the mirror holds for it.\<close>

definition observed_at :: "drive_id \<Rightarrow> observed_item list \<Rightarrow> sql_remote list \<Rightarrow> string \<Rightarrow> remote_state_row option" where
  "observed_at d events rows i =
     (case index_by oe_ItemID events i of
        None \<Rightarrow> remote_get d rows i
      | Some e \<Rightarrow> if oe_IsDeleted e then None else Some (item_row d e))"

definition event_ok :: "drive_id \<Rightarrow> observed_item \<Rightarrow> bool" where
  "event_ok d e \<longleftrightarrow> (id_IsZero (oe_DriveID e) \<or> oe_DriveID e = d) \<and> (oe_IsDeleted e \<or> oe_Path e \<noteq> '''')"

lemma event_item_ok:
  assumes "event_ok d e" "\<not> id_IsZero d"
  shows "item_ok d (with_default_drive d e)"
  using assms by (auto simp: event_ok_def item_ok_def with_default_drive_def)

lemma with_default_sel [simp]:
  "oe_ItemID (with_default_drive d e) = oe_ItemID e" "oe_Path (with_default_drive d e) = oe_Path e"
  "oe_IsDeleted (with_default_drive d e) = oe_IsDeleted e" "item_row d' (with_default_drive d e) = item_row d' e"
  by (simp_all add: with_default_drive_def item_row_def)

lemma process_events_spec:
  assumes "remote_wf rows" "\<forall>e \<in> set events. event_ok d e" "id_normal d" "\<not> id_IsZero d"
    "process_events d events rows = Inr rows'"
  shows "remote_wf rows' \<and> remote_get d rows' = observed_at d events rows"
  using assms(1,2,5)
proof (induction events arbitrary: rows)
  case Nil
  then show ?case by (auto simp: observed_at_def fun_eq_iff)
next
  case (Cons e es)
  obtain rows1 where p: "processObservedItem (with_default_drive d e) rows = Inr rows1"
    and rest: "process_events d es rows1 = Inr rows'"
    using Cons.prems(3) by (auto split: sum.splits)
  have ok: "item_ok d (with_default_drive d e)" using Cons.prems(2) assms(4) by (simp add: event_item_ok)
  note S = process_spec(2) [OF Cons.prems(1) ok assms(3,4) p]
  have "remote_wf rows1" using S by blast
  from Cons.IH [OF this _ rest] have "remote_wf rows'" and get: "remote_get d rows' = observed_at d es rows1"
    using Cons.prems(2) by auto
  moreover have "observed_at d es rows1 i = observed_at d (e # es) rows i" for i
    using S [of i] by (auto simp: observed_at_def index_by_map_of map_add_def split: option.split)
  ultimately show ?case by (simp add: fun_eq_iff)
qed

lemma commitObservationTx_spec:
  assumes "commitObservationTx events token (New_id raw) m = (r, tx, m1)" "\<not> id_IsZero (New_id raw)"
  shows "ss_db m1 = ss_db m"
    and "r = None \<Longrightarrow> process_events (New_id raw) events (db_remote (ss_db m)) = Inr (db_remote tx) \<and>
      obs_of tx = (obs_of (ss_db m))\<lparr>os_ContentDriveID := drive_after (New_id raw) (os_ContentDriveID (obs_of (ss_db m))),
        os_Cursor := if token = '''' then os_Cursor (obs_of (ss_db m)) else token\<rparr>"
proof -
  obtain tx0 state where rd: "readObservationStateFromTx (ss_db m) = (tx0, state)" by force
  have f: "fst (readObservationStateFromTx (ss_db m)) = tx0" "obs_of (ss_db m) = state" by (simp_all add: rd)
  have tx0: "db_remote tx0 = db_remote (ss_db m)" "obs_of tx0 = state" "obs_of (ss_db m) = state"
    using f(2) obs_of_read [of "ss_db m"] unfolding f(1) [symmetric]
    by (simp_all only: f(2)) (simp add: readObservationStateFromTx_def Let_def)
  obtain r1 state1 tx1 m2 where e: "ensureContentDriveIDTx (New_id raw) state tx0 m = (r1, state1, tx1, m2)"
    by (metis prod_cases4)
  note E = ensureContentDriveIDTx_spec [OF e]
  note run = assms(1) [unfolded commitObservationTx_def rd prod.case e]
  show "ss_db m1 = ss_db m" using run E(3)
    by (auto simp: Let_def writeObservationStateTx_def split: option.splits sum.splits if_splits)
  assume r: "r = None"
  have r1: "r1 = None" using run r by (auto split: option.splits)
  obtain rows where rows: "process_events (New_id raw) events (db_remote tx1) = Inr rows"
    using run r r1 assms(2) by (auto simp: Let_def split: sum.splits)
  have n: "id_normal (os_ContentDriveID state1)"
    using E(2) [OF r1] obs_of_normal [of "ss_db m"] tx0 by (simp add: drive_after_normal)
  have state1: "obs_of tx1 = state1"
  proof (cases "id_IsZero (os_ContentDriveID state)")
    case True
    then show ?thesis using e assms(2)
      by (auto simp: ensureContentDriveIDTx_def Let_def writeObservationStateTx_def obs_of_write)
  next
    case False
    then show ?thesis using e assms(2) r1 tx0 by (auto simp: ensureContentDriveIDTx_def split: option.splits)
  qed
  have keep: "obs_of (tx1\<lparr>db_remote := rows\<rparr>) = obs_of tx1" by (simp add: readObservationStateFromTx_def Let_def)
  have t: "tx = (if token = '''' then tx1\<lparr>db_remote := rows\<rparr>
      else writeObservationStateToTx (state1\<lparr>os_Cursor := token\<rparr>) (tx1\<lparr>db_remote := rows\<rparr>))"
    using run r r1 rows assms(2) by (auto simp: Let_def writeObservationStateTx_def split: if_splits)
  have "obs_of tx = state1\<lparr>os_Cursor := if token = '''' then os_Cursor state1 else token\<rparr>"
    using n by (simp add: t keep state1 obs_of_write)
  then show "process_events (New_id raw) events (db_remote (ss_db m)) = Inr (db_remote tx) \<and>
      obs_of tx = (obs_of (ss_db m))\<lparr>os_ContentDriveID := drive_after (New_id raw) (os_ContentDriveID (obs_of (ss_db m))),
        os_Cursor := if token = '''' then os_Cursor (obs_of (ss_db m)) else token\<rparr>"
    using E(2) [OF r1] E(5) rows tx0 by (simp add: t writeObservationStateToTx_def)
qed

text \<open>
  C12: Committing a batch of remote observations is atomic and exact. When it fails the database
  is untouched. When it succeeds, every item has in the mirror what the last event about it
  says: nothing if it was a deletion, else exactly the observed row; items without an event
  are unchanged; ids and paths stay unique; and the cursor advances in the same transaction,
  exactly when the batch carries one.
\<close>

theorem observation_commit_exact:
  assumes "CommitObservation events token (New_id raw) m = (r, m')" "\<not> id_IsZero (New_id raw)"
    "\<forall>e \<in> set events. event_ok (New_id raw) e" "remote_wf (db_remote (ss_db m))"
  shows "(r \<noteq> None \<longrightarrow> ss_db m' = ss_db m) \<and>
    (r = None \<longrightarrow>
       remote_wf (db_remote (ss_db m')) \<and>
       remote_get (New_id raw) (db_remote (ss_db m')) = observed_at (New_id raw) events (db_remote (ss_db m)) \<and>
       os_Cursor (snd (ReadObservationState m')) =
         (if token = '''' then os_Cursor (snd (ReadObservationState m)) else token))"
proof -
  obtain r' tx m1 where c: "commitObservationTx events token (New_id raw) m = (r', tx, m1)" by (metis prod_cases3)
  note S = commitObservationTx_spec [OF c assms(2)]
  have r: "r = r'" and m': "m' = (case r' of Some e \<Rightarrow> m1 | None \<Rightarrow> m1\<lparr>ss_db := tx\<rparr>)"
    using assms(1) c by (auto simp: CommitObservation_def split: option.splits)
  have "remote_wf (db_remote tx) \<and> remote_get (New_id raw) (db_remote tx) = observed_at (New_id raw) events (db_remote (ss_db m))"
    if "r = None"
    by (rule process_events_spec [OF assms(4,3) _ assms(2)]) (use S(2) that r in simp_all)
  moreover have read: "snd (ReadObservationState x) = obs_of (ss_db x)" for x by (simp add: ReadObservationState_def split_beta)
  ultimately show ?thesis using S r m' by (cases r') auto
qed

section \<open>What reconciling findings does to the issues\<close>

definition issue_wf :: "sql_issue list \<Rightarrow> bool" where
  "issue_wf rows \<longleftrightarrow> distinct (map si_path rows)"

definition issue_get :: "sql_issue list \<Rightarrow> string \<Rightarrow> (string \<times> string) option" where
  "issue_get rows p = map_option (\<lambda>r. (si_issue_type r, si_scope_key r)) (find (\<lambda>r. si_path r = p) rows)"

definition issue_entry :: "observation_issue_row \<Rightarrow> string \<times> string" where
  "issue_entry i = (oi_IssueType i, sk_String (oi_ScopeKey i))"

lemma upsert_issue_spec:
  "issue_wf rows \<Longrightarrow> issue_wf (sql_upsert_issue i rows) \<and>
     issue_get (sql_upsert_issue i rows) p = (if p = oi_Path i then Some (issue_entry i) else issue_get rows p)"
proof -
  assume wf: "issue_wf rows"
  let ?r = "\<lparr>si_path = oi_Path i, si_issue_type = oi_IssueType i, si_scope_key = sk_String (oi_ScopeKey i)\<rparr>"
  let ?m = "map (\<lambda>x. if si_path x = oi_Path i then ?r else x) rows"
  have "map si_path ?m = map si_path rows" by auto
  then have "issue_wf ?m" using wf by (simp add: issue_wf_def del: map_map)
  moreover have "find (\<lambda>x. si_path x = p) ?m =
      (if p = oi_Path i then if list_ex (\<lambda>x. si_path x = oi_Path i) rows then Some ?r else None
       else find (\<lambda>x. si_path x = p) rows)" by (induction rows) auto
  moreover have "\<not> list_ex (\<lambda>x. si_path x = oi_Path i) rows \<Longrightarrow> issue_wf (rows @ [?r])"
    using wf by (auto simp: issue_wf_def list_ex_iff)
  moreover have "\<not> list_ex (\<lambda>x. si_path x = oi_Path i) rows \<Longrightarrow> find (\<lambda>x. si_path x = oi_Path i) rows = None"
    by (auto simp: find_None_iff list_ex_iff)
  ultimately show ?thesis
    by (auto simp: sql_upsert_issue_def Let_def issue_get_def issue_entry_def find_append split: option.split)
qed

lemma upsert_issues_spec:
  assumes "issue_wf rows" "upsert_issues is rows = Inr rows'"
  shows "issue_wf rows' \<and>
    issue_get rows' p = (case index_by oi_Path is p of Some i \<Rightarrow> Some (issue_entry i) | None \<Rightarrow> issue_get rows p)"
  using assms
proof (induction "is" arbitrary: rows)
  case (Cons i "is")
  have "upsert_issues is (sql_upsert_issue i rows) = Inr rows'" using Cons.prems(2) by (auto split: if_splits)
  then show ?case using Cons.IH [of "sql_upsert_issue i rows"] upsert_issue_spec [OF Cons.prems(1)]
    by (auto simp: index_by_map_of map_add_def split: option.splits)
qed simp

lemma delete_issues_spec:
  "issue_wf rows \<Longrightarrow> issue_wf (fold delete_issue ks rows) \<and>
     issue_get (fold delete_issue ks rows) p =
       (case issue_get rows p of None \<Rightarrow> None | Some (t, k) \<Rightarrow> if (p, t) \<in> set ks then None else Some (t, k))"
proof (induction ks arbitrary: rows)
  case (Cons k ks)
  have one: "issue_wf (delete_issue k rows)" using Cons.prems by (simp add: issue_wf_def delete_issue_def distinct_map_filter)
  have get: "issue_get (delete_issue k rows) p =
      (case issue_get rows p of None \<Rightarrow> None | Some (t, s) \<Rightarrow> if (p, t) = k then None else Some (t, s))"
  proof -
    have "find (\<lambda>x. \<not> (si_path x = fst k \<and> si_issue_type x = snd k) \<and> si_path x = p) rows =
        (case find (\<lambda>x. si_path x = p) rows of None \<Rightarrow> None | Some x \<Rightarrow> if (p, si_issue_type x) = k then None else Some x)"
      using Cons.prems unfolding issue_wf_def
    proof (induction rows)
      case (Cons a rows)
      then show ?case by (cases "si_path a = p") (force simp: find_None_iff split: option.splits)+
    qed simp
    then show ?thesis by (auto simp: issue_get_def delete_issue_def find_filter split: option.splits)
  qed
  show ?case using Cons.IH [OF one] get by (auto split: option.splits)
qed (auto split: option.splits)

text \<open>The stored problems a batch is allowed to withdraw.\<close>

definition managed_by :: "observation_findings_batch \<Rightarrow> string \<Rightarrow> string \<Rightarrow> bool" where
  "managed_by batch p t \<longleftrightarrow>
     t \<noteq> '''' \<and> t \<in> managedObservationTypeSet batch \<and>
     (managedObservationPathSet batch \<noteq> {} \<longrightarrow> p \<in> managedObservationPathSet batch)"

lemma issue_get_iff:
  "issue_wf rows \<Longrightarrow> (\<exists>k. issue_get rows p = Some (t, k)) \<longleftrightarrow> (\<exists>r \<in> set rows. si_path r = p \<and> si_issue_type r = t)"
proof (induction rows)
  case (Cons a rows)
  have "\<forall>r \<in> set rows. si_path r \<noteq> si_path a" "issue_wf rows" using Cons.prems by (auto simp: issue_wf_def image_iff)
  then show ?case using Cons.IH by (cases "si_path a = p") (auto simp: issue_get_def)
qed (simp add: issue_get_def)

lemma deletes_iff:
  assumes "issue_wf (db_issues db)"
  shows "(p, t) \<in> set (rp_issueDeletes (buildObservationReconcilePlan batch (queryObservationIssueRowsWithRunner db))) \<longleftrightarrow>
    (\<exists>k. issue_get (db_issues db) p = Some (t, k)) \<and> managed_by batch p t \<and> (p, t) \<notin> desiredManagedObservationIssues batch"
  unfolding issue_get_iff [OF assms]
  by (auto simp: buildObservationReconcilePlan_def observationIssueDeletesNotInDesired_def
      currentManagedObservationIssues_def queryObservationIssueRowsWithRunner_def scanObservationIssueRow_def
      managed_by_def managedObservationTypeSet_def filter_map comp_def)

lemma upsert_issues_paths: "upsert_issues is rows = Inr rows' \<Longrightarrow> i \<in> set is \<Longrightarrow> oi_Path i \<noteq> ''''"
  by (induction "is" arbitrary: rows) (auto split: if_splits)

lemma upsertObservationIssuesTx_spec:
  assumes "upsertObservationIssuesTx issues (ss_db m) m = (r, tx, m1)"
  shows "ss_db m1 = ss_db m" and "r = None \<Longrightarrow> upsert_issues issues (db_issues (ss_db m)) = Inr (db_issues tx)"
proof -
  obtain tx0 state where rd: "readObservationStateFromTx (ss_db m) = (tx0, state)" by force
  then have tx0: "db_issues tx0 = db_issues (ss_db m)" by (auto simp: readObservationStateFromTx_def Let_def)
  obtain r1 state1 tx1 m2 where e: "(case find (\<lambda>i. \<not> id_IsZero (oi_DriveID i)) issues of
      None \<Rightarrow> (None, state, tx0, m) | Some i \<Rightarrow> ensureContentDriveIDTx (oi_DriveID i) state tx0 m) = (r1, state1, tx1, m2)"
    by (metis prod_cases4)
  have keep: "ss_db m2 = ss_db m" "db_issues tx1 = db_issues (ss_db m)"
    using e tx0 by (auto split: option.splits dest: ensureContentDriveIDTx_spec(3,7))
  note run = assms [unfolded upsertObservationIssuesTx_def rd prod.case e]
  show "ss_db m1 = ss_db m" using run keep by (auto split: option.splits sum.splits)
  show "r = None \<Longrightarrow> upsert_issues issues (db_issues (ss_db m)) = Inr (db_issues tx)"
    using run keep by (auto split: option.splits sum.splits)
qed

text \<open>
  Reconciling a batch of findings replaces exactly what the batch manages. Afterwards a path
  with a finding in the batch has its last finding there; a path without one loses its stored
  problem exactly when the batch manages that kind of problem and, if it names paths, that path;
  everything else stays, and on failure nothing changes.
\<close>

theorem findings_reconciled:
  assumes "ReconcileObservationFindings (Some batch) m = (r, m')" "issue_wf (db_issues (ss_db m))"
  shows "(r \<noteq> None \<longrightarrow> ss_db m' = ss_db m) \<and>
    (r = None \<longrightarrow>
       issue_wf (db_issues (ss_db m')) \<and>
       issue_get (db_issues (ss_db m')) p =
         (case index_by oi_Path (fb_Issues batch) p of
            Some i \<Rightarrow> Some (issue_entry i)
          | None \<Rightarrow> (case issue_get (db_issues (ss_db m)) p of
                      None \<Rightarrow> None
                    | Some (t, k) \<Rightarrow> if managed_by batch p t then None else Some (t, k))))"
proof -
  let ?plan = "buildObservationReconcilePlan batch (queryObservationIssueRowsWithRunner (ss_db m))"
  obtain r' tx m1 where u: "upsertObservationIssuesTx (fb_Issues batch) (ss_db m) m = (r', tx, m1)" by (metis prod_cases3)
  note U = upsertObservationIssuesTx_spec [OF u]
  have "rp_issueUpserts ?plan = fb_Issues batch" by (simp add: buildObservationReconcilePlan_def)
  then have r: "r = r'" and m': "m' = (case r' of Some e \<Rightarrow> m1 | None \<Rightarrow> m1\<lparr>ss_db := deleteObservationIssuesTx (rp_issueDeletes ?plan) tx\<rparr>)"
    using assms(1) u by (auto simp: ReconcileObservationFindings_def Let_def split: option.splits)
  show ?thesis
  proof (cases r')
    case None
    have up: "upsert_issues (fb_Issues batch) (db_issues (ss_db m)) = Inr (db_issues tx)" by (rule U(2) [OF None])
    note G = upsert_issues_spec [OF assms(2) up, of p]
    note D = delete_issues_spec [of "db_issues tx" "rp_issueDeletes ?plan" p]
    have db: "db_issues (ss_db m') = fold delete_issue (rp_issueDeletes ?plan) (db_issues tx)"
      by (simp add: m' None deleteObservationIssuesTx_def)
    have kept: "(p, oi_IssueType i) \<notin> set (rp_issueDeletes ?plan)" if i: "index_by oi_Path (fb_Issues batch) p = Some i" for i
    proof -
      have "i \<in> set (fb_Issues batch)" "oi_Path i = p" using index_by_Some [OF i] by simp_all
      then have "oi_IssueType i \<noteq> '''' \<Longrightarrow> (p, oi_IssueType i) \<in> desiredManagedObservationIssues batch"
        using upsert_issues_paths [OF up] by (force simp: desiredManagedObservationIssues_def)
      then show ?thesis unfolding deletes_iff [OF assms(2)] by (auto simp: managed_by_def)
    qed
    have other: "(p, t) \<in> set (rp_issueDeletes ?plan) \<longleftrightarrow> managed_by batch p t"
      if "index_by oi_Path (fb_Issues batch) p = None" "issue_get (db_issues (ss_db m)) p = Some (t, k)" for t k
      using that unfolding deletes_iff [OF assms(2)] by (auto simp: index_by_None desiredManagedObservationIssues_def)
    show ?thesis unfolding db using r None G D kept other by (auto simp: issue_entry_def split: option.splits)
  qed (use r m' U(1) in simp)
qed

section \<open>Concrete runs\<close>

definition remote_file :: "string \<Rightarrow> string \<Rightarrow> observed_item" where
  "remote_file i p =
     \<lparr>oe_DriveID = zero_id, oe_ItemID = i, oe_Path = p, oe_ItemType = ItemTypeFile, oe_Hash = ''h'', oe_Size = 1,
      oe_Mtime = 0, oe_ETag = '''', oe_IsDeleted = False\<rparr>"

definition two_files_store :: sync_store where
  "two_files_store = snd (CommitObservation [remote_file ''1'' ''a'', remote_file ''2'' ''b''] ''t1'' (New_id ''d1'') fresh_store)"

lemma two_files_wf: "remote_wf (db_remote (ss_db two_files_store))"
  unfolding remote_wf_def by code_simp

theorem observation_commit_exact_witness:
  "remote_get (New_id ''d1'') (db_remote (ss_db (snd (CommitObservation [remote_file ''1'' ''c''] ''t2'' (New_id ''d1'') two_files_store)))) ''1''
     = Some (item_row (New_id ''d1'') (remote_file ''1'' ''c''))"
proof -
  let ?run = "CommitObservation [remote_file ''1'' ''c''] ''t2'' (New_id ''d1'') two_files_store"
  have run: "?run = (fst ?run, snd ?run)" by simp
  have ok: "fst ?run = None" by code_simp
  have z: "\<not> id_IsZero (New_id ''d1'')" by code_simp
  have e: "\<forall>e \<in> set [remote_file ''1'' ''c'']. event_ok (New_id ''d1'') e"
    by (simp add: event_ok_def remote_file_def id_IsZero_def zero_id_def)
  have "observed_at (New_id ''d1'') [remote_file ''1'' ''c''] rows ''1'' = Some (item_row (New_id ''d1'') (remote_file ''1'' ''c''))" for rows
    by (simp add: observed_at_def index_by_map_of remote_file_def)
  then show ?thesis using observation_commit_exact [OF run z e two_files_wf] ok by simp
qed


definition problem_at :: "string \<Rightarrow> string \<Rightarrow> sql_issue" where
  "problem_at p t = \<lparr>si_path = p, si_issue_type = t, si_scope_key = ''''\<rparr>"

theorem findings_reconciled_witness:
  "issue_get (db_issues (ss_db (snd (ReconcileObservationFindings
      (Some (localObservationFindingsBatchFromSkippedItems (New_id ''d1'')
        [\<lparr>sk_item_Path = ''b'', sk_item_Reason = IssuePathTooLong, sk_item_BlocksReadBoundary = False\<rparr>]))
      (fresh_store\<lparr>ss_db := (ss_db fresh_store)\<lparr>db_issues := [problem_at ''a'' IssueInvalidFilename]\<rparr>\<rparr>))))) ''a'' = None"
proof -
  let ?batch = "localObservationFindingsBatchFromSkippedItems (New_id ''d1'')
        [\<lparr>sk_item_Path = ''b'', sk_item_Reason = IssuePathTooLong, sk_item_BlocksReadBoundary = False\<rparr>]"
  let ?m = "fresh_store\<lparr>ss_db := (ss_db fresh_store)\<lparr>db_issues := [problem_at ''a'' IssueInvalidFilename]\<rparr>\<rparr>"
  let ?run = "ReconcileObservationFindings (Some ?batch) ?m"
  have run: "?run = (fst ?run, snd ?run)" by simp
  have ok: "fst ?run = None" by code_simp
  have i: "index_by oi_Path (fb_Issues ?batch) ''a'' = None" unfolding index_by_map_of by code_simp
  have o': "issue_get (db_issues (ss_db ?m)) ''a'' = Some (IssueInvalidFilename, '''')" by code_simp
  have t: "managed_by ?batch ''a'' IssueInvalidFilename"
    unfolding managed_by_def managedObservationTypeSet_def managedObservationPathSet_def by code_simp
  show ?thesis using findings_reconciled [OF run, of "''a''"] ok i o' t by (simp add: issue_wf_def)
qed

definition local_file :: "string \<Rightarrow> local_state_row" where
  "local_file p = \<lparr>lr_Path = p, lr_ItemType = ItemTypeFile, lr_Hash = ''h'', lr_Size = 1, lr_Mtime = 5,
     lr_LocalDevice = 1, lr_LocalInode = 1, lr_LocalHasIdentity = True\<rparr>"

theorem local_snapshot_exact_witness:
  "GetLocalStateByPath ''d/x'' (applyLocalStatePatch [] [] [''d''] (ReplaceLocalState [local_file ''d/x''] fresh_store)) = None"
proof -
  have wf: "local_wf (db_local (ss_db fresh_store))" by (simp add: local_wf_def fresh_store_def)
  have "local_wf (db_local (ss_db (ReplaceLocalState [local_file ''d/x''] fresh_store)))"
    using local_snapshot_exact [OF wf] by blast
  from local_snapshot_exact [OF this, of "[]" "[]" "[''d'']" "''d/x''"] show ?thesis
    by (simp add: in_subtree_def has_prefix_def)
qed

end
