(* ===== verification/Freshness.thy ===== *)
theory Freshness
  imports SnapshotStore TruthStatus
begin

text \<open>
  The check that an action still matches what the store knows before it runs
  (\<^verbatim>\<open>action_freshness.go\<close>): the view the planner had is compared with the current local and
  remote snapshots, as far as these are trusted. A nil pointer is \<open>None\<close>, and a row that was
  looked up and not found is \<open>None\<close> too, so the pairs of row and found flag are one option.
\<close>

section \<open>Inputs and decisions\<close>

record action_freshness_inputs =
  fi_LocalTruthComplete :: bool
  fi_RemoteTruthKnown :: bool
  fi_LocalAtView :: "local_state_row option"
  fi_LocalAtMovePeer :: "local_state_row option"
  fi_RemoteAtView :: "remote_state_row option"
  fi_RemoteAtMovePeer :: "remote_state_row option"
  fi_RemoteByID :: "remote_state_row option"

datatype action_freshness_source =
    actionFreshnessSourceUnknown | actionFreshnessSourceLocalTruth | actionFreshnessSourceRemoteTruth

record action_freshness_decision =
  fd_Fresh :: bool
  fd_Reason :: string
  fd_Source :: action_freshness_source

definition freshAction :: action_freshness_decision where
  "freshAction = \<lparr>fd_Fresh = True, fd_Reason = '''', fd_Source = actionFreshnessSourceUnknown\<rparr>"

definition staleAction :: "string \<Rightarrow> action_freshness_decision" where
  "staleAction reason = \<lparr>fd_Fresh = False, fd_Reason = reason, fd_Source = actionFreshnessSourceUnknown\<rparr>"

definition staleLocalAction :: "string \<Rightarrow> action_freshness_decision" where
  "staleLocalAction reason = (staleAction reason)\<lparr>fd_Source := actionFreshnessSourceLocalTruth\<rparr>"

definition staleRemoteAction :: "string \<Rightarrow> action_freshness_decision" where
  "staleRemoteAction reason = (staleAction reason)\<lparr>fd_Source := actionFreshnessSourceRemoteTruth\<rparr>"

section \<open>What an action depends on\<close>

definition actionViewPath :: "action \<Rightarrow> string" where
  "actionViewPath a =
     (case a_View a of Some v \<Rightarrow> if pv_Path v \<noteq> '''' then pv_Path v else a_Path a | None \<Rightarrow> a_Path a)"

definition actionHasPlannerView :: "action \<Rightarrow> bool" where
  "actionHasPlannerView a \<longleftrightarrow> a_View a \<noteq> None \<and> actionViewPath a \<noteq> ''''"

definition actionSkipsFreshnessValidation :: "action \<Rightarrow> bool" where
  "actionSkipsFreshnessValidation a \<longleftrightarrow> a_Type a = ActionBaselineUpdate \<or> a_Type a = ActionCleanup"

definition actionUsesLocalFreshness :: "action \<Rightarrow> bool" where
  "actionUsesLocalFreshness a \<longleftrightarrow>
     actionHasPlannerView a \<and> \<not> (a_Type a = ActionDownload \<and> a_RequireMissingLocalTarget a)"

definition actionUsesRemoteFreshness :: "action \<Rightarrow> bool" where
  "actionUsesRemoteFreshness a \<longleftrightarrow> actionHasPlannerView a"

definition view_Local :: "action \<Rightarrow> local_state option" where
  "view_Local a = (case a_View a of None \<Rightarrow> None | Some v \<Rightarrow> pv_Local v)"

definition view_Remote :: "action \<Rightarrow> remote_state option" where
  "view_Remote a = (case a_View a of None \<Rightarrow> None | Some v \<Rightarrow> pv_Remote v)"

definition view_Baseline :: "action \<Rightarrow> baseline_entry option" where
  "view_Baseline a = (case a_View a of None \<Rightarrow> None | Some v \<Rightarrow> pv_Baseline v)"

definition actionNeedsRemoteIdentityFreshness :: "action \<Rightarrow> bool" where
  "actionNeedsRemoteIdentityFreshness a \<longleftrightarrow>
     actionHasPlannerView a \<and>
     (case view_Remote a of None \<Rightarrow> False | Some r \<Rightarrow> \<not> rs_IsDeleted r) \<and> a_ItemID a \<noteq> ''''"

definition movePeerPath :: "action \<Rightarrow> string option" where
  "movePeerPath a =
     (if \<not> actionHasPlannerView a then None
      else case a_Type a of
             ActionLocalMove \<Rightarrow> if a_OldPath a \<noteq> '''' then Some (a_OldPath a) else None
           | ActionRemoteMove \<Rightarrow>
               if a_Path a \<noteq> '''' \<and> a_Path a \<noteq> actionViewPath a then Some (a_Path a) else None
           | _ \<Rightarrow> None)"

definition expectedRemoteIdentityPath :: "action \<Rightarrow> string" where
  "expectedRemoteIdentityPath a =
     (if a_Type a = ActionRemoteMove \<and> a_OldPath a \<noteq> '''' then a_OldPath a
      else if a_Type a = ActionLocalMove \<and> a_Path a \<noteq> '''' then a_Path a
      else actionViewPath a)"

section \<open>Matching rows with the plan\<close>

definition localRowMatchesPlanned :: "local_state_row \<Rightarrow> local_state \<Rightarrow> bool" where
  "localRowMatchesPlanned row planned =
     (if lr_ItemType row \<noteq> ls_ItemType planned then False
      else if ls_LocalHasIdentity planned \<and> lr_LocalHasIdentity row \<and>
              (lr_LocalDevice row \<noteq> ls_LocalDevice planned \<or> lr_LocalInode row \<noteq> ls_LocalInode planned) then False
      else if ls_ItemType planned = ItemTypeFolder then True
      else if lr_Hash row \<noteq> '''' \<or> ls_Hash planned \<noteq> ''''
      then lr_Hash row = ls_Hash planned \<and> lr_Size row = ls_Size planned
      else lr_Size row = ls_Size planned \<and> lr_Mtime row = ls_Mtime planned)"

definition localRowIdentityMatchesBaseline :: "local_state_row \<Rightarrow> baseline_entry \<Rightarrow> bool" where
  "localRowIdentityMatchesBaseline row b =
     (if \<not> be_LocalHasIdentity b \<or> \<not> lr_LocalHasIdentity row then True
      else lr_LocalDevice row = be_LocalDevice b \<and> lr_LocalInode row = be_LocalInode b)"

definition localFileRowMatchesBaseline :: "local_state_row \<Rightarrow> baseline_entry \<Rightarrow> bool" where
  "localFileRowMatchesBaseline row b =
     (if lr_Hash row \<noteq> '''' \<or> be_LocalHash b \<noteq> ''''
      then lr_Hash row = be_LocalHash b \<and> (\<not> be_LocalSizeKnown b \<or> lr_Size row = be_LocalSize b)
      else if be_LocalSizeKnown b \<and> lr_Size row \<noteq> be_LocalSize b then False
      else lr_Mtime row \<noteq> 0 \<and> lr_Mtime row = be_LocalMtime b)"

definition localRowMatchesBaseline :: "local_state_row \<Rightarrow> baseline_entry \<Rightarrow> bool" where
  "localRowMatchesBaseline row b =
     (if lr_ItemType row \<noteq> be_ItemType b then False
      else if \<not> localRowIdentityMatchesBaseline row b then False
      else if be_ItemType b = ItemTypeFolder then True
      else localFileRowMatchesBaseline row b)"

definition remoteContentMatchesPlanned :: "remote_state_row \<Rightarrow> remote_state \<Rightarrow> bool" where
  "remoteContentMatchesPlanned row planned =
     (if rs_ItemType planned = ItemTypeFolder then True
      else if rr_Hash row \<noteq> '''' \<or> rs_Hash planned \<noteq> ''''
      then rr_Hash row = rs_Hash planned \<and> rr_Size row = rs_Size planned
      else if rr_Size row \<noteq> rs_Size planned then False
      else if rr_Mtime row \<noteq> 0 \<and> rs_Mtime planned \<noteq> 0 then rr_Mtime row = rs_Mtime planned
      else True)"

definition remoteIdentityMatchesPlannedExceptETag :: "remote_state_row \<Rightarrow> remote_state \<Rightarrow> bool" where
  "remoteIdentityMatchesPlannedExceptETag row planned =
     (if rs_ItemID planned \<noteq> '''' \<and> rr_ItemID row \<noteq> rs_ItemID planned then False
      else if \<not> id_IsZero (rs_DriveID planned) \<and> \<not> id_Equal (rr_DriveID row) (rs_DriveID planned) then False
      else rr_ItemType row = rs_ItemType planned)"

definition remoteIdentityMatchesPlanned :: "remote_state_row \<Rightarrow> remote_state \<Rightarrow> bool" where
  "remoteIdentityMatchesPlanned row planned =
     (if \<not> remoteIdentityMatchesPlannedExceptETag row planned then False
      else \<not> (rs_ETag planned \<noteq> '''' \<and> rr_ETag row \<noteq> rs_ETag planned))"

definition remoteRowMatchesPlanned :: "remote_state_row \<Rightarrow> remote_state \<Rightarrow> bool" where
  "remoteRowMatchesPlanned row planned \<longleftrightarrow>
     remoteIdentityMatchesPlanned row planned \<and> remoteContentMatchesPlanned row planned"

definition remoteRowMatchesPostRemoteMoveUpload :: "remote_state_row \<Rightarrow> remote_state \<Rightarrow> bool" where
  "remoteRowMatchesPostRemoteMoveUpload row planned \<longleftrightarrow>
     remoteIdentityMatchesPlannedExceptETag row planned \<and> remoteContentMatchesPlanned row planned"

definition actionUploadHasMovedBaseline :: "action \<Rightarrow> bool" where
  "actionUploadHasMovedBaseline a \<longleftrightarrow>
     a_Type a = ActionUpload \<and> view_Remote a \<noteq> None \<and>
     (case view_Baseline a of None \<Rightarrow> False | Some b \<Rightarrow> be_Path b \<noteq> '''' \<and> be_Path b \<noteq> actionViewPath a)"

definition plannedPostMoveRemoteMatchesBaseline :: "remote_state option \<Rightarrow> baseline_entry option \<Rightarrow> bool" where
  "plannedPostMoveRemoteMatchesBaseline ro bo =
     (case (bo, ro) of
        (Some b, Some r) \<Rightarrow>
          if be_ItemType b \<noteq> ItemTypeFile \<or> rs_ItemType r \<noteq> ItemTypeFile then False
          else if be_ItemID b \<noteq> '''' \<and> rs_ItemID r \<noteq> '''' \<and> be_ItemID b \<noteq> rs_ItemID r then False
          else if \<not> id_IsZero (be_DriveID b) \<and> \<not> id_IsZero (rs_DriveID r) \<and> \<not> id_Equal (be_DriveID b) (rs_DriveID r) then False
          else True
      | _ \<Rightarrow> False)"

definition plannedPostRemoteMoveContentUpload :: "action \<Rightarrow> bool" where
  "plannedPostRemoteMoveContentUpload a \<longleftrightarrow>
     actionUploadHasMovedBaseline a \<and> plannedPostMoveRemoteMatchesBaseline (view_Remote a) (view_Baseline a)"

definition remoteRowMatchesPlannedForAction :: "action \<Rightarrow> remote_state_row \<Rightarrow> remote_state \<Rightarrow> bool" where
  "remoteRowMatchesPlannedForAction a row planned =
     (if plannedPostRemoteMoveContentUpload a then remoteRowMatchesPostRemoteMoveUpload row planned
      else remoteRowMatchesPlanned row planned)"

section \<open>The evaluation\<close>

definition evaluateLocalActionFreshness :: "action \<Rightarrow> action_freshness_inputs \<Rightarrow> action_freshness_decision" where
  "evaluateLocalActionFreshness a i =
     (if \<not> fi_LocalTruthComplete i \<or> \<not> actionUsesLocalFreshness a then freshAction
      else case view_Local a of
             None \<Rightarrow>
               if fi_LocalAtView i \<noteq> None
               then staleLocalAction (actionViewPath a @ '' has current local truth but was absent when planned'')
               else freshAction
           | Some planned \<Rightarrow>
               (case fi_LocalAtView i of
                  None \<Rightarrow> staleLocalAction (actionViewPath a @ '' is missing from current local truth'')
                | Some row \<Rightarrow>
                    if \<not> localRowMatchesPlanned row planned
                    then staleLocalAction (actionViewPath a @ '' local truth changed since planning'')
                    else freshAction))"

definition evaluateRemoteActionFreshness :: "action \<Rightarrow> action_freshness_inputs \<Rightarrow> action_freshness_decision" where
  "evaluateRemoteActionFreshness a i =
     (if \<not> fi_RemoteTruthKnown i \<or> \<not> actionUsesRemoteFreshness a then freshAction
      else case (case view_Remote a of None \<Rightarrow> None | Some r \<Rightarrow> if rs_IsDeleted r then None else Some r) of
             None \<Rightarrow>
               if fi_RemoteAtView i \<noteq> None
               then staleRemoteAction (actionViewPath a @ '' has current remote truth but was absent when planned'')
               else freshAction
           | Some planned \<Rightarrow>
               (case fi_RemoteAtView i of
                  None \<Rightarrow> staleRemoteAction (actionViewPath a @ '' is missing from current remote truth'')
                | Some row \<Rightarrow>
                    if \<not> remoteRowMatchesPlannedForAction a row planned
                    then staleRemoteAction (actionViewPath a @ '' remote truth changed since planning'')
                    else freshAction))"

definition evaluateLocalMoveEndpointFreshness :: "action \<Rightarrow> action_freshness_inputs \<Rightarrow> action_freshness_decision" where
  "evaluateLocalMoveEndpointFreshness a i =
     (let reappeared =
            (if fi_RemoteTruthKnown i \<and> a_OldPath a \<noteq> '''' \<and> fi_RemoteAtMovePeer i \<noteq> None
             then staleRemoteAction (a_OldPath a @ '' remote move source reappeared in current remote truth'')
             else freshAction)
      in if fi_LocalTruthComplete i \<and> a_OldPath a \<noteq> '''' then
           (case fi_LocalAtMovePeer i of
              None \<Rightarrow> staleLocalAction (a_OldPath a @ '' local move source is missing from current local truth'')
            | Some row \<Rightarrow>
                (case view_Baseline a of
                   Some b \<Rightarrow>
                     if \<not> localRowMatchesBaseline row b
                     then staleLocalAction (a_OldPath a @ '' local move source changed since planning'')
                     else reappeared
                 | None \<Rightarrow> reappeared))
         else reappeared)"

definition evaluateRemoteMoveEndpointFreshness :: "action \<Rightarrow> action_freshness_inputs \<Rightarrow> action_freshness_decision" where
  "evaluateRemoteMoveEndpointFreshness a i =
     (if fi_LocalTruthComplete i \<and> a_Path a \<noteq> '''' \<and> a_Path a \<noteq> actionViewPath a \<and> fi_LocalAtMovePeer i = None
      then staleLocalAction (a_Path a @ '' local move destination is missing from current local truth'')
      else if fi_RemoteTruthKnown i \<and> a_Path a \<noteq> '''' \<and> a_Path a \<noteq> actionViewPath a \<and> fi_RemoteAtMovePeer i \<noteq> None
      then staleRemoteAction (a_Path a @ '' remote move destination already exists in current remote truth'')
      else freshAction)"

definition evaluateMoveEndpointFreshness :: "action \<Rightarrow> action_freshness_inputs \<Rightarrow> action_freshness_decision" where
  "evaluateMoveEndpointFreshness a i =
     (case a_Type a of
        ActionLocalMove \<Rightarrow> evaluateLocalMoveEndpointFreshness a i
      | ActionRemoteMove \<Rightarrow> evaluateRemoteMoveEndpointFreshness a i
      | _ \<Rightarrow> freshAction)"

definition evaluateRemoteIdentityFreshness :: "action \<Rightarrow> action_freshness_inputs \<Rightarrow> action_freshness_decision" where
  "evaluateRemoteIdentityFreshness a i =
     (if \<not> fi_RemoteTruthKnown i \<or> \<not> actionNeedsRemoteIdentityFreshness a then freshAction
      else case fi_RemoteByID i of
             None \<Rightarrow> staleRemoteAction (actionViewPath a @ '' remote item '' @ a_ItemID a @ '' is missing from current remote truth'')
           | Some row \<Rightarrow>
               if rr_Path row \<noteq> expectedRemoteIdentityPath a
               then staleRemoteAction (actionViewPath a @ '' remote item '' @ a_ItemID a @ '' moved to '' @ rr_Path row)
               else if \<not> (case view_Remote a of None \<Rightarrow> False | Some r \<Rightarrow> remoteRowMatchesPlannedForAction a row r)
               then staleRemoteAction (actionViewPath a @ '' remote item '' @ a_ItemID a @ '' changed since planning'')
               else freshAction)"

definition evaluateActionFreshness :: "action \<Rightarrow> action_freshness_inputs \<Rightarrow> action_freshness_decision" where
  "evaluateActionFreshness a i =
     (if actionSkipsFreshnessValidation a then freshAction
      else if \<not> actionHasPlannerView a then staleAction (a_Path a @ '' action is missing planner view'')
      else let l = evaluateLocalActionFreshness a i; r = evaluateRemoteActionFreshness a i;
               e = evaluateMoveEndpointFreshness a i; d = evaluateRemoteIdentityFreshness a i
           in if \<not> fd_Fresh l then l else if \<not> fd_Fresh r then r else if \<not> fd_Fresh e then e
              else if \<not> fd_Fresh d then d else freshAction)"

section \<open>Loading the inputs\<close>

definition loadLocalActionFreshnessInputs :: "action \<Rightarrow> sync_store \<Rightarrow> action_freshness_inputs \<Rightarrow> action_freshness_inputs" where
  "loadLocalActionFreshnessInputs a m i =
     (if \<not> fi_LocalTruthComplete i then i
      else
      (let i1 = (if actionUsesLocalFreshness a
                 then i\<lparr>fi_LocalAtView := GetLocalStateByPath (actionViewPath a) m\<rparr> else i)
       in case movePeerPath a of
            None \<Rightarrow> i1
          | Some p \<Rightarrow> i1\<lparr>fi_LocalAtMovePeer := GetLocalStateByPath p m\<rparr>))"

text \<open>
  The lookups pass the zero drive, so the content drive of the store is used and the check of
  the drive cannot fail; each lookup may make the store remember its content drive.
\<close>

definition row_of_lookup :: "store_error + remote_state_row option \<Rightarrow> remote_state_row option" where
  "row_of_lookup r = (case r of Inl e \<Rightarrow> None | Inr row \<Rightarrow> row)"

definition lookup_if ::
  "bool \<Rightarrow> (sync_store \<Rightarrow> sync_store \<times> (store_error + remote_state_row option)) \<Rightarrow> sync_store \<Rightarrow>
   sync_store \<times> remote_state_row option" where
  "lookup_if c f m = (if c then (case f m of (m', r) \<Rightarrow> (m', row_of_lookup r)) else (m, None))"

definition loadRemoteActionFreshnessInputs ::
  "action \<Rightarrow> sync_store \<Rightarrow> action_freshness_inputs \<Rightarrow> sync_store \<times> action_freshness_inputs" where
  "loadRemoteActionFreshnessInputs a m i =
     (if \<not> fi_RemoteTruthKnown i then (m, i)
      else
        case lookup_if (actionUsesRemoteFreshness a) (GetRemoteStateByPath (actionViewPath a) zero_id) m of (m1, v) \<Rightarrow>
        (case lookup_if (movePeerPath a \<noteq> None) (GetRemoteStateByPath (the (movePeerPath a)) zero_id) m1 of (m2, p) \<Rightarrow>
        (case lookup_if (actionNeedsRemoteIdentityFreshness a) (GetRemoteStateByID zero_id (a_ItemID a)) m2 of (m3, d) \<Rightarrow>
          (m3, i\<lparr>fi_RemoteAtView := v, fi_RemoteAtMovePeer := p, fi_RemoteByID := d\<rparr>))))"

definition no_inputs :: action_freshness_inputs where
  "no_inputs =
     \<lparr>fi_LocalTruthComplete = False, fi_RemoteTruthKnown = False, fi_LocalAtView = None, fi_LocalAtMovePeer = None,
      fi_RemoteAtView = None, fi_RemoteAtMovePeer = None, fi_RemoteByID = None\<rparr>"

definition loadActionFreshnessInputs :: "action \<Rightarrow> sync_store \<Rightarrow> sync_store \<times> action_freshness_inputs" where
  "loadActionFreshnessInputs a m =
     (case ReadObservationState m of
        (m1, state) \<Rightarrow>
          (let i0 = no_inputs\<lparr>fi_LocalTruthComplete := os_LocalTruthComplete state,
                 fi_RemoteTruthKnown := \<not> id_IsZero (os_ContentDriveID state) \<or> os_Cursor state \<noteq> ''''\<rparr>
           in loadRemoteActionFreshnessInputs a m1 (loadLocalActionFreshnessInputs a m1 i0)))"

text \<open>
  \<open>canceled\<close> says that the context is done, \<open>bypass\<close> that it carries the shutdown bypass. The
  store and the action are never nil where the engine and the workers call this.
\<close>

definition evaluateActionFreshnessFromStore ::
  "bool \<Rightarrow> bool \<Rightarrow> action \<Rightarrow> sync_store \<Rightarrow> sync_store \<times> (store_error + action_freshness_decision)" where
  "evaluateActionFreshnessFromStore canceled bypass a m =
     (if canceled then (m, if bypass then Inr freshAction else Inl ErrFreshnessCanceled)
      else if actionSkipsFreshnessValidation a then (m, Inr freshAction)
      else if \<not> actionHasPlannerView a then (m, Inl ErrMissingPlannerView)
      else case loadActionFreshnessInputs a m of (m1, inputs) \<Rightarrow> (m1, Inr (evaluateActionFreshness a inputs)))"

section \<open>What freshness means for the tables\<close>

definition local_trusted :: "sync_store \<Rightarrow> bool" where
  "local_trusted m \<longleftrightarrow> os_LocalTruthComplete (snd (ReadObservationState m))"

definition remote_trusted :: "sync_store \<Rightarrow> bool" where
  "remote_trusted m \<longleftrightarrow>
     (let s = snd (ReadObservationState m) in \<not> id_IsZero (os_ContentDriveID s) \<or> os_Cursor s \<noteq> '''')"

text \<open>The drive of the mirror: the recorded one, else the one the process remembers.\<close>

definition mirror_drive :: "sync_store \<Rightarrow> drive_id" where
  "mirror_drive m =
     (let d = contentDriveIDForDB (ss_db m)
      in if \<not> id_IsZero d then d
         else if \<not> id_IsZero (ss_cachedContentDriveID m) then ss_cachedContentDriveID m else zero_id)"

definition remote_at :: "sync_store \<Rightarrow> string \<Rightarrow> remote_state_row option" where
  "remote_at m p = map_option (scan_remote_row (mirror_drive m)) (find (\<lambda>r. sr_path r = p) (db_remote (ss_db m)))"

definition remote_item :: "sync_store \<Rightarrow> string \<Rightarrow> remote_state_row option" where
  "remote_item m i = map_option (scan_remote_row (mirror_drive m)) (find (\<lambda>r. sr_item_id r = i) (db_remote (ss_db m)))"

text \<open>A current row agrees with the planned state: both absent, or both there and matching.\<close>

definition agrees :: "('r \<Rightarrow> 'p \<Rightarrow> bool) \<Rightarrow> 'r option \<Rightarrow> 'p option \<Rightarrow> bool" where
  "agrees match row planned =
     (case (row, planned) of (None, None) \<Rightarrow> True | (Some r, Some p) \<Rightarrow> match r p | _ \<Rightarrow> False)"

definition planned_remote :: "action \<Rightarrow> remote_state option" where
  "planned_remote a = (case view_Remote a of None \<Rightarrow> None | Some r \<Rightarrow> if rs_IsDeleted r then None else Some r)"

definition move_endpoints_hold :: "action \<Rightarrow> sync_store \<Rightarrow> bool" where
  "move_endpoints_hold a m \<longleftrightarrow>
     (a_Type a = ActionLocalMove \<and> a_OldPath a \<noteq> '''' \<longrightarrow>
        (local_trusted m \<longrightarrow>
           (\<exists>row. GetLocalStateByPath (a_OldPath a) m = Some row \<and>
              (\<forall>b. view_Baseline a = Some b \<longrightarrow> localRowMatchesBaseline row b))) \<and>
        (remote_trusted m \<longrightarrow> remote_at m (a_OldPath a) = None)) \<and>
     (a_Type a = ActionRemoteMove \<and> a_Path a \<noteq> '''' \<and> a_Path a \<noteq> actionViewPath a \<longrightarrow>
        (local_trusted m \<longrightarrow> GetLocalStateByPath (a_Path a) m \<noteq> None) \<and>
        (remote_trusted m \<longrightarrow> remote_at m (a_Path a) = None))"

definition identity_holds :: "action \<Rightarrow> sync_store \<Rightarrow> bool" where
  "identity_holds a m \<longleftrightarrow>
     (remote_trusted m \<and> actionNeedsRemoteIdentityFreshness a \<longrightarrow>
        (\<exists>row planned. remote_item m (a_ItemID a) = Some row \<and> view_Remote a = Some planned \<and>
           rr_Path row = expectedRemoteIdentityPath a \<and> remoteRowMatchesPlannedForAction a row planned))"

definition still_as_planned :: "action \<Rightarrow> sync_store \<Rightarrow> bool" where
  "still_as_planned a m \<longleftrightarrow>
     (local_trusted m \<and> actionUsesLocalFreshness a \<longrightarrow>
        agrees localRowMatchesPlanned (GetLocalStateByPath (actionViewPath a) m) (view_Local a)) \<and>
     (remote_trusted m \<longrightarrow>
        agrees (remoteRowMatchesPlannedForAction a) (remote_at m (actionViewPath a)) (planned_remote a)) \<and>
     move_endpoints_hold a m \<and> identity_holds a m"

lemma fresh_simps [simp]:
  "fd_Fresh freshAction" "\<not> fd_Fresh (staleAction s)" "\<not> fd_Fresh (staleLocalAction s)" "\<not> fd_Fresh (staleRemoteAction s)"
  "fd_Source (staleLocalAction s) = actionFreshnessSourceLocalTruth"
  "fd_Source (staleRemoteAction s) = actionFreshnessSourceRemoteTruth"
  by (simp_all add: freshAction_def staleAction_def staleLocalAction_def staleRemoteAction_def)

text \<open>The store after its observation state was read: the same tables and the mirror's drive in memory.\<close>

lemma after_read:
  assumes "ReadObservationState m = (m1, s)"
  shows "db_remote (ss_db m1) = db_remote (ss_db m)" "db_local (ss_db m1) = db_local (ss_db m)"
    "contentDriveIDForRead m1 zero_id = (m1, mirror_drive m)"
proof -
  have m1: "m1 = rememberContentDriveID (os_ContentDriveID s) (m\<lparr>ss_db := fst (readObservationStateFromTx (ss_db m))\<rparr>)"
    and s: "s = obs_of (ss_db m)"
    using assms by (auto simp: ReadObservationState_def split_beta)
  show "db_remote (ss_db m1) = db_remote (ss_db m)" "db_local (ss_db m1) = db_local (ss_db m)"
    by (simp_all add: m1 readObservationStateFromTx_def Let_def)
  have d: "os_ContentDriveID s = contentDriveIDForDB (ss_db m)" by (simp add: s contentDrive_obs)
  have db: "contentDriveIDForDB (ss_db m1) = contentDriveIDForDB (ss_db m)"
    unfolding contentDrive_obs m1 by simp
  have zz: "id_IsZero zero_id" by (simp add: id_IsZero_def zero_id_def)
  show "contentDriveIDForRead m1 zero_id = (m1, mirror_drive m)"
    using zz unfolding contentDriveIDForRead_def mirror_drive_def Let_def db
    by (cases "id_IsZero (contentDriveIDForDB (ss_db m))") (simp_all add: m1 rememberContentDriveID_def d)
qed

lemma lookups_after_read:
  assumes "ReadObservationState m = (m1, s)"
  shows "lookup_if c (GetRemoteStateByPath p zero_id) m1 = (m1, if c then remote_at m p else None)"
    "lookup_if c (GetRemoteStateByID zero_id i) m1 = (m1, if c then remote_item m i else None)"
    "GetLocalStateByPath p m1 = GetLocalStateByPath p m"
  using after_read [OF assms]
  by (simp_all add: lookup_if_def GetRemoteStateByPath_def GetRemoteStateByID_def getRemoteStateRow_def
      ensureMatchingContentDriveID_def id_IsZero_def zero_id_def row_of_lookup_def remote_at_def remote_item_def
      GetLocalStateByPath_def)

definition inputs_of :: "action \<Rightarrow> sync_store \<Rightarrow> action_freshness_inputs" where
  "inputs_of a m =
     \<lparr>fi_LocalTruthComplete = local_trusted m, fi_RemoteTruthKnown = remote_trusted m,
      fi_LocalAtView = (if local_trusted m \<and> actionUsesLocalFreshness a then GetLocalStateByPath (actionViewPath a) m else None),
      fi_LocalAtMovePeer =
        (if local_trusted m then (case movePeerPath a of None \<Rightarrow> None | Some p \<Rightarrow> GetLocalStateByPath p m) else None),
      fi_RemoteAtView = (if remote_trusted m \<and> actionUsesRemoteFreshness a then remote_at m (actionViewPath a) else None),
      fi_RemoteAtMovePeer =
        (if remote_trusted m then (case movePeerPath a of None \<Rightarrow> None | Some p \<Rightarrow> remote_at m p) else None),
      fi_RemoteByID =
        (if remote_trusted m \<and> actionNeedsRemoteIdentityFreshness a then remote_item m (a_ItemID a) else None)\<rparr>"

lemma load_inputs: "snd (loadActionFreshnessInputs a m) = inputs_of a m"
proof -
  obtain m1 s where r: "ReadObservationState m = (m1, s)" by force
  have t: "local_trusted m = os_LocalTruthComplete s"
    "remote_trusted m \<longleftrightarrow> \<not> id_IsZero (os_ContentDriveID s) \<or> os_Cursor s \<noteq> ''''"
    by (simp_all add: local_trusted_def remote_trusted_def r)
  show ?thesis
    unfolding loadActionFreshnessInputs_def r prod.case Let_def loadLocalActionFreshnessInputs_def
      loadRemoteActionFreshnessInputs_def lookups_after_read [OF r] inputs_of_def
    by (cases "movePeerPath a") (simp_all add: t no_inputs_def)
qed

lemma local_fresh_iff:
  "fd_Fresh (evaluateLocalActionFreshness a (inputs_of a m)) \<longleftrightarrow>
     (local_trusted m \<and> actionUsesLocalFreshness a \<longrightarrow>
        agrees localRowMatchesPlanned (GetLocalStateByPath (actionViewPath a) m) (view_Local a))"
  by (simp add: evaluateLocalActionFreshness_def inputs_of_def agrees_def split: option.splits)

lemma remote_fresh_iff:
  "actionHasPlannerView a \<Longrightarrow> fd_Fresh (evaluateRemoteActionFreshness a (inputs_of a m)) \<longleftrightarrow>
     (remote_trusted m \<longrightarrow>
        agrees (remoteRowMatchesPlannedForAction a) (remote_at m (actionViewPath a)) (planned_remote a))"
  by (simp add: evaluateRemoteActionFreshness_def inputs_of_def agrees_def planned_remote_def [symmetric]
      actionUsesRemoteFreshness_def split: option.splits)

lemma move_fresh_iff:
  assumes "actionHasPlannerView a"
  shows "fd_Fresh (evaluateMoveEndpointFreshness a (inputs_of a m)) \<longleftrightarrow> move_endpoints_hold a m"
proof (cases "a_Type a = ActionLocalMove \<or> a_Type a = ActionRemoteMove")
  case True
  then show ?thesis
  proof
    assume t: "a_Type a = ActionLocalMove"
    show ?thesis using t assms
      by (cases "a_OldPath a = ''''"; cases "local_trusted m"; cases "remote_trusted m"; cases "view_Baseline a";
          cases "GetLocalStateByPath (a_OldPath a) m")
        (simp_all add: evaluateMoveEndpointFreshness_def evaluateLocalMoveEndpointFreshness_def move_endpoints_hold_def
          inputs_of_def movePeerPath_def)
  next
    assume t: "a_Type a = ActionRemoteMove"
    show ?thesis using t assms
      by (cases "a_Path a = '''' \<or> a_Path a = actionViewPath a"; cases "local_trusted m"; cases "remote_trusted m")
        (auto simp: evaluateMoveEndpointFreshness_def evaluateRemoteMoveEndpointFreshness_def move_endpoints_hold_def
          inputs_of_def movePeerPath_def)
  qed
next
  case False
  then show ?thesis
    by (cases "a_Type a") (simp_all add: evaluateMoveEndpointFreshness_def move_endpoints_hold_def)
qed

lemma identity_fresh_iff:
  "fd_Fresh (evaluateRemoteIdentityFreshness a (inputs_of a m)) \<longleftrightarrow> identity_holds a m"
  by (auto simp: evaluateRemoteIdentityFreshness_def inputs_of_def identity_holds_def actionNeedsRemoteIdentityFreshness_def
      split: option.splits if_splits)

lemma stale_source:
  "\<not> fd_Fresh (evaluateLocalActionFreshness a i) \<Longrightarrow>
     fd_Source (evaluateLocalActionFreshness a i) = actionFreshnessSourceLocalTruth"
  "\<not> fd_Fresh (evaluateRemoteActionFreshness a i) \<Longrightarrow>
     fd_Source (evaluateRemoteActionFreshness a i) = actionFreshnessSourceRemoteTruth"
  "\<not> fd_Fresh (evaluateMoveEndpointFreshness a i) \<Longrightarrow>
     fd_Source (evaluateMoveEndpointFreshness a i) \<noteq> actionFreshnessSourceUnknown"
  "\<not> fd_Fresh (evaluateRemoteIdentityFreshness a i) \<Longrightarrow>
     fd_Source (evaluateRemoteIdentityFreshness a i) = actionFreshnessSourceRemoteTruth"
     apply (auto simp: evaluateLocalActionFreshness_def split: option.splits if_splits) [1]
    apply (auto simp: evaluateRemoteActionFreshness_def split: option.splits if_splits) [1]
   apply (auto simp: evaluateMoveEndpointFreshness_def evaluateLocalMoveEndpointFreshness_def Let_def
      evaluateRemoteMoveEndpointFreshness_def split: option.splits if_splits action_type.splits) [1]
  apply (auto simp: evaluateRemoteIdentityFreshness_def split: option.splits if_splits) [1]
  done

lemma freshness_check:
  assumes "\<not> actionSkipsFreshnessValidation a" "actionHasPlannerView a"
  shows "\<exists>d. snd (evaluateActionFreshnessFromStore False bypass a m) = Inr d \<and>
    (fd_Fresh d \<longleftrightarrow> still_as_planned a m) \<and>
    (\<not> fd_Fresh d \<longrightarrow> fd_Source d \<noteq> actionFreshnessSourceUnknown)"
proof -
  let ?i = "inputs_of a m"
  have e: "snd (evaluateActionFreshnessFromStore False bypass a m) = Inr (evaluateActionFreshness a ?i)"
    using assms by (simp add: evaluateActionFreshnessFromStore_def split_beta load_inputs)
  have "fd_Fresh (evaluateActionFreshness a ?i) \<longleftrightarrow> still_as_planned a m"
    using assms local_fresh_iff [of a m] remote_fresh_iff [of a m] move_fresh_iff [of a m] identity_fresh_iff [of a m]
    by (simp add: evaluateActionFreshness_def Let_def still_as_planned_def)
  moreover have "\<not> fd_Fresh (evaluateActionFreshness a ?i) \<longrightarrow>
      fd_Source (evaluateActionFreshness a ?i) \<noteq> actionFreshnessSourceUnknown"
    using assms stale_source [of a ?i] by (simp add: evaluateActionFreshness_def Let_def)
  ultimately show ?thesis using e by simp
qed


section \<open>A concrete check\<close>

definition new_file_upload :: action where
  "new_file_upload =
     \<lparr>a_Type = ActionUpload, a_DriveID = zero_id, a_ItemID = '''', a_Path = ''x'', a_OldPath = '''', a_CreateSide = CreateLocal,
      a_View = Some \<lparr>pv_Path = ''x'', pv_Remote = None,
        pv_Local = Some \<lparr>ls_Name = ''x'', ls_ItemType = ItemTypeFile, ls_Size = 1, ls_Hash = ''h'', ls_Mtime = 5,
                         ls_LocalDevice = 1, ls_LocalInode = 1, ls_LocalHasIdentity = True\<rparr>,
        pv_Baseline = None,
        pv_TruthStatus = \<lparr>pt_Local = availablePathTruthSideStatus, pt_Remote = availablePathTruthSideStatus\<rparr>\<rparr>,
      a_RequireMissingLocalTarget = False\<rparr>"


end
