(* ===== verification/AdmittedSafety.thy ===== *)
theory AdmittedSafety
  imports PlanSafety Freshness
begin

text \<open>
  Planning and freshness together: a delete is planned on one snapshot and checked against the
  tables right before it runs. The planner's view of the path carries the rows of the snapshot
  to the check.
\<close>

text \<open>A view holds the rows of its path in the snapshot.\<close>

lemma index_by_find:
  "distinct (map key xs) \<Longrightarrow> (\<And>x. key' (f x) = key x) \<Longrightarrow>
     index_by key' (map f xs) p = map_option f (find (\<lambda>x. key x = p) xs)"
proof (induction xs)
  case (Cons x xs)
  then have "index_by key' (map f xs) (key x) = None" by (auto simp: index_by_None)
  with Cons show ?case by (auto simp: index_by_map_of map_add_def split: option.split)
qed simp

lemma view_rows:
  assumes "unique_paths t" "queryComparisonState t = Some cs" "row \<in> set cs"
    "path_view_for (index_by lr_Path (map scan_local_row (st_local t)))
       (index_by rr_Path (map (scan_remote_row d) (st_remote t))) bl ts row = Inr v"
  shows "pv_Local v = map_option (localStateFromSnapshotRow \<circ> scan_local_row) (local_row_at t (cr_Path row))"
    and "pv_Remote v = map_option (remoteStateFromSnapshotRow \<circ> scan_remote_row d) (remote_row_at t (cr_Path row))"
proof -
  obtain j where j: "(cr_Path row, j) \<in> set (joined_rows t)" "comparison_row_of (cr_Path row) j = Some row"
    using comparison_row_cases [OF assms(2,3)] .
  have cols: "cr_LocalPresent row \<longleftrightarrow> local_row_at t (cr_Path row) \<noteq> None" "cr_RemotePresent row \<longleftrightarrow> remote_row_at t (cr_Path row) \<noteq> None"
    using comparison_row_present [OF j(2)] joined_rows_at [OF assms(1) j(1)] by simp_all
  have l: "index_by lr_Path (map scan_local_row (st_local t)) (cr_Path row) = map_option scan_local_row (local_row_at t (cr_Path row))"
    using assms(1) unfolding local_row_at_def unique_paths_def by (intro index_by_find) simp_all
  have r: "index_by rr_Path (map (scan_remote_row d) (st_remote t)) (cr_Path row) =
      map_option (scan_remote_row d) (remote_row_at t (cr_Path row))"
    using assms(1) unfolding remote_row_at_def unique_paths_def by (intro index_by_find) simp_all
  show "pv_Local v = map_option (localStateFromSnapshotRow \<circ> scan_local_row) (local_row_at t (cr_Path row))"
    "pv_Remote v = map_option (remoteStateFromSnapshotRow \<circ> scan_remote_row d) (remote_row_at t (cr_Path row))"
    using assms(4) cols
    by (auto simp: path_view_for_def side_of_def l r comp_def split: option.splits sum.splits if_splits)
qed

lemma plan_delete_view:
  assumes "unique_paths t" "plan_of t d bl issues mount mode = Some (Inr plan)" "a \<in> set (ap_Actions plan)"
    "is_delete_type (a_Type a)"
  obtains v where "a_View a = Some v" "pv_Path v = a_Path a"
    "pv_Local v = map_option (localStateFromSnapshotRow \<circ> scan_local_row) (local_row_at t (a_Path a))"
    "pv_Remote v = map_option (remoteStateFromSnapshotRow \<circ> scan_remote_row d) (remote_row_at t (a_Path a))"
proof -
  let ?ls = "map scan_local_row (st_local t)" and ?rs = "map (scan_remote_row d) (st_remote t)"
  obtain cs recs where q: "queryComparisonState t = Some cs" and
    p: "PlanCurrentState cs recs ?ls ?rs issues bl mount mode = Inr plan"
    using assms(2) by (auto simp: plan_of_def split: option.splits)
  let ?ts = "StatusByPath (NewTruthAvailabilityIndex issues) (comparisonPaths cs)"
  obtain views cmps acts where
    v: "buildSQLitePathViews cs ?ls ?rs bl ?ts = Inr (views, cmps)" and
    r: "actions_for_rows recs cmps views = Inr acts" and
    ap: "ap_Actions plan = bindMountContext (filter (\<lambda>a. actionAllowedInMode a mode) (normalizeCurrentPlanActions acts mode)) mount"
    using PlanCurrentState_Inr [OF p] .
  obtain b where b: "b \<in> set (normalizeCurrentPlanActions acts mode)" "a_Type a = a_Type b" "a_Path a = a_Path b"
    "a_View a = a_View b"
    using bindMountContext_mem assms(3) unfolding ap by fastforce
  have "b \<in> set acts" "is_delete_type (a_Type b)"
    using normalize_delete [OF rows_delete_view_ok [OF v r] b(1)] b(2) assms(4) by auto
  moreover obtain rec cmp zs where rec: "buildActionsForReconciliation rec cmp views = Inr zs" "b \<in> set zs"
    using r \<open>b \<in> set acts\<close> collect_results_Inr by (fastforce simp: actions_for_rows_def split: option.splits)
  ultimately obtain view where view: "views (rc_Path rec) = Some view" "a_View b = Some view" "a_Path b = pv_Path view"
    using row_action_delete [OF rec] by metis
  obtain vs where vs: "map (path_view_for (index_by lr_Path ?ls) (index_by rr_Path ?rs) bl ?ts) cs = map Inr vs"
    and views: "views = index_by pv_Path vs"
    using v collect_results_single [of "path_view_for (index_by lr_Path ?ls) (index_by rr_Path ?rs) bl ?ts" cs]
    by (auto simp: buildSQLitePathViews_def split: sum.splits)
  have "view \<in> set vs" using index_by_Some [of pv_Path vs "rc_Path rec" view] view(1) views by simp
  then have "Inr view \<in> set (map (path_view_for (index_by lr_Path ?ls) (index_by rr_Path ?rs) bl ?ts) cs)"
    unfolding vs by simp
  then obtain row where row: "row \<in> set cs" "path_view_for (index_by lr_Path ?ls) (index_by rr_Path ?rs) bl ?ts row = Inr view"
    by auto
  have "cr_Path row = a_Path a" using path_view_for_D(1) [OF row(2)] view(3) b(3) by simp
  with view_rows [OF assms(1) q row] that [of view] view b show ?thesis by simp
qed

text \<open>
  C13: A delete that passes the freshness check is safe against the tables as they are now. If a
  planned local delete is admitted while both snapshots are trusted, the remote mirror still
  has nothing at the path, and the local item there still matches the one that was unchanged
  since the last sync when the plan was made; the same holds with the sides exchanged for a
  remote delete.
\<close>

theorem admitted_deletes_safe:
  assumes "unique_paths t" "plan_of t d bl issues mount mode = Some (Inr plan)" "a \<in> set (ap_Actions plan)"
    "relative_path (a_Path a)" "local_trusted m" "remote_trusted m"
    "snd (evaluateActionFreshnessFromStore False bypass a m) = Inr dec" "fd_Fresh dec"
  shows "(a_Type a = ActionLocalDelete \<longrightarrow>
      remote_at m (a_Path a) = None \<and>
      (\<exists>b l row. baseline_row_at t (a_Path a) = Some b \<and> local_row_at t (a_Path a) = Some l \<and>
         \<not> local_changed (Some b) (Some l) \<and> GetLocalStateByPath (a_Path a) m = Some row \<and>
         localRowMatchesPlanned row (localStateFromSnapshotRow (scan_local_row l)))) \<and>
    (a_Type a = ActionRemoteDelete \<longrightarrow>
      GetLocalStateByPath (a_Path a) m = None \<and>
      (\<exists>b r row. baseline_row_at t (a_Path a) = Some b \<and> remote_row_at t (a_Path a) = Some r \<and>
         \<not> remote_changed (Some b) (Some r) \<and> remote_at m (a_Path a) = Some row \<and>
         remoteRowMatchesPlanned row (remoteStateFromSnapshotRow (scan_remote_row d r))))"
proof (cases "a_Type a = ActionLocalDelete \<or> a_Type a = ActionRemoteDelete")
  case False
  then show ?thesis by blast
next
  case True
  then have del: "is_delete_type (a_Type a)" by (auto simp: is_delete_type_def)
  obtain v where v: "a_View a = Some v" "pv_Path v = a_Path a"
    "pv_Local v = map_option (localStateFromSnapshotRow \<circ> scan_local_row) (local_row_at t (a_Path a))"
    "pv_Remote v = map_option (remoteStateFromSnapshotRow \<circ> scan_remote_row d) (remote_row_at t (a_Path a))"
    using plan_delete_view [OF assms(1-3) del] .
  have vp: "actionViewPath a = a_Path a" "actionHasPlannerView a" "\<not> actionSkipsFreshnessValidation a"
    "actionUsesLocalFreshness a" "\<not> plannedPostRemoteMoveContentUpload a"
    using v(1,2) assms(4) True
    by (auto simp: actionViewPath_def actionHasPlannerView_def relative_path_def actionSkipsFreshnessValidation_def
        actionUsesLocalFreshness_def plannedPostRemoteMoveContentUpload_def actionUploadHasMovedBaseline_def)
  have "still_as_planned a m"
    using freshness_check [OF vp(3,2), of bypass m] assms(7,8) by auto
  then have now: "agrees localRowMatchesPlanned (GetLocalStateByPath (a_Path a) m) (pv_Local v)"
    "agrees remoteRowMatchesPlanned (remote_at m (a_Path a)) (pv_Remote v)"
    using assms(5,6) vp v(1,4)
    by (auto simp: still_as_planned_def view_Local_def view_Remote_def planned_remote_def agrees_def comp_def
        remoteRowMatchesPlannedForAction_def remoteStateFromSnapshotRow_def split: option.splits)
  note plan = planned_delete_rows [OF assms(1-3)]
  show ?thesis using plan now v(3,4) by (auto simp: agrees_def split: option.splits)
qed

section \<open>Concrete runs\<close>

text \<open>The store whose tables are those of \<open>edited_db\<close>, trusted on both sides.\<close>

definition edited_store :: sync_store where
  "edited_store =
     \<lparr>ss_db = \<lparr>db_baseline = st_baseline edited_db, db_remote = st_remote edited_db, db_local = st_local edited_db,
               db_issues = [],
               db_obs = Some (default_obs_row\<lparr>ob_content_drive_id := ''d'', ob_cursor := ''t'', ob_local_truth_complete := True\<rparr>)\<rparr>,
      ss_baseline = None, ss_cachedContentDriveID = zero_id\<rparr>"

lemma edited_plan_fresh:
  "case edited_plan of
     Some (Inr p) \<Rightarrow> list_all (\<lambda>a. case snd (evaluateActionFreshnessFromStore False False a edited_store) of
                                     Inr d \<Rightarrow> fd_Fresh d | Inl e \<Rightarrow> False) (ap_Actions p)
   | _ \<Rightarrow> False"
  by code_simp

theorem admitted_deletes_safe_witness:
  "\<exists>plan a. edited_plan = Some (Inr plan) \<and> a \<in> set (ap_Actions plan) \<and> a_Type a = ActionRemoteDelete \<and>
     GetLocalStateByPath (a_Path a) edited_store = None"
proof -
  obtain plan where plan: "edited_plan = Some (Inr plan)"
    using edited_plan_actions by (auto split: option.splits sum.splits)
  have acts: "map (\<lambda>a. (a_Type a, a_Path a)) (ap_Actions plan) = [(ActionRemoteDelete, ''a''), (ActionDownload, ''b'')]"
    using edited_plan_actions by (simp add: plan)
  then obtain a as where as: "ap_Actions plan = a # as" by (cases "ap_Actions plan") auto
  have a: "a \<in> set (ap_Actions plan)" "a_Type a = ActionRemoteDelete" "a_Path a = ''a''" using acts as by simp_all
  obtain dec where dec: "snd (evaluateActionFreshnessFromStore False False a edited_store) = Inr dec" "fd_Fresh dec"
    using edited_plan_fresh a(1)
    by (cases "snd (evaluateActionFreshnessFromStore False False a edited_store)") (auto simp: plan list_all_iff split: sum.splits)
  have trust: "local_trusted edited_store" "remote_trusted edited_store" by code_simp+
  have rel: "relative_path (a_Path a)" by (simp add: a(3) relative_path_def)
  have "GetLocalStateByPath (a_Path a) edited_store = None"
    using admitted_deletes_safe [OF edited_db_unique plan [unfolded edited_plan_def] a(1) rel trust dec] a(2) by blast
  then show ?thesis using a plan by blast
qed

end
