(* ===== verification/Permissions.thy ===== *)
theory Permissions
  imports RetryStore Classify BaselineIndex
begin

text \<open>
  What a permission failure proves (\<^verbatim>\<open>graph/items_permissions.go\<close>, \<^verbatim>\<open>permission_evidence.go\<close>,
  \<^verbatim>\<open>permission_handler.go\<close>, \<^verbatim>\<open>permission_probe_remote.go\<close>, \<^verbatim>\<open>permission_probe_local.go\<close>,
  \<^verbatim>\<open>permissions.go\<close>): the evaluation of the grants Graph returns, the walk up to the topmost
  folder that is denied, and the evidence handed to the engine. The call to Graph and the
  access test of a local directory are arguments.
\<close>

section \<open>Grants\<close>

record permission_link =
  pl_Scope :: string
  pl_Type :: string

text \<open>An identity set: the e-mail of its user and of its site user, where it has them.\<close>

record identity_set =
  is_User :: "string option"
  is_SiteUser :: "string option"

record permission =
  pm_Roles :: "string list"
  pm_Link :: "permission_link option"
  pm_GrantedToV2 :: "identity_set option"
  pm_GrantedTo :: "identity_set option"
  pm_GrantedToIdentitiesV2 :: "identity_set list"
  pm_GrantedToIdentities :: "identity_set list"

datatype permission_write_access =
    PermissionWriteAccessInconclusive | PermissionWriteAccessReadOnly | PermissionWriteAccessWritable

datatype permission_applicability =
    permissionApplicabilityLegacy | permissionApplicabilityApplies
  | permissionApplicabilityOtherPrincipal | permissionApplicabilityAmbiguous

definition is_space :: "char \<Rightarrow> bool" where
  "is_space c \<longleftrightarrow> (of_char c :: nat) \<in> {9, 10, 11, 12, 13, 32}"

definition trim_space :: "string \<Rightarrow> string" where
  "trim_space s = rev (dropWhile is_space (rev (dropWhile is_space s)))"

definition equal_fold :: "string \<Rightarrow> string \<Rightarrow> bool" where
  "equal_fold a b \<longleftrightarrow> to_lower a = to_lower b"

definition permissionLinkCarriesGrant :: "permission_link option \<Rightarrow> bool" where
  "permissionLinkCarriesGrant lo =
     (case lo of None \<Rightarrow> False | Some l \<Rightarrow> trim_space (pl_Type l) \<noteq> '''' \<or> trim_space (pl_Scope l) \<noteq> '''')"

definition normalizedPermissionEmail :: "string option \<Rightarrow> string" where
  "normalizedPermissionEmail u = (case u of None \<Rightarrow> '''' | Some e \<Rightarrow> to_lower (trim_space e))"

definition appendPermissionIdentityEmail :: "identity_set option \<Rightarrow> string list \<Rightarrow> string list" where
  "appendPermissionIdentityEmail io emails =
     (case io of
        None \<Rightarrow> emails
      | Some i \<Rightarrow>
          (let user = normalizedPermissionEmail (is_User i); site = normalizedPermissionEmail (is_SiteUser i)
           in if user \<noteq> '''' then emails @ [user] else if site \<noteq> '''' then emails @ [site] else emails))"

definition permissionGrantedEmails :: "permission \<Rightarrow> string list" where
  "permissionGrantedEmails p =
     fold (\<lambda>i. appendPermissionIdentityEmail (Some i)) (pm_GrantedToIdentitiesV2 p @ pm_GrantedToIdentities p)
       (appendPermissionIdentityEmail (pm_GrantedTo p) (appendPermissionIdentityEmail (pm_GrantedToV2 p) []))"

definition permissionGrantsWrite :: "permission \<Rightarrow> bool" where
  "permissionGrantsWrite p \<longleftrightarrow>
     (case pm_Link p of None \<Rightarrow> False | Some l \<Rightarrow> equal_fold (pl_Type l) ''edit'') \<or>
     list_ex (\<lambda>r. equal_fold r ''write'' \<or> equal_fold r ''owner'') (pm_Roles p)"

definition permissionGrantsReadOnly :: "permission \<Rightarrow> bool" where
  "permissionGrantsReadOnly p \<longleftrightarrow>
     \<not> permissionGrantsWrite p \<and>
     ((case pm_Link p of None \<Rightarrow> False | Some l \<Rightarrow> equal_fold (pl_Type l) ''view'') \<or>
      list_ex (\<lambda>r. equal_fold r ''read'') (pm_Roles p))"

definition permissionHasOwnerRole :: "permission \<Rightarrow> bool" where
  "permissionHasOwnerRole p \<longleftrightarrow> list_ex (\<lambda>r. equal_fold r ''owner'') (pm_Roles p)"

definition classifyPermissionApplicability :: "string \<Rightarrow> permission \<Rightarrow> permission_applicability" where
  "classifyPermissionApplicability accountEmail p =
     (if permissionLinkCarriesGrant (pm_Link p) then permissionApplicabilityApplies
      else if permissionGrantedEmails p \<noteq> [] then
        (if accountEmail = '''' then permissionApplicabilityAmbiguous
         else if accountEmail \<in> set (permissionGrantedEmails p) then permissionApplicabilityApplies
         else permissionApplicabilityOtherPrincipal)
      else if permissionHasOwnerRole p then permissionApplicabilityAmbiguous
      else permissionApplicabilityLegacy)"

fun write_access_loop :: "string \<Rightarrow> permission list \<Rightarrow> bool \<Rightarrow> bool \<Rightarrow> permission_write_access" where
  "write_access_loop email [] sawReadOnly sawAmbiguousWrite =
     (if sawAmbiguousWrite then PermissionWriteAccessInconclusive
      else if sawReadOnly then PermissionWriteAccessReadOnly
      else PermissionWriteAccessInconclusive)"
| "write_access_loop email (p # ps) sawReadOnly sawAmbiguousWrite =
     (case classifyPermissionApplicability email p of
        permissionApplicabilityOtherPrincipal \<Rightarrow> write_access_loop email ps sawReadOnly sawAmbiguousWrite
      | permissionApplicabilityAmbiguous \<Rightarrow>
          write_access_loop email ps sawReadOnly (sawAmbiguousWrite \<or> permissionGrantsWrite p)
      | _ \<Rightarrow>
          if permissionGrantsWrite p then PermissionWriteAccessWritable
          else write_access_loop email ps (sawReadOnly \<or> permissionGrantsReadOnly p) sawAmbiguousWrite)"

definition EvaluateWriteAccess :: "permission list \<Rightarrow> string \<Rightarrow> permission_write_access" where
  "EvaluateWriteAccess perms accountEmail = write_access_loop (to_lower (trim_space accountEmail)) perms False False"

definition HasWriteAccess :: "permission list \<Rightarrow> bool" where
  "HasWriteAccess perms \<longleftrightarrow> EvaluateWriteAccess perms '''' = PermissionWriteAccessWritable"

section \<open>Evidence\<close>

datatype permission_evidence_kind =
    permissionEvidenceNone | permissionEvidenceFileDenied | permissionEvidenceBoundaryDenied
  | permissionEvidenceKnownActiveBoundary

record permission_evidence =
  pe_Kind :: permission_evidence_kind
  pe_TriggerPath :: string
  pe_BoundaryPath :: string
  pe_IssueType :: string
  pe_LastError :: string
  pe_HTTPStatus :: int

definition no_evidence :: permission_evidence where
  "no_evidence =
     \<lparr>pe_Kind = permissionEvidenceNone, pe_TriggerPath = '''', pe_BoundaryPath = '''', pe_IssueType = '''',
      pe_LastError = '''', pe_HTTPStatus = 0\<rparr>"

text \<open>The handler; \<open>ph_list\<close> is \<^verbatim>\<open>ListItemPermissions\<close>, whose error is told apart by being \<^verbatim>\<open>ErrNotFound\<close>.\<close>

record permission_handler =
  ph_driveID :: drive_id
  ph_accountEmail :: string
  ph_remoteRootItemID :: string
  ph_list :: "(drive_id \<Rightarrow> string \<Rightarrow> bool + permission list) option"
  ph_accessible :: "string \<Rightarrow> bool"
  ph_abs :: "string \<Rightarrow> string option"
  ph_rel :: "string \<Rightarrow> string option"

section \<open>Remote probes\<close>

definition resolveRemoteItemID :: "baseline \<Rightarrow> string \<Rightarrow> drive_id \<Rightarrow> string" where
  "resolveRemoteItemID bl localPath driveID =
     (case bl_GetByPath bl localPath of
        None \<Rightarrow> ''''
      | Some e \<Rightarrow> if be_DriveID e \<noteq> driveID then '''' else be_ItemID e)"

definition resolveBoundaryRemoteItemID :: "baseline \<Rightarrow> string \<Rightarrow> drive_id \<Rightarrow> string \<Rightarrow> string" where
  "resolveBoundaryRemoteItemID bl boundaryPath driveID remoteRootItemID =
     (if remoteRootItemID \<noteq> '''' \<and> boundaryPath = '''' then remoteRootItemID
      else resolveRemoteItemID bl boundaryPath driveID)"

definition remoteParentPath :: "string \<Rightarrow> string" where
  "remoteParentPath p = (let parent = path_dir p in if parent = ''.'' \<or> parent = ''/'' then '''' else parent)"

definition remoteBoundaryContainsPath :: "string \<Rightarrow> string \<Rightarrow> bool" where
  "remoteBoundaryContainsPath p boundary \<longleftrightarrow> boundary = '''' \<or> p = boundary \<or> has_prefix p (boundary @ ''/'')"

definition remoteBoundaryParent :: "string \<Rightarrow> string option" where
  "remoteBoundaryParent boundary = (if boundary = '''' then None else Some (remoteParentPath boundary))"

lemma path_dir_root: "path_dir ''/'' = ''/''" "path_dir ''.'' = ''.''"
  by code_simp+

lemma remoteBoundaryParent_shorter: "remoteBoundaryParent b = Some p \<Longrightarrow> length p < length b"
  using path_dir_shorter [of b] path_dir_root(1)
  by (cases "b = ''/''") (auto simp: remoteBoundaryParent_def remoteParentPath_def Let_def split: if_splits)

definition ActiveRemoteBlockedBoundaries :: "control_db \<Rightarrow> string list" where
  "ActiveRemoteBlockedBoundaries db =
     (case ListBlockScopes db of
        Inl e \<Rightarrow> []
      | Inr blocks \<Rightarrow> sort (remdups (map (sk_CoveredPath \<circ> bs_Key) (filter (\<lambda>b. sk_IsPermRemoteWrite (bs_Key b)) blocks))))"

definition activeRemoteBoundary :: "string \<Rightarrow> control_db \<Rightarrow> string option" where
  "activeRemoteBoundary failedPath db =
     find (remoteBoundaryContainsPath failedPath) (ActiveRemoteBlockedBoundaries db)"

definition remoteBoundaryEvidence :: "string \<Rightarrow> string \<Rightarrow> int \<Rightarrow> string \<Rightarrow> permission_evidence" where
  "remoteBoundaryEvidence boundary errMsg httpStatus failedPath =
     \<lparr>pe_Kind = permissionEvidenceBoundaryDenied, pe_TriggerPath = failedPath, pe_BoundaryPath = boundary,
      pe_IssueType = IssueRemoteWriteDenied, pe_LastError = errMsg, pe_HTTPStatus = httpStatus\<rparr>"

definition handlePermissionCheckError :: "bool \<Rightarrow> string \<Rightarrow> string \<Rightarrow> permission_evidence" where
  "handlePermissionCheckError notFound failedPath parentFolder =
     (if notFound
      then remoteBoundaryEvidence parentFolder ''folder not found on remote (deleted or inaccessible)'' 404 failedPath
      else no_evidence)"

text \<open>Whether the grants of a folder are known and prove that the caller cannot write there.\<close>

definition folder_read_only ::
  "(drive_id \<Rightarrow> string \<Rightarrow> bool + permission list) \<Rightarrow> permission_handler \<Rightarrow> baseline \<Rightarrow> string \<Rightarrow> bool" where
  "folder_read_only lst ph bl folder =
     (let i = resolveBoundaryRemoteItemID bl folder (ph_driveID ph) (ph_remoteRootItemID ph)
      in i \<noteq> '''' \<and>
         (case lst (ph_driveID ph) i of
            Inl e \<Rightarrow> False
          | Inr perms \<Rightarrow> EvaluateWriteAccess perms (ph_accountEmail ph) = PermissionWriteAccessReadOnly))"

function walkPermissionBoundary ::
  "(drive_id \<Rightarrow> string \<Rightarrow> bool + permission list) \<Rightarrow> permission_handler \<Rightarrow> baseline \<Rightarrow> string \<Rightarrow> string" where
  "walkPermissionBoundary lst ph bl boundary =
     (case remoteBoundaryParent boundary of
        None \<Rightarrow> boundary
      | Some parent \<Rightarrow>
          if folder_read_only lst ph bl parent then walkPermissionBoundary lst ph bl parent else boundary)"
  by pat_completeness auto
termination
  by (relation "measure (\<lambda>(lst, ph, bl, boundary). length boundary)") (simp_all add: remoteBoundaryParent_shorter)

declare walkPermissionBoundary.simps [simp del]

definition handle403 :: "permission_handler \<Rightarrow> baseline \<Rightarrow> control_db \<Rightarrow> string \<Rightarrow> permission_evidence" where
  "handle403 ph bl db failedPath =
     (case ph_list ph of
        None \<Rightarrow> no_evidence
      | Some lst \<Rightarrow>
        (case activeRemoteBoundary failedPath db of
           Some boundary \<Rightarrow>
             \<lparr>pe_Kind = permissionEvidenceKnownActiveBoundary, pe_TriggerPath = failedPath, pe_BoundaryPath = boundary,
              pe_IssueType = IssueRemoteWriteDenied, pe_LastError = '''', pe_HTTPStatus = 0\<rparr>
         | None \<Rightarrow>
           if ph_remoteRootItemID ph = '''' then no_evidence
           else
             (let p0 = remoteParentPath failedPath;
                  i0 = resolveBoundaryRemoteItemID bl p0 (ph_driveID ph) (ph_remoteRootItemID ph);
                  parentFolder = (if i0 = '''' then '''' else p0);
                  parentItemID = (if i0 = '''' then ph_remoteRootItemID ph else i0)
              in case lst (ph_driveID ph) parentItemID of
                   Inl notFound \<Rightarrow> handlePermissionCheckError notFound failedPath parentFolder
                 | Inr perms \<Rightarrow>
                     (case EvaluateWriteAccess perms (ph_accountEmail ph) of
                        PermissionWriteAccessReadOnly \<Rightarrow>
                          remoteBoundaryEvidence (walkPermissionBoundary lst ph bl parentFolder)
                            ''folder is read-only (no write access)'' 403 failedPath
                      | _ \<Rightarrow> no_evidence))))"

section \<open>Local probes\<close>

definition localPermissionIssueType :: "action_completion \<Rightarrow> string" where
  "localPermissionIssueType r =
     (if ac_FailureCapability r = PermissionCapabilityLocalWrite then IssueLocalWriteDenied else IssueLocalReadDenied)"

definition localFilePermissionEvidence :: "string \<Rightarrow> string \<Rightarrow> string \<Rightarrow> permission_evidence" where
  "localFilePermissionEvidence path issueType errMsg =
     \<lparr>pe_Kind = permissionEvidenceFileDenied, pe_TriggerPath = path, pe_BoundaryPath = '''', pe_IssueType = issueType,
      pe_LastError = errMsg, pe_HTTPStatus = 0\<rparr>"

definition localDirectoryPermissionEvidence :: "string \<Rightarrow> string \<Rightarrow> string \<Rightarrow> permission_evidence" where
  "localDirectoryPermissionEvidence boundaryPath triggerPath issueType =
     \<lparr>pe_Kind = permissionEvidenceBoundaryDenied, pe_TriggerPath = triggerPath, pe_BoundaryPath = boundaryPath,
      pe_IssueType = issueType, pe_LastError = ''directory not accessible (check filesystem permissions)'',
      pe_HTTPStatus = 0\<rparr>"

text \<open>The depth of a path for the walk to the root: the fixpoints of the parent function are \<^verbatim>\<open>.\<close> and \<^verbatim>\<open>/\<close>.\<close>

definition walk_depth :: "string \<Rightarrow> nat" where
  "walk_depth p = (if p = ''.'' then 0 else Suc (length p))"

lemma walk_depth_dir: "path_dir p \<noteq> p \<Longrightarrow> walk_depth (path_dir p) < walk_depth p"
  using path_dir_shorter [of p] path_dir_root by (auto simp: walk_depth_def)

function deepestDeniedBoundary :: "(string \<Rightarrow> bool) \<Rightarrow> string \<Rightarrow> string" where
  "deepestDeniedBoundary accessible boundary =
     (let parent = path_dir boundary
      in if parent = boundary then boundary
         else if accessible parent then boundary
         else deepestDeniedBoundary accessible parent)"
  by pat_completeness auto
termination
  by (relation "measure (\<lambda>(accessible, boundary). walk_depth boundary)") (simp_all add: walk_depth_dir)

declare deepestDeniedBoundary.simps [simp del]

definition handleLocalPermission :: "permission_handler \<Rightarrow> action_completion \<Rightarrow> permission_evidence" where
  "handleLocalPermission ph r =
     (let issueType = localPermissionIssueType r;
          file = (\<lambda>msg. localFilePermissionEvidence (ac_Path r) issueType msg)
      in if \<not> ph_accessible ph ''.'' then file ''sync root directory not accessible (check filesystem permissions)''
         else case ph_abs ph (ac_Path r) of
                None \<Rightarrow> file ''file not accessible (check filesystem permissions)''
              | Some absPath \<Rightarrow>
                  (let parentDir = path_dir absPath
                   in if ph_accessible ph parentDir then file ''file not accessible (check filesystem permissions)''
                      else case ph_rel ph (deepestDeniedBoundary (ph_accessible ph) parentDir) of
                             None \<Rightarrow> file ''file not accessible (check filesystem permissions)''
                           | Some relBoundary \<Rightarrow> localDirectoryPermissionEvidence relBoundary (ac_Path r) issueType))"

definition shouldHandleRemote403Permission :: "action_completion \<Rightarrow> bool" where
  "shouldHandleRemote403Permission r \<longleftrightarrow> ac_HTTPStatus r = 403 \<and> remoteWriteScopeBlocksAction (ac_ActionType r)"

definition shouldHandleLocalPermission :: "action_completion \<Rightarrow> bool" where
  "shouldHandleLocalPermission r \<longleftrightarrow> errors_Is (ac_Err r) MarkPermission"

definition scopeKeyForPermissionEvidence :: "permission_evidence \<Rightarrow> scope_key" where
  "scopeKeyForPermissionEvidence e =
     (if pe_IssueType e = IssueLocalReadDenied then SKPermLocalRead (pe_BoundaryPath e)
      else if pe_IssueType e = IssueLocalWriteDenied then SKPermLocalWrite (pe_BoundaryPath e)
      else if pe_IssueType e = IssueRemoteWriteDenied then SKPermRemoteWrite (pe_BoundaryPath e)
      else zero_scope_key)"

section \<open>What the evidence means\<close>

definition applicable :: "string \<Rightarrow> permission \<Rightarrow> bool" where
  "applicable email p \<longleftrightarrow>
     classifyPermissionApplicability email p \<in> {permissionApplicabilityLegacy, permissionApplicabilityApplies}"

definition ambiguous :: "string \<Rightarrow> permission \<Rightarrow> bool" where
  "ambiguous email p \<longleftrightarrow> classifyPermissionApplicability email p = permissionApplicabilityAmbiguous"

lemma write_access_loop_spec:
  "write_access_loop email ps ro aw =
     (if \<exists>p \<in> set ps. applicable email p \<and> permissionGrantsWrite p then PermissionWriteAccessWritable
      else if aw \<or> (\<exists>p \<in> set ps. ambiguous email p \<and> permissionGrantsWrite p) then PermissionWriteAccessInconclusive
      else if ro \<or> (\<exists>p \<in> set ps. applicable email p \<and> permissionGrantsReadOnly p) then PermissionWriteAccessReadOnly
      else PermissionWriteAccessInconclusive)"
proof (induction ps arbitrary: ro aw)
  case (Cons p ps)
  then show ?case
    by (cases "classifyPermissionApplicability email p") (auto simp: applicable_def ambiguous_def)
qed simp

text \<open>The caller provably cannot write: nothing that may apply grants it, and something that applies grants reading.\<close>

definition proves_read_only :: "string \<Rightarrow> permission list \<Rightarrow> bool" where
  "proves_read_only email ps \<longleftrightarrow>
     (\<forall>p \<in> set ps. applicable email p \<or> ambiguous email p \<longrightarrow> \<not> permissionGrantsWrite p) \<and>
     (\<exists>p \<in> set ps. applicable email p \<and> permissionGrantsReadOnly p)"

lemma read_only_iff:
  "EvaluateWriteAccess ps e = PermissionWriteAccessReadOnly \<longleftrightarrow> proves_read_only (to_lower (trim_space e)) ps"
  by (auto simp: EvaluateWriteAccess_def write_access_loop_spec proves_read_only_def)

definition folder_denied ::
  "(drive_id \<Rightarrow> string \<Rightarrow> bool + permission list) \<Rightarrow> permission_handler \<Rightarrow> baseline \<Rightarrow> string \<Rightarrow> bool" where
  "folder_denied lst ph bl folder \<longleftrightarrow>
     (let i = resolveBoundaryRemoteItemID bl folder (ph_driveID ph) (ph_remoteRootItemID ph)
      in i \<noteq> '''' \<and>
         (\<exists>perms. lst (ph_driveID ph) i = Inr perms \<and> proves_read_only (to_lower (trim_space (ph_accountEmail ph))) perms))"

lemma folder_read_only_iff: "folder_read_only lst ph bl folder \<longleftrightarrow> folder_denied lst ph bl folder"
  by (simp add: folder_read_only_def folder_denied_def Let_def read_only_iff split: sum.split)

lemma walk_spec:
  "\<exists>k. walkPermissionBoundary lst ph bl b = (remoteParentPath ^^ k) b \<and>
     (\<forall>j. 0 < j \<and> j \<le> k \<longrightarrow> folder_denied lst ph bl ((remoteParentPath ^^ j) b)) \<and>
     (let top = (remoteParentPath ^^ k) b in top = '''' \<or> \<not> folder_denied lst ph bl (remoteParentPath top))"
proof (induction lst ph bl b rule: walkPermissionBoundary.induct)
  case (1 lst ph bl b)
  show ?case
  proof (cases "b \<noteq> '''' \<and> folder_denied lst ph bl (remoteParentPath b)")
    case False
    then have "walkPermissionBoundary lst ph bl b = b"
      by (subst walkPermissionBoundary.simps) (auto simp: remoteBoundaryParent_def folder_read_only_iff)
    then show ?thesis using False by (intro exI [of _ 0]) auto
  next
    case True
    then have w: "walkPermissionBoundary lst ph bl b = walkPermissionBoundary lst ph bl (remoteParentPath b)"
      by (subst walkPermissionBoundary.simps) (simp add: remoteBoundaryParent_def folder_read_only_iff)
    obtain k where k: "walkPermissionBoundary lst ph bl (remoteParentPath b) = (remoteParentPath ^^ k) (remoteParentPath b)"
      "\<forall>j. 0 < j \<and> j \<le> k \<longrightarrow> folder_denied lst ph bl ((remoteParentPath ^^ j) (remoteParentPath b))"
      "let top = (remoteParentPath ^^ k) (remoteParentPath b) in top = '''' \<or> \<not> folder_denied lst ph bl (remoteParentPath top)"
      using "1" [of "remoteParentPath b"] True by (auto simp: remoteBoundaryParent_def folder_read_only_iff)
    have "folder_denied lst ph bl ((remoteParentPath ^^ j) b)" if "0 < j" "j \<le> Suc k" for j
    proof (cases "j = 1")
      case False
      then obtain i where "j = Suc i" "0 < i" "i \<le> k" using \<open>0 < j\<close> \<open>j \<le> Suc k\<close> by (cases j) auto
      then show ?thesis using k(2) by (simp add: funpow_swap1 [symmetric])
    qed (use True in simp)
    then show ?thesis using k(1,3) w by (intro exI [of _ "Suc k"]) (simp add: funpow_swap1 [symmetric])
  qed
qed


section \<open>A concrete probe\<close>

text \<open>A drive whose folder \<^verbatim>\<open>s\<close> was shared read-only: \<^verbatim>\<open>s\<close> and \<^verbatim>\<open>s/d\<close> deny writing, the root allows it.\<close>

definition shared_entry :: "string \<Rightarrow> string \<Rightarrow> baseline_entry" where
  "shared_entry p i =
     \<lparr>be_Path = p, be_DriveID = New_id ''d1'', be_ItemID = i, be_ParentID = '''', be_ItemType = ItemTypeFolder,
      be_LocalHash = '''', be_RemoteHash = '''', be_LocalSize = 0, be_LocalSizeKnown = False, be_RemoteSize = 0,
      be_RemoteSizeKnown = False, be_LocalMtime = 0, be_RemoteMtime = 0, be_LocalDevice = 0, be_LocalInode = 0,
      be_LocalHasIdentity = False, be_ETag = ''''\<rparr>"

definition grant :: "string \<Rightarrow> permission" where
  "grant role = \<lparr>pm_Roles = [role], pm_Link = None, pm_GrantedToV2 = None, pm_GrantedTo = None,
     pm_GrantedToIdentitiesV2 = [], pm_GrantedToIdentities = []\<rparr>"

definition shared_list :: "drive_id \<Rightarrow> string \<Rightarrow> bool + permission list" where
  "shared_list d i = Inr [grant (if i = ''root'' then ''write'' else ''read'')]"

definition shared_handler :: permission_handler where
  "shared_handler =
     \<lparr>ph_driveID = New_id ''d1'', ph_accountEmail = ''me'', ph_remoteRootItemID = ''root'', ph_list = Some shared_list,
      ph_accessible = (\<lambda>_. True), ph_abs = Some, ph_rel = Some\<rparr>"

definition shared_cache :: baseline where
  "shared_cache = load_entries [shared_entry ''s'' ''i1'', shared_entry ''s/d'' ''i2'']"


end
