(* ===== verification/Runtime.thy ===== *)
theory Runtime
  imports DepGraph BaselineStore RetryStore Classify Permissions Freshness RetryPolicy
begin

text \<open>
  The state of a run and the operations on held work and block scopes
  (\<^verbatim>\<open>engine_runtime_types.go\<close>, \<^verbatim>\<open>engine_runtime_workset.go\<close>, \<^verbatim>\<open>engine_runtime_lifecycle.go\<close>,
  \<^verbatim>\<open>engine_retry_trial.go\<close>, \<^verbatim>\<open>engine_results.go\<close>, \<^verbatim>\<open>engine_runtime_graph.go\<close>,
  \<^verbatim>\<open>engine_runtime_invariants.go\<close>). A tracked action is a reference into the heap of the dependency graph. The
  clock is read once for each stage. Timers, locks, logging and debug events are left out: a
  timer is re-armed from the state at the places where the code does it, and only wakes the
  loop up.
\<close>

section \<open>State\<close>

datatype held_reason = heldReasonRetry | heldReasonScope

record held_action =
  ha_Tracked :: nat
  ha_Reason :: held_reason
  ha_ScopeKey :: scope_key
  ha_NextRetry :: go_time
  ha_HeldOrder :: nat

record failure_summary_entry =
  fs_issueType :: string
  fs_path :: string
  fs_errMsg :: string

text \<open>
  The fields of \<^verbatim>\<open>engineFlow\<close>, with the parts of the store it writes: the baseline store and the
  control tables. The map of held actions is iterated, so it is an association list; the map of
  keys by scope is only read by key, with the empty list for a missing entry.
\<close>

record engine_flow =
  ef_depGraph :: dep_graph
  ef_activeScopes :: "active_scope list"
  ef_scopeState :: "scope_windows option"
  ef_nextActionID :: int
  ef_retryRowsByKey :: "retry_work_key \<rightharpoonup> retry_work_row"
  ef_heldByKey :: "(retry_work_key \<times> held_action) list"
  ef_heldScopeOrder :: "scope_key \<Rightarrow> retry_work_key list"
  ef_queuedByID :: "int set"
  ef_runningByID :: "int set"
  ef_runningCount :: int
  ef_nextHeldOrder :: nat
  ef_succeeded :: nat
  ef_failed :: nat
  ef_syncErrors :: "go_error list"
  ef_summaries :: "failure_summary_entry list"
  ef_store :: sync_store
  ef_control :: control_db
  ef_dirty :: bool

text \<open>What a stage reads and does not change: the clock, the random draw, the mode, the context, the engine's handlers and the texts of store errors.\<close>

record engine_env =
  ev_now :: int
  ev_rand :: rat
  ev_watch :: bool
  ev_canceled :: bool
  ev_bypass :: bool
  ev_driveID :: drive_id
  ev_permHandler :: permission_handler
  ev_errText :: "store_error \<Rightarrow> string"

datatype flow_error =
    FlowScope scope_error
  | FlowStore store_error
  | FlowMissingScopeKey string
  | FlowMissingRow string
  | FlowInvalidClass
  | FlowUnauthorized "go_error option"
  | FlowTrialFallback string
  | FlowMissingEvidence string
  | FlowPlanShape
  | FlowPanic
  | FlowFuel

type_synonym flow_result = "flow_error option \<times> engine_flow"

text \<open>A reference always comes from the heap; the zero value makes the access total.\<close>

definition no_tracked :: tracked_action where
  "no_tracked =
     \<lparr>ta_Action = \<lparr>a_Type = ActionDownload, a_DriveID = zero_id, a_ItemID = '''', a_Path = '''', a_OldPath = '''',
                    a_CreateSide = CreateLocal, a_View = None, a_RequireMissingLocalTarget = False\<rparr>,
      ta_ID = 0, ta_IsTrial = False, ta_TrialScopeKey = zero_scope_key\<rparr>"

definition tracked :: "engine_flow \<Rightarrow> nat \<Rightarrow> tracked_action" where
  "tracked f r =
     (if r < length (dg_heap (ef_depGraph f)) then tn_TA (dg_heap (ef_depGraph f) ! r) else no_tracked)"

definition tracked_key :: "engine_flow \<Rightarrow> nat \<Rightarrow> retry_work_key" where
  "tracked_key f r = retryWorkKeyForAction (ta_Action (tracked f r))"

definition set_trial :: "nat \<Rightarrow> bool \<Rightarrow> scope_key \<Rightarrow> engine_flow \<Rightarrow> engine_flow" where
  "set_trial r trial k f =
     f\<lparr>ef_depGraph := heap_upd r (\<lambda>n. n\<lparr>tn_TA := (tn_TA n)\<lparr>ta_IsTrial := trial, ta_TrialScopeKey := k\<rparr>\<rparr>) (ef_depGraph f)\<rparr>"

section \<open>Queued, running and held work\<close>

definition markQueued :: "nat \<Rightarrow> engine_flow \<Rightarrow> engine_flow" where
  "markQueued r f = f\<lparr>ef_queuedByID := insert (ta_ID (tracked f r)) (ef_queuedByID f)\<rparr>"

definition markRunning :: "nat \<Rightarrow> engine_flow \<Rightarrow> engine_flow" where
  "markRunning r f =
     (let i = ta_ID (tracked f r); f1 = f\<lparr>ef_queuedByID := ef_queuedByID f - {i}\<rparr>
      in if i \<in> ef_runningByID f1 then f1
         else f1\<lparr>ef_runningByID := insert i (ef_runningByID f1), ef_runningCount := ef_runningCount f1 + 1\<rparr>)"

definition markFinished :: "nat option \<Rightarrow> engine_flow \<Rightarrow> engine_flow" where
  "markFinished ro f =
     (case ro of
        None \<Rightarrow> f
      | Some r \<Rightarrow>
          (let i = ta_ID (tracked f r);
               f1 = (if i \<in> ef_runningByID f
                     then f\<lparr>ef_runningByID := ef_runningByID f - {i},
                            ef_runningCount := if ef_runningCount f > 0 then ef_runningCount f - 1 else ef_runningCount f\<rparr>
                     else f)
           in f1\<lparr>ef_queuedByID := ef_queuedByID f1 - {i}\<rparr>))"

definition holdAction :: "nat \<Rightarrow> held_reason \<Rightarrow> scope_key \<Rightarrow> go_time \<Rightarrow> engine_flow \<Rightarrow> engine_flow" where
  "holdAction r reason scopeKey nextRetry f =
     (let f1 = markFinished (Some r) f;
          key = tracked_key f1 r;
          order = Suc (ef_nextHeldOrder f1);
          held = \<lparr>ha_Tracked = r, ha_Reason = reason, ha_ScopeKey = scopeKey, ha_NextRetry = nextRetry, ha_HeldOrder = order\<rparr>
      in f1\<lparr>ef_nextHeldOrder := order, ef_heldByKey := AList.update key held (ef_heldByKey f1),
            ef_heldScopeOrder :=
              (if \<not> sk_IsZero scopeKey
               then (ef_heldScopeOrder f1)(scopeKey := ef_heldScopeOrder f1 scopeKey @ [key])
               else ef_heldScopeOrder f1)\<rparr>)"

definition held_at :: "engine_flow \<Rightarrow> retry_work_key \<Rightarrow> held_action option" where
  "held_at f k = map_of (ef_heldByKey f) k"

definition releaseHeldAction :: "retry_work_key \<Rightarrow> engine_flow \<Rightarrow> nat option \<times> engine_flow" where
  "releaseHeldAction key f =
     (case held_at f key of
        None \<Rightarrow> (None, f)
      | Some held \<Rightarrow>
          (Some (ha_Tracked held),
           f\<lparr>ef_heldByKey := AList.delete key (ef_heldByKey f),
             ef_heldScopeOrder :=
               (if \<not> sk_IsZero (ha_ScopeKey held)
                then (ef_heldScopeOrder f)(ha_ScopeKey held := filter (\<lambda>k. k \<noteq> key) (ef_heldScopeOrder f (ha_ScopeKey held)))
                else ef_heldScopeOrder f)\<rparr>))"

definition held_retry_due :: "int \<Rightarrow> held_action \<Rightarrow> bool" where
  "held_retry_due now h \<longleftrightarrow> ha_Reason h = heldReasonRetry \<and> \<not> time_after (ha_NextRetry h) now"

definition hasDueHeldWork :: "int \<Rightarrow> engine_flow \<Rightarrow> bool" where
  "hasDueHeldWork now f \<longleftrightarrow>
     list_ex (\<lambda>(k, h). held_retry_due now h) (ef_heldByKey f) \<or>
     list_ex (\<lambda>s. \<not> time_after (as_NextTrialAt s) now \<and> ef_heldScopeOrder f (as_Key s) \<noteq> []) (ef_activeScopes f)"

text \<open>The zero time sorts before every other time.\<close>

definition time_rank :: "go_time \<Rightarrow> int \<times> int" where
  "time_rank t = (case t of None \<Rightarrow> (0, 0) | Some n \<Rightarrow> (1, n))"

definition dueRetryKeys :: "int \<Rightarrow> engine_flow \<Rightarrow> retry_work_key list" where
  "dueRetryKeys now f =
     map fst (sort_key (\<lambda>(k, h). (time_rank (ha_NextRetry h), ha_HeldOrder h))
                (filter (\<lambda>(k, h). held_retry_due now h) (ef_heldByKey f)))"

definition first_scope_held :: "engine_flow \<Rightarrow> scope_key \<Rightarrow> retry_work_key option" where
  "first_scope_held f k =
     find (\<lambda>key. case held_at f key of Some h \<Rightarrow> ha_Reason h = heldReasonScope | None \<Rightarrow> False) (ef_heldScopeOrder f k)"

definition dueTrialKeys :: "int \<Rightarrow> engine_flow \<Rightarrow> retry_work_key list" where
  "dueTrialKeys now f =
     List.map_filter (\<lambda>s. if time_after (as_NextTrialAt s) now then None else first_scope_held f (as_Key s))
       (sort_key (\<lambda>s. (time_rank (as_NextTrialAt s), sk_String (as_Key s))) (ef_activeScopes f))"

definition release_one_held :: "scope_key \<Rightarrow> int \<Rightarrow> retry_work_key \<Rightarrow> engine_flow \<Rightarrow> engine_flow" where
  "release_one_held scopeKey now key f =
     (case held_at f key of
        None \<Rightarrow> f
      | Some held \<Rightarrow>
          if ha_Reason held \<noteq> heldReasonScope then f
          else
            (let f1 = (case ef_retryRowsByKey f key of
                         Some row \<Rightarrow>
                           if rw_Blocked row \<and> rw_ScopeKey row = scopeKey
                           then f\<lparr>ef_retryRowsByKey := (ef_retryRowsByKey f)(key \<mapsto> row\<lparr>rw_Blocked := False, rw_NextRetryAt := now\<rparr>)\<rparr>
                           else f
                       | None \<Rightarrow> f)
             in f1\<lparr>ef_heldByKey := AList.update key
                     (held\<lparr>ha_Reason := heldReasonRetry, ha_ScopeKey := zero_scope_key, ha_NextRetry := Some now\<rparr>)
                     (ef_heldByKey f1)\<rparr>))"

definition releaseHeldScope :: "scope_key \<Rightarrow> int \<Rightarrow> engine_flow \<Rightarrow> engine_flow" where
  "releaseHeldScope scopeKey now f =
     (let f1 = fold (release_one_held scopeKey now) (ef_heldScopeOrder f scopeKey) f
      in f1\<lparr>ef_heldScopeOrder := (ef_heldScopeOrder f1)(scopeKey := [])\<rparr>)"

definition earliestHeldRetryAt :: "engine_flow \<Rightarrow> go_time" where
  "earliestHeldRetryAt f =
     fold (\<lambda>(k, h) earliest.
             if ha_Reason h \<noteq> heldReasonRetry then earliest
             else case ha_NextRetry h of
                    None \<Rightarrow> earliest
                  | Some n \<Rightarrow> (case earliest of None \<Rightarrow> Some n | Some m \<Rightarrow> if n < m then Some n else earliest))
       (ef_heldByKey f) None"

definition findBlockingScope :: "nat \<Rightarrow> engine_flow \<Rightarrow> scope_key" where
  "findBlockingScope r f = FindBlockingScope (ef_activeScopes f) (ta_Action (tracked f r))"

definition hasActiveScope :: "scope_key \<Rightarrow> engine_flow \<Rightarrow> bool" where
  "hasActiveScope k f = HasScope (ef_activeScopes f) k"

definition initializeRuntimeState :: "retry_work_row list \<Rightarrow> block_scope list \<Rightarrow> engine_flow \<Rightarrow> engine_flow" where
  "initializeRuntimeState retryRows blockScopes f =
     f\<lparr>ef_retryRowsByKey := index_by row_WorkKey retryRows, ef_heldByKey := [], ef_heldScopeOrder := (\<lambda>_. []),
       ef_queuedByID := {}, ef_runningByID := {}, ef_runningCount := 0, ef_nextHeldOrder := 0,
       ef_activeScopes := map activeScopeFromBlockScopeRow blockScopes,
       ef_scopeState := (case ef_scopeState f of None \<Rightarrow> Some Map.empty | Some w \<Rightarrow> Some w)\<rparr>"

section \<open>Results of a run\<close>

definition recordError :: "result_decision \<Rightarrow> action_completion \<Rightarrow> engine_flow \<Rightarrow> engine_flow" where
  "recordError d r f =
     (let f1 = f\<lparr>ef_failed := Suc (ef_failed f)\<rparr>;
          f2 = (case ac_Err r of None \<Rightarrow> f1 | Some e \<Rightarrow> f1\<lparr>ef_syncErrors := ef_syncErrors f1 @ [e]\<rparr>);
          errMsg = (if ac_ErrMsg r = '''' then (case ac_Err r of None \<Rightarrow> '''' | Some e \<Rightarrow> ge_Message e) else ac_ErrMsg r)
      in if rd_Persistence d \<noteq> persistRetryWork \<or> errMsg = '''' then f2
         else f2\<lparr>ef_summaries := ef_summaries f2 @
                [\<lparr>fs_issueType = (if rd_ConditionType d = '''' then ''transient_failure'' else rd_ConditionType d),
                  fs_path = ac_Path r, fs_errMsg = errMsg\<rparr>]\<rparr>)"

definition resetResultStats :: "engine_flow \<Rightarrow> engine_flow" where
  "resetResultStats f = f\<lparr>ef_succeeded := 0, ef_failed := 0, ef_syncErrors := [], ef_summaries := []\<rparr>"

definition resolveRetryWorkAndLogResolution :: "retry_work_key \<Rightarrow> engine_flow \<Rightarrow> flow_result" where
  "resolveRetryWorkAndLogResolution work f =
     (case ResolveRetryWork work (ef_control f) of
        (Inl e, db) \<Rightarrow> (Some (FlowScope e), f\<lparr>ef_control := db\<rparr>)
      | (Inr None, db) \<Rightarrow> (None, f\<lparr>ef_control := db\<rparr>)
      | (Inr (Some row), db) \<Rightarrow>
          (None, snd (releaseHeldAction work
                   (f\<lparr>ef_control := db, ef_retryRowsByKey := (ef_retryRowsByKey f)(work := None)\<rparr>))))"

text \<open>A failure to clear the row after a success is only logged.\<close>

definition clearRetryWorkOnActionSuccess :: "retry_work_key \<Rightarrow> engine_flow \<Rightarrow> engine_flow" where
  "clearRetryWorkOnActionSuccess work f = snd (resolveRetryWorkAndLogResolution work f)"

definition clearRetryWorkOnSuperseded :: "action_completion \<Rightarrow> nat option \<Rightarrow> engine_flow \<Rightarrow> flow_result" where
  "clearRetryWorkOnSuperseded r current f =
     (case current of
        Some c \<Rightarrow> resolveRetryWorkAndLogResolution (tracked_key f c) f
      | None \<Rightarrow> resolveRetryWorkAndLogResolution (retryWorkKeyForCompletion r) f)"

section \<open>The graph\<close>

definition trackedActionForCompletion :: "action_completion \<Rightarrow> engine_flow \<Rightarrow> nat option" where
  "trackedActionForCompletion r f = dg_Get (ef_depGraph f) (ac_ActionID r)"

text \<open>Retiring a subtree; the queue loop is given the number of nodes as fuel, and a panic is an error.\<close>

definition applyCompletedSubtree :: "nat option \<Rightarrow> int \<Rightarrow> engine_flow \<Rightarrow> flow_result" where
  "applyCompletedSubtree current actionID f =
     (let f1 = markFinished current f
      in case current of
           None \<Rightarrow> (None, f1)
         | Some c \<Rightarrow>
             (case completeDepGraphAction (ef_depGraph f1) actionID of
                None \<Rightarrow> (Some FlowPanic, f1)
              | Some (g, ready) \<Rightarrow>
                  (case complete_subtree_loop (length (dg_heap g)) g [] ready of
                     None \<Rightarrow> (Some FlowPanic, f1\<lparr>ef_depGraph := g\<rparr>)
                   | Some g' \<Rightarrow> (None, f1\<lparr>ef_depGraph := g'\<rparr>))))"

section \<open>Block scopes\<close>

definition activateScope :: "active_scope \<Rightarrow> engine_flow \<Rightarrow> flow_result" where
  "activateScope block f =
     (case blockScopeRowFromActiveScope block of
        Inl e \<Rightarrow> (Some (FlowScope e), f)
      | Inr row \<Rightarrow>
          (case UpsertBlockScope row (ef_control f) of
             (Some e, db) \<Rightarrow> (Some (FlowScope e), f\<lparr>ef_control := db\<rparr>)
           | (None, db) \<Rightarrow> (None, f\<lparr>ef_control := db, ef_activeScopes := UpsertScope block (ef_activeScopes f)\<rparr>)))"

definition extendScopeTrial :: "int \<Rightarrow> scope_key \<Rightarrow> int \<Rightarrow> engine_flow \<Rightarrow> flow_result" where
  "extendScopeTrial now scopeKey retryAfter f =
     (case LookupScope (ef_activeScopes f) scopeKey of
        None \<Rightarrow> (None, f)
      | Some block \<Rightarrow>
          (let newInterval = computeTrialInterval retryAfter
           in activateScope (block\<lparr>as_NextTrialAt := Some (now + newInterval), as_TrialInterval := newInterval\<rparr>) f))"

definition rearmScopeTrial :: "int \<Rightarrow> scope_key \<Rightarrow> engine_flow \<Rightarrow> flow_result" where
  "rearmScopeTrial now scopeKey f =
     (case LookupScope (ef_activeScopes f) scopeKey of
        None \<Rightarrow> (None, f)
      | Some block \<Rightarrow>
          if as_TrialInterval block \<le> 0 then (None, f)
          else activateScope (block\<lparr>as_NextTrialAt := Some (now + as_TrialInterval block)\<rparr>) f)"

definition flow_scopeHasBlockedRetryWork :: "scope_key \<Rightarrow> engine_flow \<Rightarrow> scope_error + bool" where
  "flow_scopeHasBlockedRetryWork scopeKey f =
     (case ListBlockedRetryWork (ef_control f) of
        Inl e \<Rightarrow> Inl e
      | Inr rows \<Rightarrow> Inr (list_ex (\<lambda>r. rw_ScopeKey r = scopeKey) rows))"

definition releaseScope :: "int \<Rightarrow> scope_key \<Rightarrow> engine_flow \<Rightarrow> engine_flow" where
  "releaseScope now key f =
     f\<lparr>ef_control := ReleaseScope key now (ef_control f), ef_activeScopes := RemoveScope key (ef_activeScopes f)\<rparr>"

definition discardScope :: "scope_key \<Rightarrow> engine_flow \<Rightarrow> flow_result" where
  "discardScope key f =
     (case DiscardScope key (ef_control f) of
        (Some e, db) \<Rightarrow> (Some (FlowScope e), f\<lparr>ef_control := db\<rparr>)
      | (None, db) \<Rightarrow> (None, f\<lparr>ef_control := db, ef_activeScopes := RemoveScope key (ef_activeScopes f)\<rparr>))"

definition rearmOrDiscardScope :: "int \<Rightarrow> scope_key \<Rightarrow> engine_flow \<Rightarrow> flow_result" where
  "rearmOrDiscardScope now scopeKey f =
     (if sk_IsZero scopeKey then (None, f)
      else case flow_scopeHasBlockedRetryWork scopeKey f of
             Inl e \<Rightarrow> (Some (FlowScope e), f)
           | Inr h \<Rightarrow>
               (case decideTimedBlockScopeAction h of
                  timedBlockScopeKeep \<Rightarrow> rearmScopeTrial now scopeKey f
                | timedBlockScopeDiscard \<Rightarrow> discardScope scopeKey f))"

definition applyBlockScope :: "int \<Rightarrow> scope_update_result \<Rightarrow> engine_flow \<Rightarrow> flow_result" where
  "applyBlockScope now sr f =
     (let interval = computeTrialInterval (sur_RetryAfter sr)
      in activateScope \<lparr>as_Key = sur_ScopeKey sr, as_TrialInterval = interval, as_NextTrialAt = Some (now + interval)\<rparr> f)"

definition feedScopeDetection :: "int \<Rightarrow> action_completion \<Rightarrow> engine_flow \<Rightarrow> flow_result" where
  "feedScopeDetection now r f =
     (case ef_scopeState f of
        None \<Rightarrow> (None, f)
      | Some ws \<Rightarrow>
          if ac_HTTPStatus r = 0 then (None, f)
          else case UpdateScope (ac_HTTPStatus r) (ac_DriveID r) (ac_Path r) (ac_RetryAfter r) now ws of
                 (ws', sr) \<Rightarrow>
                   (let f1 = f\<lparr>ef_scopeState := Some ws'\<rparr>
                    in if sur_Block sr then applyBlockScope now sr f1 else (None, f1)))"

definition transitionTrialScopeToPersistedBlock ::
  "int \<Rightarrow> scope_key \<Rightarrow> scope_key \<Rightarrow> int \<Rightarrow> engine_flow \<Rightarrow> flow_result" where
  "transitionTrialScopeToPersistedBlock now from' to' retryAfter f =
     (if sk_IsZero to' then (None, f)
      else
        (let interval = computeTrialInterval retryAfter;
             block = \<lparr>as_Key = to', as_TrialInterval = interval, as_NextTrialAt = Some (now + interval)\<rparr>
         in case activateScope block f of
              (Some e, f1) \<Rightarrow> (Some e, f1)
            | (None, f1) \<Rightarrow>
                if from' \<noteq> to' \<and> \<not> sk_IsZero from' then
                  (case flow_scopeHasBlockedRetryWork from' f1 of
                     Inl e \<Rightarrow> (Some (FlowScope e), f1)
                   | Inr h \<Rightarrow> if h then rearmScopeTrial now from' f1 else discardScope from' f1)
                else (None, f1)))"

definition loadActiveScopes :: "bool \<Rightarrow> engine_flow \<Rightarrow> flow_result" where
  "loadActiveScopes watch f =
     (if \<not> watch then (None, f)
      else case ListBlockScopes (ef_control f) of
             Inl e \<Rightarrow> (Some (FlowScope e), f)
           | Inr blocks \<Rightarrow> (None, f\<lparr>ef_activeScopes := map activeScopeFromBlockScopeRow blocks\<rparr>))"

definition dropStartupScopeRow :: "scope_key \<Rightarrow> engine_flow \<Rightarrow> engine_flow" where
  "dropStartupScopeRow key f = f\<lparr>ef_control := DeleteBlockScope key (ef_control f)\<rparr>"

definition normalizePersistedScopes :: "engine_flow \<Rightarrow> flow_result" where
  "normalizePersistedScopes f =
     (case ListBlockScopes (ef_control f) of
        Inl e \<Rightarrow> (Some (FlowScope e), f)
      | Inr blocks \<Rightarrow>
          (case ListBlockedRetryWork (ef_control f) of
             Inl e \<Rightarrow> (Some (FlowScope e), f)
           | Inr blocked \<Rightarrow> (None, fold dropStartupScopeRow (planPersistedScopeNormalization blocks blocked) f)))"

section \<open>Blocked and held retry work\<close>

definition persistBlockedRetryWork :: "retry_work_key \<Rightarrow> scope_key \<Rightarrow> engine_flow \<Rightarrow> flow_result" where
  "persistBlockedRetryWork work scopeKey f =
     (if sk_IsZero scopeKey then (Some (FlowMissingScopeKey (rk_Path work)), f)
      else case RecordBlockedRetryWork work scopeKey (ef_control f) of
             (Inl e, db) \<Rightarrow> (Some (FlowScope e), f\<lparr>ef_control := db\<rparr>)
           | (Inr row, db) \<Rightarrow>
               (None, f\<lparr>ef_control := db, ef_retryRowsByKey := (ef_retryRowsByKey f)(row_WorkKey row \<mapsto> row)\<rparr>))"

definition clearBlockedRetryWorkForScope :: "retry_work_key \<Rightarrow> scope_key \<Rightarrow> engine_flow \<Rightarrow> engine_flow" where
  "clearBlockedRetryWorkForScope work scopeKey f =
     (if sk_IsZero scopeKey then f
      else let f1 = f\<lparr>ef_control := ClearBlockedRetryWork work scopeKey (ef_control f)\<rparr>
           in case ef_retryRowsByKey f1 work of
                Some row \<Rightarrow>
                  if rw_Blocked row \<and> rw_ScopeKey row = scopeKey
                  then f1\<lparr>ef_retryRowsByKey := (ef_retryRowsByKey f1)(work := None)\<rparr> else f1
              | None \<Rightarrow> f1)"

definition holdActionFromPersistedRetryState :: "nat option \<Rightarrow> retry_work_key \<Rightarrow> engine_flow \<Rightarrow> flow_result" where
  "holdActionFromPersistedRetryState current work f =
     (case current of
        None \<Rightarrow> (None, f)
      | Some c \<Rightarrow>
          (case ef_retryRowsByKey f work of
             None \<Rightarrow> (Some (FlowMissingRow (rk_Path work)), f)
           | Some row \<Rightarrow>
               if rw_Blocked row then (None, holdAction c heldReasonScope (rw_ScopeKey row) None f)
               else (None, holdAction c heldReasonRetry zero_scope_key
                             (if rw_NextRetryAt row > 0 then Some (rw_NextRetryAt row) else None) f)))"

definition holdActionUnderScope :: "nat option \<Rightarrow> action_completion \<Rightarrow> scope_key \<Rightarrow> engine_flow \<Rightarrow> flow_result" where
  "holdActionUnderScope current r scopeKey f =
     (case current of
        None \<Rightarrow> (None, f)
      | Some c \<Rightarrow>
          (case persistBlockedRetryWork (retryWorkKeyForCompletion r) scopeKey f of
             (Some e, f1) \<Rightarrow> (Some e, f1)
           | (None, f1) \<Rightarrow> (None, holdAction c heldReasonScope scopeKey None f1)))"

definition rehomeBlockedRetryWork :: "action_completion \<Rightarrow> scope_key \<Rightarrow> engine_flow \<Rightarrow> flow_result" where
  "rehomeBlockedRetryWork r scopeKey f = persistBlockedRetryWork (retryWorkKeyForCompletion r) scopeKey f"

section \<open>The invariant of a run\<close>

text \<open>
  The active scopes in memory are the persisted ones, and every scope key that a row, a held
  action or a trial carries has a well-formed text, so that it survives the store.
\<close>

definition scopes_mirrored :: "active_scope list \<Rightarrow> control_db \<Rightarrow> bool" where
  "scopes_mirrored active db \<longleftrightarrow> control_ok db \<and> scopes_wf active \<and> LookupScope active = scope_at db"

definition rows_keyed :: "(retry_work_key \<rightharpoonup> retry_work_row) \<Rightarrow> bool" where
  "rows_keyed rows \<longleftrightarrow> (\<forall>row \<in> ran rows. sk_wf (rw_ScopeKey row))"

definition held_keyed :: "(retry_work_key \<times> held_action) list \<Rightarrow> bool" where
  "held_keyed held \<longleftrightarrow> (\<forall>h \<in> snd ` set held. sk_wf (ha_ScopeKey h))"

definition trials_keyed :: "dep_graph \<Rightarrow> bool" where
  "trials_keyed g \<longleftrightarrow> (\<forall>n \<in> set (dg_heap g). sk_wf (ta_TrialScopeKey (tn_TA n)))"

definition flow_ok :: "engine_flow \<Rightarrow> bool" where
  "flow_ok f \<longleftrightarrow>
     scopes_mirrored (ef_activeScopes f) (ef_control f) \<and> rows_keyed (ef_retryRowsByKey f) \<and>
     held_keyed (ef_heldByKey f) \<and> trials_keyed (ef_depGraph f)"

lemma flow_ok_counters [simp]:
  "flow_ok (f\<lparr>ef_queuedByID := q\<rparr>) = flow_ok f" "flow_ok (f\<lparr>ef_runningByID := q\<rparr>) = flow_ok f"
  "flow_ok (f\<lparr>ef_runningCount := i\<rparr>) = flow_ok f" "flow_ok (f\<lparr>ef_nextHeldOrder := n\<rparr>) = flow_ok f"
  "flow_ok (f\<lparr>ef_heldScopeOrder := ks\<rparr>) = flow_ok f" "flow_ok (f\<lparr>ef_succeeded := n\<rparr>) = flow_ok f"
  "flow_ok (f\<lparr>ef_failed := n\<rparr>) = flow_ok f" "flow_ok (f\<lparr>ef_syncErrors := es\<rparr>) = flow_ok f"
  "flow_ok (f\<lparr>ef_summaries := ss\<rparr>) = flow_ok f" "flow_ok (f\<lparr>ef_store := m\<rparr>) = flow_ok f"
  "flow_ok (f\<lparr>ef_dirty := b\<rparr>) = flow_ok f" "flow_ok (f\<lparr>ef_scopeState := w\<rparr>) = flow_ok f"
  "flow_ok (f\<lparr>ef_nextActionID := i\<rparr>) = flow_ok f"
  by (simp_all add: flow_ok_def)

lemma rows_keyed_upd: "rows_keyed rows \<Longrightarrow> sk_wf (rw_ScopeKey row) \<Longrightarrow> rows_keyed (rows(k \<mapsto> row))"
  by (auto simp: rows_keyed_def ran_def)

lemma rows_keyed_del: "rows_keyed rows \<Longrightarrow> rows_keyed (rows(k := None))"
  by (auto simp: rows_keyed_def ran_def)

lemma held_keyed_update: "held_keyed held \<Longrightarrow> sk_wf (ha_ScopeKey h) \<Longrightarrow> held_keyed (AList.update k h held)"
  unfolding held_keyed_def by (induction held) (auto split: if_splits)

lemma held_keyed_delete: "held_keyed held \<Longrightarrow> held_keyed (AList.delete k held)"
  by (auto simp: held_keyed_def AList.delete_eq)

lemma held_at_keyed: "flow_ok f \<Longrightarrow> held_at f k = Some h \<Longrightarrow> sk_wf (ha_ScopeKey h)"
  by (force simp: flow_ok_def held_keyed_def held_at_def dest: map_of_SomeD)

lemma row_keyed: "flow_ok f \<Longrightarrow> ef_retryRowsByKey f k = Some row \<Longrightarrow> sk_wf (rw_ScopeKey row)"
  by (auto simp: flow_ok_def rows_keyed_def ran_def)

lemma markQueued_ok [simp]: "flow_ok (markQueued r f) = flow_ok f"
  by (simp add: markQueued_def)

lemma markFinished_ok [simp]: "flow_ok (markFinished ro f) = flow_ok f"
  by (simp add: markFinished_def Let_def split: option.split)

lemma recordError_ok [simp]: "flow_ok (recordError d r f) = flow_ok f"
  by (simp add: recordError_def Let_def split: option.split)

lemma holdAction_ok: "flow_ok f \<Longrightarrow> sk_wf k \<Longrightarrow> flow_ok (holdAction r reason k t f)"
proof -
  assume "flow_ok f" "sk_wf k"
  then have "flow_ok (markFinished (Some r) f)" by simp
  then show ?thesis using \<open>sk_wf k\<close> unfolding holdAction_def Let_def by (simp add: flow_ok_def held_keyed_update)
qed

lemma releaseHeldAction_ok: "releaseHeldAction k f = (ro, f') \<Longrightarrow> flow_ok f \<Longrightarrow> flow_ok f'"
  by (auto simp: releaseHeldAction_def flow_ok_def held_keyed_delete split: option.splits)

lemma release_one_held_ok: "flow_ok f \<Longrightarrow> flow_ok (release_one_held k now key f)"
proof -
  assume ok: "flow_ok f"
  show ?thesis
  proof (cases "held_at f key")
    case (Some h)
    have zero: "sk_wf (ha_ScopeKey (h\<lparr>ha_Reason := heldReasonRetry, ha_ScopeKey := zero_scope_key, ha_NextRetry := Some now\<rparr>))"
      by simp
    have row: "rows_keyed ((ef_retryRowsByKey f)(key \<mapsto> row\<lparr>rw_Blocked := False, rw_NextRetryAt := now\<rparr>))"
      if "ef_retryRowsByKey f key = Some row" for row
      using ok row_keyed [OF ok that] by (intro rows_keyed_upd) (auto simp: flow_ok_def)
    show ?thesis
      using ok Some row held_keyed_update [OF _ zero, of "ef_heldByKey f" key]
      by (auto simp: release_one_held_def Let_def flow_ok_def split: option.split)
  qed (simp add: release_one_held_def ok)
qed

lemma releaseHeldScope_ok: "flow_ok f \<Longrightarrow> flow_ok (releaseHeldScope k now f)"
proof -
  have "flow_ok (fold (release_one_held k now) keys f)" if "flow_ok f" for keys f
    using that by (induction keys arbitrary: f) (simp_all add: release_one_held_ok)
  then show "flow_ok f \<Longrightarrow> flow_ok (releaseHeldScope k now f)" by (simp add: releaseHeldScope_def Let_def)
qed

section \<open>Every operation keeps it\<close>

text \<open>The graph operations do not touch the trial marks.\<close>

lemma trials_update:
  "\<forall>n \<in> set heap. sk_wf (ta_TrialScopeKey (tn_TA n)) \<Longrightarrow>
     (r < length heap \<Longrightarrow> sk_wf (ta_TrialScopeKey (tn_TA n'))) \<Longrightarrow>
     \<forall>n \<in> set (heap[r := n']). sk_wf (ta_TrialScopeKey (tn_TA n))"
  using set_update_subset_insert [of heap r n'] by (cases "r < length heap") (auto simp: list_update_beyond)

lemma complete_loop_trials:
  "complete_loop heap rs ready = (heap', ready') \<Longrightarrow>
     \<forall>n \<in> set heap. sk_wf (ta_TrialScopeKey (tn_TA n)) \<Longrightarrow> \<forall>n \<in> set heap'. sk_wf (ta_TrialScopeKey (tn_TA n))"
proof (induction rs arbitrary: heap ready)
  case (Cons r rs)
  let ?n = "(heap ! r)\<lparr>tn_depsLeft := tn_depsLeft (heap ! r) - 1\<rparr>"
  have "\<forall>n \<in> set (heap[r := ?n]). sk_wf (ta_TrialScopeKey (tn_TA n))"
    using Cons.prems(2) by (intro trials_update) auto
  then show ?case using Cons.prems Cons.IH [of "heap[r := ?n]"] by (auto simp: Let_def split: if_splits)
qed simp

lemma complete_trials: "completeDepGraphAction g i = Some (g', ready) \<Longrightarrow> trials_keyed g \<Longrightarrow> trials_keyed g'"
  by (auto simp: completeDepGraphAction_def dg_Complete_def trials_keyed_def
      split: option.splits prod.splits dest!: complete_loop_trials)

lemma complete_subtree_trials:
  "complete_subtree_loop n g seen queue = Some g' \<Longrightarrow> trials_keyed g \<Longrightarrow> trials_keyed g'"
  by (induction n g seen queue rule: complete_subtree_loop.induct)
    (auto simp: Let_def complete_trials split: if_splits option.splits)

lemma heap_upd_trials:
  "trials_keyed g \<Longrightarrow> (\<And>n. sk_wf (ta_TrialScopeKey (tn_TA n)) \<Longrightarrow> sk_wf (ta_TrialScopeKey (tn_TA (h n)))) \<Longrightarrow>
     trials_keyed (heap_upd r h g)"
  unfolding trials_keyed_def heap_upd_def by (simp, rule trials_update) auto

lemma wire_loop_trials: "wire_loop g node ds n = (g', m) \<Longrightarrow> trials_keyed g \<Longrightarrow> trials_keyed g'"
  by (induction g node ds n rule: wire_loop.induct) (auto simp: heap_upd_trials split: option.splits)

lemma wire_trials: "dg_WireDeps g i ds = (g', r) \<Longrightarrow> trials_keyed g \<Longrightarrow> trials_keyed g'"
  by (auto simp: dg_WireDeps_def intro!: heap_upd_trials split: option.splits prod.splits dest: wire_loop_trials)

lemma wire_all_trials: "wire_all g ids deps is ready = (g', ready') \<Longrightarrow> trials_keyed g \<Longrightarrow> trials_keyed g'"
  by (induction g ids deps "is" ready rule: wire_all.induct) (auto split: prod.splits dest: wire_trials)

lemma register_loop_trials: "trials_keyed g \<Longrightarrow> trials_keyed (register_loop g as ids)"
  by (induction g as ids rule: register_loop.induct) (auto simp: dg_Register_def trials_keyed_def new_node_def)

lemma registerPlanActions_trials:
  "registerPlanActions g n plan = ((g', n'), ready) \<Longrightarrow> trials_keyed g \<Longrightarrow> trials_keyed g'"
  using wire_all_trials register_loop_trials
  by (auto simp: registerPlanActions_def split: if_splits prod.splits)

lemma tracked_keyed: "flow_ok f \<Longrightarrow> sk_wf (ta_TrialScopeKey (tracked f r))"
  by (auto simp: flow_ok_def trials_keyed_def tracked_def no_tracked_def)

lemma set_trial_ok: "flow_ok f \<Longrightarrow> sk_wf k \<Longrightarrow> flow_ok (set_trial r b k f)"
  by (simp add: set_trial_def flow_ok_def heap_upd_trials)

lemma markFinished_sel [simp]:
  "ef_depGraph (markFinished c f) = ef_depGraph f" "ef_control (markFinished c f) = ef_control f"
  "ef_retryRowsByKey (markFinished c f) = ef_retryRowsByKey f" "ef_activeScopes (markFinished c f) = ef_activeScopes f"
  "ef_heldByKey (markFinished c f) = ef_heldByKey f" "ef_heldScopeOrder (markFinished c f) = ef_heldScopeOrder f"
  "tracked (markFinished c f) = tracked f"
  by (simp_all add: markFinished_def Let_def tracked_def fun_eq_iff split: option.split)

lemma flow_ok_graph: "flow_ok f \<Longrightarrow> trials_keyed g \<Longrightarrow> flow_ok (f\<lparr>ef_depGraph := g\<rparr>)"
  by (simp add: flow_ok_def)

lemma flow_ok_D:
  "flow_ok f \<Longrightarrow> control_ok (ef_control f)" "flow_ok f \<Longrightarrow> rows_keyed (ef_retryRowsByKey f)"
  "flow_ok f \<Longrightarrow> trials_keyed (ef_depGraph f)"
  by (simp_all add: flow_ok_def scopes_mirrored_def)

lemma flow_complete_trials:
  "completeDepGraphAction (ef_depGraph f) i = Some (g, ready) \<Longrightarrow> flow_ok f \<Longrightarrow> trials_keyed g"
  using complete_trials flow_ok_D(3) by blast

lemma applyCompletedSubtree_ok: "applyCompletedSubtree c i f = (e, f') \<Longrightarrow> flow_ok f \<Longrightarrow> flow_ok f'"
  by (auto simp: applyCompletedSubtree_def Let_def intro!: flow_ok_graph split: option.splits)
    (blast intro: flow_complete_trials complete_subtree_trials)+

text \<open>Writes to the retry rows.\<close>

lemma flow_ok_control:
  "flow_ok f \<Longrightarrow> control_ok db \<Longrightarrow> cd_blocks db = cd_blocks (ef_control f) \<Longrightarrow> flow_ok (f\<lparr>ef_control := db\<rparr>)"
  by (simp add: flow_ok_def scopes_mirrored_def)

lemma flow_ok_rows: "flow_ok f \<Longrightarrow> rows_keyed rows \<Longrightarrow> flow_ok (f\<lparr>ef_retryRowsByKey := rows\<rparr>)"
  by (simp add: flow_ok_def)

text \<open>What a write of the retry table leaves behind: a good table, the same scopes, a row with the given scope.\<close>

definition row_write :: "control_db \<Rightarrow> scope_key \<Rightarrow> (scope_error + retry_work_row) \<times> control_db \<Rightarrow> bool" where
  "row_write db k res \<longleftrightarrow>
     control_ok (snd res) \<and> cd_blocks (snd res) = cd_blocks db \<and>
     (\<forall>row. fst res = Inr row \<longrightarrow> rw_ScopeKey row = k)"

lemma record_blocked_write:
  assumes "control_ok db" "sk_wf k"
  shows "row_write db k (RecordBlockedRetryWork w k db)"
  using record_blocked_ok [OF assms] unfolding row_write_def
  by (auto simp: RecordBlockedRetryWork_def UpsertRetryWork_def Let_def split: sum.split)

lemma record_failure_write:
  assumes "control_ok db" "sk_wf k" "now > 0" "\<forall>n. delayFn n \<ge> 0"
  shows "row_write db k (RecordRetryWorkFailure \<lparr>rf_Work = w, rf_ScopeKey = k\<rparr> delayFn now db)"
  using record_failure_ok [of db "\<lparr>rf_Work = w, rf_ScopeKey = k\<rparr>"] assms unfolding row_write_def
  by (auto simp: RecordRetryWorkFailure_def UpsertRetryWork_def Let_def split: sum.split)

definition store_written :: "(scope_error + retry_work_row) \<times> control_db \<Rightarrow> engine_flow \<Rightarrow> flow_result" where
  "store_written res f =
     (case res of
        (Inl e, db) \<Rightarrow> (Some (FlowScope e), f\<lparr>ef_control := db\<rparr>)
      | (Inr row, db) \<Rightarrow>
          (None, f\<lparr>ef_control := db, ef_retryRowsByKey := (ef_retryRowsByKey f)(row_WorkKey row \<mapsto> row)\<rparr>))"

lemma store_written_ok:
  assumes "store_written res f = (e, f')" "flow_ok f" "row_write (ef_control f) k res" "sk_wf k"
  shows "flow_ok f'"
proof (cases res)
  case (Pair r db)
  have ok: "flow_ok (f\<lparr>ef_control := db\<rparr>)"
    using assms(2,3) Pair by (intro flow_ok_control) (auto simp: row_write_def)
  show ?thesis
  proof (cases r)
    case (Inl x)
    then show ?thesis using assms(1) Pair ok by (auto simp: store_written_def)
  next
    case (Inr row)
    have "rows_keyed ((ef_retryRowsByKey f)(row_WorkKey row \<mapsto> row))"
      using flow_ok_D(2) [OF assms(2)] assms(3,4) Pair Inr by (intro rows_keyed_upd) (auto simp: row_write_def)
    from flow_ok_rows [OF ok this] show ?thesis using assms(1) Pair Inr by (auto simp: store_written_def)
  qed
qed

lemma persistBlockedRetryWork_ok: "persistBlockedRetryWork w k f = (e, f') \<Longrightarrow> flow_ok f \<Longrightarrow> sk_wf k \<Longrightarrow> flow_ok f'"
proof (cases "sk_IsZero k")
  case False
  assume "persistBlockedRetryWork w k f = (e, f')" and ok: "flow_ok f" "sk_wf k"
  then have "store_written (RecordBlockedRetryWork w k (ef_control f)) f = (e, f')"
    using False by (simp add: persistBlockedRetryWork_def store_written_def)
  then show ?thesis using ok record_blocked_write [OF flow_ok_D(1)] by (blast intro: store_written_ok)
qed (simp add: persistBlockedRetryWork_def)

lemma clear_blocked_control:
  "control_ok db \<Longrightarrow> control_ok (ClearBlockedRetryWork w k db)" "cd_blocks (ClearBlockedRetryWork w k db) = cd_blocks db"
  by (simp_all add: ClearBlockedRetryWork_def control_ok_def filter_retry_wf)

lemma clearBlockedRetryWorkForScope_ok: "flow_ok f \<Longrightarrow> flow_ok (clearBlockedRetryWorkForScope w k f)"
proof -
  assume ok: "flow_ok f"
  let ?f = "f\<lparr>ef_control := ClearBlockedRetryWork w k (ef_control f)\<rparr>"
  have ok1: "flow_ok ?f" using ok flow_ok_D(1) [OF ok] by (intro flow_ok_control clear_blocked_control)
  have "flow_ok (?f\<lparr>ef_retryRowsByKey := (ef_retryRowsByKey f)(w := None)\<rparr>)"
    using ok1 flow_ok_D(2) [OF ok] by (intro flow_ok_rows rows_keyed_del)
  then show ?thesis
    using ok ok1 unfolding clearBlockedRetryWorkForScope_def Let_def by (auto split: option.split)
qed

lemma resolve_ok: "resolveRetryWorkAndLogResolution w f = (e, f') \<Longrightarrow> flow_ok f \<Longrightarrow> flow_ok f'"
proof -
  assume r: "resolveRetryWorkAndLogResolution w f = (e, f')" and ok: "flow_ok f"
  have R: "ResolveRetryWork w (ef_control f) = (Inr (work_at (ef_control f) w), DeleteRetryWorkByWork w (ef_control f))"
    using load_is_get [OF flow_ok_D(1) [OF ok]] by (simp add: ResolveRetryWork_def)
  let ?f = "f\<lparr>ef_control := DeleteRetryWorkByWork w (ef_control f)\<rparr>"
  have ok1: "flow_ok ?f" using ok DeleteRetryWork_ok [OF flow_ok_D(1) [OF ok]] by (intro flow_ok_control) auto
  have ok2: "flow_ok (?f\<lparr>ef_retryRowsByKey := (ef_retryRowsByKey f)(w := None)\<rparr>)"
    using ok1 flow_ok_D(2) [OF ok] by (intro flow_ok_rows rows_keyed_del)
  show ?thesis
    using r ok1 ok2 unfolding resolveRetryWorkAndLogResolution_def R
    by (auto split: option.splits intro: releaseHeldAction_ok [OF prod.collapse [symmetric]])
qed

lemma clear_on_success_ok: "flow_ok f \<Longrightarrow> flow_ok (clearRetryWorkOnActionSuccess w f)"
  unfolding clearRetryWorkOnActionSuccess_def by (rule resolve_ok [OF prod.collapse [symmetric]])

lemma clear_on_superseded_ok: "clearRetryWorkOnSuperseded r c f = (e, f') \<Longrightarrow> flow_ok f \<Longrightarrow> flow_ok f'"
  by (auto simp: clearRetryWorkOnSuperseded_def split: option.splits dest: resolve_ok)

lemma hold_persisted_ok: "holdActionFromPersistedRetryState c w f = (e, f') \<Longrightarrow> flow_ok f \<Longrightarrow> flow_ok f'"
  by (auto simp: holdActionFromPersistedRetryState_def intro!: holdAction_ok split: option.splits if_splits dest: row_keyed)

lemma hold_under_scope_ok: "holdActionUnderScope c r k f = (e, f') \<Longrightarrow> flow_ok f \<Longrightarrow> sk_wf k \<Longrightarrow> flow_ok f'"
  by (auto simp: holdActionUnderScope_def intro!: holdAction_ok split: option.splits prod.splits dest: persistBlockedRetryWork_ok)

text \<open>Writes to the scopes go to the table first and to the working set after it.\<close>

lemma activateScope_alt:
  "activateScope b f =
     (case store_scope b (ef_control f) of
        (Some e, db) \<Rightarrow> (Some (FlowScope e), f\<lparr>ef_control := db\<rparr>)
      | (None, db) \<Rightarrow> (None, f\<lparr>ef_control := db, ef_activeScopes := UpsertScope b (ef_activeScopes f)\<rparr>))"
  by (simp add: activateScope_def store_scope_def split: sum.split)

lemma mirrored_activate:
  assumes "scopes_mirrored active db" "scope_timed b"
  shows "scopes_mirrored (UpsertScope b active) (snd (store_scope b db))"
  using assms store_scope_ok(2,3) [of db b] Upsert_wf [of active b]
  by (auto simp: scopes_mirrored_def fun_eq_iff Lookup_Upsert)

lemma flow_ok_scopes:
  "flow_ok f \<Longrightarrow> scopes_mirrored active db \<Longrightarrow> flow_ok (f\<lparr>ef_control := db, ef_activeScopes := active\<rparr>)"
  by (simp add: flow_ok_def)

lemma flow_ok_mirrored: "flow_ok f \<Longrightarrow> scopes_mirrored (ef_activeScopes f) (ef_control f)"
  by (simp add: flow_ok_def)

lemma store_scope_unpersisted: "\<not> sk_PersistsInBlockScopes (as_Key b) \<Longrightarrow> \<exists>e. store_scope b db = (Some e, db)"
  by (simp add: store_scope_def blockScopeRowFromActiveScope_def)

lemma activateScope_ok:
  assumes "activateScope b f = (e, f')" "flow_ok f" "sk_wf (as_Key b)" "as_TrialInterval b > 0"
    "as_NextTrialAt b = Some t" "t > 0"
  shows "flow_ok f'" and "sk_PersistsInBlockScopes (as_Key b) \<Longrightarrow> e = None \<and> hasActiveScope (as_Key b) f'"
proof -
  have timed: "scope_timed b" if "sk_PersistsInBlockScopes (as_Key b)" using that assms by (simp add: scope_timed_def)
  show "flow_ok f'"
  proof (cases "sk_PersistsInBlockScopes (as_Key b)")
    case True
    then have "fst (store_scope b (ef_control f)) = None"
      using store_scope_ok(1) [OF flow_ok_D(1) [OF assms(2)] timed] by simp
    then obtain db where db: "store_scope b (ef_control f) = (None, db)" by (cases "store_scope b (ef_control f)") simp
    have "scopes_mirrored (UpsertScope b (ef_activeScopes f)) db"
      using mirrored_activate [OF flow_ok_mirrored [OF assms(2)] timed [OF True]] db by simp
    then show ?thesis using flow_ok_scopes [OF assms(2)] assms(1) db by (auto simp: activateScope_alt)
  next
    case False
    then obtain x where "store_scope b (ef_control f) = (Some x, ef_control f)" using store_scope_unpersisted by blast
    then show ?thesis using assms(1,2) by (auto simp: activateScope_alt)
  qed
  assume p: "sk_PersistsInBlockScopes (as_Key b)"
  have "fst (store_scope b (ef_control f)) = None"
    using store_scope_ok(1) [OF flow_ok_D(1) [OF assms(2)] timed [OF p]] .
  then show "e = None \<and> hasActiveScope (as_Key b) f'"
    using assms(1) by (auto simp: activateScope_alt hasActiveScope_def HasScope_def Lookup_Upsert split: prod.splits)
qed

lemma trial_interval_pos: "computeTrialInterval d > 0"
  by (simp add: computeTrialInterval_def localScopeTrialInterval_def second_ns_def)

lemma lookup_timed: "LookupScope (ef_activeScopes f) k = Some b \<Longrightarrow> flow_ok f \<Longrightarrow> sk_wf (as_Key b) \<and> as_Key b = k"
proof -
  assume look: "LookupScope (ef_activeScopes f) k = Some b" and ok: "flow_ok f"
  then have "rows_lookup (cd_blocks (ef_control f)) k = Some b" "block_rows_wf (cd_blocks (ef_control f))"
    by (auto simp: flow_ok_def scopes_mirrored_def control_ok_def)
  then show ?thesis using LookupScope_Some [OF look]
    by (auto simp: block_rows_wf_def rows_lookup_eq row_valid_def row_scope_def list_all_iff dest!: LookupScope_Some)
qed

lemma activate_later:
  assumes "activateScope b f = (e, f')" "flow_ok f" "sk_wf (as_Key b)" "as_TrialInterval b > 0"
    "as_NextTrialAt b = Some (now + as_TrialInterval b)" "now > 0"
  shows "flow_ok f'"
  using activateScope_ok(1) [OF assms(1-5)] assms(4,6) by simp

lemma extendScopeTrial_ok: "extendScopeTrial now k d f = (e, f') \<Longrightarrow> flow_ok f \<Longrightarrow> now > 0 \<Longrightarrow> flow_ok f'"
  using trial_interval_pos [of d]
  by (auto simp: extendScopeTrial_def Let_def split: option.splits dest!: lookup_timed elim!: activate_later)

lemma rearmScopeTrial_ok: "rearmScopeTrial now k f = (e, f') \<Longrightarrow> flow_ok f \<Longrightarrow> now > 0 \<Longrightarrow> flow_ok f'"
  by (auto simp: rearmScopeTrial_def split: option.splits if_splits dest!: lookup_timed elim!: activate_later)

lemma releaseScope_ok:
  assumes "flow_ok f" "sk_wf k" "\<not> sk_IsZero k" "now > 0"
  shows "flow_ok (releaseScope now k f)"
proof -
  have m: "scopes_mirrored (ef_activeScopes f) (ef_control f)" by (rule flow_ok_mirrored [OF assms(1)])
  have "scopes_mirrored (RemoveScope k (ef_activeScopes f)) (ReleaseScope k now (ef_control f))"
    using m ReleaseScope_ok(1,2) [OF _ assms(2-4)] Remove_wf
    by (auto simp: scopes_mirrored_def fun_eq_iff Lookup_Remove)
  from flow_ok_scopes [OF assms(1) this] show ?thesis by (simp add: releaseScope_def)
qed

lemma discardScope_ok:
  assumes "discardScope k f = (e, f')" "flow_ok f" "sk_wf k" "\<not> sk_IsZero k"
  shows "flow_ok f'" and "e = None"
proof -
  have m: "scopes_mirrored (ef_activeScopes f) (ef_control f)" by (rule flow_ok_mirrored [OF assms(2)])
  note D = DiscardScope_ok [OF flow_ok_D(1) [OF assms(2)] assms(3,4)]
  have "scopes_mirrored (RemoveScope k (ef_activeScopes f)) (snd (DiscardScope k (ef_control f)))"
    using m D(2,3) Remove_wf by (auto simp: scopes_mirrored_def fun_eq_iff Lookup_Remove)
  then show "flow_ok f'" and "e = None"
    using flow_ok_scopes [OF assms(2)] assms(1) D(1) by (auto simp: discardScope_def split: prod.splits)
qed

lemma blocked_rows_listed:
  assumes "flow_ok f"
  shows "flow_scopeHasBlockedRetryWork k f =
    Inr (\<exists>w row. work_at (ef_control f) w = Some row \<and> rw_Blocked row \<and> rw_ScopeKey row = k)"
  using blocked_work_iff [OF flow_ok_D(1) [OF assms], of k]
  by (simp add: flow_scopeHasBlockedRetryWork_def scopeHasBlockedRetryWork_def)

lemma rearmOrDiscardScope_ok:
  "rearmOrDiscardScope now k f = (e, f') \<Longrightarrow> flow_ok f \<Longrightarrow> sk_wf k \<Longrightarrow> now > 0 \<Longrightarrow> flow_ok f'"
  by (auto simp: rearmOrDiscardScope_def blocked_rows_listed
      split: if_splits timed_block_scope_action.splits intro: rearmScopeTrial_ok discardScope_ok(1))

lemma applyBlockScope_ok:
  assumes "applyBlockScope now sr f = (e, f')" "flow_ok f" "sk_wf (sur_ScopeKey sr)" "now > 0"
  shows "flow_ok f'"
  using assms trial_interval_pos [of "sur_RetryAfter sr"]
  by (auto simp: applyBlockScope_def Let_def elim!: activate_later)

lemma UpdateScope_key: "UpdateScope st d p ra now ws = (ws', sr) \<Longrightarrow> sk_wf (sur_ScopeKey sr)"
  by (auto simp: UpdateScope_def checkWindow_def no_scope_update_def Let_def split: if_splits prod.splits)

lemma feedScopeDetection_ok: "feedScopeDetection now r f = (e, f') \<Longrightarrow> flow_ok f \<Longrightarrow> now > 0 \<Longrightarrow> flow_ok f'"
  by (auto simp: feedScopeDetection_def Let_def split: option.splits if_splits prod.splits
      dest: UpdateScope_key elim!: applyBlockScope_ok)

lemma transition_ok:
  assumes "transitionTrialScopeToPersistedBlock now k j d f = (e, f')" "flow_ok f" "sk_wf k" "sk_wf j" "now > 0"
  shows "flow_ok f'"
proof (cases "sk_IsZero j")
  case False
  let ?b = "\<lparr>as_Key = j, as_TrialInterval = computeTrialInterval d, as_NextTrialAt = Some (now + computeTrialInterval d)\<rparr>"
  obtain e1 f1 where a: "activateScope ?b f = (e1, f1)" by fastforce
  have ok: "flow_ok f1" using activate_later [OF a assms(2)] assms(4,5) trial_interval_pos by simp
  show ?thesis
    using assms(1) False ok assms(3,5)
    by (auto simp: transitionTrialScopeToPersistedBlock_def Let_def a blocked_rows_listed
        split: option.splits if_splits intro: rearmScopeTrial_ok discardScope_ok(1))
qed (use assms in \<open>simp add: transitionTrialScopeToPersistedBlock_def\<close>)

text \<open>At startup the working set is loaded from the table.\<close>

lemma list_scopes: "control_ok db \<Longrightarrow> \<exists>bs. ListBlockScopes db = Inr bs \<and> map activeScopeFromBlockScopeRow bs = map row_scope (cd_blocks db)"
  using query_valid_rows [of "cd_blocks db"] by (auto simp: ListBlockScopes_def control_ok_def block_rows_wf_def)

lemma loaded_mirrored:
  assumes "control_ok db" "ListBlockScopes db = Inr bs"
  shows "scopes_mirrored (map activeScopeFromBlockScopeRow bs) db"
proof -
  have e: "map activeScopeFromBlockScopeRow bs = map row_scope (cd_blocks db)" using list_scopes [OF assms(1)] assms(2) by auto
  have v: "list_all row_valid (cd_blocks db)" "distinct (map qb_scope_key (cd_blocks db))"
    using assms(1) by (simp_all add: control_ok_def block_rows_wf_def)
  have texts: "qb_scope_key r = qb_scope_key r'"
    if "r \<in> set (cd_blocks db)" "r' \<in> set (cd_blocks db)" "as_Key (row_scope r) = as_Key (row_scope r')" for r r'
  proof -
    let ?k = "ParseScopeKey (qb_scope_key r)"
    have "\<not> sk_IsZero ?k" using that(1) v(1) persists_not_zero(1) [of ?k] by (simp add: list_all_iff row_valid_def)
    then have "ParseScopeKey t = ?k \<longleftrightarrow> t = sk_String ?k" for t by (intro scope_text) simp_all
    from this [of "qb_scope_key r"] this [of "qb_scope_key r'"] show ?thesis using that(3) by (simp add: row_scope_def)
  qed
  have "inj_on (\<lambda>r. as_Key (row_scope r)) (set (cd_blocks db))"
    using v(2) texts by (intro inj_onI) (blast dest: distinct_map [THEN iffD1] inj_onD)
  then have "distinct (map (\<lambda>r. as_Key (row_scope r)) (cd_blocks db))"
    using v(2) by (simp add: distinct_map)
  then show ?thesis
    using assms(1) v(1) by (simp add: scopes_mirrored_def e scopes_wf_def fun_eq_iff rows_lookup_eq o_def)
qed

lemma loadActiveScopes_ok:
  assumes "loadActiveScopes True f = (e, f')" "control_ok (ef_control f)" "rows_keyed (ef_retryRowsByKey f)"
    "held_keyed (ef_heldByKey f)" "trials_keyed (ef_depGraph f)"
  shows "e = None \<and> flow_ok f'"
  using assms list_scopes [OF assms(2)] loaded_mirrored [OF assms(2)]
  by (auto simp: loadActiveScopes_def flow_ok_def)

section \<open>The engine's own checks\<close>

text \<open>
  The assertions the engine runs in tests and debug sessions (\<^verbatim>\<open>engine_runtime_invariants.go\<close>): \<open>None\<close>
  when they hold, else what is wrong.
\<close>

datatype invariant_error =
    InvStoreError scope_error
  | InvStillActive scope_key
  | InvStillPersisted scope_key
  | InvStillBlocked scope_key string
  | InvMissingKey
  | InvDuplicateScope scope_key
  | InvScopeWithoutWork scope_key
  | InvMissingPath action_type
  | InvAttemptCount string int
  | InvMissingTiming string
  | InvMissingScopeKey string
  | InvMissingScope string scope_key
  | InvBlockedTiming string

definition assertReleasedScope :: "scope_key \<Rightarrow> engine_flow \<Rightarrow> invariant_error option" where
  "assertReleasedScope key f =
     (if hasActiveScope key f then Some (InvStillActive key)
      else case ListBlockScopes (ef_control f) of
             Inl e \<Rightarrow> Some (InvStoreError e)
           | Inr blocks \<Rightarrow>
               if list_ex (\<lambda>b. bs_Key b = key) blocks then Some (InvStillPersisted key)
               else case ListRetryWork (ef_control f) of
                      Inl e \<Rightarrow> Some (InvStoreError e)
                    | Inr rows \<Rightarrow>
                        map_option (\<lambda>r. InvStillBlocked key (rw_Path r)) (find (\<lambda>r. rw_ScopeKey r = key \<and> rw_Blocked r) rows))"

definition assertDiscardedScope :: "scope_key \<Rightarrow> engine_flow \<Rightarrow> invariant_error option" where
  "assertDiscardedScope key f =
     (if hasActiveScope key f then Some (InvStillActive key)
      else case ListBlockScopes (ef_control f) of
             Inl e \<Rightarrow> Some (InvStoreError e)
           | Inr blocks \<Rightarrow>
               if list_ex (\<lambda>b. bs_Key b = key) blocks then Some (InvStillPersisted key)
               else case ListRetryWork (ef_control f) of
                      Inl e \<Rightarrow> Some (InvStoreError e)
                    | Inr rows \<Rightarrow>
                        map_option (\<lambda>r. InvStillBlocked key (rw_Path r)) (find (\<lambda>r. rw_ScopeKey r = key) rows))"

definition summarizePersistedScopeLinks :: "retry_work_row list \<Rightarrow> scope_key \<Rightarrow> nat" where
  "summarizePersistedScopeLinks rows key =
     (if sk_IsZero key then 0 else length (filter (\<lambda>r. rw_ScopeKey r = key \<and> rw_Blocked r) rows))"

fun assert_blocks :: "(scope_key \<Rightarrow> nat) \<Rightarrow> scope_key list \<Rightarrow> block_scope list \<Rightarrow> invariant_error option" where
  "assert_blocks links seen [] = None"
| "assert_blocks links seen (b # bs) =
     (if sk_IsZero (bs_Key b) then Some InvMissingKey
      else if bs_Key b \<in> set seen then Some (InvDuplicateScope (bs_Key b))
      else if links (bs_Key b) = 0 then Some (InvScopeWithoutWork (bs_Key b))
      else assert_blocks links (bs_Key b # seen) bs)"

definition assertDelayedRetryWorkInvariant :: "retry_work_row \<Rightarrow> invariant_error option" where
  "assertDelayedRetryWorkInvariant row = (if rw_NextRetryAt row \<le> 0 then Some (InvMissingTiming (rw_Path row)) else None)"

definition assertBlockedRetryWorkInvariant :: "retry_work_row \<Rightarrow> scope_key set \<Rightarrow> invariant_error option" where
  "assertBlockedRetryWorkInvariant row seenBlocks =
     (if sk_IsZero (rw_ScopeKey row) then Some (InvMissingScopeKey (rw_Path row))
      else if rw_ScopeKey row \<notin> seenBlocks then Some (InvMissingScope (rw_Path row) (rw_ScopeKey row))
      else if rw_NextRetryAt row \<noteq> 0 then Some (InvBlockedTiming (rw_Path row))
      else None)"

definition assertPersistedRetryWorkInvariant :: "retry_work_row \<Rightarrow> scope_key set \<Rightarrow> invariant_error option" where
  "assertPersistedRetryWorkInvariant row seenBlocks =
     (if rw_Path row = '''' then Some (InvMissingPath (rw_ActionType row))
      else if rw_AttemptCount row \<le> 0 then Some (InvAttemptCount (rw_Path row) (rw_AttemptCount row))
      else if \<not> rw_Blocked row then assertDelayedRetryWorkInvariant row
      else assertBlockedRetryWorkInvariant row seenBlocks)"

fun assert_rows :: "scope_key set \<Rightarrow> retry_work_row list \<Rightarrow> invariant_error option" where
  "assert_rows seen [] = None"
| "assert_rows seen (r # rs) =
     (case assertPersistedRetryWorkInvariant r seen of Some e \<Rightarrow> Some e | None \<Rightarrow> assert_rows seen rs)"

definition assertPersistedInvariants :: "control_db \<Rightarrow> invariant_error option" where
  "assertPersistedInvariants db =
     (case ListBlockScopes db of
        Inl e \<Rightarrow> Some (InvStoreError e)
      | Inr blocks \<Rightarrow>
          (case ListRetryWork db of
             Inl e \<Rightarrow> Some (InvStoreError e)
           | Inr rows \<Rightarrow>
               (case assert_blocks (summarizePersistedScopeLinks rows) [] blocks of
                  Some e \<Rightarrow> Some e
                | None \<Rightarrow> assert_rows (set (map bs_Key blocks)) rows)))"

lemma not_persisted:
  assumes "flow_ok f" "\<not> hasActiveScope k f" "ListBlockScopes (ef_control f) = Inr bs"
  shows "\<not> list_ex (\<lambda>b. bs_Key b = k) bs"
proof -
  have m: "scopes_mirrored (map activeScopeFromBlockScopeRow bs) (ef_control f)"
    by (rule loaded_mirrored [OF flow_ok_D(1) [OF assms(1)] assms(3)])
  have "LookupScope (ef_activeScopes f) k = None"
    using assms(2) by (simp add: hasActiveScope_def HasScope_def)
  then have "LookupScope (map activeScopeFromBlockScopeRow bs) k = None"
    using m assms(1) by (simp add: scopes_mirrored_def flow_ok_def)
  then show ?thesis by (auto simp: LookupScope_None list_ex_iff activeScopeFromBlockScopeRow_def image_iff)
qed

lemma assertion_iff:
  assumes "flow_ok f" "\<not> hasActiveScope k f"
  shows "assertReleasedScope k f = None \<longleftrightarrow>
      (\<forall>w row. work_at (ef_control f) w = Some row \<longrightarrow> \<not> (rw_ScopeKey row = k \<and> rw_Blocked row))"
    and "assertDiscardedScope k f = None \<longleftrightarrow>
      (\<forall>w row. work_at (ef_control f) w = Some row \<longrightarrow> rw_ScopeKey row \<noteq> k)"
proof -
  obtain bs where bs: "ListBlockScopes (ef_control f) = Inr bs" using list_scopes [OF flow_ok_D(1) [OF assms(1)]] by blast
  obtain rs where rs: "ListRetryWork (ef_control f) = Inr rs" "set rs = {row. \<exists>k. work_at (ef_control f) k = Some row}"
    using list_retry_set [OF flow_ok_D(1) [OF assms(1)]] by blast
  note [simp] = bs rs(1) assms(2) not_persisted [OF assms bs]
  show "assertReleasedScope k f = None \<longleftrightarrow>
      (\<forall>w row. work_at (ef_control f) w = Some row \<longrightarrow> \<not> (rw_ScopeKey row = k \<and> rw_Blocked row))"
    by (auto simp: assertReleasedScope_def find_None_iff rs(2))
  show "assertDiscardedScope k f = None \<longleftrightarrow>
      (\<forall>w row. work_at (ef_control f) w = Some row \<longrightarrow> rw_ScopeKey row \<noteq> k)"
    by (auto simp: assertDiscardedScope_def find_None_iff rs(2))
qed

section \<open>The lifecycle of a scope\<close>

lemma active_after:
  assumes "flow_ok f"
  shows "hasActiveScope j (releaseScope now k f) \<longleftrightarrow> j \<noteq> k \<and> hasActiveScope j f"
    and "discardScope k f = (None, f') \<Longrightarrow> hasActiveScope j f' \<longleftrightarrow> j \<noteq> k \<and> hasActiveScope j f"
proof -
  have "scopes_wf (ef_activeScopes f)" using assms by (simp add: flow_ok_def scopes_mirrored_def)
  note L = Lookup_Remove [OF this, of k j]
  show "hasActiveScope j (releaseScope now k f) \<longleftrightarrow> j \<noteq> k \<and> hasActiveScope j f"
    using L by (simp add: hasActiveScope_def HasScope_def releaseScope_def)
  show "hasActiveScope j f' \<longleftrightarrow> j \<noteq> k \<and> hasActiveScope j f" if "discardScope k f = (None, f')"
    using that L by (auto simp: hasActiveScope_def HasScope_def discardScope_def split: prod.splits option.splits if_splits)
qed

lemma active_after_block:
  assumes "flow_ok f" "sk_wf k" "sk_PersistsInBlockScopes k" "now > 0" "sur_ScopeKey sr = k" "applyBlockScope now sr f = (e, f')"
  shows "e = None \<and> flow_ok f' \<and> hasActiveScope k f'"
proof -
  let ?b = "\<lparr>as_Key = k, as_TrialInterval = computeTrialInterval (sur_RetryAfter sr),
      as_NextTrialAt = Some (now + computeTrialInterval (sur_RetryAfter sr))\<rparr>"
  have a: "activateScope ?b f = (e, f')" using assms(5,6) by (simp add: applyBlockScope_def Let_def)
  show ?thesis
    using activateScope_ok [OF a assms(1)] assms(2-4) trial_interval_pos [of "sur_RetryAfter sr"] by simp
qed

text \<open>
  The lifecycle of a block scope keeps memory and disk in step. While the active scopes are
  the persisted ones, raising a scope that may be persisted never fails and makes it active,
  releasing and discarding it never fail and end it, nothing else changes among the active
  scopes, they stay the persisted ones, and the checks the engine makes after a release and
  after a discard succeed: no row is left blocked under a released scope and none at all under
  a discarded one.
\<close>

theorem scope_lifecycle_asserted:
  assumes "flow_ok f" "sk_wf k" "\<not> sk_IsZero k" "now > 0"
  shows "(let f1 = releaseScope now k f in
      flow_ok f1 \<and> assertReleasedScope k f1 = None \<and> (\<forall>j. hasActiveScope j f1 \<longleftrightarrow> j \<noteq> k \<and> hasActiveScope j f)) \<and>
    (let f2 = snd (discardScope k f) in
      fst (discardScope k f) = None \<and> flow_ok f2 \<and> assertDiscardedScope k f2 = None \<and>
      (\<forall>j. hasActiveScope j f2 \<longleftrightarrow> j \<noteq> k \<and> hasActiveScope j f)) \<and>
    (sk_PersistsInBlockScopes k \<longrightarrow>
      (let res = applyBlockScope now \<lparr>sur_Block = True, sur_ScopeKey = k, sur_ConditionType = ct, sur_RetryAfter = ra\<rparr> f in
       fst res = None \<and> flow_ok (snd res) \<and> hasActiveScope k (snd res)))"
proof (intro conjI impI)
  have rel: "flow_ok (releaseScope now k f)" by (rule releaseScope_ok [OF assms])
  have gone: "\<not> hasActiveScope k (releaseScope now k f)" using active_after(1) [OF assms(1)] by simp
  have W: "work_at (ef_control (releaseScope now k f)) w = map_option (released_row k now) (work_at (ef_control f) w)" for w
    using ReleaseScope_ok(3) [OF flow_ok_D(1) [OF assms(1)] assms(2-4)] by (simp add: releaseScope_def)
  have free: "\<not> (rw_ScopeKey (released_row k now row) = k \<and> rw_Blocked (released_row k now row))" for row
    by (auto simp: released_row_def)
  have "assertReleasedScope k (releaseScope now k f) = None"
    unfolding assertion_iff(1) [OF rel gone] W map_option_eq_Some using free by metis
  then show "let f1 = releaseScope now k f in
      flow_ok f1 \<and> assertReleasedScope k f1 = None \<and> (\<forall>j. hasActiveScope j f1 \<longleftrightarrow> j \<noteq> k \<and> hasActiveScope j f)"
    using rel active_after(1) [OF assms(1)] by (simp add: Let_def)
next
  obtain e f2 where d: "discardScope k f = (e, f2)" by fastforce
  have ok: "flow_ok f2" "e = None" using discardScope_ok [OF d assms(1-3)] by simp_all
  have gone: "\<not> hasActiveScope k f2" using active_after(2) [OF assms(1), of k f2] d ok(2) by simp
  have "ef_control f2 = snd (DiscardScope k (ef_control f))" using d ok(2) by (auto simp: discardScope_def split: prod.splits option.splits)
  then have "assertDiscardedScope k f2 = None"
    using assertion_iff(2) [OF ok(1) gone] DiscardScope_ok(4) [OF flow_ok_D(1) [OF assms(1)] assms(2,3)]
    by (auto split: option.splits if_splits)
  then show "let f2 = snd (discardScope k f) in
      fst (discardScope k f) = None \<and> flow_ok f2 \<and> assertDiscardedScope k f2 = None \<and>
      (\<forall>j. hasActiveScope j f2 \<longleftrightarrow> j \<noteq> k \<and> hasActiveScope j f)"
    using d ok active_after(2) [OF assms(1)] by (simp add: Let_def)
next
  assume "sk_PersistsInBlockScopes k"
  from active_after_block [OF assms(1,2) this assms(4)]
  show "let res = applyBlockScope now \<lparr>sur_Block = True, sur_ScopeKey = k, sur_ConditionType = ct, sur_RetryAfter = ra\<rparr> f in
       fst res = None \<and> flow_ok (snd res) \<and> hasActiveScope k (snd res)"
    by (metis prod.collapse select_convs(2) scope_update_result.select_convs(2))
qed

section \<open>A concrete run\<close>

definition new_flow :: "control_db \<Rightarrow> engine_flow" where
  "new_flow db =
     \<lparr>ef_depGraph = NewDepGraph, ef_activeScopes = [], ef_scopeState = Some Map.empty, ef_nextActionID = 1,
      ef_retryRowsByKey = Map.empty, ef_heldByKey = [], ef_heldScopeOrder = (\<lambda>_. []), ef_queuedByID = {},
      ef_runningByID = {}, ef_runningCount = 0, ef_nextHeldOrder = 0, ef_succeeded = 0, ef_failed = 0,
      ef_syncErrors = [], ef_summaries = [], ef_store = fresh_store, ef_control = db, ef_dirty = False\<rparr>"

lemma new_flow_ok:
  assumes "control_ok db"
  shows "flow_ok (snd (loadActiveScopes True (new_flow db)))"
  using loadActiveScopes_ok [OF prod.collapse [symmetric], of "new_flow db"] assms
  by (simp add: new_flow_def rows_keyed_def held_keyed_def trials_keyed_def NewDepGraph_def)

definition quota_flow :: engine_flow where
  "quota_flow = snd (loadActiveScopes True (new_flow blocked_db))"

theorem scope_lifecycle_asserted_witness:
  "hasActiveScope SKQuotaOwn quota_flow \<and> \<not> hasActiveScope SKQuotaOwn (releaseScope 7 SKQuotaOwn quota_flow) \<and>
   assertReleasedScope SKQuotaOwn (releaseScope 7 SKQuotaOwn quota_flow) = None"
proof -
  have ok: "flow_ok quota_flow" unfolding quota_flow_def by (rule new_flow_ok [OF blocked_db_ok])
  have "hasActiveScope SKQuotaOwn quota_flow" by code_simp
  then show ?thesis using scope_lifecycle_asserted [OF ok quota_key, of 7] by (simp add: Let_def)
qed

end
