(* ===== verification/RuntimeFlow.thy ===== *)
theory RuntimeFlow
  imports Runtime
begin

text \<open>
  Admission of ready actions, completion of finished ones and the stages that join them
  (\<^verbatim>\<open>engine_runtime_admission.go\<close>, \<^verbatim>\<open>engine_runtime_completion.go\<close>,
  \<^verbatim>\<open>engine_runtime_completion_trial.go\<close>, \<^verbatim>\<open>engine_runtime_permissions.go\<close>,
  \<^verbatim>\<open>engine_runtime_start.go\<close>, \<^verbatim>\<open>engine_runtime_shutdown.go\<close>). A stage gives an error, if any, the
  tracked actions it hands to the caller and the new state. Completion, the publication drain and
  the reduction of the ready frontier call each other; they share a fuel that bounds the depth of
  these calls and the length of the drain queue. The note of a rejected sign-in in the account
  catalog is left out.
\<close>

type_synonym stage_result = "flow_error option \<times> nat list \<times> engine_flow"

definition store_go_error :: "engine_env \<Rightarrow> store_error \<Rightarrow> go_error" where
  "store_go_error env e = \<lparr>ge_Marks = [], ge_Graph = None, ge_Message = ev_errText env e\<rparr>"

definition reconcile_delay :: "engine_env \<Rightarrow> int \<Rightarrow> int" where
  "reconcile_delay env n = policy_Delay ReconcilePolicy (ev_rand env) (nat n)"

section \<open>Admission\<close>

datatype admission_decision_kind = admissionDispatchNow | admissionHoldRetry | admissionHoldScope

record admission_decision =
  ad_Action :: nat
  ad_Kind :: admission_decision_kind
  ad_ScopeKey :: scope_key
  ad_NextRetryAt :: go_time
  ad_ClearScopeKey :: scope_key
  ad_RetryWorkKey :: retry_work_key

definition own_trial :: "tracked_action \<Rightarrow> scope_key \<Rightarrow> bool" where
  "own_trial ta k \<longleftrightarrow> ta_IsTrial ta \<and> \<not> sk_IsZero (ta_TrialScopeKey ta) \<and> k = ta_TrialScopeKey ta"

definition newAdmissionDecision :: "engine_flow \<Rightarrow> nat \<Rightarrow> admission_decision" where
  "newAdmissionDecision f r =
     (let ta = tracked f r; a = ta_Action ta; k = ta_TrialScopeKey ta
      in \<lparr>ad_Action = r, ad_Kind = admissionDispatchNow, ad_ScopeKey = zero_scope_key, ad_NextRetryAt = None,
          ad_ClearScopeKey =
            (if ta_IsTrial ta \<and> \<not> sk_IsZero k \<and>
                \<not> sk_BlocksAction k (a_Path a) (action_ThrottleTargetKey (Some a)) (a_Type a)
             then k else zero_scope_key),
          ad_RetryWorkKey = retryWorkKeyForAction a\<rparr>)"

definition applyPersistedRetryAdmission :: "int \<Rightarrow> engine_flow \<Rightarrow> nat \<Rightarrow> admission_decision \<Rightarrow> admission_decision" where
  "applyPersistedRetryAdmission now f r d =
     (case ef_retryRowsByKey f (ad_RetryWorkKey d) of
        None \<Rightarrow> d
      | Some row \<Rightarrow>
          if \<not> sk_IsZero (ad_ClearScopeKey d) \<and> rw_ScopeKey row = ad_ClearScopeKey d then d
          else if rw_Blocked row \<and> \<not> sk_IsZero (rw_ScopeKey row) \<and> \<not> own_trial (tracked f r) (rw_ScopeKey row)
          then d\<lparr>ad_Kind := admissionHoldScope, ad_ScopeKey := rw_ScopeKey row\<rparr>
          else if rw_NextRetryAt row > 0 \<and> rw_NextRetryAt row > now
          then d\<lparr>ad_Kind := admissionHoldRetry, ad_NextRetryAt := Some (rw_NextRetryAt row)\<rparr>
          else d)"

definition applyActiveScopeAdmission :: "engine_flow \<Rightarrow> nat \<Rightarrow> admission_decision \<Rightarrow> admission_decision" where
  "applyActiveScopeAdmission f r d =
     (if ad_Kind d \<noteq> admissionDispatchNow then d
      else let k = findBlockingScope r f
           in if sk_IsZero k \<or> own_trial (tracked f r) k then d
              else d\<lparr>ad_Kind := admissionHoldScope, ad_ScopeKey := k\<rparr>)"

definition admission_of :: "int \<Rightarrow> engine_flow \<Rightarrow> nat \<Rightarrow> admission_decision" where
  "admission_of now f r =
     applyActiveScopeAdmission f r (applyPersistedRetryAdmission now f r (newAdmissionDecision f r))"

definition decideAdmission :: "int \<Rightarrow> nat list \<Rightarrow> engine_flow \<Rightarrow> admission_decision list" where
  "decideAdmission now ready f = map (admission_of now f) ready"

definition applySupersededCompletion ::
  "engine_env \<Rightarrow> nat option \<Rightarrow> action_completion \<Rightarrow> engine_flow \<Rightarrow> flow_result" where
  "applySupersededCompletion env current r f =
     (case clearRetryWorkOnSuperseded r current f of
        (Some e, f1) \<Rightarrow> (Some e, f1)
      | (None, f1) \<Rightarrow>
          (case applyCompletedSubtree current (ac_ActionID r) f1 of
             (Some e, f2) \<Rightarrow> (Some e, f2)
           | (None, f2) \<Rightarrow> (None, if ev_watch env then f2\<lparr>ef_dirty := True\<rparr> else f2)))"

definition admissionDispatchActions :: "admission_decision list \<Rightarrow> nat list" where
  "admissionDispatchActions ds = map ad_Action (filter (\<lambda>d. ad_Kind d = admissionDispatchNow) ds)"

definition stale_completion :: "tracked_action \<Rightarrow> string \<Rightarrow> action_completion" where
  "stale_completion ta reason =
     actionCompletionFromTrackedAction ta None
       (Some \<lparr>ge_Marks = [MarkActionPreconditionChanged], ge_Graph = None,
              ge_Message = ''sync: action precondition changed: '' @ reason\<rparr>)"

text \<open>The kept decisions, the actions the caller owns after an error, the error and the state.\<close>

fun filterFreshAdmissionDecisions ::
  "engine_env \<Rightarrow> admission_decision list \<Rightarrow> admission_decision list \<Rightarrow> engine_flow \<Rightarrow>
   admission_decision list \<times> nat list \<times> flow_error option \<times> engine_flow" where
  "filterFreshAdmissionDecisions env [] filtered f = (filtered, [], None, f)"
| "filterFreshAdmissionDecisions env (d # ds) filtered f =
     (if ad_Kind d \<noteq> admissionDispatchNow then filterFreshAdmissionDecisions env ds (filtered @ [d]) f
      else
        (let ta = tracked f (ad_Action d)
         in case evaluateActionFreshnessFromStore (ev_canceled env) (ev_bypass env) (ta_Action ta) (ef_store f) of
              (m, Inl e) \<Rightarrow>
                (filtered, admissionDispatchActions filtered @ [ad_Action d], Some (FlowStore e), f\<lparr>ef_store := m\<rparr>)
            | (m, Inr fr) \<Rightarrow>
                (if fd_Fresh fr then filterFreshAdmissionDecisions env ds (filtered @ [d]) (f\<lparr>ef_store := m\<rparr>)
                 else case applySupersededCompletion env (Some (ad_Action d)) (stale_completion ta (fd_Reason fr))
                             (f\<lparr>ef_store := m\<rparr>) of
                        (Some e, f1) \<Rightarrow> (filtered, admissionDispatchActions filtered, Some e, f1)
                      | (None, f1) \<Rightarrow> filterFreshAdmissionDecisions env ds filtered f1)))"

definition applyAdmissionScopeClear :: "admission_decision \<Rightarrow> engine_flow \<Rightarrow> engine_flow" where
  "applyAdmissionScopeClear d f =
     (if sk_IsZero (ad_ClearScopeKey d) then f
      else let f1 = clearBlockedRetryWorkForScope (ad_RetryWorkKey d) (ad_ClearScopeKey d) f
           in case ef_retryRowsByKey f1 (ad_RetryWorkKey d) of
                Some row \<Rightarrow>
                  if rw_Blocked row \<and> rw_ScopeKey row = ad_ClearScopeKey d
                  then f1\<lparr>ef_retryRowsByKey := (ef_retryRowsByKey f1)(ad_RetryWorkKey d := None)\<rparr> else f1
              | None \<Rightarrow> f1)"

definition persistHeldScopeDecision :: "admission_decision \<Rightarrow> engine_flow \<Rightarrow> flow_result" where
  "persistHeldScopeDecision d f =
     (if sk_IsZero (ad_ScopeKey d) then (None, f)
      else
        (let held = (case ef_retryRowsByKey f (ad_RetryWorkKey d) of
                       Some row \<Rightarrow> rw_Blocked row \<and> rw_ScopeKey row = ad_ScopeKey d
                     | None \<Rightarrow> False)
         in if held then (None, f) else persistBlockedRetryWork (ad_RetryWorkKey d) (ad_ScopeKey d) f))"

fun applyAdmissionDecisions :: "admission_decision list \<Rightarrow> nat list \<Rightarrow> engine_flow \<Rightarrow> stage_result" where
  "applyAdmissionDecisions [] dispatch f = (None, dispatch, f)"
| "applyAdmissionDecisions (d # ds) dispatch f =
     (let f1 = applyAdmissionScopeClear d f; r = ad_Action d
      in case ad_Kind d of
           admissionDispatchNow \<Rightarrow> applyAdmissionDecisions ds (dispatch @ [r]) (markQueued r f1)
         | admissionHoldRetry \<Rightarrow>
             applyAdmissionDecisions ds dispatch (holdAction r heldReasonRetry zero_scope_key (ad_NextRetryAt d) f1)
         | admissionHoldScope \<Rightarrow>
             (case persistHeldScopeDecision d f1 of
                (Some e, f2) \<Rightarrow> (Some e, dispatch, f2)
              | (None, f2) \<Rightarrow> applyAdmissionDecisions ds dispatch (holdAction r heldReasonScope (ad_ScopeKey d) None f2)))"

definition admitReady :: "engine_env \<Rightarrow> nat list \<Rightarrow> engine_flow \<Rightarrow> stage_result" where
  "admitReady env ready f =
     (case filterFreshAdmissionDecisions env (decideAdmission (ev_now env) ready f) [] f of
        (filtered, owned, Some e, f1) \<Rightarrow> (Some e, owned, f1)
      | (filtered, owned, None, f1) \<Rightarrow> applyAdmissionDecisions filtered [] f1)"

definition release_due_retry :: "retry_work_key \<Rightarrow> nat list \<times> engine_flow \<Rightarrow> nat list \<times> engine_flow" where
  "release_due_retry key s =
     (case releaseHeldAction key (snd s) of
        (None, f) \<Rightarrow> (fst s, f)
      | (Some r, f) \<Rightarrow> (fst s @ [r], set_trial r False zero_scope_key f))"

definition release_due_trial :: "retry_work_key \<Rightarrow> nat list \<times> engine_flow \<Rightarrow> nat list \<times> engine_flow" where
  "release_due_trial key s =
     (case held_at (snd s) key of
        None \<Rightarrow> s
      | Some held \<Rightarrow>
          (case releaseHeldAction key (snd s) of
             (None, f) \<Rightarrow> (fst s, f)
           | (Some r, f) \<Rightarrow> (fst s @ [r], set_trial r True (ha_ScopeKey held) f)))"

definition drainDueHeldWorkNow :: "engine_env \<Rightarrow> engine_flow \<Rightarrow> stage_result" where
  "drainDueHeldWorkNow env f =
     (let s1 = fold release_due_retry (dueRetryKeys (ev_now env) f) ([], f);
          s2 = fold release_due_trial (dueTrialKeys (ev_now env) (snd s1)) s1
      in if fst s2 = [] then (None, [], snd s2) else admitReady env (fst s2) (snd s2))"

section \<open>Recording a failure\<close>

definition retryWorkShouldBeBlocked :: "err_class \<Rightarrow> scope_key \<Rightarrow> engine_flow \<Rightarrow> bool" where
  "retryWorkShouldBeBlocked c k f =
     (if sk_IsZero k then False
      else if c = ClassBlockScopeingTransient then True
      else if c \<noteq> ClassRetryableTransient then False
      else hasActiveScope k f)"

definition recordRetryWork :: "engine_env \<Rightarrow> result_decision \<Rightarrow> action_completion \<Rightarrow> engine_flow \<Rightarrow> flow_result" where
  "recordRetryWork env d r f =
     (let work = retryWorkKeyForCompletion r;
          k = rd_ScopeEvidence d;
          first = RecordRetryWorkFailure \<lparr>rf_Work = work, rf_ScopeKey = k\<rparr> (reconcile_delay env) (ev_now env) (ef_control f);
          recorded = (if retryWorkShouldBeBlocked (rd_Class d) k f then RecordBlockedRetryWork work k (snd first) else first)
      in case recorded of
           (Inl e, db) \<Rightarrow> (Some (FlowScope e), f\<lparr>ef_control := db\<rparr>)
         | (Inr row, db) \<Rightarrow>
             (None, f\<lparr>ef_control := db, ef_retryRowsByKey := (ef_retryRowsByKey f)(row_WorkKey row \<mapsto> row)\<rparr>))"

definition applyResultPersistence ::
  "engine_env \<Rightarrow> result_decision \<Rightarrow> action_completion \<Rightarrow> engine_flow \<Rightarrow> flow_result" where
  "applyResultPersistence env d r f =
     (case rd_Persistence d of persistNone \<Rightarrow> (None, f) | persistRetryWork \<Rightarrow> recordRetryWork env d r f)"

text \<open>Whether the failure was persisted, with the error and the state.\<close>

definition persistAndHoldFailure ::
  "engine_env \<Rightarrow> nat option \<Rightarrow> result_decision \<Rightarrow> action_completion \<Rightarrow> engine_flow \<Rightarrow> bool \<times> flow_result" where
  "persistAndHoldFailure env current d r f =
     (if rd_Persistence d \<noteq> persistRetryWork then (False, None, f)
      else case applyResultPersistence env d r f of
             (Some e, f1) \<Rightarrow> (False, Some e, f1)
           | (None, f1) \<Rightarrow>
               (case holdActionFromPersistedRetryState current (retryWorkKeyForCompletion r) f1 of
                  (Some e, f2) \<Rightarrow> (False, Some e, f2)
                | (None, f2) \<Rightarrow> (True, None, f2)))"

definition scope_block_of :: "scope_key \<Rightarrow> scope_update_result" where
  "scope_block_of k =
     no_scope_update\<lparr>sur_Block := True, sur_ScopeKey := k, sur_ConditionType := sk_ConditionType k\<rparr>"

definition applyPersistedFailureScopeEffects ::
  "engine_env \<Rightarrow> result_decision \<Rightarrow> action_completion \<Rightarrow> bool \<Rightarrow> engine_flow \<Rightarrow> flow_result" where
  "applyPersistedFailureScopeEffects env d r persisted f =
     (if \<not> persisted then (None, f)
      else if rd_RunScopeDetection d then feedScopeDetection (ev_now env) r f
      else if rd_Class d \<noteq> ClassBlockScopeingTransient \<or> sk_IsZero (rd_ScopeKey d) then (None, f)
      else applyBlockScope (ev_now env) (scope_block_of (rd_ScopeKey d)) f)"

definition applyOrdinaryFailureEffects ::
  "engine_env \<Rightarrow> nat option \<Rightarrow> result_decision \<Rightarrow> action_completion \<Rightarrow> engine_flow \<Rightarrow> flow_result" where
  "applyOrdinaryFailureEffects env current d r f =
     (case persistAndHoldFailure env current d r f of
        (_, Some e, f1) \<Rightarrow> (Some e, f1)
      | (persisted, None, f1) \<Rightarrow>
          (case applyPersistedFailureScopeEffects env d r persisted f1 of
             (Some e, f2) \<Rightarrow> (Some e, f2)
           | (None, f2) \<Rightarrow> (None, recordError d r f2)))"

section \<open>Permission failures\<close>

definition recordPermissionRetryWork :: "engine_env \<Rightarrow> retry_work_key \<Rightarrow> scope_key \<Rightarrow> engine_flow \<Rightarrow> flow_result" where
  "recordPermissionRetryWork env work k f =
     (case RecordRetryWorkFailure \<lparr>rf_Work = work, rf_ScopeKey = k\<rparr> (reconcile_delay env) (ev_now env) (ef_control f) of
        (Inl e, db) \<Rightarrow> (Some (FlowScope e), f\<lparr>ef_control := db\<rparr>)
      | (Inr row, db) \<Rightarrow>
          (None, f\<lparr>ef_control := db, ef_retryRowsByKey := (ef_retryRowsByKey f)(row_WorkKey row \<mapsto> row)\<rparr>))"

definition recordPermissionBlockedRetry :: "retry_work_key \<Rightarrow> scope_key \<Rightarrow> engine_flow \<Rightarrow> flow_result" where
  "recordPermissionBlockedRetry work k f =
     (case RecordBlockedRetryWork work k (ef_control f) of
        (Inl e, db) \<Rightarrow> (Some (FlowScope e), f\<lparr>ef_control := db\<rparr>)
      | (Inr row, db) \<Rightarrow>
          (None, f\<lparr>ef_control := db, ef_retryRowsByKey := (ef_retryRowsByKey f)(row_WorkKey row \<mapsto> row)\<rparr>))"

definition block_denied_boundary :: "engine_env \<Rightarrow> retry_work_key \<Rightarrow> permission_evidence \<Rightarrow> engine_flow \<Rightarrow> flow_result" where
  "block_denied_boundary env work evidence f =
     (let k = scopeKeyForPermissionEvidence evidence
      in case recordPermissionBlockedRetry work k f of
           (Some e, f1) \<Rightarrow> (Some e, f1)
         | (None, f1) \<Rightarrow>
             if sk_PersistsInBlockScopes k then applyBlockScope (ev_now env) (scope_block_of k) f1 else (None, f1))"

text \<open>A missing current action is dereferenced when there are active scopes.\<close>

definition applyPermissionFailureEvidence ::
  "engine_env \<Rightarrow> nat option \<Rightarrow> action_completion \<Rightarrow> permission_evidence \<Rightarrow> engine_flow \<Rightarrow> flow_result" where
  "applyPermissionFailureEvidence env current r evidence f =
     (let work = retryWorkKeyForCompletion r;
          hold = (\<lambda>res. case res of (Some e, f1) \<Rightarrow> (Some e, f1) | (None, f1) \<Rightarrow> holdActionFromPersistedRetryState current work f1)
      in case pe_Kind evidence of
           permissionEvidenceNone \<Rightarrow> (Some (FlowMissingEvidence (rk_Path work)), f)
         | permissionEvidenceKnownActiveBoundary \<Rightarrow>
             (case current of
                None \<Rightarrow> (if ef_activeScopes f = [] then None else Some FlowPanic, f)
              | Some c \<Rightarrow>
                  (let blocking = findBlockingScope c f
                   in if sk_IsZero blocking then (None, f) else holdActionUnderScope current r blocking f))
         | permissionEvidenceFileDenied \<Rightarrow> hold (recordPermissionRetryWork env work zero_scope_key f)
         | permissionEvidenceBoundaryDenied \<Rightarrow> hold (block_denied_boundary env work evidence f))"

text \<open>Whether the failure was handled as one of permissions.\<close>

definition handle_with_evidence ::
  "engine_env \<Rightarrow> result_decision \<Rightarrow> nat option \<Rightarrow> action_completion \<Rightarrow> permission_evidence \<Rightarrow> engine_flow \<Rightarrow> bool \<times> flow_result" where
  "handle_with_evidence env d current r evidence f =
     (if pe_Kind evidence = permissionEvidenceNone then (False, None, f)
      else case applyPermissionFailureEvidence env current r evidence f of
             (Some e, f1) \<Rightarrow> (True, Some e, f1)
           | (None, f1) \<Rightarrow> (True, None, recordError d r f1))"

definition handleRemote403PermissionFailure ::
  "engine_env \<Rightarrow> result_decision \<Rightarrow> nat option \<Rightarrow> action_completion \<Rightarrow> baseline option \<Rightarrow> engine_flow \<Rightarrow> bool \<times> flow_result" where
  "handleRemote403PermissionFailure env d current r blo f =
     (case blo of
        None \<Rightarrow> (False, None, f)
      | Some bl \<Rightarrow>
          if ph_list (ev_permHandler env) = None then (False, None, f)
          else handle_with_evidence env d current r (handle403 (ev_permHandler env) bl (ef_control f) (ac_Path r)) f)"

definition handleLocalPermissionFailure ::
  "engine_env \<Rightarrow> result_decision \<Rightarrow> nat option \<Rightarrow> action_completion \<Rightarrow> engine_flow \<Rightarrow> bool \<times> flow_result" where
  "handleLocalPermissionFailure env d current r f =
     handle_with_evidence env d current r (handleLocalPermission (ev_permHandler env) r) f"

definition maybeHandlePermissionFailure ::
  "engine_env \<Rightarrow> result_decision \<Rightarrow> nat option \<Rightarrow> action_completion \<Rightarrow> baseline option \<Rightarrow> engine_flow \<Rightarrow> bool \<times> flow_result" where
  "maybeHandlePermissionFailure env d current r blo f =
     (if shouldHandleRemote403Permission r then handleRemote403PermissionFailure env d current r blo f
      else if shouldHandleLocalPermission r then handleLocalPermissionFailure env d current r f
      else (False, None, f))"

definition permissionEvidenceForCompletion ::
  "engine_env \<Rightarrow> action_completion \<Rightarrow> baseline option \<Rightarrow> engine_flow \<Rightarrow> permission_evidence option" where
  "permissionEvidenceForCompletion env r blo f =
     (if shouldHandleRemote403Permission r then
        (case blo of
           None \<Rightarrow> None
         | Some bl \<Rightarrow>
             if ph_list (ev_permHandler env) = None then None
             else Some (handle403 (ev_permHandler env) bl (ef_control f) (ac_Path r)))
      else if shouldHandleLocalPermission r then Some (handleLocalPermission (ev_permHandler env) r)
      else None)"

definition applyTrialPermissionEvidence ::
  "engine_env \<Rightarrow> retry_work_key \<Rightarrow> scope_key \<Rightarrow> permission_evidence \<Rightarrow> engine_flow \<Rightarrow> flow_result" where
  "applyTrialPermissionEvidence env work trialScopeKey evidence f =
     (case pe_Kind evidence of
        permissionEvidenceNone \<Rightarrow> (Some (FlowMissingEvidence (rk_Path work)), f)
      | permissionEvidenceKnownActiveBoundary \<Rightarrow>
          (let k = scopeKeyForPermissionEvidence evidence
           in recordPermissionBlockedRetry work (if sk_IsZero k then trialScopeKey else k) f)
      | permissionEvidenceFileDenied \<Rightarrow> recordPermissionRetryWork env work zero_scope_key f
      | permissionEvidenceBoundaryDenied \<Rightarrow> block_denied_boundary env work evidence f)"

text \<open>An error here is reported with the failure as not handled, and is dropped by the caller.\<close>

definition applyTrialPermissionReclassification ::
  "engine_env \<Rightarrow> action_completion \<Rightarrow> baseline option \<Rightarrow> engine_flow \<Rightarrow> bool \<times> flow_result" where
  "applyTrialPermissionReclassification env r blo f =
     (case permissionEvidenceForCompletion env r blo f of
        None \<Rightarrow> (False, None, f)
      | Some evidence \<Rightarrow>
          if pe_Kind evidence = permissionEvidenceNone then (False, None, f)
          else
            (let work = retryWorkKeyForCompletion r;
                 f1 = clearBlockedRetryWorkForScope work (ac_TrialScopeKey r) f
             in case applyTrialPermissionEvidence env work (ac_TrialScopeKey r) evidence f1 of
                  (Some e, f2) \<Rightarrow> (False, Some e, f2)
                | (None, f2) \<Rightarrow> (True, None, f2)))"

section \<open>Success and trials\<close>

definition admitReadyAfterSuccessfulAction :: "engine_env \<Rightarrow> int \<Rightarrow> engine_flow \<Rightarrow> stage_result" where
  "admitReadyAfterSuccessfulAction env actionID f =
     (case completeDepGraphAction (ef_depGraph f) actionID of
        None \<Rightarrow> (Some FlowPanic, [], f)
      | Some (g, ready) \<Rightarrow> admitReady env ready (f\<lparr>ef_depGraph := g\<rparr>))"

definition clearRetryWorkOnSuccess :: "action_completion option \<Rightarrow> engine_flow \<Rightarrow> engine_flow" where
  "clearRetryWorkOnSuccess ro f =
     (case ro of
        None \<Rightarrow> f
      | Some r \<Rightarrow> clearRetryWorkOnActionSuccess (retryWorkKey (ac_Path r) (ac_OldPath r) (ac_ActionType r)) f)"

definition applyTrackedActionSuccess ::
  "engine_env \<Rightarrow> nat option \<Rightarrow> action_completion option \<Rightarrow> engine_flow \<Rightarrow> stage_result" where
  "applyTrackedActionSuccess env current ro f =
     (let f1 = markFinished current f;
          f2 = f1\<lparr>ef_succeeded := Suc (ef_succeeded f1)\<rparr>;
          f3 = (case current of
                  Some c \<Rightarrow> clearRetryWorkOnActionSuccess (tracked_key f2 c) f2
                | None \<Rightarrow> clearRetryWorkOnSuccess ro f2);
          f4 = (if ro \<noteq> None then f3\<lparr>ef_scopeState := map_option RecordSuccess (ef_scopeState f3)\<rparr> else f3)
      in case current of
           Some c \<Rightarrow> admitReadyAfterSuccessfulAction env (ta_ID (tracked f4 c)) f4
         | None \<Rightarrow>
             (case ro of
                Some r \<Rightarrow> admitReadyAfterSuccessfulAction env (ac_ActionID r) f4
              | None \<Rightarrow> (None, [], f4)))"

definition applyTrialReleaseDecision ::
  "engine_env \<Rightarrow> nat option \<Rightarrow> action_completion \<Rightarrow> scope_key \<Rightarrow> engine_flow \<Rightarrow> stage_result" where
  "applyTrialReleaseDecision env current r trialScopeKey f =
     applyTrackedActionSuccess env current (Some r)
       (releaseHeldScope trialScopeKey (ev_now env) (releaseScope (ev_now env) trialScopeKey f))"

definition applyTrialExtendDecision ::
  "engine_env \<Rightarrow> nat option \<Rightarrow> action_completion \<Rightarrow> scope_key \<Rightarrow> engine_flow \<Rightarrow> flow_result" where
  "applyTrialExtendDecision env current r trialScopeKey f =
     (case rehomeBlockedRetryWork r trialScopeKey (markFinished current f) of
        (Some e, f1) \<Rightarrow> (Some e, f1)
      | (None, f1) \<Rightarrow>
          (case holdActionUnderScope current r trialScopeKey f1 of
             (Some e, f2) \<Rightarrow> (Some e, f2)
           | (None, f2) \<Rightarrow> extendScopeTrial (ev_now env) trialScopeKey (ac_RetryAfter r) f2))"

definition applyTrialRetryFallback ::
  "engine_env \<Rightarrow> nat option \<Rightarrow> result_decision \<Rightarrow> action_completion \<Rightarrow> engine_flow \<Rightarrow> bool \<times> flow_result" where
  "applyTrialRetryFallback env current d r f =
     (if rd_Persistence d \<noteq> persistRetryWork then (False, Some (FlowTrialFallback (ac_Path r)), f)
      else persistAndHoldFailure env current d r f)"

definition shouldTransitionTrialFallbackScope :: "result_decision \<Rightarrow> bool" where
  "shouldTransitionTrialFallbackScope d \<longleftrightarrow>
     rd_Class d = ClassBlockScopeingTransient \<and> \<not> sk_IsZero (rd_ScopeKey d)"

definition applyTrialReclassification ::
  "engine_env \<Rightarrow> result_decision \<Rightarrow> action_completion \<Rightarrow> baseline option \<Rightarrow> engine_flow \<Rightarrow> bool \<times> flow_result" where
  "applyTrialReclassification env d r blo f =
     (case applyTrialPermissionReclassification env r blo f of
        (True, e, f1) \<Rightarrow> (True, e, f1)
      | (False, _, f1) \<Rightarrow>
          if rd_Class d = ClassBlockScopeingTransient \<and> rd_ScopeKey d = SKDiskLocal then
            (case rehomeBlockedRetryWork r (rd_ScopeKey d) f1 of
               (Some e, f2) \<Rightarrow> (False, Some e, f2)
             | (None, f2) \<Rightarrow> (True, applyBlockScope (ev_now env) (scope_block_of (rd_ScopeKey d)) f2))
          else (False, None, f1))"

definition applyTrialRearmOrDiscardDecision ::
  "engine_env \<Rightarrow> nat option \<Rightarrow> result_decision \<Rightarrow> action_completion \<Rightarrow> baseline option \<Rightarrow> scope_key \<Rightarrow> engine_flow \<Rightarrow>
   flow_result" where
  "applyTrialRearmOrDiscardDecision env current d r blo trialScopeKey f =
     (case applyTrialReclassification env d r blo (markFinished current f) of
        (_, Some e, f1) \<Rightarrow> (Some e, f1)
      | (True, None, f1) \<Rightarrow>
          (case holdActionFromPersistedRetryState current (retryWorkKeyForCompletion r) f1 of
             (Some e, f2) \<Rightarrow> (Some e, f2)
           | (None, f2) \<Rightarrow> rearmOrDiscardScope (ev_now env) trialScopeKey f2)
      | (False, None, f1) \<Rightarrow>
          (case applyTrialRetryFallback env current d r f1 of
             (_, Some e, f2) \<Rightarrow> (Some e, f2)
           | (persisted, None, f2) \<Rightarrow>
               if shouldTransitionTrialFallbackScope d then
                 transitionTrialScopeToPersistedBlock (ev_now env) trialScopeKey (rd_ScopeKey d) (ac_RetryAfter r) f2
               else
                 (case rearmOrDiscardScope (ev_now env) trialScopeKey f2 of
                    (Some e, f3) \<Rightarrow> (Some e, f3)
                  | (None, f3) \<Rightarrow> applyPersistedFailureScopeEffects env d r persisted f3)))"

section \<open>Completion decisions\<close>

definition no_actions :: "flow_result \<Rightarrow> stage_result" where
  "no_actions res = (fst res, [], snd res)"

definition fail_finished :: "nat option \<Rightarrow> flow_result \<Rightarrow> stage_result" where
  "fail_finished current res =
     (case res of
        (Some e, f) \<Rightarrow> (Some e, [], markFinished current f)
      | (None, f) \<Rightarrow> (None, [], f))"

definition fail_fatally :: "result_decision \<Rightarrow> nat option \<Rightarrow> action_completion \<Rightarrow> engine_flow \<Rightarrow> stage_result" where
  "fail_fatally d current r f =
     (case applyCompletedSubtree current (ac_ActionID r) f of
        (Some e, f1) \<Rightarrow> (Some e, [], f1)
      | (None, f1) \<Rightarrow> (Some (FlowUnauthorized (ac_Err r)), [], recordError d r f1))"

definition record_failure :: "result_decision \<Rightarrow> action_completion \<Rightarrow> flow_result \<Rightarrow> stage_result" where
  "record_failure d r res =
     (case res of (Some e, f) \<Rightarrow> (Some e, [], f) | (None, f) \<Rightarrow> (None, [], recordError d r f))"

definition applyNormalCompletionDecision ::
  "engine_env \<Rightarrow> result_decision \<Rightarrow> nat option \<Rightarrow> action_completion \<Rightarrow> baseline option \<Rightarrow> engine_flow \<Rightarrow> stage_result" where
  "applyNormalCompletionDecision env d current r blo f =
     (case maybeHandlePermissionFailure env d current r blo f of
        (True, e, f1) \<Rightarrow> (e, [], f1)
      | (False, _, f1) \<Rightarrow>
          (case rd_Class d of
             ClassInvalid \<Rightarrow>
               (case applyResultPersistence env d r f1 of
                  (Some e, f2) \<Rightarrow> (Some e, [], markFinished current f2)
                | (None, f2) \<Rightarrow> (Some FlowInvalidClass, [], markFinished current f2))
           | ClassSuccess \<Rightarrow>
               (case applyTrackedActionSuccess env current (Some r) f1 of
                  (Some e, _, f2) \<Rightarrow> (Some e, [], f2)
                | (None, dispatched, f2) \<Rightarrow> (None, dispatched, f2))
           | ClassShutdown \<Rightarrow> no_actions (applyCompletedSubtree current (ac_ActionID r) f1)
           | ClassSuperseded \<Rightarrow> fail_finished current (applySupersededCompletion env current r f1)
           | ClassFatal \<Rightarrow> fail_fatally d current r f1
           | _ \<Rightarrow> fail_finished current (applyOrdinaryFailureEffects env current d r f1)))"

definition applyTrialCompletionDecision ::
  "engine_env \<Rightarrow> scope_key \<Rightarrow> result_decision \<Rightarrow> nat option \<Rightarrow> action_completion \<Rightarrow> baseline option \<Rightarrow> engine_flow \<Rightarrow>
   stage_result" where
  "applyTrialCompletionDecision env trialScopeKey d current r blo f =
     (if rd_Class d = ClassSuperseded then
        (case applySupersededCompletion env current r f of
           (Some e, f1) \<Rightarrow> (Some e, [], markFinished current f1)
         | (None, f1) \<Rightarrow> no_actions (rearmOrDiscardScope (ev_now env) trialScopeKey f1))
      else
        (case evaluateScopeTrialOutcome trialScopeKey d of
           scopeTrialOutcomeRelease \<Rightarrow>
             (case applyTrialReleaseDecision env current r trialScopeKey f of
                (Some e, _, f1) \<Rightarrow> (Some e, [], markFinished current f1)
              | (None, dispatched, f1) \<Rightarrow> (None, dispatched, f1))
         | scopeTrialOutcomeShutdown \<Rightarrow> no_actions (applyCompletedSubtree current (ac_ActionID r) f)
         | scopeTrialOutcomeExtend \<Rightarrow> record_failure d r (applyTrialExtendDecision env current r trialScopeKey f)
         | scopeTrialOutcomeRearmOrDiscard \<Rightarrow>
             record_failure d r (applyTrialRearmOrDiscardDecision env current d r blo trialScopeKey f)
         | scopeTrialOutcomeFatal \<Rightarrow> fail_fatally d current r f))"

definition apply_completion ::
  "engine_env \<Rightarrow> action_completion \<Rightarrow> baseline option \<Rightarrow> engine_flow \<Rightarrow> stage_result" where
  "apply_completion env r blo f =
     (let d = classifyResult r; current = trackedActionForCompletion r f
      in if ac_IsTrial r \<and> \<not> sk_IsZero (ac_TrialScopeKey r)
         then applyTrialCompletionDecision env (ac_TrialScopeKey r) d current r blo f
         else applyNormalCompletionDecision env d current r blo f)"

section \<open>Publication drain and the ready frontier\<close>

definition isPublicationOnlyActionType :: "action_type \<Rightarrow> bool" where
  "isPublicationOnlyActionType t \<longleftrightarrow> t = ActionBaselineUpdate \<or> t = ActionCleanup"

definition partitionPublicationFrontier :: "nat list \<Rightarrow> engine_flow \<Rightarrow> nat list \<times> nat list" where
  "partitionPublicationFrontier ready f =
     (filter (\<lambda>r. \<not> isPublicationOnlyActionType (a_Type (ta_Action (tracked f r)))) ready,
      filter (\<lambda>r. isPublicationOnlyActionType (a_Type (ta_Action (tracked f r)))) ready)"

definition applyPublicationMutation :: "engine_env \<Rightarrow> nat \<Rightarrow> engine_flow \<Rightarrow> store_error option \<times> engine_flow" where
  "applyPublicationMutation env r f =
     (case publicationMutationFromAction (Some (ta_Action (tracked f r))) (ev_driveID env) of
        Inl e \<Rightarrow> (Some e, f)
      | Inr mutation \<Rightarrow> (case CommitMutation (Some mutation) (ef_store f) of (e, m) \<Rightarrow> (e, f\<lparr>ef_store := m\<rparr>)))"

fun applyRuntimeCompletionStage ::
    "nat \<Rightarrow> engine_env \<Rightarrow> baseline option \<Rightarrow> action_completion \<Rightarrow> engine_flow \<Rightarrow> stage_result"
  and publication_loop ::
    "nat \<Rightarrow> engine_env \<Rightarrow> baseline option \<Rightarrow> nat list \<Rightarrow> nat list \<Rightarrow> engine_flow \<Rightarrow> stage_result"
  and reduceReadyFrontierStage ::
    "nat \<Rightarrow> engine_env \<Rightarrow> baseline option \<Rightarrow> nat list \<Rightarrow> engine_flow \<Rightarrow> stage_result" where
  "applyRuntimeCompletionStage 0 env blo r f = (Some FlowFuel, [], f)"
| "applyRuntimeCompletionStage (Suc n) env blo r f =
     (case apply_completion env r blo f of
        (Some e, dispatched, f1) \<Rightarrow> (Some e, dispatched, f1)
      | (None, dispatched, f1) \<Rightarrow> reduceReadyFrontierStage n env blo dispatched f1)"
| "publication_loop n env blo concrete [] f = (None, concrete, f)"
| "publication_loop 0 env blo concrete (r # queue) f = (Some FlowFuel, concrete @ r # queue, f)"
| "publication_loop (Suc n) env blo concrete (r # queue) f =
     (case (case applyPublicationMutation env r f of
              (Some e, f1) \<Rightarrow>
                applyRuntimeCompletionStage n env blo
                  (actionCompletionFromTrackedAction (tracked f1 r) None (Some (store_go_error env e))) f1
            | (None, f1) \<Rightarrow> applyTrackedActionSuccess env (Some r) None f1) of
        (Some e, _, f2) \<Rightarrow> (Some e, concrete @ queue, f2)
      | (None, released, f2) \<Rightarrow>
          (case partitionPublicationFrontier released f2 of
             (nextConcrete, nextPublication) \<Rightarrow>
               publication_loop n env blo (concrete @ nextConcrete) (queue @ nextPublication) f2))"
| "reduceReadyFrontierStage 0 env blo ready f = (Some FlowFuel, ready, f)"
| "reduceReadyFrontierStage (Suc n) env blo ready f =
     (case partitionPublicationFrontier ready f of
        (concrete, publication) \<Rightarrow>
          (case publication_loop n env blo concrete publication f of
             (Some e, reduced, f1) \<Rightarrow> (Some e, reduced, f1)
           | (None, reduced, f1) \<Rightarrow>
               (case drainDueHeldWorkNow env f1 of
                  (Some e, dueHeld, f2) \<Rightarrow> (Some e, reduced @ dueHeld, f2)
                | (None, dueHeld, f2) \<Rightarrow>
                    if dueHeld = [] then (None, reduced, f2)
                    else
                      (case partitionPublicationFrontier dueHeld f2 of
                         (c2, p2) \<Rightarrow>
                           (case publication_loop n env blo c2 p2 f2 of
                              (e, released, f3) \<Rightarrow> (e, reduced @ released, f3))))))"

definition runPublicationDrainStage ::
  "nat \<Rightarrow> engine_env \<Rightarrow> baseline option \<Rightarrow> nat list \<Rightarrow> engine_flow \<Rightarrow> stage_result" where
  "runPublicationDrainStage n env blo ready f =
     (case partitionPublicationFrontier ready f of
        (concrete, publication) \<Rightarrow> publication_loop n env blo concrete publication f)"

section \<open>Start and shutdown\<close>

definition completeTrackedActionAsShutdown :: "nat \<Rightarrow> engine_flow \<Rightarrow> flow_result" where
  "completeTrackedActionAsShutdown r f = applyCompletedSubtree (Some r) (ta_ID (tracked f r)) f"

fun completeOutboxAsShutdown :: "nat list \<Rightarrow> engine_flow \<Rightarrow> flow_result" where
  "completeOutboxAsShutdown [] f = (None, f)"
| "completeOutboxAsShutdown (r # rs) f =
     (case completeTrackedActionAsShutdown r f of
        (Some e, f1) \<Rightarrow> (Some e, f1)
      | (None, f1) \<Rightarrow> completeOutboxAsShutdown rs f1)"

definition processShutdownCompletion ::
  "nat \<Rightarrow> engine_env \<Rightarrow> baseline option \<Rightarrow> action_completion \<Rightarrow> engine_flow \<Rightarrow> flow_result" where
  "processShutdownCompletion n env blo r f =
     (case applyRuntimeCompletionStage n (env\<lparr>ev_bypass := True, ev_watch := False\<rparr>) blo r f of
        (e, ready, f1) \<Rightarrow>
          (case completeOutboxAsShutdown ready f1 of
             (Some panic, f2) \<Rightarrow> (Some panic, f2)
           | (None, f2) \<Rightarrow> (e, f2)))"

record runtime_plan =
  rp_Plan :: action_plan
  rp_RetryRows :: "retry_work_row list"
  rp_BlockScopes :: "block_scope list"

text \<open>The outbox, whether work is in flight, the error and the state.\<close>

definition startRuntimeStage ::
  "nat \<Rightarrow> engine_env \<Rightarrow> runtime_plan option \<Rightarrow> baseline option \<Rightarrow> engine_flow \<Rightarrow>
   nat list \<times> bool \<times> flow_error option \<times> engine_flow" where
  "startRuntimeStage n env runtime blo f =
     (case runtime of
        None \<Rightarrow> ([], False, None, f)
      | Some rp \<Rightarrow>
          if length (ap_Actions (rp_Plan rp)) \<noteq> length (ap_Deps (rp_Plan rp)) then ([], False, Some FlowPlanShape, f)
          else
            (let f1 = (initializeRuntimeState (rp_RetryRows rp) (rp_BlockScopes rp) f)\<lparr>ef_depGraph := NewDepGraph\<rparr>
             in if ap_Actions (rp_Plan rp) = [] then ([], False, None, f1)
                else
                  (case registerPlanActions (ef_depGraph f1) (ef_nextActionID f1) (rp_Plan rp) of
                     ((g, next), ready) \<Rightarrow>
                       (case admitReady env ready (f1\<lparr>ef_depGraph := g, ef_nextActionID := next\<rparr>) of
                          (Some e, _, f2) \<Rightarrow> ([], False, Some e, f2)
                        | (None, ready', f2) \<Rightarrow>
                            (case reduceReadyFrontierStage n env blo ready' f2 of
                               (Some e, outbox, f3) \<Rightarrow>
                                 (case completeOutboxAsShutdown outbox f3 of
                                    (Some panic, f4) \<Rightarrow> ([], False, Some panic, f4)
                                  | (None, f4) \<Rightarrow> ([], False, Some e, f4))
                             | (None, outbox, f3) \<Rightarrow> (outbox, dg_InFlightCount (ef_depGraph f3) > 0, None, f3))))))"

end
