(* ===== verification/RuntimeRun.thy ===== *)
theory RuntimeRun
  imports RuntimeFlow
begin

text \<open>
  Every stage of the runtime keeps the invariant of a run, and runs of the engine as a step
  relation over its stages.
\<close>

section \<open>The invariant across the stages\<close>

definition env_ok :: "engine_env \<Rightarrow> bool" where
  "env_ok env \<longleftrightarrow> ev_now env > 0 \<and> 0 \<le> ev_rand env \<and> ev_rand env < 1"

definition completion_ok :: "action_completion \<Rightarrow> bool" where
  "completion_ok r \<longleftrightarrow> sk_wf (ac_TrialScopeKey r)"

definition decision_ok :: "result_decision \<Rightarrow> bool" where
  "decision_ok d \<longleftrightarrow> sk_wf (rd_ScopeKey d) \<and> sk_wf (rd_ScopeEvidence d)"

lemma reconcile_delay_nonneg: "env_ok env \<Longrightarrow> reconcile_delay env n \<ge> 0"
  unfolding reconcile_delay_def env_ok_def
  using delay_bounds(3) [OF named_policy_ok, of ReconcilePolicy "ev_rand env" "nat n"] by (simp add: named_policies_def)

lemma classify_decision_ok: "decision_ok (classifyResult r)"
proof -
  have "rd_ScopeKey (classifyResult r) = zero_scope_key \<or> rd_ScopeKey (classifyResult r) = rd_ScopeEvidence (classifyResult r)"
    by (auto simp: classify_defs split: if_splits)
  then show ?thesis using classify_scope(3) [of r] by (auto simp: decision_ok_def)
qed

lemma superseded_ok: "applySupersededCompletion env c r f = (e, f') \<Longrightarrow> flow_ok f \<Longrightarrow> flow_ok f'"
  by (auto simp: applySupersededCompletion_def split: prod.splits option.splits if_splits
      dest: clear_on_superseded_ok applyCompletedSubtree_ok)

lemma find_blocking_member: "find_blocking_loop bs a tk rank spec best \<in> insert best (as_Key ` set bs)"
proof (induction bs arbitrary: rank spec best)
  case (Cons b bs)
  then show ?case unfolding find_blocking_loop.simps Let_def by (auto split: if_splits)
qed simp

lemma active_keyed: "flow_ok f \<Longrightarrow> k \<in> as_Key ` set (ef_activeScopes f) \<Longrightarrow> sk_wf k"
proof -
  assume ok: "flow_ok f" and k: "k \<in> as_Key ` set (ef_activeScopes f)"
  then obtain b where "LookupScope (ef_activeScopes f) k = Some b" using LookupScope_None by blast
  from lookup_timed [OF this ok] show ?thesis by auto
qed

lemma find_blocking_keyed: "flow_ok f \<Longrightarrow> sk_wf (findBlockingScope r f)"
proof -
  assume ok: "flow_ok f"
  have "findBlockingScope r f \<in> insert zero_scope_key (as_Key ` set (ef_activeScopes f))"
    using find_blocking_member unfolding findBlockingScope_def FindBlockingScope_def by (cases "ef_activeScopes f = []") simp_all
  then show ?thesis using active_keyed [OF ok] by auto
qed

lemma admission_of_keyed: "flow_ok f \<Longrightarrow> sk_wf (ad_ScopeKey (admission_of now f r))"
  by (auto simp: admission_of_def applyActiveScopeAdmission_def applyPersistedRetryAdmission_def newAdmissionDecision_def
      Let_def find_blocking_keyed split: option.split dest: row_keyed)

lemma filter_fresh_ok:
  "filterFreshAdmissionDecisions env ds acc f = (ds', owned, e, f') \<Longrightarrow> flow_ok f \<Longrightarrow>
     flow_ok f' \<and> set ds' \<subseteq> set acc \<union> set ds"
proof (induction ds arbitrary: acc f)
  case (Cons d ds)
  show ?case
    using Cons.prems
    by (auto simp: Let_def split: if_splits prod.splits sum.splits option.splits dest!: Cons.IH superseded_ok)
qed simp

lemma scope_clear_ok: "flow_ok f \<Longrightarrow> flow_ok (applyAdmissionScopeClear d f)"
  using clearBlockedRetryWorkForScope_ok [of f "ad_RetryWorkKey d" "ad_ClearScopeKey d"]
  by (auto simp: applyAdmissionScopeClear_def Let_def flow_ok_D(2) rows_keyed_del intro!: flow_ok_rows split: option.split)

lemma persist_held_ok: "persistHeldScopeDecision d f = (e, f') \<Longrightarrow> flow_ok f \<Longrightarrow> sk_wf (ad_ScopeKey d) \<Longrightarrow> flow_ok f'"
  by (auto simp: persistHeldScopeDecision_def Let_def split: if_splits dest: persistBlockedRetryWork_ok)

lemma apply_decisions_ok:
  "applyAdmissionDecisions ds acc f = (e, out, f') \<Longrightarrow> flow_ok f \<Longrightarrow> \<forall>d \<in> set ds. sk_wf (ad_ScopeKey d) \<Longrightarrow> flow_ok f'"
proof (induction ds arbitrary: acc f)
  case (Cons d ds)
  have ok: "flow_ok (applyAdmissionScopeClear d f)" using Cons.prems by (simp add: scope_clear_ok)
  have later: "\<forall>d \<in> set ds. sk_wf (ad_ScopeKey d)" and key: "sk_wf (ad_ScopeKey d)" using Cons.prems(3) by simp_all
  show ?case
  proof (cases "ad_Kind d")
    case admissionDispatchNow
    then show ?thesis using Cons.prems(1) ok Cons.IH [OF _ _ later] by (simp add: Let_def)
  next
    case admissionHoldRetry
    then show ?thesis
      using Cons.prems(1) Cons.IH [OF _ holdAction_ok [OF ok] later] by (simp add: Let_def)
  next
    case admissionHoldScope
    obtain e1 f1 where p: "persistHeldScopeDecision d (applyAdmissionScopeClear d f) = (e1, f1)" by fastforce
    have "flow_ok f1" by (rule persist_held_ok [OF p ok key])
    then show ?thesis
      using Cons.prems(1) admissionHoldScope p Cons.IH [OF _ holdAction_ok [OF _ key] later]
      by (auto simp: Let_def split: option.splits)
  qed
qed simp

lemma admitReady_ok: "admitReady env ready f = (e, out, f') \<Longrightarrow> flow_ok f \<Longrightarrow> flow_ok f'"
proof -
  assume a: "admitReady env ready f = (e, out, f')" and ok: "flow_ok f"
  obtain ds owned e1 f1 where f: "filterFreshAdmissionDecisions env (decideAdmission (ev_now env) ready f) [] f = (ds, owned, e1, f1)"
    by (metis prod_cases4)
  have f1: "flow_ok f1" and sub: "set ds \<subseteq> set (decideAdmission (ev_now env) ready f)"
    using filter_fresh_ok [OF f ok] by simp_all
  have "\<forall>d \<in> set ds. sk_wf (ad_ScopeKey d)" using sub admission_of_keyed [OF ok] by (auto simp: decideAdmission_def)
  then show ?thesis using a f1 apply_decisions_ok unfolding admitReady_def f by (auto split: option.splits)
qed


lemma due_retry_ok: "flow_ok (snd s) \<Longrightarrow> flow_ok (snd (release_due_retry k s))"
  by (auto simp: release_due_retry_def set_trial_ok split: prod.splits option.splits dest: releaseHeldAction_ok)

lemma due_trial_ok: "flow_ok (snd s) \<Longrightarrow> flow_ok (snd (release_due_trial k s))"
  by (auto simp: release_due_trial_def intro!: set_trial_ok split: prod.splits option.splits
      dest: releaseHeldAction_ok held_at_keyed)

lemma fold_ok: "(\<And>k s. flow_ok (snd s) \<Longrightarrow> flow_ok (snd (g k s))) \<Longrightarrow> flow_ok (snd s) \<Longrightarrow> flow_ok (snd (fold g ks s))"
  by (induction ks arbitrary: s) simp_all

lemma drainDueHeldWorkNow_ok: "drainDueHeldWorkNow env f = (e, out, f') \<Longrightarrow> flow_ok f \<Longrightarrow> flow_ok f'"
proof -
  assume d: "drainDueHeldWorkNow env f = (e, out, f')" and ok: "flow_ok f"
  let ?s1 = "fold release_due_retry (dueRetryKeys (ev_now env) f) ([], f)"
  let ?s2 = "fold release_due_trial (dueTrialKeys (ev_now env) (snd ?s1)) ?s1"
  have "flow_ok (snd ?s1)" using ok by (intro fold_ok due_retry_ok) simp_all
  then have "flow_ok (snd ?s2)" using fold_ok [of release_due_trial, OF due_trial_ok] by blast
  then show ?thesis using d admitReady_ok unfolding drainDueHeldWorkNow_def Let_def by (auto split: if_splits)
qed

text \<open>Failures.\<close>

lemma record_write_ok:
  assumes "env_ok env" "flow_ok f" "sk_wf k"
  shows "row_write (ef_control f) k
    (RecordRetryWorkFailure \<lparr>rf_Work = w, rf_ScopeKey = k\<rparr> (reconcile_delay env) (ev_now env) (ef_control f))"
  using record_failure_write [OF flow_ok_D(1) [OF assms(2)] assms(3)] reconcile_delay_nonneg [OF assms(1)] assms(1)
  by (simp add: env_ok_def)

lemma recordRetryWork_ok:
  assumes "recordRetryWork env d r f = (e, f')" "env_ok env" "flow_ok f" "decision_ok d"
  shows "flow_ok f'"
proof -
  let ?k = "rd_ScopeEvidence d" and ?w = "retryWorkKeyForCompletion r"
  let ?first = "RecordRetryWorkFailure \<lparr>rf_Work = ?w, rf_ScopeKey = ?k\<rparr> (reconcile_delay env) (ev_now env) (ef_control f)"
  let ?res = "if retryWorkShouldBeBlocked (rd_Class d) ?k f then RecordBlockedRetryWork ?w ?k (snd ?first) else ?first"
  have key: "sk_wf ?k" using assms(4) by (simp add: decision_ok_def)
  have first: "row_write (ef_control f) ?k ?first" by (rule record_write_ok [OF assms(2,3) key])
  have "row_write (snd ?first) ?k (RecordBlockedRetryWork ?w ?k (snd ?first))"
    using first key by (intro record_blocked_write) (simp_all add: row_write_def)
  then have "row_write (ef_control f) ?k ?res" using first by (auto simp: row_write_def)
  moreover have "store_written ?res f = (e, f')"
    using assms(1) by (simp add: recordRetryWork_def store_written_def Let_def)
  ultimately show ?thesis using assms(3) key store_written_ok by blast
qed

lemma applyResultPersistence_ok:
  "applyResultPersistence env d r f = (e, f') \<Longrightarrow> env_ok env \<Longrightarrow> flow_ok f \<Longrightarrow> decision_ok d \<Longrightarrow> flow_ok f'"
  by (auto simp: applyResultPersistence_def split: result_persistence_mode.splits dest: recordRetryWork_ok)

lemma persistAndHoldFailure_ok:
  "persistAndHoldFailure env c d r f = (b, e, f') \<Longrightarrow> env_ok env \<Longrightarrow> flow_ok f \<Longrightarrow> decision_ok d \<Longrightarrow> flow_ok f'"
  by (auto simp: persistAndHoldFailure_def split: if_splits prod.splits option.splits
      dest: applyResultPersistence_ok hold_persisted_ok)

lemma scope_block_key [simp]: "sur_ScopeKey (scope_block_of k) = k"
  by (simp add: scope_block_of_def)

lemma env_now: "env_ok env \<Longrightarrow> ev_now env > 0"
  by (simp add: env_ok_def)

lemma apply_block_ok:
  "applyBlockScope (ev_now env) (scope_block_of k) f = (e, f') \<Longrightarrow> flow_ok f \<Longrightarrow> sk_wf k \<Longrightarrow> env_ok env \<Longrightarrow> flow_ok f'"
  using applyBlockScope_ok [of "ev_now env" "scope_block_of k" f e f'] by (simp add: env_now)

lemma applyPersistedFailureScopeEffects_ok:
  "applyPersistedFailureScopeEffects env d r p f = (e, f') \<Longrightarrow> env_ok env \<Longrightarrow> flow_ok f \<Longrightarrow> decision_ok d \<Longrightarrow> flow_ok f'"
  by (auto simp: applyPersistedFailureScopeEffects_def decision_ok_def split: if_splits
      dest: feedScopeDetection_ok [OF _ _ env_now] apply_block_ok)

lemma applyOrdinaryFailureEffects_ok:
  "applyOrdinaryFailureEffects env c d r f = (e, f') \<Longrightarrow> env_ok env \<Longrightarrow> flow_ok f \<Longrightarrow> decision_ok d \<Longrightarrow> flow_ok f'"
  by (auto simp: applyOrdinaryFailureEffects_def split: prod.splits option.splits
      dest: persistAndHoldFailure_ok applyPersistedFailureScopeEffects_ok)


text \<open>Permission failures.\<close>

lemma recordPermissionRetryWork_ok:
  "recordPermissionRetryWork env w k f = (e, f') \<Longrightarrow> env_ok env \<Longrightarrow> flow_ok f \<Longrightarrow> sk_wf k \<Longrightarrow> flow_ok f'"
  using store_written_ok record_write_ok unfolding recordPermissionRetryWork_def store_written_def [symmetric] by blast

lemma recordPermissionBlockedRetry_ok:
  "recordPermissionBlockedRetry w k f = (e, f') \<Longrightarrow> flow_ok f \<Longrightarrow> sk_wf k \<Longrightarrow> flow_ok f'"
  using store_written_ok record_blocked_write [OF flow_ok_D(1)]
  unfolding recordPermissionBlockedRetry_def store_written_def [symmetric] by blast

lemma evidence_key [simp]: "sk_wf (scopeKeyForPermissionEvidence e)"
  by (simp add: scopeKeyForPermissionEvidence_def)

lemma block_denied_boundary_ok: "block_denied_boundary env w ev f = (e, f') \<Longrightarrow> env_ok env \<Longrightarrow> flow_ok f \<Longrightarrow> flow_ok f'"
  by (auto simp: block_denied_boundary_def Let_def split: prod.splits option.splits if_splits
      dest: recordPermissionBlockedRetry_ok [OF _ _ evidence_key] apply_block_ok [OF _ _ evidence_key])

lemma applyPermissionFailureEvidence_ok:
  "applyPermissionFailureEvidence env c r ev f = (e, f') \<Longrightarrow> env_ok env \<Longrightarrow> flow_ok f \<Longrightarrow> flow_ok f'"
  by (auto simp: applyPermissionFailureEvidence_def Let_def
      split: permission_evidence_kind.splits prod.splits option.splits if_splits
      dest: hold_persisted_ok hold_under_scope_ok [OF _ _ find_blocking_keyed] recordPermissionRetryWork_ok block_denied_boundary_ok)

lemma handle_with_evidence_ok:
  "handle_with_evidence env d c r ev f = (b, e, f') \<Longrightarrow> env_ok env \<Longrightarrow> flow_ok f \<Longrightarrow> flow_ok f'"
  by (auto simp: handle_with_evidence_def split: if_splits prod.splits option.splits dest: applyPermissionFailureEvidence_ok)

lemma maybeHandlePermissionFailure_ok:
  "maybeHandlePermissionFailure env d c r blo f = (b, e, f') \<Longrightarrow> env_ok env \<Longrightarrow> flow_ok f \<Longrightarrow> flow_ok f'"
  by (auto simp: maybeHandlePermissionFailure_def handleRemote403PermissionFailure_def handleLocalPermissionFailure_def
      split: if_splits option.splits dest: handle_with_evidence_ok)

lemma applyTrialPermissionEvidence_ok:
  "applyTrialPermissionEvidence env w k ev f = (e, f') \<Longrightarrow> env_ok env \<Longrightarrow> flow_ok f \<Longrightarrow> sk_wf k \<Longrightarrow> flow_ok f'"
  by (auto simp: applyTrialPermissionEvidence_def Let_def split: permission_evidence_kind.splits if_splits
      dest: recordPermissionBlockedRetry_ok recordPermissionRetryWork_ok block_denied_boundary_ok)

lemma applyTrialPermissionReclassification_ok:
  "applyTrialPermissionReclassification env r blo f = (b, e, f') \<Longrightarrow> env_ok env \<Longrightarrow> flow_ok f \<Longrightarrow> completion_ok r \<Longrightarrow> flow_ok f'"
  by (auto simp: applyTrialPermissionReclassification_def Let_def completion_ok_def split: if_splits option.splits prod.splits
      dest!: applyTrialPermissionEvidence_ok intro: clearBlockedRetryWorkForScope_ok)

text \<open>Success and trials.\<close>

lemma admit_after_success_ok: "admitReadyAfterSuccessfulAction env i f = (e, out, f') \<Longrightarrow> flow_ok f \<Longrightarrow> flow_ok f'"
  by (auto simp: admitReadyAfterSuccessfulAction_def split: option.splits
      dest!: admitReady_ok intro: flow_ok_graph flow_complete_trials)

lemma applyTrackedActionSuccess_ok: "applyTrackedActionSuccess env c ro f = (e, out, f') \<Longrightarrow> flow_ok f \<Longrightarrow> flow_ok f'"
  by (auto simp: applyTrackedActionSuccess_def Let_def clearRetryWorkOnSuccess_def clear_on_success_ok
      split: option.splits if_splits dest!: admit_after_success_ok)

lemma trial_release_ok:
  "applyTrialReleaseDecision env c r k f = (e, out, f') \<Longrightarrow> env_ok env \<Longrightarrow> flow_ok f \<Longrightarrow> sk_wf k \<Longrightarrow> \<not> sk_IsZero k \<Longrightarrow> flow_ok f'"
  by (auto simp: applyTrialReleaseDecision_def env_ok_def dest!: applyTrackedActionSuccess_ok
      intro: releaseHeldScope_ok releaseScope_ok)

lemma rehome_ok: "rehomeBlockedRetryWork r k (markFinished c f) = (e, f') \<Longrightarrow> flow_ok f \<Longrightarrow> sk_wf k \<Longrightarrow> flow_ok f'"
  unfolding rehomeBlockedRetryWork_def by (erule persistBlockedRetryWork_ok) simp_all

lemma trial_extend_ok:
  "applyTrialExtendDecision env c r k f = (e, f') \<Longrightarrow> env_ok env \<Longrightarrow> flow_ok f \<Longrightarrow> sk_wf k \<Longrightarrow> flow_ok f'"
  by (auto simp: applyTrialExtendDecision_def split: prod.splits option.splits
      dest: rehome_ok hold_under_scope_ok extendScopeTrial_ok [OF _ _ env_now])

lemma trial_fallback_ok:
  "applyTrialRetryFallback env c d r f = (b, e, f') \<Longrightarrow> env_ok env \<Longrightarrow> flow_ok f \<Longrightarrow> decision_ok d \<Longrightarrow> flow_ok f'"
  by (auto simp: applyTrialRetryFallback_def split: if_splits dest: persistAndHoldFailure_ok)

lemma trial_reclassification_ok:
  assumes "applyTrialReclassification env d r blo f = (b, e, f')" "env_ok env" "flow_ok f" "decision_ok d" "completion_ok r"
  shows "flow_ok f'"
proof -
  obtain b1 e1 f1 where p: "applyTrialPermissionReclassification env r blo f = (b1, e1, f1)" by (metis prod_cases3)
  have ok: "flow_ok f1" by (rule applyTrialPermissionReclassification_ok [OF p assms(2,3,5)])
  show ?thesis
    using assms(1,2,4) ok unfolding applyTrialReclassification_def p rehomeBlockedRetryWork_def
    by (auto simp: decision_ok_def split: prod.splits option.splits if_splits bool.splits
        dest: persistBlockedRetryWork_ok [OF _ _ sk_wf_constructors(4)] apply_block_ok [OF _ _ sk_wf_constructors(4)])
qed

lemma trial_rearm_ok:
  assumes "applyTrialRearmOrDiscardDecision env c d r blo k f = (e, f')" "env_ok env" "flow_ok f" "decision_ok d"
    "completion_ok r" "sk_wf k"
  shows "flow_ok f'"
proof -
  obtain b1 e1 f1 where p: "applyTrialReclassification env d r blo (markFinished c f) = (b1, e1, f1)" by (metis prod_cases3)
  have ok: "flow_ok f1" using trial_reclassification_ok [OF p] assms by simp
  show ?thesis
    using assms(1,2,4,6) ok unfolding applyTrialRearmOrDiscardDecision_def p
    by (auto simp: decision_ok_def split: prod.splits option.splits if_splits bool.splits
        dest: hold_persisted_ok rearmOrDiscardScope_ok [OF _ _ _ env_now] trial_fallback_ok [unfolded decision_ok_def]
          transition_ok [OF _ _ _ _ env_now] applyPersistedFailureScopeEffects_ok [unfolded decision_ok_def])
qed

text \<open>The decisions and the stages.\<close>

lemma no_actions_eq: "no_actions res = (e, out, f) \<longleftrightarrow> res = (e, f) \<and> out = []"
  by (cases res) (auto simp: no_actions_def)

lemma fatal_ok: "fail_fatally d c r f = (e, out, f') \<Longrightarrow> flow_ok f \<Longrightarrow> flow_ok f'"
  by (auto simp: fail_fatally_def split: prod.splits option.splits dest: applyCompletedSubtree_ok)

lemma normal_decision_ok:
  assumes "applyNormalCompletionDecision env d c r blo f = (e, out, f')" "env_ok env" "flow_ok f" "decision_ok d"
  shows "flow_ok f'"
proof -
  obtain b1 e1 f1 where p: "maybeHandlePermissionFailure env d c r blo f = (b1, e1, f1)" by (metis prod_cases3)
  have ok: "flow_ok f1" by (rule maybeHandlePermissionFailure_ok [OF p assms(2,3)])
  show ?thesis
    using assms(1,2,4) ok unfolding applyNormalCompletionDecision_def p
    by (auto simp: fail_finished_def no_actions_eq split: bool.splits prod.splits option.splits err_class.splits
        dest: applyResultPersistence_ok applyTrackedActionSuccess_ok applyCompletedSubtree_ok superseded_ok fatal_ok
          applyOrdinaryFailureEffects_ok)
qed

lemma trial_decision_ok:
  assumes "applyTrialCompletionDecision env k d c r blo f = (e, out, f')" "env_ok env" "flow_ok f" "decision_ok d"
    "completion_ok r" "sk_wf k" "\<not> sk_IsZero k"
  shows "flow_ok f'"
  using assms unfolding applyTrialCompletionDecision_def
  by (auto simp: record_failure_def no_actions_eq split: if_splits prod.splits option.splits scope_trial_outcome.splits
      dest: superseded_ok trial_release_ok applyCompletedSubtree_ok trial_extend_ok trial_rearm_ok fatal_ok
        rearmOrDiscardScope_ok [OF _ _ _ env_now])

lemma apply_completion_ok:
  "apply_completion env r blo f = (e, out, f') \<Longrightarrow> env_ok env \<Longrightarrow> flow_ok f \<Longrightarrow> completion_ok r \<Longrightarrow> flow_ok f'"
  using classify_decision_ok
  by (auto simp: apply_completion_def Let_def completion_ok_def split: if_splits
      dest: normal_decision_ok trial_decision_ok [unfolded completion_ok_def])


lemma completion_from_tracked_ok:
  "flow_ok f \<Longrightarrow> completion_ok (actionCompletionFromTrackedAction (tracked f r) None e)"
  by (simp add: completion_ok_def actionCompletionFromTrackedAction_def Let_def tracked_keyed split: option.split)

lemma applyPublicationMutation_ok: "applyPublicationMutation env r f = (e, f') \<Longrightarrow> flow_ok f \<Longrightarrow> flow_ok f'"
  by (auto simp: applyPublicationMutation_def split: sum.splits prod.splits)

lemma stages_ok:
  assumes "env_ok env"
  shows "applyRuntimeCompletionStage n env blo r f = (e, out, f') \<Longrightarrow> flow_ok f \<Longrightarrow> completion_ok r \<Longrightarrow> flow_ok f'"
    and "publication_loop n env blo concrete queue f = (e, out, f') \<Longrightarrow> flow_ok f \<Longrightarrow> flow_ok f'"
    and "reduceReadyFrontierStage n env blo ready f = (e, out, f') \<Longrightarrow> flow_ok f \<Longrightarrow> flow_ok f'"
proof (induction n arbitrary: r concrete queue ready f e out f')
  case 0
  { case 1 then show ?case by simp }
  { case 2 then show ?case by (cases queue) simp_all }
  { case 3 then show ?case by simp }
next
  case (Suc n)
  { case 1
    obtain e1 d f1 where a: "apply_completion env r blo f = (e1, d, f1)" by (metis prod_cases3)
    then show ?case
      using 1 apply_completion_ok [OF a assms] Suc.IH(3) by (auto split: option.splits) }
  { case 2
    show ?case
    proof (cases queue)
      case (Cons q qs)
      obtain e1 f1 where m: "applyPublicationMutation env q f = (e1, f1)" by fastforce
      let ?done = "case e1 of
          Some e \<Rightarrow> applyRuntimeCompletionStage n env blo
            (actionCompletionFromTrackedAction (tracked f1 q) None (Some (store_go_error env e))) f1
        | None \<Rightarrow> applyTrackedActionSuccess env (Some q) None f1"
      obtain e2 d f2 where s: "?done = (e2, d, f2)" by (metis prod_cases3)
      have ok1: "flow_ok f1" using applyPublicationMutation_ok [OF m] 2 by simp
      have ok2: "flow_ok f2"
        using s ok1 Suc.IH(1) completion_from_tracked_ok applyTrackedActionSuccess_ok by (auto split: option.splits)
      have "publication_loop (Suc n) env blo concrete queue f =
          (case e2 of
             Some e \<Rightarrow> (Some e, concrete @ qs, f2)
           | None \<Rightarrow> (case partitionPublicationFrontier d f2 of
                       (c, p) \<Rightarrow> publication_loop n env blo (concrete @ c) (qs @ p) f2))"
        using s by (simp add: Cons m split: option.splits)
      then show ?thesis using 2 ok2 by (auto split: option.splits prod.splits intro: Suc.IH(2) [OF sym])
    qed (use 2 in simp) }
  { case 3
    then show ?case
      by (auto split: prod.splits option.splits if_splits dest!: Suc.IH(2) drainDueHeldWorkNow_ok) }
qed

section \<open>Runs of the engine\<close>

lemma listed_rows_keyed: "control_ok db \<Longrightarrow> ListRetryWork db = Inr rs \<Longrightarrow> rows_keyed (index_by row_WorkKey rs)"
proof -
  assume ok: "control_ok db" and rs: "ListRetryWork db = Inr rs"
  obtain rs' where "ListRetryWork db = Inr rs'" and all: "set rs' = {row. \<exists>k. work_at db k = Some row}"
    by (rule list_retry_set [OF ok])
  then have "set rs = {row. \<exists>k. work_at db k = Some row}" using rs by simp
  then show ?thesis
    using ok retry_get_key(2) by (fastforce simp: rows_keyed_def ran_def control_ok_def work_row_ok_def dest: index_by_Some)
qed

lemma completeOutbox_ok: "completeOutboxAsShutdown rs f = (e, f') \<Longrightarrow> flow_ok f \<Longrightarrow> flow_ok f'"
  by (induction rs arbitrary: f)
    (auto simp: completeTrackedActionAsShutdown_def split: prod.splits option.splits dest: applyCompletedSubtree_ok)

lemma startRuntimeStage_ok:
  assumes "startRuntimeStage n env (Some rp) blo f = (outbox, busy, e, f')" "env_ok env" "control_ok (ef_control f)"
    "ListBlockScopes (ef_control f) = Inr (rp_BlockScopes rp)" "ListRetryWork (ef_control f) = Inr (rp_RetryRows rp)"
    "length (ap_Actions (rp_Plan rp)) = length (ap_Deps (rp_Plan rp))"
  shows "flow_ok f'"
proof -
  let ?f = "(initializeRuntimeState (rp_RetryRows rp) (rp_BlockScopes rp) f)\<lparr>ef_depGraph := NewDepGraph\<rparr>"
  have ok: "flow_ok ?f"
    using loaded_mirrored [OF assms(3,4)] listed_rows_keyed [OF assms(3,5)]
    by (simp add: initializeRuntimeState_def flow_ok_def held_keyed_def trials_keyed_def NewDepGraph_def)
  obtain g next' ready where g: "registerPlanActions (ef_depGraph ?f) (ef_nextActionID ?f) (rp_Plan rp) = ((g, next'), ready)"
    by (metis surj_pair)
  have ok1: "flow_ok (?f\<lparr>ef_depGraph := g, ef_nextActionID := next'\<rparr>)"
    using flow_ok_graph [OF ok registerPlanActions_trials [OF g flow_ok_D(3) [OF ok]]] by simp
  obtain e1 r1 f1 where a: "admitReady env ready (?f\<lparr>ef_depGraph := g, ef_nextActionID := next'\<rparr>) = (e1, r1, f1)"
    by (metis prod_cases3)
  have ok2: "flow_ok f1" by (rule admitReady_ok [OF a ok1])
  obtain e2 r2 f2 where r: "reduceReadyFrontierStage n env blo r1 f1 = (e2, r2, f2)" by (metis prod_cases3)
  have ok3: "flow_ok f2" by (rule stages_ok(3) [OF assms(2) r ok2])
  show ?thesis
    using assms(1,6) ok ok2 ok3 g a r
    by (auto simp: startRuntimeStage_def Let_def split: if_splits option.splits prod.splits dest: completeOutbox_ok)
qed


text \<open>
  A run: the engine starts a plan with the scopes and retry rows its store lists, workers pick up
  dispatched actions, finished actions come back in any order with any outcome, timers release
  due work, and during shutdown completions are only booked. Each stage has its own clock, random
  draw and fuel.
\<close>

inductive engine_run :: "runtime_plan \<Rightarrow> engine_flow \<Rightarrow> engine_flow \<Rightarrow> bool" for rp f0 where
  run_start: "startRuntimeStage n env (Some rp) blo f0 = (outbox, busy, e, f) \<Longrightarrow> env_ok env \<Longrightarrow> engine_run rp f0 f"
| run_dispatch: "engine_run rp f0 f \<Longrightarrow> engine_run rp f0 (markRunning r f)"
| run_complete: "engine_run rp f0 f \<Longrightarrow> env_ok env \<Longrightarrow>
    applyRuntimeCompletionStage n env blo (actionCompletionFromTrackedAction (tracked f r) outcome err) f = (e, out, f') \<Longrightarrow>
    engine_run rp f0 f'"
| run_release: "engine_run rp f0 f \<Longrightarrow> env_ok env \<Longrightarrow> reduceReadyFrontierStage n env blo [] f = (e, out, f') \<Longrightarrow>
    engine_run rp f0 f'"
| run_shutdown: "engine_run rp f0 f \<Longrightarrow> env_ok env \<Longrightarrow>
    processShutdownCompletion n env blo (actionCompletionFromTrackedAction (tracked f r) outcome err) f = (e, f') \<Longrightarrow>
    engine_run rp f0 f'"

lemma worker_completion_ok:
  "flow_ok f \<Longrightarrow> completion_ok (actionCompletionFromTrackedAction (tracked f r) outcome e)"
  using tracked_keyed [of f r]
  by (auto simp: completion_ok_def actionCompletionFromTrackedAction_def Let_def split: option.split)

lemma shutdown_ok:
  assumes "processShutdownCompletion n env blo r f = (e, f')" "env_ok env" "flow_ok f" "completion_ok r"
  shows "flow_ok f'"
proof -
  let ?env = "env\<lparr>ev_bypass := True, ev_watch := False\<rparr>"
  obtain e1 r1 f1 where a: "applyRuntimeCompletionStage n ?env blo r f = (e1, r1, f1)" by (metis prod_cases3)
  have "env_ok ?env" using assms(2) by (simp add: env_ok_def)
  from stages_ok(1) [OF this a assms(3,4)] have "flow_ok f1" .
  then show ?thesis
    using assms(1) by (auto simp: processShutdownCompletion_def a split: prod.splits option.splits dest: completeOutbox_ok)
qed

lemma engine_run_ok:
  assumes "engine_run rp f0 f" "control_ok (ef_control f0)" "ListBlockScopes (ef_control f0) = Inr (rp_BlockScopes rp)"
    "ListRetryWork (ef_control f0) = Inr (rp_RetryRows rp)" "length (ap_Actions (rp_Plan rp)) = length (ap_Deps (rp_Plan rp))"
  shows "flow_ok f"
  using assms(1)
proof induction
  case (run_start n env blo outbox busy e f)
  then show ?case using startRuntimeStage_ok assms(2-5) by blast
next
  case (run_dispatch f r)
  then show ?case by (simp add: markRunning_def Let_def)
next
  case (run_complete f env n blo r outcome err e out f')
  then show ?case using stages_ok(1) worker_completion_ok by blast
next
  case (run_release f env n blo e out f')
  then show ?case using stages_ok(3) by blast
next
  case (run_shutdown f env n blo r outcome err e f')
  then show ?case using shutdown_ok worker_completion_ok by blast
qed

text \<open>Whether an action is blocked depends only on which scopes are active.\<close>

lemma blocking_cong:
  assumes "LookupScope bs = LookupScope cs"
  shows "sk_IsZero (FindBlockingScope bs a) \<longleftrightarrow> sk_IsZero (FindBlockingScope cs a)"
proof -
  have "k \<in> as_Key ` set bs \<longleftrightarrow> k \<in> as_Key ` set cs" for k
    using assms LookupScope_None [of bs k] LookupScope_None [of cs k] by simp
  then have keys: "as_Key ` set bs = as_Key ` set cs" by blast
  have "(\<forall>b \<in> set bs. P (as_Key b)) \<longleftrightarrow> (\<forall>b \<in> set cs. P (as_Key b))" for P
    using arg_cong [OF keys, of "\<lambda>ks. \<forall>k \<in> ks. P k"] by simp
  then show ?thesis using FindBlockingScope_spec [of a bs] FindBlockingScope_spec [of a cs] by (simp add: Let_def)
qed

text \<open>
  C14: Through every run of the engine, whatever the workers report, in whatever order, and
  however the clock advances, the block scopes the engine holds in memory are exactly the
  persisted ones: every stage, on success and on error, leaves the store readable and the two in
  step, so that an engine restarted from the store finds the same actions blocked.
\<close>

theorem run_scopes_persisted:
  assumes "engine_run rp f0 f" "control_ok (ef_control f0)" "ListBlockScopes (ef_control f0) = Inr (rp_BlockScopes rp)"
    "ListRetryWork (ef_control f0) = Inr (rp_RetryRows rp)" "length (ap_Actions (rp_Plan rp)) = length (ap_Deps (rp_Plan rp))"
  shows "control_ok (ef_control f) \<and>
    (\<exists>blocks. ListBlockScopes (ef_control f) = Inr blocks \<and>
       (\<forall>k. LookupScope (map activeScopeFromBlockScopeRow blocks) k = LookupScope (ef_activeScopes f) k) \<and>
       (\<forall>a. sk_IsZero (FindBlockingScope (map activeScopeFromBlockScopeRow blocks) a) \<longleftrightarrow>
            sk_IsZero (FindBlockingScope (ef_activeScopes f) a)))"
proof -
  have ok: "flow_ok f" by (rule engine_run_ok [OF assms])
  then obtain blocks where b: "ListBlockScopes (ef_control f) = Inr blocks" using list_scopes [OF flow_ok_D(1)] by blast
  have same: "LookupScope (map activeScopeFromBlockScopeRow blocks) = LookupScope (ef_activeScopes f)"
    using loaded_mirrored [OF flow_ok_D(1) [OF ok] b] flow_ok_mirrored [OF ok] by (simp add: scopes_mirrored_def)
  show ?thesis using b flow_ok_D(1) [OF ok] same blocking_cong [OF same] by simp
qed

section \<open>A concrete start\<close>

definition test_env :: "int \<Rightarrow> engine_env" where
  "test_env now =
     \<lparr>ev_now = now, ev_rand = 1 / 2, ev_watch = True, ev_canceled = False, ev_bypass = False, ev_driveID = New_id ''d1'',
      ev_permHandler = shared_handler, ev_errText = (\<lambda>_. ''store error'')\<rparr>"

definition quota_runtime :: runtime_plan where
  "quota_runtime =
     \<lparr>rp_Plan = demo_plan, rp_RetryRows = projr (ListRetryWork blocked_db), rp_BlockScopes = projr (ListBlockScopes blocked_db)\<rparr>"

definition quota_started :: engine_flow where
  "quota_started = snd (snd (snd (startRuntimeStage 5 (test_env 7) (Some quota_runtime) None (new_flow blocked_db))))"

lemma quota_run: "engine_run quota_runtime (new_flow blocked_db) quota_started"
proof -
  let ?s = "startRuntimeStage 5 (test_env 7) (Some quota_runtime) None (new_flow blocked_db)"
  have "?s = (fst ?s, fst (snd ?s), fst (snd (snd ?s)), quota_started)" by (simp only: quota_started_def prod.collapse)
  then show ?thesis by (rule run_start) (simp add: env_ok_def test_env_def)
qed

theorem run_scopes_persisted_witness:
  "engine_run quota_runtime (new_flow blocked_db) quota_started \<and> control_ok (ef_control quota_started) \<and>
   (\<exists>blocks. ListBlockScopes (ef_control quota_started) = Inr blocks \<and>
      LookupScope (map activeScopeFromBlockScopeRow blocks) SKQuotaOwn = LookupScope (ef_activeScopes quota_started) SKQuotaOwn)"
proof -
  have db: "ef_control (new_flow blocked_db) = blocked_db" by (simp add: new_flow_def)
  obtain bs where "ListBlockScopes blocked_db = Inr bs" using list_scopes [OF blocked_db_ok] by blast
  moreover obtain rs where "ListRetryWork blocked_db = Inr rs" "set rs = {row. \<exists>k. work_at blocked_db k = Some row}"
    by (rule list_retry_set [OF blocked_db_ok])
  ultimately have "ListBlockScopes blocked_db = Inr (rp_BlockScopes quota_runtime)"
    "ListRetryWork blocked_db = Inr (rp_RetryRows quota_runtime)"
    by (simp_all add: quota_runtime_def)
  moreover have "length (ap_Actions (rp_Plan quota_runtime)) = length (ap_Deps (rp_Plan quota_runtime))"
    by (simp add: quota_runtime_def demo_plan_def)
  ultimately show ?thesis using run_scopes_persisted [OF quota_run] quota_run blocked_db_ok unfolding db by blast
qed

end
