(* ===== verification/Admission.thy ===== *)
theory Admission
  imports RuntimeRun
begin

text \<open>
  What admission does with a ready frontier: which actions go to the workers, which are held and
  why, and which are retired because the plan they belong to is out of date.
\<close>

section \<open>Reading the store does not change what it says\<close>

definition same_truth :: "sync_store \<Rightarrow> sync_store \<Rightarrow> bool" where
  "same_truth m m' \<longleftrightarrow>
     local_trusted m' = local_trusted m \<and> remote_trusted m' = remote_trusted m \<and>
     (\<forall>p. GetLocalStateByPath p m' = GetLocalStateByPath p m) \<and> remote_at m' = remote_at m \<and> remote_item m' = remote_item m"

lemma same_truth_refl [simp]: "same_truth m m"
  by (simp add: same_truth_def)

lemma same_truth_trans: "same_truth m m1 \<Longrightarrow> same_truth m1 m2 \<Longrightarrow> same_truth m m2"
  by (simp add: same_truth_def)

lemma same_truth_planned: "same_truth m m' \<Longrightarrow> still_as_planned a m' \<longleftrightarrow> still_as_planned a m"
  by (simp add: same_truth_def still_as_planned_def move_endpoints_hold_def identity_holds_def)

lemma read_same_truth:
  assumes "ReadObservationState m = (m1, s)"
  shows "same_truth m m1"
proof -
  have m1: "m1 = rememberContentDriveID (os_ContentDriveID s) (m\<lparr>ss_db := fst (readObservationStateFromTx (ss_db m))\<rparr>)"
    and s: "s = obs_of (ss_db m)"
    using assms by (auto simp: ReadObservationState_def split_beta)
  have obs: "obs_of (ss_db m1) = obs_of (ss_db m)" by (simp add: m1)
  have again: "snd (ReadObservationState m1) = s" using obs by (simp add: ReadObservationState_def split_beta s)
  have drive: "mirror_drive m1 = mirror_drive m"
    using obs unfolding mirror_drive_def Let_def contentDrive_obs by (simp add: m1 rememberContentDriveID_def s)
  note tables = after_read(1,2) [OF assms]
  have "remote_at m1 = remote_at m" "remote_item m1 = remote_item m"
    by (simp_all add: fun_eq_iff remote_at_def remote_item_def tables drive)
  then show ?thesis
    using assms again lookups_after_read(3) [OF assms] by (simp add: same_truth_def local_trusted_def remote_trusted_def)
qed

lemma load_inputs_store: "fst (loadActionFreshnessInputs a m) = fst (ReadObservationState m)"
proof -
  obtain m1 s where r: "ReadObservationState m = (m1, s)" by force
  show ?thesis
    unfolding loadActionFreshnessInputs_def r prod.case Let_def loadLocalActionFreshnessInputs_def
      loadRemoteActionFreshnessInputs_def lookups_after_read [OF r]
    by (cases "movePeerPath a") simp_all
qed

text \<open>An action that may go to a worker as far as the store knows.\<close>

definition still_fresh :: "action \<Rightarrow> sync_store \<Rightarrow> bool" where
  "still_fresh a m \<longleftrightarrow> actionSkipsFreshnessValidation a \<or> still_as_planned a m"

lemma freshness_outcome:
  assumes "evaluateActionFreshnessFromStore False bypass a m = (m', Inr d)"
  shows "same_truth m m' \<and> (fd_Fresh d \<longleftrightarrow> still_fresh a m)"
proof (cases "actionSkipsFreshnessValidation a")
  case True
  then show ?thesis using assms by (auto simp: evaluateActionFreshnessFromStore_def still_fresh_def)
next
  case False
  then have view: "actionHasPlannerView a"
    using assms by (auto simp: evaluateActionFreshnessFromStore_def split: if_splits)
  have "m' = fst (loadActionFreshnessInputs a m)"
    using assms False view by (auto simp: evaluateActionFreshnessFromStore_def split: prod.splits)
  then have "same_truth m m'" using read_same_truth [OF prod.collapse [symmetric], of m] by (simp add: load_inputs_store)
  then show ?thesis using freshness_check [OF False view, of bypass m] assms False by (auto simp: still_fresh_def)
qed

section \<open>Retiring work does not touch what remains\<close>

lemma complete_loop_tracked:
  "complete_loop heap rs ready = (heap', ready') \<Longrightarrow> length heap' = length heap \<and> map tn_TA heap' = map tn_TA heap"
proof (induction rs arbitrary: heap ready)
  case (Cons r rs)
  let ?h = "heap[r := (heap ! r)\<lparr>tn_depsLeft := tn_depsLeft (heap ! r) - 1\<rparr>]"
  have "map tn_TA ?h = map tn_TA heap"
    by (cases "r < length heap") (simp_all add: map_update list_update_beyond list_update_same_conv)
  then show ?case using Cons.prems Cons.IH [of ?h] by (simp add: Let_def split: if_splits)
qed simp

definition graph_kept :: "dep_graph \<Rightarrow> dep_graph \<Rightarrow> bool" where
  "graph_kept g g' \<longleftrightarrow> map tn_TA (dg_heap g') = map tn_TA (dg_heap g) \<and> (\<forall>i. dg_Get g i = None \<longrightarrow> dg_Get g' i = None)"

lemma graph_kept_refl [simp]: "graph_kept g g"
  by (simp add: graph_kept_def)

lemma graph_kept_trans: "graph_kept g g1 \<Longrightarrow> graph_kept g1 g2 \<Longrightarrow> graph_kept g g2"
  by (simp add: graph_kept_def)

lemma complete_kept: "completeDepGraphAction g i = Some (g', ready) \<Longrightarrow> graph_kept g g' \<and> dg_Get g' i = None"
  by (auto simp: completeDepGraphAction_def dg_Complete_def dg_Get_def graph_kept_def delete_conv
      split: option.splits prod.splits dest: complete_loop_tracked)

lemma subtree_kept: "complete_subtree_loop n g seen queue = Some g' \<Longrightarrow> graph_kept g g'"
proof (induction n g seen queue rule: complete_subtree_loop.induct)
  case (3 n g seen r queue)
  then show ?case
    by (auto simp: Let_def split: if_splits option.splits dest!: complete_kept intro: graph_kept_trans)
qed auto

lemma kept_tracked:
  assumes "graph_kept (ef_depGraph f) (ef_depGraph f')"
  shows "tracked f' r = tracked f r"
proof -
  have m: "map tn_TA (dg_heap (ef_depGraph f')) = map tn_TA (dg_heap (ef_depGraph f))" using assms by (simp add: graph_kept_def)
  then have l: "length (dg_heap (ef_depGraph f')) = length (dg_heap (ef_depGraph f))" by (metis length_map)
  show ?thesis
  proof (cases "r < length (dg_heap (ef_depGraph f))")
    case True
    then show ?thesis using m l by (metis nth_map tracked_def)
  qed (simp add: tracked_def l)
qed

text \<open>A state that differs only in what belongs to the given work.\<close>

definition work_kept :: "retry_work_key set \<Rightarrow> engine_flow \<Rightarrow> engine_flow \<Rightarrow> bool" where
  "work_kept K f f' \<longleftrightarrow>
     graph_kept (ef_depGraph f) (ef_depGraph f') \<and> same_truth (ef_store f) (ef_store f') \<and>
     (\<forall>k. k \<notin> K \<longrightarrow> held_at f' k = held_at f k \<and> ef_retryRowsByKey f' k = ef_retryRowsByKey f k)"

lemma work_kept_trans: "work_kept K f f1 \<Longrightarrow> work_kept L f1 f2 \<Longrightarrow> work_kept (K \<union> L) f f2"
  by (auto simp: work_kept_def intro: graph_kept_trans same_truth_trans)

lemma work_kept_tracked: "work_kept K f f' \<Longrightarrow> tracked f' r = tracked f r"
  by (simp add: work_kept_def kept_tracked)

lemma release_other: "releaseHeldAction k f = (ro, f') \<Longrightarrow> j \<noteq> k \<Longrightarrow> held_at f' j = held_at f j"
  by (auto simp: releaseHeldAction_def held_at_def delete_conv split: option.splits)

lemma release_sel:
  "ef_depGraph (snd (releaseHeldAction k f)) = ef_depGraph f" "ef_store (snd (releaseHeldAction k f)) = ef_store f"
  "ef_retryRowsByKey (snd (releaseHeldAction k f)) = ef_retryRowsByKey f"
  by (simp_all add: releaseHeldAction_def split: option.split)

lemma resolve_kept: "resolveRetryWorkAndLogResolution k f = (e, f') \<Longrightarrow> work_kept {k} f f' \<and> ef_depGraph f' = ef_depGraph f"
proof -
  assume r: "resolveRetryWorkAndLogResolution k f = (e, f')"
  let ?f = "\<lambda>db. f\<lparr>ef_control := db, ef_retryRowsByKey := (ef_retryRowsByKey f)(k := None)\<rparr>"
  have "held_at (snd (releaseHeldAction k (?f db))) j = held_at f j" if "j \<noteq> k" for j db
    using release_other [OF prod.collapse [symmetric] that, of "?f db"] by (simp add: held_at_def)
  then show ?thesis
    using r by (auto simp: resolveRetryWorkAndLogResolution_def work_kept_def release_sel held_at_def
        split: prod.splits sum.splits option.splits)
qed

lemma subtree_work_kept:
  assumes "applyCompletedSubtree (Some r) i f = (None, f')"
  shows "work_kept {} f f' \<and> dg_Get (ef_depGraph f') i = None"
proof -
  obtain g ready g' where g: "completeDepGraphAction (ef_depGraph f) i = Some (g, ready)"
      "complete_subtree_loop (length (dg_heap g)) g [] ready = Some g'"
      "f' = (markFinished (Some r) f)\<lparr>ef_depGraph := g'\<rparr>"
    using assms by (auto simp: applyCompletedSubtree_def Let_def split: option.splits)
  have "graph_kept (ef_depGraph f) g'" "dg_Get g' i = None"
    using complete_kept [OF g(1)] subtree_kept [OF g(2)] by (auto simp: graph_kept_def)
  moreover have "ef_store (markFinished (Some r) f) = ef_store f" by (simp add: markFinished_def Let_def)
  ultimately show ?thesis by (simp add: g(3) work_kept_def held_at_def)
qed

lemma superseded_kept:
  assumes "applySupersededCompletion env (Some r) c f = (None, f')"
  shows "work_kept {tracked_key f r} f f' \<and> dg_Get (ef_depGraph f') (ac_ActionID c) = None"
proof -
  obtain f1 f2 where s: "resolveRetryWorkAndLogResolution (tracked_key f r) f = (None, f1)"
      "applyCompletedSubtree (Some r) (ac_ActionID c) f1 = (None, f2)" "f' = (if ev_watch env then f2\<lparr>ef_dirty := True\<rparr> else f2)"
    using assms
    by (auto simp: applySupersededCompletion_def clearRetryWorkOnSuperseded_def split: prod.splits option.splits)
  have "work_kept {tracked_key f r} f f2"
    using work_kept_trans [of "{tracked_key f r}" f f1 "{}" f2] resolve_kept [OF s(1)] subtree_work_kept [OF s(2)] by simp
  then show ?thesis using subtree_work_kept [OF s(2)] by (auto simp: s(3) work_kept_def held_at_def)
qed

section \<open>The freshness filter\<close>

definition decision_for :: "engine_flow \<Rightarrow> admission_decision \<Rightarrow> bool" where
  "decision_for f d \<longleftrightarrow> ad_RetryWorkKey d = tracked_key f (ad_Action d)"

definition passes :: "engine_flow \<Rightarrow> admission_decision \<Rightarrow> bool" where
  "passes f d \<longleftrightarrow> (ad_Kind d = admissionDispatchNow \<longrightarrow> still_fresh (ta_Action (tracked f (ad_Action d))) (ef_store f))"

lemma work_kept_passes: "work_kept K f f' \<Longrightarrow> passes f' d \<longleftrightarrow> passes f d"
  by (simp add: passes_def work_kept_tracked still_fresh_def) (auto simp: work_kept_def same_truth_planned)

lemma work_kept_for: "work_kept K f f' \<Longrightarrow> decision_for f' d \<longleftrightarrow> decision_for f d"
  by (simp add: decision_for_def tracked_key_def work_kept_tracked)

lemma stale_completion_id: "ac_ActionID (stale_completion ta reason) = ta_ID ta"
  by (simp add: stale_completion_def actionCompletionFromTrackedAction_def Let_def)

definition filtered_to :: "engine_flow \<Rightarrow> admission_decision list \<Rightarrow> engine_flow \<Rightarrow> bool" where
  "filtered_to f ds f' \<longleftrightarrow>
     work_kept (ad_RetryWorkKey ` {d \<in> set ds. \<not> passes f d}) f f' \<and>
     (\<forall>d \<in> set ds. \<not> passes f d \<longrightarrow> dg_Get (ef_depGraph f') (ta_ID (tracked f (ad_Action d))) = None)"

lemma filtered_to_step:
  assumes "work_kept K f f1" "filtered_to f1 ds f'" "K \<subseteq> ad_RetryWorkKey ` {e \<in> {d}. \<not> passes f e}"
    "\<not> passes f d \<Longrightarrow> dg_Get (ef_depGraph f1) (ta_ID (tracked f (ad_Action d))) = None"
  shows "filtered_to f (d # ds) f'"
proof -
  note same = work_kept_passes [OF assms(1)] work_kept_tracked [OF assms(1)]
  have w: "work_kept (ad_RetryWorkKey ` {e \<in> set ds. \<not> passes f e}) f1 f'"
    using assms(2) by (simp add: filtered_to_def same)
  have "K \<union> ad_RetryWorkKey ` {e \<in> set ds. \<not> passes f e} \<subseteq> ad_RetryWorkKey ` {e \<in> set (d # ds). \<not> passes f e}"
    using assms(3) by auto
  then have "work_kept (ad_RetryWorkKey ` {e \<in> set (d # ds). \<not> passes f e}) f f'"
    using work_kept_trans [OF assms(1) w] unfolding work_kept_def by blast
  moreover have "graph_kept (ef_depGraph f1) (ef_depGraph f')" using w by (simp add: work_kept_def)
  ultimately show ?thesis
    using assms(2,4) by (auto simp: filtered_to_def same graph_kept_def)
qed

lemma filter_fresh_exact:
  assumes "filterFreshAdmissionDecisions env ds acc f = (ds', owned, None, f')" "\<not> ev_canceled env" "\<forall>d \<in> set ds. decision_for f d"
  shows "ds' = acc @ filter (passes f) ds \<and> filtered_to f ds f'"
  using assms
proof (induction ds arbitrary: acc f)
  case Nil
  then show ?case by (simp add: filtered_to_def work_kept_def)
next
  case (Cons d ds)
  show ?case
  proof (cases "ad_Kind d = admissionDispatchNow")
    case False
    then have p: "passes f d" by (simp add: passes_def)
    show ?thesis
      using Cons.IH [of "acc @ [d]" f] Cons.prems False p filtered_to_step [of "{}" f f ds f' d]
      by (simp add: work_kept_def)
  next
    case now: True
    let ?a = "ta_Action (tracked f (ad_Action d))"
    obtain m fr where e: "evaluateActionFreshnessFromStore False (ev_bypass env) ?a (ef_store f) = (m, Inr fr)"
      using Cons.prems(1,2) now by (auto simp: Let_def split: prod.splits sum.splits)
    have m: "same_truth (ef_store f) m" and fr: "fd_Fresh fr \<longleftrightarrow> passes f d"
      using freshness_outcome [OF e] now by (simp_all add: passes_def)
    have k: "work_kept {} f (f\<lparr>ef_store := m\<rparr>)" using m by (simp add: work_kept_def held_at_def)
    show ?thesis
    proof (cases "passes f d")
      case True
      have "filterFreshAdmissionDecisions env ds (acc @ [d]) (f\<lparr>ef_store := m\<rparr>) = (ds', owned, None, f')"
        using Cons.prems(1,2) now e True fr by (simp add: Let_def)
      from Cons.IH [OF this Cons.prems(2)] have "ds' = (acc @ [d]) @ filter (passes f) ds" "filtered_to (f\<lparr>ef_store := m\<rparr>) ds f'"
        using Cons.prems(3) by (simp_all add: work_kept_for [OF k] work_kept_passes [OF k, abs_def])
      then show ?thesis using True filtered_to_step [OF k, of ds f' d] by simp
    next
      case False
      let ?c = "stale_completion (tracked f (ad_Action d)) (fd_Reason fr)"
      obtain f1 where s: "applySupersededCompletion env (Some (ad_Action d)) ?c (f\<lparr>ef_store := m\<rparr>) = (None, f1)"
          "filterFreshAdmissionDecisions env ds acc f1 = (ds', owned, None, f')"
        using Cons.prems(1,2) now e False fr by (auto simp: Let_def split: prod.splits option.splits)
      have key: "tracked_key (f\<lparr>ef_store := m\<rparr>) (ad_Action d) = ad_RetryWorkKey d"
        using Cons.prems(3) by (simp add: decision_for_def tracked_key_def tracked_def)
      have k1: "work_kept {ad_RetryWorkKey d} f f1"
        using work_kept_trans [OF k, of "{ad_RetryWorkKey d}" f1] superseded_kept [OF s(1)] key by simp
      have gone: "dg_Get (ef_depGraph f1) (ta_ID (tracked f (ad_Action d))) = None"
        using superseded_kept [OF s(1)] by (simp add: stale_completion_id)
      from Cons.IH [OF s(2) Cons.prems(2)] have "ds' = acc @ filter (passes f) ds" "filtered_to f1 ds f'"
        using Cons.prems(3) by (simp_all add: work_kept_for [OF k1] work_kept_passes [OF k1, abs_def])
      then show ?thesis using False filtered_to_step [OF k1, of ds f' d] gone by simp
    qed
  qed
qed

section \<open>Carrying out the decisions\<close>

definition admit_one :: "admission_decision \<Rightarrow> engine_flow \<Rightarrow> flow_result" where
  "admit_one d f =
     (let f1 = applyAdmissionScopeClear d f; r = ad_Action d
      in case ad_Kind d of
           admissionDispatchNow \<Rightarrow> (None, markQueued r f1)
         | admissionHoldRetry \<Rightarrow> (None, holdAction r heldReasonRetry zero_scope_key (ad_NextRetryAt d) f1)
         | admissionHoldScope \<Rightarrow>
             (case persistHeldScopeDecision d f1 of
                (Some e, f2) \<Rightarrow> (Some e, f2)
              | (None, f2) \<Rightarrow> (None, holdAction r heldReasonScope (ad_ScopeKey d) None f2)))"

lemma apply_decisions_step:
  "applyAdmissionDecisions (d # ds) out f =
     (case admit_one d f of
        (Some e, f1) \<Rightarrow> (Some e, out, f1)
      | (None, f1) \<Rightarrow> applyAdmissionDecisions ds (if ad_Kind d = admissionDispatchNow then out @ [ad_Action d] else out) f1)"
  by (cases "ad_Kind d") (simp_all add: admit_one_def Let_def split: prod.split option.split)

definition held_for :: "engine_flow \<Rightarrow> retry_work_key \<Rightarrow> nat \<Rightarrow> held_reason \<Rightarrow> scope_key \<Rightarrow> go_time \<Rightarrow> bool" where
  "held_for f key r reason k t \<longleftrightarrow>
     (\<exists>h. held_at f key = Some h \<and> ha_Tracked h = r \<and> ha_Reason h = reason \<and> ha_ScopeKey h = k \<and> ha_NextRetry h = t)"

definition blocked_row :: "engine_flow \<Rightarrow> retry_work_key \<Rightarrow> scope_key \<Rightarrow> bool" where
  "blocked_row f key k \<longleftrightarrow> (\<exists>row. ef_retryRowsByKey f key = Some row \<and> rw_Blocked row \<and> rw_ScopeKey row = k)"

definition carried_out :: "admission_decision \<Rightarrow> engine_flow \<Rightarrow> bool" where
  "carried_out d f \<longleftrightarrow>
     (case ad_Kind d of
        admissionDispatchNow \<Rightarrow> True
      | admissionHoldRetry \<Rightarrow> held_for f (ad_RetryWorkKey d) (ad_Action d) heldReasonRetry zero_scope_key (ad_NextRetryAt d)
      | admissionHoldScope \<Rightarrow>
          held_for f (ad_RetryWorkKey d) (ad_Action d) heldReasonScope (ad_ScopeKey d) None \<and>
          (sk_IsZero (ad_ScopeKey d) \<or> blocked_row f (ad_RetryWorkKey d) (ad_ScopeKey d)))"

lemma markFinished_store: "ef_store (markFinished ro f) = ef_store f"
  by (simp add: markFinished_def Let_def split: option.split)

lemma hold_spec:
  fixes r :: nat and f :: engine_flow
  shows "held_for (holdAction r reason k t f) (tracked_key f r) r reason k t"
  "j \<noteq> tracked_key f r \<Longrightarrow> held_at (holdAction r reason k t f) j = held_at f j"
  "ef_depGraph (holdAction r reason k t f) = ef_depGraph f" "ef_store (holdAction r reason k t f) = ef_store f"
  "ef_retryRowsByKey (holdAction r reason k t f) = ef_retryRowsByKey f"
  by (auto simp: holdAction_def held_for_def held_at_def Let_def tracked_key_def tracked_def update_conv markFinished_store)

lemma clear_kept:
  fixes f :: engine_flow
  shows "work_kept {w} f (clearBlockedRetryWorkForScope w k f)" "ef_depGraph (clearBlockedRetryWorkForScope w k f) = ef_depGraph f"
  by (auto simp: work_kept_def clearBlockedRetryWorkForScope_def held_at_def Let_def split: option.split)

lemma scope_clear_kept:
  "work_kept {ad_RetryWorkKey d} f (applyAdmissionScopeClear d f)" "ef_depGraph (applyAdmissionScopeClear d f) = ef_depGraph f"
  using clear_kept [where w = "ad_RetryWorkKey d" and k = "ad_ClearScopeKey d" and f = f]
  by (auto simp: work_kept_def applyAdmissionScopeClear_def held_at_def Let_def split: option.split)

lemma record_blocked_row:
  "RecordBlockedRetryWork w k db = (Inr row, db') \<Longrightarrow> row_WorkKey row = w \<and> rw_Blocked row \<and> rw_ScopeKey row = k"
  by (auto simp: RecordBlockedRetryWork_def row_WorkKey_def retryWorkKey_def Let_def split: if_splits sum.splits)

lemma persist_kept:
  assumes "persistHeldScopeDecision d f = (None, f')"
  shows "work_kept {ad_RetryWorkKey d} f f'" "ef_depGraph f' = ef_depGraph f"
    "sk_IsZero (ad_ScopeKey d) \<or> blocked_row f' (ad_RetryWorkKey d) (ad_ScopeKey d)"
  using assms
  by (auto simp: persistHeldScopeDecision_def persistBlockedRetryWork_def work_kept_def blocked_row_def held_at_def Let_def
      split: if_splits option.splits prod.splits sum.splits dest!: record_blocked_row)

lemma work_kept_absorb: "work_kept K f f1 \<Longrightarrow> work_kept K f1 f2 \<Longrightarrow> work_kept K f f2"
  using work_kept_trans [of K f f1 K f2] by simp

lemma admit_one_spec:
  assumes "admit_one d f = (None, f')" "decision_for f d"
  shows "work_kept {ad_RetryWorkKey d} f f'" "ef_depGraph f' = ef_depGraph f" "carried_out d f'"
proof -
  let ?f1 = "applyAdmissionScopeClear d f"
  note c = scope_clear_kept [of d f]
  have key: "tracked_key g (ad_Action d) = ad_RetryWorkKey d" if "ef_depGraph g = ef_depGraph f" for g
    using assms(2) that by (simp add: decision_for_def tracked_key_def tracked_def)
  have hold: "work_kept {ad_RetryWorkKey d} g (holdAction (ad_Action d) reason k t g)" if "ef_depGraph g = ef_depGraph f" for g reason k t
    using hold_spec [where r = "ad_Action d" and f = g] key [OF that] by (simp add: work_kept_def)
  have "work_kept {ad_RetryWorkKey d} f f' \<and> ef_depGraph f' = ef_depGraph f \<and> carried_out d f'"
  proof (cases "ad_Kind d")
    case admissionDispatchNow
    then have f': "f' = markQueued (ad_Action d) ?f1" using assms(1) by (simp add: admit_one_def Let_def)
    show ?thesis using c admissionDispatchNow by (simp add: f' markQueued_def carried_out_def work_kept_def held_at_def)
  next
    case admissionHoldRetry
    then have f': "f' = holdAction (ad_Action d) heldReasonRetry zero_scope_key (ad_NextRetryAt d) ?f1"
      using assms(1) by (simp add: admit_one_def Let_def)
    show ?thesis
      using work_kept_absorb [OF c(1) hold [OF c(2)]] hold_spec(1) [where r = "ad_Action d" and f = ?f1] key [OF c(2)] admissionHoldRetry
      by (simp add: f' c hold_spec carried_out_def)
  next
    case admissionHoldScope
    then obtain f2 where p: "persistHeldScopeDecision d ?f1 = (None, f2)"
        and f': "f' = holdAction (ad_Action d) heldReasonScope (ad_ScopeKey d) None f2"
      using assms(1) by (auto simp: admit_one_def Let_def split: prod.splits option.splits)
    note q = persist_kept [OF p]
    have g: "ef_depGraph f2 = ef_depGraph f" by (simp add: q c)
    show ?thesis
      using work_kept_absorb [OF work_kept_absorb [OF c(1) q(1)] hold [OF g]] hold_spec(1) [where r = "ad_Action d" and f = f2] key [OF g]
        admissionHoldScope q(3)
      by (simp add: f' g hold_spec carried_out_def blocked_row_def)
  qed
  then show "work_kept {ad_RetryWorkKey d} f f'" "ef_depGraph f' = ef_depGraph f" "carried_out d f'" by auto
qed

lemma carried_out_kept: "carried_out d f \<Longrightarrow> work_kept K f f' \<Longrightarrow> ad_RetryWorkKey d \<notin> K \<Longrightarrow> carried_out d f'"
  by (auto simp: carried_out_def work_kept_def held_for_def blocked_row_def split: admission_decision_kind.splits)

lemma decisions_carried_out:
  assumes "applyAdmissionDecisions ds out f = (None, out', f')" "\<forall>d \<in> set ds. decision_for f d" "distinct (map ad_RetryWorkKey ds)"
  shows "out' = out @ map ad_Action (filter (\<lambda>d. ad_Kind d = admissionDispatchNow) ds) \<and>
    work_kept (ad_RetryWorkKey ` set ds) f f' \<and> ef_depGraph f' = ef_depGraph f \<and> (\<forall>d \<in> set ds. carried_out d f')"
  using assms
proof (induction ds arbitrary: out f)
  case (Cons d ds)
  obtain f1 where a: "admit_one d f = (None, f1)"
      and rest: "applyAdmissionDecisions ds (if ad_Kind d = admissionDispatchNow then out @ [ad_Action d] else out) f1 = (None, out', f')"
    using Cons.prems(1) unfolding apply_decisions_step by (auto split: prod.splits option.splits)
  note s = admit_one_spec [OF a]
  have d: "decision_for f d" using Cons.prems(2) by simp
  have "\<forall>e \<in> set ds. decision_for f1 e" using Cons.prems(2) work_kept_for [OF s(1) [OF d]] by simp
  from Cons.IH [OF rest this] Cons.prems(3)
  have ih: "out' = (if ad_Kind d = admissionDispatchNow then out @ [ad_Action d] else out) @
        map ad_Action (filter (\<lambda>d. ad_Kind d = admissionDispatchNow) ds)"
      "work_kept (ad_RetryWorkKey ` set ds) f1 f'" "ef_depGraph f' = ef_depGraph f1" "\<forall>e \<in> set ds. carried_out e f'"
    by auto
  have "carried_out d f'" using carried_out_kept [OF s(3) [OF d] ih(2)] Cons.prems(3) by simp
  then show ?case using ih s(2) [OF d] work_kept_trans [OF s(1) [OF d] ih(2)] by simp
qed (simp add: work_kept_def)

section \<open>The decision about one action\<close>

text \<open>Nothing the engine holds in memory keeps the action back, its own trial apart.\<close>

definition scopes_open :: "engine_flow \<Rightarrow> nat \<Rightarrow> bool" where
  "scopes_open f r \<longleftrightarrow> sk_IsZero (findBlockingScope r f) \<or> own_trial (tracked f r) (findBlockingScope r f)"

text \<open>The scope a trial was meant to test, when it does not apply to the action any more.\<close>

definition moot_trial :: "engine_flow \<Rightarrow> nat \<Rightarrow> scope_key \<Rightarrow> bool" where
  "moot_trial f r k \<longleftrightarrow>
     (let ta = tracked f r; a = ta_Action ta
      in own_trial ta k \<and> \<not> sk_BlocksAction k (a_Path a) (action_ThrottleTargetKey (Some a)) (a_Type a))"

definition row_open :: "int \<Rightarrow> engine_flow \<Rightarrow> nat \<Rightarrow> bool" where
  "row_open now f r \<longleftrightarrow>
     (case ef_retryRowsByKey f (tracked_key f r) of
        None \<Rightarrow> True
      | Some row \<Rightarrow>
          moot_trial f r (rw_ScopeKey row) \<or>
          (rw_Blocked row \<longrightarrow> sk_IsZero (rw_ScopeKey row) \<or> own_trial (tracked f r) (rw_ScopeKey row)) \<and>
          rw_NextRetryAt row \<le> max 0 now)"

definition may_dispatch :: "int \<Rightarrow> engine_flow \<Rightarrow> nat \<Rightarrow> bool" where
  "may_dispatch now f r \<longleftrightarrow> scopes_open f r \<and> row_open now f r \<and> still_fresh (ta_Action (tracked f r)) (ef_store f)"

lemma admission_of_sel:
  "ad_Action (admission_of now f r) = r" "ad_RetryWorkKey (admission_of now f r) = tracked_key f r"
  by (simp_all add: admission_of_def applyActiveScopeAdmission_def applyPersistedRetryAdmission_def newAdmissionDecision_def
      tracked_key_def Let_def split: option.split)

lemma moot_clear:
  "ad_ClearScopeKey (newAdmissionDecision f r) =
     (let k = ta_TrialScopeKey (tracked f r) in if moot_trial f r k then k else zero_scope_key)"
  by (simp add: newAdmissionDecision_def moot_trial_def own_trial_def Let_def)

lemma zero_key_zero: "sk_IsZero zero_scope_key"
  by (simp add: sk_IsZero_def zero_scope_key_def)

lemma moot_iff:
  "(\<not> sk_IsZero (ad_ClearScopeKey (newAdmissionDecision f r)) \<and> k = ad_ClearScopeKey (newAdmissionDecision f r)) \<longleftrightarrow>
   moot_trial f r k"
  by (auto simp: moot_clear Let_def zero_key_zero moot_trial_def own_trial_def)

lemma row_decision:
  fixes f r now
  defines "d \<equiv> applyPersistedRetryAdmission now f r (newAdmissionDecision f r)"
  shows "(ad_Kind d = admissionDispatchNow \<longleftrightarrow> row_open now f r) \<and>
    (ad_Kind d = admissionHoldRetry \<longrightarrow> (\<exists>t > now. ad_NextRetryAt d = Some t)) \<and>
    (ad_Kind d = admissionHoldScope \<longrightarrow> \<not> sk_IsZero (ad_ScopeKey d))"
proof -
  have kind: "ad_Kind (newAdmissionDecision f r) = admissionDispatchNow"
    and key: "ad_RetryWorkKey (newAdmissionDecision f r) = tracked_key f r"
    by (simp_all add: newAdmissionDecision_def Let_def tracked_key_def)
  show ?thesis
  proof (cases "ef_retryRowsByKey f (tracked_key f r)")
    case None
    then show ?thesis by (simp add: d_def applyPersistedRetryAdmission_def key kind row_open_def)
  next
    case (Some row)
    show ?thesis
      unfolding d_def applyPersistedRetryAdmission_def key Some option.case row_open_def
      using moot_iff [of f r "rw_ScopeKey row"] kind by auto
  qed
qed

lemma admission_kind:
  "ad_Kind (admission_of now f r) = admissionDispatchNow \<longleftrightarrow> scopes_open f r \<and> row_open now f r"
  "ad_Kind (admission_of now f r) = admissionHoldRetry \<Longrightarrow> \<exists>t > now. ad_NextRetryAt (admission_of now f r) = Some t"
  "ad_Kind (admission_of now f r) = admissionHoldScope \<Longrightarrow> \<not> sk_IsZero (ad_ScopeKey (admission_of now f r))"
  using row_decision [of now f r]
  by (auto simp: admission_of_def applyActiveScopeAdmission_def scopes_open_def Let_def split: if_splits)

section \<open>Admission as a whole\<close>

text \<open>Work that the engine keeps and will look at again: until a later time, or while a scope blocks it.\<close>

definition waits :: "int \<Rightarrow> engine_flow \<Rightarrow> retry_work_key \<Rightarrow> nat \<Rightarrow> bool" where
  "waits now f key r \<longleftrightarrow>
     (\<exists>t > now. held_for f key r heldReasonRetry zero_scope_key (Some t)) \<or>
     (\<exists>k. \<not> sk_IsZero k \<and> held_for f key r heldReasonScope k None \<and> blocked_row f key k)"

lemma carried_out_waits:
  assumes "carried_out (admission_of now f r) f'" "ad_Kind (admission_of now f r) \<noteq> admissionDispatchNow"
  shows "waits now f' (tracked_key f r) r"
proof (cases "ad_Kind (admission_of now f r)")
  case admissionHoldRetry
  then show ?thesis using assms(1) admission_kind(2) [OF admissionHoldRetry] by (auto simp: carried_out_def waits_def admission_of_sel)
next
  case admissionHoldScope
  then show ?thesis using assms(1) admission_kind(3) [OF admissionHoldScope] by (auto simp: carried_out_def waits_def admission_of_sel)
qed (use assms(2) in simp)

lemma passes_admission:
  "passes f (admission_of now f r) \<and> ad_Kind (admission_of now f r) = admissionDispatchNow \<longleftrightarrow> may_dispatch now f r"
  by (auto simp: passes_def may_dispatch_def admission_kind admission_of_sel)

text \<open>
  C15: Admission splits a ready frontier exactly. An action goes to the workers if and only if no
  active scope and no recorded block keeps it back (the scope it is a trial of apart), its retry
  time has come, and the store still says what the plan saw. Every other ready action is either
  kept by the engine, until a later time or under a scope with a blocked row in the retry table,
  or it is out of date and retired from the dependency graph. None is lost.
\<close>

theorem admission_exact:
  assumes "admitReady env ready f = (None, dispatch, f')" "\<not> ev_canceled env" "distinct (map (tracked_key f) ready)"
  shows "dispatch = filter (may_dispatch (ev_now env) f) ready \<and>
    (\<forall>r \<in> set ready. r \<in> set dispatch \<or> waits (ev_now env) f' (tracked_key f r) r \<or>
       \<not> still_fresh (ta_Action (tracked f r)) (ef_store f) \<and> dg_Get (ef_depGraph f') (ta_ID (tracked f r)) = None)"
proof -
  let ?now = "ev_now env" and ?ds = "decideAdmission (ev_now env) ready f"
  obtain ds owned f1 where flt: "filterFreshAdmissionDecisions env ?ds [] f = (ds, owned, None, f1)"
      and carried: "applyAdmissionDecisions ds [] f1 = (None, dispatch, f')"
    using assms(1) by (auto simp: admitReady_def split: prod.splits option.splits)
  have for_f: "\<forall>d \<in> set ?ds. decision_for f d" by (simp add: decideAdmission_def decision_for_def admission_of_sel)
  note fl = filter_fresh_exact [OF flt assms(2) for_f]
  have ds: "ds = map (admission_of ?now f) (filter (\<lambda>r. passes f (admission_of ?now f r)) ready)"
    using fl by (simp add: decideAdmission_def filter_map comp_def)
  have kept: "work_kept (ad_RetryWorkKey ` {d \<in> set ?ds. \<not> passes f d}) f f1" using fl by (simp add: filtered_to_def)
  have "distinct (map (tracked_key f) (filter (\<lambda>r. passes f (admission_of ?now f r)) ready))"
    using assms(3) by (simp add: distinct_map inj_on_def)
  then have "distinct (map ad_RetryWorkKey ds)" by (simp add: ds comp_def admission_of_sel)
  moreover have "\<forall>d \<in> set ds. decision_for f1 d" using for_f by (auto simp: work_kept_for [OF kept] ds decideAdmission_def)
  ultimately have out: "dispatch = map ad_Action (filter (\<lambda>d. ad_Kind d = admissionDispatchNow) ds)"
      "ef_depGraph f' = ef_depGraph f1" "\<forall>d \<in> set ds. carried_out d f'"
    using decisions_carried_out [OF carried] by auto
  have dispatch: "dispatch = filter (may_dispatch ?now f) ready"
    by (simp add: out(1) ds filter_map comp_def admission_of_sel passes_admission cong: conj_cong)
  have "waits ?now f' (tracked_key f r) r \<or>
      \<not> still_fresh (ta_Action (tracked f r)) (ef_store f) \<and> dg_Get (ef_depGraph f') (ta_ID (tracked f r)) = None"
    if r: "r \<in> set ready" "r \<notin> set dispatch" for r
  proof (cases "passes f (admission_of ?now f r)")
    case True
    then have "ad_Kind (admission_of ?now f r) \<noteq> admissionDispatchNow" using r dispatch passes_admission [of f ?now r] by auto
    then show ?thesis using carried_out_waits [of ?now f r f'] out(3) True r(1) by (simp add: ds)
  next
    case False
    then have "dg_Get (ef_depGraph f1) (ta_ID (tracked f r)) = None"
      using fl r(1) by (auto simp: filtered_to_def decideAdmission_def admission_of_sel)
    then show ?thesis using False by (auto simp: out(2) passes_def admission_of_sel)
  qed
  then show ?thesis using dispatch by blast
qed

section \<open>A concrete frontier\<close>

text \<open>Three cleanups: one goes ahead, one waits for its time, one was recorded as blocked by the quota.\<close>

definition frontier_plan :: action_plan where
  "frontier_plan =
     \<lparr>ap_Actions = map (\<lambda>p. (demo_action p)\<lparr>a_Type := ActionCleanup\<rparr>) [''old'', ''later'', ''full''],
      ap_Deps = [[], [], []], ap_DeferredByMode = zero_deferred\<rparr>"

definition frontier_row :: "string \<Rightarrow> scope_key \<Rightarrow> int \<Rightarrow> retry_work_row" where
  "frontier_row p k t =
     \<lparr>rw_Path = p, rw_OldPath = '''', rw_ActionType = ActionCleanup, rw_ScopeKey = k, rw_Blocked = (t = 0),
      rw_AttemptCount = 1, rw_NextRetryAt = t\<rparr>"

definition frontier_flow :: engine_flow where
  "frontier_flow =
     (new_flow \<lparr>cd_retry = [], cd_blocks = []\<rparr>)
       \<lparr>ef_depGraph := fst (fst (registerPlanActions NewDepGraph 1 frontier_plan)),
        ef_retryRowsByKey :=
          [retryWorkKey ''later'' '''' ActionCleanup \<mapsto> frontier_row ''later'' zero_scope_key 90,
           retryWorkKey ''full'' '''' ActionCleanup \<mapsto> frontier_row ''full'' SKQuotaOwn 0]\<rparr>"

lemma frontier_static:
  "map (\<lambda>r. tracked_key frontier_flow r) [0, 1, 2] = map (\<lambda>p. retryWorkKey p '''' ActionCleanup) [''old'', ''later'', ''full'']"
  by code_simp

lemma frontier_types: "map (\<lambda>r. a_Type (ta_Action (tracked frontier_flow r))) [0, 1, 2] = [ActionCleanup, ActionCleanup, ActionCleanup]"
  by code_simp

lemma frontier_decisions:
  "decideAdmission 7 [0, 1, 2] frontier_flow =
     (let d = \<lambda>r kind k t p. \<lparr>ad_Action = r, ad_Kind = kind, ad_ScopeKey = k, ad_NextRetryAt = t, ad_ClearScopeKey = zero_scope_key,
                              ad_RetryWorkKey = retryWorkKey p '''' ActionCleanup\<rparr>
      in [d 0 admissionDispatchNow zero_scope_key None ''old'', d 1 admissionHoldRetry zero_scope_key (Some 90) ''later'',
          d 2 admissionHoldScope SKQuotaOwn None ''full''])"
  by code_simp

lemma frontier_run: "\<exists>f. admitReady (test_env 7) [0, 1, 2] frontier_flow = (None, [0], f)"
proof -
  have quota: "\<not> sk_IsZero SKQuotaOwn" by code_simp
  have rows: "ef_retryRowsByKey frontier_flow (retryWorkKey ''full'' '''' ActionCleanup) = Some (frontier_row ''full'' SKQuotaOwn 0)"
    by (simp add: frontier_flow_def)
  have env: "ev_now (test_env 7) = 7" "\<not> ev_canceled (test_env 7)" by (simp_all add: test_env_def)
  have "evaluateActionFreshnessFromStore False b (ta_Action (tracked frontier_flow 0)) m = (m, Inr freshAction)" for b m
    using frontier_types by (simp add: evaluateActionFreshnessFromStore_def actionSkipsFreshnessValidation_def)
  then show ?thesis
    unfolding admitReady_def env frontier_decisions
    by (simp add: env Let_def freshAction_def applyAdmissionScopeClear_def zero_key_zero
        persistHeldScopeDecision_def quota hold_spec rows frontier_row_def markQueued_def)
qed

theorem admission_exact_witness:
  "\<exists>f. admitReady (test_env 7) [0, 1, 2] frontier_flow = (None, [0], f) \<and>
       waits 7 f (tracked_key frontier_flow 1) 1 \<and> waits 7 f (tracked_key frontier_flow 2) 2"
proof -
  obtain f where f: "admitReady (test_env 7) [0, 1, 2] frontier_flow = (None, [0], f)" using frontier_run by blast
  have "\<not> ev_canceled (test_env 7)" "ev_now (test_env 7) = 7" by (simp_all add: test_env_def)
  moreover have "distinct (map (tracked_key frontier_flow) [0, 1, 2])"
    unfolding frontier_static by (simp add: retryWorkKey_def)
  moreover have "\<forall>r \<in> set [1, 2]. still_fresh (ta_Action (tracked frontier_flow r)) m" for m
    using frontier_types by (simp add: still_fresh_def actionSkipsFreshnessValidation_def)
  ultimately show ?thesis using admission_exact [OF f] f by auto
qed

end
