(* ===== verification/StrandedWork.thy ===== *)
theory StrandedWork
  imports Admission
begin

text \<open>
  Work that no clock releases: what one quota failure leaves behind
  (\<^verbatim>\<open>recordRetryWork\<close> and \<^verbatim>\<open>retryWorkShouldBeBlocked\<close> in \<^verbatim>\<open>engine_runtime_completion.go\<close>).
\<close>

definition upload_plan :: action_plan where
  "upload_plan = \<lparr>ap_Actions = [demo_action ''a''], ap_Deps = [[]], ap_DeferredByMode = zero_deferred\<rparr>"

definition upload_flow :: engine_flow where
  "upload_flow =
     (new_flow \<lparr>cd_retry = [], cd_blocks = []\<rparr>)
       \<lparr>ef_depGraph := fst (fst (registerPlanActions NewDepGraph 1 upload_plan))\<rparr>"

text \<open>The server answers 507 to the upload.\<close>

definition quota_failure :: action_completion where
  "quota_failure =
     actionCompletionFromTrackedAction (tracked upload_flow 0) None
       (Some \<lparr>ge_Marks = [], ge_Graph = Some (507, 0), ge_Message = ''insufficient storage''\<rparr>)"

definition after_quota :: stage_result where
  "after_quota = applyRuntimeCompletionStage 5 (test_env 7) None quota_failure upload_flow"

definition held_view :: "engine_flow \<Rightarrow> (string \<times> held_reason \<times> scope_key) list" where
  "held_view f = map (\<lambda>(key, h). (rk_Path key, ha_Reason h, ha_ScopeKey h)) (ef_heldByKey f)"

definition stranded_row :: retry_work_row where
  "stranded_row =
     \<lparr>rw_Path = ''a'', rw_OldPath = '''', rw_ActionType = ActionUpload, rw_ScopeKey = SKQuotaOwn, rw_Blocked = True,
      rw_AttemptCount = 2, rw_NextRetryAt = 0\<rparr>"

lemma quota_stage:
  "(case after_quota of
      (e, out, f) \<Rightarrow> (e, out, ef_activeScopes f, held_view f, ListRetryWork (ef_control f), ListBlockScopes (ef_control f))) =
   (None, [], [], [(''a'', heldReasonScope, SKQuotaOwn)], Inr [stranded_row], Inr [])"
  by code_simp

lemma stranded_check:
  assumes "ListRetryWork db = Inr [stranded_row]" "ListBlockScopes db = Inr []"
  shows "assertPersistedInvariants db = Some (InvMissingScope ''a'' SKQuotaOwn)"
proof -
  have "\<not> sk_IsZero SKQuotaOwn" by code_simp
  then show ?thesis
    by (simp add: assertPersistedInvariants_def assms assertPersistedRetryWorkInvariant_def
        assertBlockedRetryWorkInvariant_def stranded_row_def)
qed

text \<open>The upload is held for the quota, no scope is active, and at no time is anything due.\<close>

definition stranded :: "engine_flow \<Rightarrow> bool" where
  "stranded f \<longleftrightarrow>
     ef_activeScopes f = [] \<and> held_view f = [(''a'', heldReasonScope, SKQuotaOwn)] \<and>
     (\<forall>now. \<not> hasDueHeldWork now f \<and> dueRetryKeys now f = [] \<and> dueTrialKeys now f = [])"

lemma never_due:
  assumes "ef_activeScopes f = []" "held_view f = [(''a'', heldReasonScope, SKQuotaOwn)]"
  shows "stranded f"
proof -
  obtain key h where "ef_heldByKey f = [(key, h)]" "ha_Reason h = heldReasonScope"
    using assms(2) by (auto simp: held_view_def)
  then show ?thesis
    by (simp add: stranded_def assms hasDueHeldWork_def dueRetryKeys_def dueTrialKeys_def held_retry_due_def map_filter_def)
qed

text \<open>The next run finds the row, and plans the upload again.\<close>

definition restart :: "control_db \<Rightarrow> nat list \<times> bool \<times> flow_error option \<times> engine_flow" where
  "restart db =
     startRuntimeStage 5 (test_env 1000000)
       (Some \<lparr>rp_Plan = upload_plan, rp_RetryRows = projr (ListRetryWork db), rp_BlockScopes = projr (ListBlockScopes db)\<rparr>)
       None (new_flow db)"

lemma restart_stage:
  "(case after_quota of
      (e, out, f) \<Rightarrow> (case restart (ef_control f) of (out', _, e', f') \<Rightarrow> (e', out', ef_activeScopes f', held_view f'))) =
   (None, [], [], [(''a'', heldReasonScope, SKQuotaOwn)])"
  by code_simp

text \<open>
  C37: One quota failure strands an upload. The failure is recorded as blocked by the quota scope
  although the scope only becomes active after several failures, so that the row has no scope to
  wait for: the engine's own check of the store fails, the held action is never due, whatever the
  clock says, and a restart of the engine holds it again in the same way. The one failure is also
  counted as two attempts.
\<close>

theorem one_quota_failure_strands_upload:
  "\<exists>f f'. after_quota = (None, [], f) \<and> ListRetryWork (ef_control f) = Inr [stranded_row] \<and>
     assertPersistedInvariants (ef_control f) = Some (InvMissingScope ''a'' SKQuotaOwn) \<and>
     fst (restart (ef_control f)) = [] \<and> snd (snd (restart (ef_control f))) = (None, f') \<and>
     stranded f \<and> stranded f'"
proof -
  obtain f where f: "after_quota = (None, [], f)" using quota_stage by (auto split: prod.splits)
  obtain f' where f': "fst (restart (ef_control f)) = []" "snd (snd (restart (ef_control f))) = (None, f')"
      "ef_activeScopes f' = []" "held_view f' = [(''a'', heldReasonScope, SKQuotaOwn)]"
    using restart_stage by (auto simp: f split: prod.splits)
  have q: "ef_activeScopes f = []" "held_view f = [(''a'', heldReasonScope, SKQuotaOwn)]"
      "ListRetryWork (ef_control f) = Inr [stranded_row]" "ListBlockScopes (ef_control f) = Inr []"
    using quota_stage by (simp_all add: f)
  show ?thesis
    by (intro exI [of _ f] exI [of _ f'])
      (simp add: f f' q stranded_check [OF q(3,4)] never_due [OF q(1,2)] never_due [OF f'(3,4)])
qed

end
