(* ===== verification/QuickXorHash.thy ===== *)
theory QuickXorHash
  imports Main "HOL-Library.Word"
begin

text \<open>
  The content hash of OneDrive (\<^verbatim>\<open>pkg/quickxorhash\<close>): a 160-bit circular buffer kept in three
  64-bit cells, the last of which holds 32 bits. Each byte is XORed in 11 bits further than the
  one before; \<^verbatim>\<open>Write\<close> treats the bytes that fall on the same place together. The reference is one
  rotation of a 160-bit word for each byte, and the two agree however the input is cut.
\<close>

unbundle bit_operations_syntax

section \<open>The program\<close>

definition qx_Size :: nat where "qx_Size = 20"

definition qx_shift :: nat where "qx_shift = 11"

definition widthInBits :: nat where "widthInBits = 160"

definition bitsInLastCell :: nat where "bitsInLastCell = 32"

definition bitsPerByte :: nat where "bitsPerByte = 8"

definition bitsPerUint64 :: nat where "bitsPerUint64 = 64"

definition dataLen :: nat where "dataLen = 3"

lemmas qx_sizes = qx_Size_def qx_shift_def widthInBits_def bitsInLastCell_def bitsPerByte_def bitsPerUint64_def dataLen_def

record digest =
  qx_data :: "64 word list"
  qx_shiftSoFar :: nat
  qx_lengthSoFar :: "64 word"

definition qx_New :: digest where
  "qx_New = \<lparr>qx_data = replicate dataLen 0, qx_shiftSoFar = 0, qx_lengthSoFar = 0\<rparr>"

definition bitsInCell :: "nat \<Rightarrow> nat" where
  "bitsInCell index = (if index = dataLen - 1 then bitsInLastCell else bitsPerUint64)"

text \<open>The bytes of one place, XORed into a cell or into each other.\<close>

function cell_loop :: "8 word list \<Rightarrow> nat \<Rightarrow> nat \<Rightarrow> 64 word \<Rightarrow> 64 word" where
  "cell_loop p j off cell =
     (if j < length p then cell_loop p (j + widthInBits) off (cell XOR push_bit off (ucast (p ! j))) else cell)"
  by auto
termination
  by (relation "measure (\<lambda>(p, j, off, cell). length p - j)") (auto simp: widthInBits_def)

function byte_loop :: "8 word list \<Rightarrow> nat \<Rightarrow> 8 word \<Rightarrow> 8 word" where
  "byte_loop p j x = (if j < length p then byte_loop p (j + widthInBits) (x XOR p ! j) else x)"
  by auto
termination
  by (relation "measure (\<lambda>(p, j, x). length p - j)") (auto simp: widthInBits_def)

function next_cell :: "nat \<Rightarrow> nat \<Rightarrow> nat \<times> nat" where
  "next_cell index off =
     (if off \<ge> bitsInCell index
      then next_cell (if index = dataLen - 1 then 0 else index + 1) (off - bitsInCell index)
      else (index, off))"
  by auto
termination
  by (relation "measure snd") (auto simp: bitsInCell_def qx_sizes)

declare cell_loop.simps [simp del] byte_loop.simps [simp del] next_cell.simps [simp del]

definition absorb_place :: "8 word list \<Rightarrow> nat \<Rightarrow> nat \<Rightarrow> nat \<Rightarrow> 64 word list \<Rightarrow> 64 word list" where
  "absorb_place p i index off cells =
     (let cellBits = bitsInCell index
      in if off \<le> cellBits - bitsPerByte then cells[index := cell_loop p i off (cells ! index)]
         else
           (let nextIndex = (if index = dataLen - 1 then 0 else index + 1);
                low = cellBits - off;
                x = byte_loop p i 0;
                cells1 = cells[index := cells ! index XOR push_bit off (ucast x)]
            in cells1[nextIndex := cells1 ! nextIndex XOR drop_bit low (ucast x)]))"

fun write_loop :: "8 word list \<Rightarrow> nat list \<Rightarrow> nat \<Rightarrow> nat \<Rightarrow> 64 word list \<Rightarrow> 64 word list" where
  "write_loop p [] index off cells = cells"
| "write_loop p (i # is) index off cells =
     (case next_cell index (off + qx_shift) of
        (index', off') \<Rightarrow> write_loop p is index' off' (absorb_place p i index off cells))"

definition qx_Write :: "8 word list \<Rightarrow> digest \<Rightarrow> digest" where
  "qx_Write p d =
     (let s = qx_shiftSoFar d; iterations = min (length p) widthInBits
      in d\<lparr>qx_data := write_loop p [0..<iterations] (s div bitsPerUint64) (s mod bitsPerUint64) (qx_data d),
           qx_shiftSoFar := (s + qx_shift * (length p mod widthInBits)) mod widthInBits,
           qx_lengthSoFar := qx_lengthSoFar d + of_nat (length p)\<rparr>)"

text \<open>\<^verbatim>\<open>binary.LittleEndian\<close>: the low byte first.\<close>

definition little_endian :: "nat \<Rightarrow> 64 word \<Rightarrow> 8 word list" where
  "little_endian n w = map (\<lambda>k. ucast (drop_bit (bitsPerByte * k) w)) [0..<n]"

definition qx_Sum :: "8 word list \<Rightarrow> digest \<Rightarrow> 8 word list" where
  "qx_Sum b d =
     (let lastCell = ucast (qx_data d ! 2) :: 32 word;
          rgb = little_endian 8 (qx_data d ! 0) @ little_endian 8 (qx_data d ! 1) @ little_endian 4 (ucast lastCell);
          lengthBytes = little_endian 8 (qx_lengthSoFar d);
          lengthStart = qx_Size - length lengthBytes
      in b @ take lengthStart rgb @ map2 (XOR) (drop lengthStart rgb) lengthBytes)"

definition qx_Reset :: "digest \<Rightarrow> digest" where
  "qx_Reset d = qx_New"

section \<open>The reference\<close>

text \<open>One rotation for each byte, then the length in the upper 64 bits.\<close>

fun qx_rotations :: "nat \<Rightarrow> 8 word list \<Rightarrow> 160 word" where
  "qx_rotations n [] = 0"
| "qx_rotations n (x # xs) = word_rotl (11 * n) (ucast x) XOR qx_rotations (Suc n) xs"

definition quick_xor_hash :: "8 word list \<Rightarrow> 8 word list" where
  "quick_xor_hash h =
     (let w = qx_rotations 0 h XOR push_bit 96 (ucast (of_nat (length h) :: 64 word))
      in map (\<lambda>k. ucast (drop_bit (8 * k) w)) [0..<20])"

section \<open>Bits of the buffer\<close>

definition bit_at :: "64 word list \<Rightarrow> nat \<Rightarrow> bool" where
  "bit_at cells m \<longleftrightarrow> bit (cells ! (m div 64)) (m mod 64)"

text \<open>The bit of a byte placed at \<open>s\<close> that falls on \<open>m\<close>.\<close>

definition byte_index :: "nat \<Rightarrow> nat \<Rightarrow> nat" where
  "byte_index s m = (m + (160 - s mod 160)) mod 160"

lemma byte_bit: "bit (x :: 8 word) b \<Longrightarrow> b < 8"
  using bit_imp_le_length [of x b] by simp

lemma cell_loop_byte: "cell_loop p j off c = c XOR push_bit off (ucast (byte_loop p j 0))"
proof -
  have "cell_loop p j off (c XOR push_bit off (ucast x)) = c XOR push_bit off (ucast (byte_loop p j x))" for x
  proof (induction p j off "c XOR push_bit off (ucast x)" arbitrary: x rule: cell_loop.induct)
    case (1 p j off)
    have e: "(c XOR push_bit off (ucast x)) XOR push_bit off (ucast (p ! j)) = c XOR push_bit off (ucast (x XOR p ! j) :: 64 word)"
      by (rule bit_word_eqI) (auto simp: bit_simps)
    show ?case
    proof (cases "j < length p")
      case True
      then show ?thesis using 1 [OF True e] by (simp add: cell_loop.simps [of p j] byte_loop.simps [of p j] e)
    qed (simp add: cell_loop.simps [of p j] byte_loop.simps [of p j])
  qed
  from this [of 0] show ?thesis by simp
qed

text \<open>The input positions that share the place of \<open>j\<close>.\<close>

definition places :: "8 word list \<Rightarrow> nat \<Rightarrow> nat set" where
  "places p j = {i. j \<le> i \<and> i < length p \<and> i mod 160 = j mod 160}"

lemma places_step:
  assumes "j < length p"
  shows "places p j = insert j (places p (j + 160))" "j \<notin> places p (j + 160)" "finite (places p (j + 160))"
proof -
  have "j + 160 \<le> i" if "j \<le> i" "i mod 160 = j mod 160" "i \<noteq> j" for i
  proof -
    from that have "160 dvd i - j" by (metis mod_eq_dvd_iff_nat)
    with that show ?thesis using dvd_imp_le [of 160 "i - j"] by linarith
  qed
  then show "places p j = insert j (places p (j + 160))" "j \<notin> places p (j + 160)" "finite (places p (j + 160))"
    using assms by (auto simp: places_def)
qed

lemma byte_loop_bit:
  "bit (byte_loop p j x) b \<longleftrightarrow> (bit x b \<noteq> odd (\<Sum>i \<in> places p j. of_bool (bit (p ! i) b) :: nat))"
proof (induction p j x rule: byte_loop.induct)
  case (1 p j x)
  show ?case
  proof (cases "j < length p")
    case True
    then show ?thesis
      using 1 [OF True] places_step [OF True]
      by (auto simp: byte_loop.simps [of p j] widthInBits_def bit_xor_iff simp del: sum_of_bool_eq)
  next
    case False
    then have "places p j = {}" by (auto simp: places_def)
    then show ?thesis using False by (simp add: byte_loop.simps [of p j])
  qed
qed

lemma bitsInCell_cases: "bitsInCell 0 = 64" "bitsInCell (Suc 0) = 64" "bitsInCell 2 = 32"
  by (simp_all add: bitsInCell_def qx_sizes)

lemma bit_at_xor:
  "i < length cells \<Longrightarrow> bit_at (cells[i := cells ! i XOR w]) m \<longleftrightarrow> (bit_at cells m \<noteq> (m div 64 = i \<and> bit w (m mod 64)))"
  by (cases "m div 64 = i") (auto simp: bit_at_def bit_xor_iff)

lemma byte_in_cell:
  fixes x :: "8 word"
  shows "bit (push_bit off (ucast x) :: 64 word) k \<longleftrightarrow> k < 64 \<and> off \<le> k \<and> bit x (k - off)"
    "bit (drop_bit l (ucast x) :: 64 word) k \<longleftrightarrow> bit x (k + l)"
  using byte_bit [of x "k - off"] byte_bit [of x "k + l"] by (auto simp: bit_simps ac_simps)

text \<open>Where the bits of a byte fall that starts at \<open>off\<close> of a cell.\<close>

lemma byte_index_cells:
  assumes "index < 3" "off < bitsInCell index" "m < 160"
  defines "q \<equiv> byte_index (64 * index + off) m" and "k \<equiv> m mod 64" and "succ \<equiv> if index = 2 then 0 else index + 1"
  shows "m div 64 = index \<and> off \<le> k \<Longrightarrow> q = k - off"
    "m div 64 = index \<and> k < off \<Longrightarrow> q \<ge> 8"
    "m div 64 \<noteq> index \<Longrightarrow> off + 8 \<le> bitsInCell index \<Longrightarrow> q \<ge> 8"
    "m div 64 = succ \<Longrightarrow> q = k + (bitsInCell index - off)"
    "m div 64 \<noteq> index \<Longrightarrow> m div 64 \<noteq> succ \<Longrightarrow> q \<ge> 8"
proof -
  define c where "c = m div 64"
  have c: "m = 64 * c + k" "k < 64" "m div 64 = c" by (simp_all add: k_def c_def)
  have idx: "index = 0 \<and> off < 64 \<or> index = 1 \<and> off < 64 \<or> index = 2 \<and> off < 32"
    using assms(1,2) by (auto simp: bitsInCell_def qx_sizes split: if_splits)
  have s: "64 * index + off < 160" using idx by auto
  have q: "q = (if m \<ge> 64 * index + off then m - (64 * index + off) else m + 160 - (64 * index + off))"
    using s assms(3) by (auto simp: q_def byte_index_def mod_if)
  have cc: "c = 0 \<or> c = 1 \<or> c = 2 \<and> k < 32" using assms(3) c by linarith
  show "m div 64 = index \<and> off \<le> k \<Longrightarrow> q = k - off" using c q by auto
  show "m div 64 = index \<and> k < off \<Longrightarrow> q \<ge> 8" using c q idx by auto
  show "m div 64 \<noteq> index \<Longrightarrow> off + 8 \<le> bitsInCell index \<Longrightarrow> q \<ge> 8"
    using c q idx cc by (auto simp: bitsInCell_def qx_sizes split: if_splits)
  show "m div 64 = succ \<Longrightarrow> q = k + (bitsInCell index - off)"
    using c q idx cc by (auto simp: succ_def bitsInCell_def qx_sizes split: if_splits)
  show "m div 64 \<noteq> index \<Longrightarrow> m div 64 \<noteq> succ \<Longrightarrow> q \<ge> 8"
    using c q idx cc by (auto simp: succ_def split: if_splits)
qed

text \<open>One place: the buffer changes by the byte found there, whether it straddles two cells or not.\<close>

lemma absorb_place_bit:
  assumes "length cells = 3" "index < 3" "off < bitsInCell index" "m < 160"
  shows "bit_at (absorb_place p i index off cells) m \<longleftrightarrow>
    (bit_at cells m \<noteq> bit (byte_loop p i 0) (byte_index (64 * index + off) m))"
proof -
  let ?x = "byte_loop p i 0" and ?succ = "if index = 2 then 0 else index + 1"
  note q = byte_index_cells [OF assms(2-4)]
  have small: "\<not> bit ?x b" if "b \<ge> 8" for b using byte_bit [of ?x b] that by auto
  have k: "m mod 64 < 64" by simp
  show ?thesis
  proof (cases "off \<le> bitsInCell index - bitsPerByte")
    case True
    then have fit: "off + 8 \<le> bitsInCell index" by (auto simp: bitsInCell_def qx_sizes split: if_splits)
    have "bit_at (absorb_place p i index off cells) m \<longleftrightarrow>
        (bit_at cells m \<noteq> (m div 64 = index \<and> off \<le> m mod 64 \<and> bit ?x (m mod 64 - off)))"
      using True assms(1,2)
      by (simp add: absorb_place_def Let_def cell_loop_byte bit_at_xor byte_in_cell)
    then show ?thesis using q(1-3) fit small by (metis not_le)
  next
    case False
    have n: "index \<noteq> ?succ" "?succ < 3" using assms(2) by auto
    have "absorb_place p i index off cells =
        (let cells1 = cells[index := cells ! index XOR push_bit off (ucast ?x)]
         in cells1[?succ := cells1 ! ?succ XOR drop_bit (bitsInCell index - off) (ucast ?x)])"
      using False by (simp add: absorb_place_def Let_def dataLen_def)
    then have "bit_at (absorb_place p i index off cells) m \<longleftrightarrow>
        ((bit_at cells m \<noteq> (m div 64 = index \<and> off \<le> m mod 64 \<and> bit ?x (m mod 64 - off))) \<noteq>
         (m div 64 = ?succ \<and> bit ?x (m mod 64 + (bitsInCell index - off))))"
      using bit_at_xor [of index cells "push_bit off (ucast ?x)" m] assms(1,2) n(2)
        bit_at_xor [of ?succ "cells[index := cells ! index XOR push_bit off (ucast ?x)]" "drop_bit (bitsInCell index - off) (ucast ?x)" m]
      by (simp only: Let_def byte_in_cell length_list_update mod_less_divisor) simp
    then show ?thesis using q(1,2,4,5) small n(1) by (cases "m div 64 = index"; cases "m div 64 = ?succ"; cases "off \<le> m mod 64") simp_all
  qed
qed

lemma next_cell_place:
  assumes "s < 160"
  shows "next_cell (s div 64) (s mod 64 + qx_shift) = ((s + 11) mod 160 div 64, (s + 11) mod 160 mod 64)"
proof -
  have "list_all (\<lambda>s. next_cell (s div 64) (s mod 64 + qx_shift) = ((s + 11) mod 160 div 64, (s + 11) mod 160 mod 64)) [0..<160]"
    by code_simp
  then show ?thesis using assms by (simp add: list_all_iff)
qed

section \<open>One write\<close>

lemma length_absorb_place [simp]: "length (absorb_place p i index off cells) = length cells"
  by (simp add: absorb_place_def Let_def)

lemma length_write_loop [simp]: "length (write_loop p is index off cells) = length cells"
  by (induction "is" arbitrary: index off cells) (simp_all split: prod.split)

lemma place_in_cell: "s < 160 \<Longrightarrow> s div 64 < 3 \<and> s mod 64 < bitsInCell (s div 64)"
proof -
  assume "s < 160"
  moreover have "list_all (\<lambda>s. s div 64 < 3 \<and> s mod 64 < bitsInCell (s div 64)) [0..<160]" by code_simp
  ultimately show ?thesis by (simp add: list_all_iff)
qed

lemma byte_index_cong: "s mod 160 = t mod 160 \<Longrightarrow> byte_index s m = byte_index t m"
  by (simp add: byte_index_def)

lemma write_loop_bit:
  assumes "length cells = 3" "s < 160" "m < 160"
  shows "bit_at (write_loop p [a..<a + n] (s div 64) (s mod 64) cells) m \<longleftrightarrow>
    (bit_at cells m \<noteq> odd (\<Sum>i < n. of_bool (bit (byte_loop p (a + i) 0) (byte_index (s + 11 * i) m)) :: nat))"
  using assms(1,2)
proof (induction n arbitrary: a s cells)
  case (Suc n)
  let ?c = "absorb_place p a (s div 64) (s mod 64) cells" and ?s = "(s + 11) mod 160"
  have up: "[a..<a + Suc n] = a # [Suc a..<Suc a + n]" by (simp add: upt_conv_Cons)
  have ix: "byte_index (?s + 11 * i) m = byte_index (s + 11 * Suc i) m" for i
    by (rule byte_index_cong) (simp add: mod_simps algebra_simps)
  have "bit_at (write_loop p [a..<a + Suc n] (s div 64) (s mod 64) cells) m \<longleftrightarrow>
      (bit_at ?c m \<noteq> odd (\<Sum>i < n. of_bool (bit (byte_loop p (Suc a + i) 0) (byte_index (s + 11 * Suc i) m)) :: nat))"
    using Suc.IH [of ?c ?s "Suc a"] Suc.prems by (simp only: up write_loop.simps next_cell_place [OF Suc.prems(2)] prod.case ix) simp
  moreover have "bit_at ?c m \<longleftrightarrow> (bit_at cells m \<noteq> bit (byte_loop p a 0) (byte_index s m))"
    using absorb_place_bit [OF Suc.prems(1) _ _ assms(3)] place_in_cell [OF Suc.prems(2)] by simp
  ultimately show ?case by (simp only: sum.lessThan_Suc_shift) (auto simp del: sum_of_bool_eq)
qed simp

lemma odd_sum_odd: "finite A \<Longrightarrow> odd (\<Sum>i \<in> A. of_bool (odd (g i)) :: nat) \<longleftrightarrow> odd (\<Sum>i \<in> A. g i :: nat)"
  by (induction A rule: finite_induct) (simp_all del: sum_of_bool_eq)

text \<open>The bytes of one input, XORed in from place \<open>s\<close> on.\<close>

definition mixed :: "nat \<Rightarrow> 8 word list \<Rightarrow> nat \<Rightarrow> bool" where
  "mixed s p m \<longleftrightarrow> odd (\<Sum>j < length p. of_bool (bit (p ! j) (byte_index (s + 11 * j) m)) :: nat)"

lemma places_mixed:
  "odd (\<Sum>i < min (length p) 160. of_bool (bit (byte_loop p i 0) (byte_index (s + 11 * i) m)) :: nat) \<longleftrightarrow> mixed s p m"
proof -
  let ?g = "\<lambda>j. of_bool (bit (p ! j) (byte_index (s + 11 * j) m)) :: nat" and ?I = "{..<min (length p) 160}"
  have same: "byte_index (s + 11 * i) m = byte_index (s + 11 * j) m" if "j mod 160 = i" for i j
    using that by (intro byte_index_cong) (metis mod_add_right_eq mod_mult_right_eq)
  have inI: "(\<lambda>j. j mod 160) ` {..<length p} \<subseteq> ?I"
    using order_le_less_trans [OF mod_less_eq_dividend] by auto
  have pl: "places p i = {j \<in> {..<length p}. j mod 160 = i}" if "i \<in> ?I" for i
    using that by (auto simp: places_def)
  have "(\<Sum>j \<in> places p i. of_bool (bit (p ! j) (byte_index (s + 11 * i) m))) = (\<Sum>j \<in> {j \<in> {..<length p}. j mod 160 = i}. ?g j)"
    if "i \<in> ?I" for i
    unfolding pl [OF that] by (rule sum.cong) (use same in auto)
  then have "(\<Sum>i \<in> ?I. \<Sum>j \<in> places p i. of_bool (bit (p ! j) (byte_index (s + 11 * i) m))) = (\<Sum>j < length p. ?g j)"
    using sum.group [of "{..<length p}" ?I "\<lambda>j. j mod 160" ?g] inI by (simp del: sum_of_bool_eq)
  then show ?thesis
    unfolding mixed_def byte_loop_bit using odd_sum_odd [of ?I] by (simp del: sum_of_bool_eq)
qed

lemma rotations_bit: "m < 160 \<Longrightarrow> bit (qx_rotations n p) m \<longleftrightarrow> mixed (11 * n) p m"
proof (induction p arbitrary: n)
  case (Cons x p)
  have r: "bit (word_rotl (11 * n) (ucast x :: 160 word)) m \<longleftrightarrow> bit x (byte_index (11 * n) m)"
    using Cons.prems byte_bit [of x "byte_index (11 * n) m"] by (auto simp: bit_word_rotl_iff bit_ucast_iff byte_index_def)
  have i: "11 * Suc n + 11 * j = 11 * n + 11 * Suc j" for j by simp
  show ?case
    using Cons.IH [of "Suc n"] Cons.prems
    by (simp only: qx_rotations.simps bit_xor_iff r mixed_def i length_Cons sum.lessThan_Suc_shift) (auto simp del: sum_of_bool_eq)
qed (simp add: mixed_def)

lemma rotations_append: "qx_rotations n (h @ p) = qx_rotations n h XOR qx_rotations (n + length h) p"
  by (induction h arbitrary: n) (simp_all add: xor.assoc)

section \<open>The hash of a sequence of writes\<close>

text \<open>The state of the digest after the bytes of \<open>h\<close>.\<close>

definition hashed :: "digest \<Rightarrow> 8 word list \<Rightarrow> bool" where
  "hashed d h \<longleftrightarrow>
     length (qx_data d) = 3 \<and> qx_shiftSoFar d = 11 * length h mod 160 \<and> qx_lengthSoFar d = of_nat (length h) \<and>
     (\<forall>m < 160. bit_at (qx_data d) m \<longleftrightarrow> bit (qx_rotations 0 h) m)"

lemma hashed_New: "hashed qx_New []"
proof -
  have "bit_at (replicate dataLen 0) m \<longleftrightarrow> False" if "m < 160" for m
    using that place_in_cell [of m] by (simp add: bit_at_def dataLen_def)
  then show ?thesis by (simp add: hashed_def qx_New_def dataLen_def)
qed

lemma hashed_Write:
  assumes "hashed d h"
  shows "hashed (qx_Write p d) (h @ p)"
proof -
  let ?s = "11 * length h mod 160"
  have d: "length (qx_data d) = 3" "qx_shiftSoFar d = ?s" "qx_lengthSoFar d = of_nat (length h)"
    and old: "\<And>m. m < 160 \<Longrightarrow> bit_at (qx_data d) m \<longleftrightarrow> bit (qx_rotations 0 h) m"
    using assms by (simp_all add: hashed_def)
  have same: "byte_index (?s + t) m = byte_index (11 * length h + t) m" for t m
    by (rule byte_index_cong) (simp add: mod_simps)
  have "bit_at (qx_data (qx_Write p d)) m \<longleftrightarrow> bit (qx_rotations 0 (h @ p)) m" if m: "m < 160" for m
  proof -
    have "bit_at (qx_data (qx_Write p d)) m \<longleftrightarrow> (bit_at (qx_data d) m \<noteq> mixed ?s p m)"
      using write_loop_bit [OF d(1) _ m, of ?s p 0 "min (length p) 160"] places_mixed [of p ?s m]
      by (simp add: qx_Write_def Let_def d(2) bitsPerUint64_def widthInBits_def del: sum_of_bool_eq)
    also have "mixed ?s p m \<longleftrightarrow> bit (qx_rotations (length h) p) m"
      using rotations_bit [OF m, of "length h" p] by (simp add: mixed_def same)
    finally show ?thesis using old [OF m] by (simp add: rotations_append bit_xor_iff)
  qed
  moreover have "(?s + 11 * (length p mod 160)) mod 160 = 11 * length (h @ p) mod 160"
    by (metis add_mult_distrib2 length_append mod_add_eq mod_mod_trivial mod_mult_right_eq)
  ultimately show ?thesis using d by (simp add: hashed_def qx_Write_def Let_def qx_shift_def widthInBits_def)
qed

lemma hashed_writes: "hashed d h \<Longrightarrow> hashed (fold qx_Write ps d) (h @ concat ps)"
proof (induction ps arbitrary: d h)
  case (Cons p ps)
  from Cons.IH [OF hashed_Write [OF Cons.prems, of p]] show ?case by simp
qed simp

lemma little_endian_nth: "k < n \<Longrightarrow> bit (little_endian n w ! k) b \<longleftrightarrow> b < 8 \<and> bit w (8 * k + b)"
  by (auto simp: little_endian_def bitsPerByte_def bit_simps)

lemma length_little_endian [simp]: "length (little_endian n w) = n"
  by (simp add: little_endian_def)

text \<open>The twenty bytes of the buffer, before the length is mixed in.\<close>

definition buffer_bytes :: "64 word list \<Rightarrow> 8 word list" where
  "buffer_bytes cells =
     little_endian 8 (cells ! 0) @ little_endian 8 (cells ! 1) @ little_endian 4 (ucast (ucast (cells ! 2) :: 32 word))"

lemma div_mod_place: "(r :: nat) < 64 \<Longrightarrow> (c * 64 + r) div 64 = c \<and> (c * 64 + r) mod 64 = r"
  by simp

lemma buffer_bytes_bit:
  assumes "k < 20" "b < 8"
  shows "bit (buffer_bytes cells ! k) b \<longleftrightarrow> bit_at cells (8 * k + b)"
proof -
  consider "k < 8" | "8 \<le> k" "k < 16" | "16 \<le> k" by linarith
  then show ?thesis
  proof cases
    case 1
    then have "(8 * k + b) div 64 = 0" "(8 * k + b) mod 64 = 8 * k + b" using assms(2) by simp_all
    then show ?thesis using 1 assms(2) by (simp add: buffer_bytes_def nth_append little_endian_nth bit_at_def)
  next
    case 2
    then have "8 * k + b = 1 * 64 + (8 * (k - 8) + b)" "8 * (k - 8) + b < 64" using assms(2) by simp_all
    then have "(8 * k + b) div 64 = 1" "(8 * k + b) mod 64 = 8 * (k - 8) + b" by (metis div_mod_place)+
    moreover have "k - 8 < 8" using 2 by simp
    ultimately show ?thesis using 2 assms(2) by (simp add: buffer_bytes_def nth_append little_endian_nth bit_at_def)
  next
    case 3
    then have c: "8 * k + b = 2 * 64 + (8 * (k - 16) + b)" "8 * (k - 16) + b < 32" using assms by simp_all
    then have "(8 * k + b) div 64 = 2" "(8 * k + b) mod 64 = 8 * (k - 16) + b"
      using div_mod_place [of "8 * (k - 16) + b" 2] unfolding c(1) by simp_all
    moreover have "\<not> k - 8 < 8" using 3 by simp
    ultimately show ?thesis using 3 assms c(2) by (simp add: buffer_bytes_def nth_append little_endian_nth bit_at_def bit_ucast_iff)
  qed
qed

lemma Sum_bytes:
  "qx_Sum b d = b @ take 12 (buffer_bytes (qx_data d)) @ map2 (XOR) (drop 12 (buffer_bytes (qx_data d))) (little_endian 8 (qx_lengthSoFar d))"
  by (simp add: qx_Sum_def buffer_bytes_def Let_def qx_Size_def)

lemma hashed_Sum:
  assumes "hashed d h"
  shows "qx_Sum b d = b @ quick_xor_hash h"
proof -
  let ?w = "qx_rotations 0 h XOR push_bit 96 (ucast (of_nat (length h) :: 64 word)) :: 160 word"
  let ?rgb = "take 12 (buffer_bytes (qx_data d)) @ map2 (XOR) (drop 12 (buffer_bytes (qx_data d))) (little_endian 8 (qx_lengthSoFar d))"
  have len: "length (buffer_bytes (qx_data d)) = 20" by (simp add: buffer_bytes_def)
  have old: "bit (buffer_bytes (qx_data d) ! k) i \<longleftrightarrow> bit (qx_rotations 0 h) (8 * k + i)" if "k < 20" "i < 8" for k i
    using buffer_bytes_bit [OF that, of "qx_data d"] assms that by (simp add: hashed_def)
  have "?rgb ! k = ucast (drop_bit (8 * k) ?w)" if k: "k < 20" for k
  proof (rule bit_word_eqI)
    fix i assume "i < LENGTH(8)"
    then have i: "i < 8" by simp
    show "bit (?rgb ! k) i \<longleftrightarrow> bit (ucast (drop_bit (8 * k) ?w) :: 8 word) i"
    proof (cases "k < 12")
      case True
      then show ?thesis using old [OF k i] i len by (simp add: nth_append bit_simps)
    next
      case False
      then have e: "12 + (k - 12) = k" "8 * k + i - 96 = 8 * (k - 12) + i" "8 * k + i < 160" "96 \<le> 8 * k + i" using k i by simp_all
      have "bit (?rgb ! k) i \<longleftrightarrow> (bit (qx_rotations 0 h) (8 * k + i) \<noteq> bit (qx_lengthSoFar d) (8 * (k - 12) + i))"
        using False k len old [OF k i] i by (simp add: nth_append bit_xor_iff little_endian_nth e(1))
      then show ?thesis using assms i e by (simp add: hashed_def bit_simps)
    qed
  qed
  then have "?rgb = map (\<lambda>k. ucast (drop_bit (8 * k) ?w)) [0..<20]" using len by (intro nth_equalityI) simp_all
  then show ?thesis by (simp add: Sum_bytes quick_xor_hash_def Let_def)
qed

text \<open>
  C17: The hash does not depend on how a file is cut into writes, and it is the QuickXorHash of
  the file: whatever the sequence of writes, the digest is that of the reference, which rotates
  each byte into a 160-bit word and mixes the length into the upper 64 bits. Summing does not
  disturb the digest, so that it may be read between two writes.
\<close>

theorem quick_xor_hash_correct: "qx_Sum b (fold qx_Write ps qx_New) = b @ quick_xor_hash (concat ps)"
  using hashed_Sum [OF hashed_writes [OF hashed_New]] by simp

text \<open>The test vector of the repository for the text \<^verbatim>\<open>hello\<close>.\<close>

lemma hello_vector:
  "qx_Sum [] (qx_Write (map of_nat [104, 101, 108, 108, 111]) qx_New) =
     map of_nat [104, 40, 3, 27, 216, 240, 6, 0, 0, 0, 0, 0, 5, 0, 0, 0, 0, 0, 0, 0]"
  by code_simp

end
