(* ===== verification/ContentFilter.thy ===== *)
theory ContentFilter
  imports SyncTypes
begin

text \<open>
  Which paths are part of the sync (\<^verbatim>\<open>content_filter.go\<close>), which names OneDrive accepts
  (\<^verbatim>\<open>scanner.go\<close>) and how the filter of a drive is projected on a shortcut folder below it
  (\<^verbatim>\<open>shortcut_root_publication.go\<close>). A glob pattern is matched as \<^verbatim>\<open>path.Match\<close> of the Go library does
  it: chunk by chunk between the stars, with the first place that fits, on the bytes of the name
  except where a single character or a range is matched, which takes a whole UTF-8 sequence. A
  malformed pattern matches nothing.
\<close>

section \<open>Glob patterns\<close>

definition byte_of :: "char \<Rightarrow> nat" where
  "byte_of c = of_char c"

definition rune_error :: nat where
  "rune_error = 65533"

text \<open>\<^verbatim>\<open>utf8.DecodeRuneInString\<close>: the character a string starts with and the bytes it takes.\<close>

definition decode_rune :: "string \<Rightarrow> nat \<times> nat" where
  "decode_rune s =
     (let tail = (\<lambda>b. 128 \<le> b \<and> b \<le> 191)
      in case map byte_of (take 4 s) of
           [] \<Rightarrow> (rune_error, 0)
         | x # bs \<Rightarrow>
             if x < 128 then (x, 1)
             else
               (case bs of
                  [] \<Rightarrow> (rune_error, 1)
                | b # cs \<Rightarrow>
                    if 194 \<le> x \<and> x \<le> 223 \<and> tail b then ((x - 192) * 64 + (b - 128), 2)
                    else
                      (case cs of
                         [] \<Rightarrow> (rune_error, 1)
                       | c # ds \<Rightarrow>
                           if 224 \<le> x \<and> x \<le> 239 \<and> tail b \<and> (x = 224 \<longrightarrow> 160 \<le> b) \<and> (x = 237 \<longrightarrow> b \<le> 159) \<and> tail c
                           then ((x - 224) * 4096 + (b - 128) * 64 + (c - 128), 3)
                           else
                             (case ds of
                                [] \<Rightarrow> (rune_error, 1)
                              | d # _ \<Rightarrow>
                                  if 240 \<le> x \<and> x \<le> 244 \<and> tail b \<and> (x = 240 \<longrightarrow> 144 \<le> b) \<and> (x = 244 \<longrightarrow> b \<le> 143) \<and>
                                     tail c \<and> tail d
                                  then ((x - 240) * 262144 + (b - 128) * 4096 + (c - 128) * 64 + (d - 128), 4)
                                  else (rune_error, 1)))))"

definition getEsc :: "string \<Rightarrow> (nat \<times> string) option" where
  "getEsc chunk =
     (case chunk of
        [] \<Rightarrow> None
      | c # cs \<Rightarrow>
          if c = CHR ''-'' \<or> c = CHR '']'' then None
          else
            (let body = (if c = CHR 0x5C then cs else chunk); r = decode_rune body; rest = drop (snd r) body
             in if body = [] \<or> r = (rune_error, 1) \<or> rest = [] then None else Some (fst r, rest)))"

lemma decode_rune_width: "s \<noteq> [] \<Longrightarrow> snd (decode_rune s) > 0"
  by (cases s) (auto simp: decode_rune_def Let_def split: list.split)

lemma getEsc_shorter: "getEsc chunk = Some (r, rest) \<Longrightarrow> length rest < length chunk"
proof -
  assume "getEsc chunk = Some (r, rest)"
  moreover define body where "body = (if hd chunk = CHR 0x5C then tl chunk else chunk)"
  ultimately have "body \<noteq> []" "rest = drop (snd (decode_rune body)) body" "length body \<le> length chunk"
    by (auto simp: getEsc_def Let_def split: if_splits list.splits)
  then show ?thesis using decode_rune_width [of body] by (cases body) auto
qed

text \<open>The ranges of a character class, up to the bracket: whether one of them holds the character, and what follows.\<close>

function class_ranges :: "nat \<Rightarrow> bool \<Rightarrow> bool \<Rightarrow> string \<Rightarrow> (bool \<times> string) option" where
  "class_ranges r some hit chunk =
     (if some \<and> chunk \<noteq> [] \<and> hd chunk = CHR '']'' then Some (hit, tl chunk)
      else
        (case getEsc chunk of
           None \<Rightarrow> None
         | Some (lo, rest) \<Rightarrow>
             if hd rest = CHR ''-'' then
               (case getEsc (tl rest) of
                  None \<Rightarrow> None
                | Some (hi, rest') \<Rightarrow> class_ranges r True (hit \<or> lo \<le> r \<and> r \<le> hi) rest')
             else class_ranges r True (hit \<or> lo = r) rest))"
  by pat_completeness auto
termination
proof (relation "measure (\<lambda>(r, some, hit, chunk). length chunk)", goal_cases)
  case (2 r some hit chunk x lo rest x' hi rest')
  then show ?case using getEsc_shorter [of chunk lo rest] getEsc_shorter [of "tl rest" hi rest'] by simp
qed (auto dest: getEsc_shorter)

declare class_ranges.simps [simp del]

lemma class_ranges_shorter: "class_ranges r some hit chunk = Some (m, rest) \<Longrightarrow> length rest < length chunk"
proof (induction r some hit chunk rule: class_ranges.induct)
  case (1 r some hit chunk)
  show ?case
  proof (cases "some \<and> chunk \<noteq> [] \<and> hd chunk = CHR '']''")
    case True
    then show ?thesis using 1(3) by (subst (asm) class_ranges.simps) (cases chunk, auto)
  next
    case False
    then obtain lo b where b: "getEsc chunk = Some (lo, b)"
      using 1(3) by (auto simp: class_ranges.simps [of r some hit chunk] split: option.splits)
    show ?thesis
    proof (cases "hd b = CHR ''-''")
      case True
      then obtain hi b' where b': "getEsc (tl b) = Some (hi, b')" "class_ranges r True (hit \<or> lo \<le> r \<and> r \<le> hi) b' = Some (m, rest)"
        using 1(3) False b by (auto simp: class_ranges.simps [of r some hit chunk] split: option.splits)
      then show ?thesis
        using 1(1) [OF False b refl True b'(1) refl b'(2)] getEsc_shorter [OF b] getEsc_shorter [OF b'(1)] by simp
    next
      case no: False
      have "class_ranges r True (hit \<or> lo = r) b = Some (m, rest)"
        using 1(3) False b no by (auto simp: class_ranges.simps [of r some hit chunk])
      then show ?thesis using 1(2) [OF False b refl no] getEsc_shorter [OF b] by simp
    qed
  qed
qed

text \<open>What remains of the name after a chunk without stars.\<close>

function matchChunk :: "string \<Rightarrow> string \<Rightarrow> string option" where
  "matchChunk chunk s =
     (case chunk of
        [] \<Rightarrow> Some s
      | c # cs \<Rightarrow>
          if s = [] then None
          else if c = CHR ''['' then
            (let negated = (cs \<noteq> [] \<and> hd cs = CHR ''^''); r = decode_rune s
             in case class_ranges (fst r) False False (if negated then tl cs else cs) of
                  None \<Rightarrow> None
                | Some (hit, rest) \<Rightarrow> if hit = negated then None else matchChunk rest (drop (snd r) s))
          else if c = CHR ''?'' then
            (if hd s = CHR ''/'' then None else matchChunk cs (drop (snd (decode_rune s)) s))
          else
            (let body = (if c = CHR 0x5C then cs else chunk)
             in if body = [] \<or> hd body \<noteq> hd s then None else matchChunk (tl body) (tl s)))"
  by pat_completeness auto
termination
  by (relation "measure (\<lambda>(chunk, s). length chunk)") (auto split: if_splits dest!: class_ranges_shorter)

declare matchChunk.simps [simp del]

text \<open>The length of the first chunk: up to a star outside a class.\<close>

fun scan_len :: "bool \<Rightarrow> string \<Rightarrow> nat" where
  "scan_len inrange [] = 0"
| "scan_len inrange (c # cs) =
     (if c = CHR 0x5C then (case cs of [] \<Rightarrow> 1 | d # ds \<Rightarrow> 2 + scan_len inrange ds)
      else if c = CHR ''['' then Suc (scan_len True cs)
      else if c = CHR '']'' then Suc (scan_len False cs)
      else if c = CHR ''*'' \<and> \<not> inrange then 0
      else Suc (scan_len inrange cs))"

definition scanChunk :: "string \<Rightarrow> bool \<times> string \<times> string" where
  "scanChunk p =
     (let q = dropWhile (\<lambda>c. c = CHR ''*'') p; n = scan_len False q
      in (p \<noteq> [] \<and> hd p = CHR ''*'', take n q, drop n q))"

text \<open>The first place a chunk fits: here, or after a star further on in the same component.\<close>

fun try_chunk :: "bool \<Rightarrow> string \<Rightarrow> bool \<Rightarrow> string \<Rightarrow> string option" where
  "try_chunk star chunk final [] = matchChunk chunk []"
| "try_chunk star chunk final (c # cs) =
     (let skip = (if star \<and> c \<noteq> CHR ''/'' then try_chunk star chunk final cs else None)
      in case matchChunk chunk (c # cs) of
           Some t \<Rightarrow> if t = [] \<or> \<not> final then Some t else skip
         | None \<Rightarrow> skip)"

lemma scan_shorter: "p \<noteq> [] \<Longrightarrow> scanChunk p = (star, chunk, rest) \<Longrightarrow> length rest < length p"
proof (cases p)
  case (Cons c cs)
  assume "scanChunk p = (star, chunk, rest)"
  then have r: "rest = drop (scan_len False (dropWhile (\<lambda>c. c = CHR ''*'') p)) (dropWhile (\<lambda>c. c = CHR ''*'') p)"
    by (simp add: scanChunk_def Let_def)
  show ?thesis
  proof (cases "c = CHR ''*''")
    case True
    then show ?thesis using r Cons length_dropWhile_le [of "\<lambda>c. c = CHR ''*''" cs] by simp
  next
    case False
    then have "0 < scan_len False (c # cs)" by (simp split: list.split)
    then show ?thesis using r Cons False by simp
  qed
qed simp

function path_Match :: "string \<Rightarrow> string \<Rightarrow> bool" where
  "path_Match p name =
     (if p = [] then name = []
      else
        (case scanChunk p of
           (star, chunk, rest) \<Rightarrow>
             if star \<and> chunk = [] then CHR ''/'' \<notin> set name
             else (case try_chunk star chunk (rest = []) name of None \<Rightarrow> False | Some t \<Rightarrow> path_Match rest t)))"
  by pat_completeness auto
termination
  by (relation "measure (\<lambda>(p, name). length p)") (auto simp: scan_shorter [OF _ sym])

declare path_Match.simps [simp del]

section \<open>The filter\<close>

record ContentFilterConfig =
  cf_IgnoredDirs :: "string list"
  cf_IncludedDirs :: "string list"
  cf_IgnoredPaths :: "string list"
  cf_IgnoreDotfiles :: bool
  cf_IgnoreJunkFiles :: bool
  cf_FollowSymlinks :: bool

definition normalizeContentFilterPath :: "string \<Rightarrow> string" where
  "normalizeContentFilterPath p = (let n = trim_suffix (trim_prefix p ''/'') ''/'' in if n = '''' then ''.'' else n)"

definition isAncestorPath :: "string \<Rightarrow> string \<Rightarrow> bool" where
  "isAncestorPath parent child \<longleftrightarrow> child \<noteq> parent \<and> has_prefix child (parent @ ''/'')"

fun included_loop :: "string \<Rightarrow> bool \<Rightarrow> string list \<Rightarrow> bool" where
  "included_loop p isDir [] = False"
| "included_loop p isDir (d # ds) =
     (let inc = normalizeContentFilterPath d
      in if inc = '''' \<or> inc = ''.'' then included_loop p isDir ds
         else if p = inc then isDir
         else if has_prefix p (inc @ ''/'') then True
         else if isDir \<and> isAncestorPath p inc then True
         else included_loop p isDir ds)"

definition inIncludedScope :: "ContentFilterConfig \<Rightarrow> string \<Rightarrow> bool \<Rightarrow> bool" where
  "inIncludedScope f p isDir \<longleftrightarrow> cf_IncludedDirs f = [] \<or> included_loop p isDir (cf_IncludedDirs f)"

definition matchesExactSubtree :: "string \<Rightarrow> string list \<Rightarrow> bool" where
  "matchesExactSubtree p roots \<longleftrightarrow>
     list_ex (\<lambda>r. let n = normalizeContentFilterPath r
                   in n \<noteq> '''' \<and> n \<noteq> ''.'' \<and> (p = n \<or> has_prefix p (n @ ''/''))) roots"

definition IsOwnedTransferArtifactName :: "string \<Rightarrow> bool" where
  "IsOwnedTransferArtifactName name \<longleftrightarrow> has_prefix name ''.onedrive-go.'' \<and> has_suffix name ''.partial''"

definition hasDotfileComponent :: "string list \<Rightarrow> bool" where
  "hasDotfileComponent parts \<longleftrightarrow> list_ex (\<lambda>p. has_prefix p ''.'') parts"

definition AsciiLower :: "string \<Rightarrow> string" where
  "AsciiLower s = map ascii_lower_char s"

definition isBundledJunkName :: "string \<Rightarrow> bool" where
  "isBundledJunkName name \<longleftrightarrow>
     (let lower = AsciiLower name
      in lower = ''.ds_store'' \<or> lower = ''thumbs.db'' \<or> lower = ''__macosx'' \<or>
         has_suffix lower ''.partial'' \<or> has_suffix lower ''.tmp'' \<or> has_suffix lower ''.swp'' \<or>
         has_suffix lower ''.crdownload'' \<or>
         has_prefix name ''.~'' \<or> has_prefix name ''._'' \<or>
         (has_prefix name ''~'' \<and> \<not> has_prefix name ''~$''))"

definition hasJunkComponent :: "string list \<Rightarrow> bool" where
  "hasJunkComponent parts \<longleftrightarrow> list_ex isBundledJunkName parts"

text \<open>Everything before the last slash.\<close>

definition before_last_slash :: "string \<Rightarrow> string" where
  "before_last_slash s = rev (tl (dropWhile (\<lambda>c. c \<noteq> CHR ''/'') (rev s)))"

lemma before_last_slash_shorter: "s \<noteq> '''' \<Longrightarrow> length (before_last_slash s) < length s"
proof -
  assume "s \<noteq> ''''"
  moreover have "length (dropWhile (\<lambda>c. c \<noteq> CHR ''/'') (rev s)) \<le> length s" using length_dropWhile_le [of _ "rev s"] by simp
  ultimately show ?thesis by (simp add: before_last_slash_def) (cases s, simp_all add: order_le_less_trans)
qed

function pathOrAncestorMatchesSlashPattern :: "string \<Rightarrow> string \<Rightarrow> bool" where
  "pathOrAncestorMatchesSlashPattern current pattern =
     (if current = '''' then False
      else if path_Match pattern current then True
      else if CHR ''/'' \<notin> set current then False
      else pathOrAncestorMatchesSlashPattern (before_last_slash current) pattern)"
  by pat_completeness auto
termination
  by (relation "measure (\<lambda>(current, pattern). length current)") (simp_all add: before_last_slash_shorter)

declare pathOrAncestorMatchesSlashPattern.simps [simp del]

definition matchesIgnoredPathPattern :: "string \<Rightarrow> string list \<Rightarrow> string list \<Rightarrow> bool" where
  "matchesIgnoredPathPattern p parts patterns \<longleftrightarrow>
     list_ex (\<lambda>pattern. let n = normalizeContentFilterPath pattern
        in n \<noteq> '''' \<and> n \<noteq> ''.'' \<and>
           (if CHR ''/'' \<in> set n then pathOrAncestorMatchesSlashPattern p n else list_ex (path_Match n) parts)) patterns"

definition isIgnored :: "ContentFilterConfig \<Rightarrow> string \<Rightarrow> bool" where
  "isIgnored f p \<longleftrightarrow>
     (let parts = split_on (CHR ''/'') p
      in matchesExactSubtree p (cf_IgnoredDirs f) \<or> list_ex IsOwnedTransferArtifactName parts \<or>
         (cf_IgnoreDotfiles f \<and> hasDotfileComponent parts) \<or> (cf_IgnoreJunkFiles f \<and> hasJunkComponent parts) \<or>
         matchesIgnoredPathPattern p parts (cf_IgnoredPaths f))"

definition Visible :: "ContentFilterConfig \<Rightarrow> string \<Rightarrow> item_type \<Rightarrow> bool" where
  "Visible f p itemType \<longleftrightarrow>
     (let n = normalizeContentFilterPath p
      in n = '''' \<or> n = ''.'' \<or>
         (inIncludedScope f n (itemType = ItemTypeFolder \<or> itemType = ItemTypeRoot) \<and> \<not> isIgnored f n))"

datatype observed_kind = observedKindUnknown | observedKindFile | observedKindDir

definition ShouldObserveLocalPath :: "ContentFilterConfig \<Rightarrow> string \<Rightarrow> observed_kind \<Rightarrow> bool" where
  "ShouldObserveLocalPath f p kind =
     (case kind of
        observedKindFile \<Rightarrow> Visible f p ItemTypeFile
      | observedKindDir \<Rightarrow> Visible f p ItemTypeFolder
      | observedKindUnknown \<Rightarrow> Visible f p ItemTypeFile \<or> Visible f p ItemTypeFolder)"

section \<open>The filter of a shortcut folder\<close>

definition appendUniqueFilterPath :: "string list \<Rightarrow> string \<Rightarrow> string list" where
  "appendUniqueFilterPath ps p = (if p \<in> set ps then ps else ps @ [p])"

definition trimContentFilterPathBelowRoot :: "string \<Rightarrow> string \<Rightarrow> string option" where
  "trimContentFilterPathBelowRoot rootPath p =
     (let r = normalizeContentFilterPath rootPath; q = normalizeContentFilterPath p
      in if q = r then Some ''.''
         else if isAncestorPath r q then Some (trim_prefix q (r @ ''/''))
         else None)"

definition project_below :: "string \<Rightarrow> string \<Rightarrow> string list \<Rightarrow> string list" where
  "project_below aliasPath d acc =
     (case trimContentFilterPathBelowRoot aliasPath d of
        Some c \<Rightarrow> if c \<noteq> ''.'' then appendUniqueFilterPath acc c else acc
      | None \<Rightarrow> acc)"

definition projectChildIgnoredDirs :: "string list \<Rightarrow> string \<Rightarrow> string list" where
  "projectChildIgnoredDirs ds aliasPath =
     fold (\<lambda>d acc. let n = normalizeContentFilterPath d
                    in if n = '''' \<or> n = ''.'' then acc else project_below aliasPath n acc) ds []"

fun included_projection :: "string \<Rightarrow> string list \<Rightarrow> string list \<Rightarrow> string list" where
  "included_projection aliasPath [] acc = acc"
| "included_projection aliasPath (d # ds) acc =
     (let n = normalizeContentFilterPath d
      in if n = '''' \<or> n = ''.'' then included_projection aliasPath ds acc
         else if n = aliasPath \<or> isAncestorPath n aliasPath then []
         else included_projection aliasPath ds (project_below aliasPath n acc))"

definition projectChildIncludedDirs :: "string list \<Rightarrow> string \<Rightarrow> string list" where
  "projectChildIncludedDirs ds aliasPath = included_projection aliasPath ds []"

definition projectSlashGlobBelowAlias :: "string \<Rightarrow> string list \<Rightarrow> string option" where
  "projectSlashGlobBelowAlias pattern aliasParts =
     (let ps = split_on (CHR ''/'') pattern; n = length aliasParts
      in if length ps \<le> n then None
         else if list_all2 path_Match (take n ps) aliasParts then Some (join_with (CHR ''/'') (drop n ps))
         else None)"

definition projectChildIgnoredPaths :: "string list \<Rightarrow> string \<Rightarrow> string list" where
  "projectChildIgnoredPaths patterns aliasPath =
     fold (\<lambda>p acc. let n = normalizeContentFilterPath p
        in if n = '''' \<or> n = ''.'' then acc
           else if CHR ''/'' \<notin> set n then appendUniqueFilterPath acc n
           else
             (case trimContentFilterPathBelowRoot aliasPath n of
                Some c \<Rightarrow>
                  if c \<noteq> ''.'' then appendUniqueFilterPath acc c
                  else (case projectSlashGlobBelowAlias n (split_on (CHR ''/'') aliasPath) of
                          Some g \<Rightarrow> if g \<noteq> ''.'' then appendUniqueFilterPath acc g else acc | None \<Rightarrow> acc)
              | None \<Rightarrow>
                  (case projectSlashGlobBelowAlias n (split_on (CHR ''/'') aliasPath) of
                     Some g \<Rightarrow> if g \<noteq> ''.'' then appendUniqueFilterPath acc g else acc | None \<Rightarrow> acc))) patterns []"

text \<open>\<open>None\<close> when the alias itself is filtered out.\<close>

definition projectShortcutChildContentFilter :: "ContentFilterConfig \<Rightarrow> string \<Rightarrow> ContentFilterConfig option" where
  "projectShortcutChildContentFilter f aliasPath =
     (let a = normalizeContentFilterPath aliasPath
      in if a = '''' \<or> a = ''.'' then Some f
         else if \<not> Visible f a ItemTypeFolder then None
         else Some \<lparr>cf_IgnoredDirs = projectChildIgnoredDirs (cf_IgnoredDirs f) a,
                     cf_IncludedDirs = projectChildIncludedDirs (cf_IncludedDirs f) a,
                     cf_IgnoredPaths = projectChildIgnoredPaths (cf_IgnoredPaths f) a,
                     cf_IgnoreDotfiles = cf_IgnoreDotfiles f, cf_IgnoreJunkFiles = cf_IgnoreJunkFiles f,
                     cf_FollowSymlinks = cf_FollowSymlinks f\<rparr>)"

section \<open>Paths and their ancestors\<close>

abbreviation slash :: "string \<Rightarrow> string \<Rightarrow> string" where
  "slash d p \<equiv> d @ CHR ''/'' # p"

text \<open>A path as the walk and the configuration write it.\<close>

definition tidy :: "string \<Rightarrow> bool" where
  "tidy s \<longleftrightarrow> list_all (\<lambda>c. c \<noteq> '''' \<and> c \<noteq> ''.'') (split_on (CHR ''/'') s)"

lemma split_on_slash: "split_on c (d @ c # p) = split_on c d @ split_on c p"
  by (induction d) (auto split: list.split)

lemma tidy_slash [simp]: "tidy (slash d p) \<longleftrightarrow> tidy d \<and> tidy p"
  by (simp add: tidy_def split_on_slash)

lemma has_suffix_iff: "has_suffix s p \<longleftrightarrow> (\<exists>t. s = t @ p)"
  by (auto simp: has_suffix_def has_prefix_iff) (metis rev_append rev_rev_ident)

lemma normalize_tidy [simp]:
  assumes "tidy s"
  shows "normalizeContentFilterPath s = s"
proof -
  have "\<not> has_prefix s ''/''" "\<not> has_suffix s ''/''" "s \<noteq> ''''"
    using assms by (auto simp: tidy_def has_prefix_iff has_suffix_iff split_on_snoc)
  then show ?thesis by (simp add: normalizeContentFilterPath_def trim_prefix_def trim_suffix_def)
qed

lemma tidy_not_dot: "tidy s \<Longrightarrow> s \<noteq> '''' \<and> s \<noteq> ''.''"
  by (auto simp: tidy_def)

lemma below_iff: "below p d \<longleftrightarrow> (\<exists>x. p = slash d x)"
  by (auto simp: has_prefix_iff)

lemma ancestor_iff: "isAncestorPath d p \<longleftrightarrow> below p d"
  by (auto simp: isAncestorPath_def)

lemma slash_compare: "slash d p = slash i x \<Longrightarrow> d = i \<or> below d i \<or> below i d"
proof (induction d arbitrary: i)
  case Nil
  then show ?case by (cases i) (auto simp: has_prefix_iff)
next
  case (Cons c d)
  then show ?case by (cases i) (auto simp: has_prefix_iff)
qed

lemma before_last_slash_split:
  assumes "CHR ''/'' \<in> set s"
  obtains c where "s = slash (before_last_slash s) c" "CHR ''/'' \<notin> set c"
proof -
  let ?P = "\<lambda>c. c \<noteq> CHR ''/''"
  have ne: "dropWhile ?P (rev s) \<noteq> []" using assms by (simp add: dropWhile_eq_Nil_conv)
  then have "rev s = takeWhile ?P (rev s) @ CHR ''/'' # tl (dropWhile ?P (rev s))"
    using hd_dropWhile [of ?P "rev s"] takeWhile_dropWhile_id [of ?P "rev s"] by (metis list.collapse)
  then have "s = slash (before_last_slash s) (rev (takeWhile ?P (rev s)))"
    unfolding before_last_slash_def by (metis append.assoc append_Cons append_Nil rev.simps(2) rev_append rev_rev_ident)
  moreover have "CHR ''/'' \<notin> set (rev (takeWhile ?P (rev s)))" by (auto dest: set_takeWhileD)
  ultimately show ?thesis using that by blast
qed

lemma slash_last: "slash q x = slash b c \<Longrightarrow> CHR ''/'' \<notin> set c \<Longrightarrow> q = b \<or> below b q"
proof (induction q arbitrary: b)
  case Nil
  then show ?case by (cases b) (auto simp: has_prefix_iff)
next
  case (Cons z q)
  then show ?case by (cases b) (auto simp: has_prefix_iff)
qed

lemma ancestor_pattern_iff:
  "pathOrAncestorMatchesSlashPattern s pat \<longleftrightarrow> (\<exists>q. q \<noteq> '''' \<and> path_Match pat q \<and> (q = s \<or> below s q))"
proof (induction s pat rule: pathOrAncestorMatchesSlashPattern.induct)
  case (1 s pat)
  show ?case
  proof (cases "s = '''' \<or> path_Match pat s \<or> CHR ''/'' \<notin> set s")
    case True
    then show ?thesis by (subst pathOrAncestorMatchesSlashPattern.simps) (auto simp: below_iff)
  next
    case False
    then obtain c where c: "s = slash (before_last_slash s) c" "CHR ''/'' \<notin> set c" using before_last_slash_split [of s] by blast
    have up: "below s q \<longleftrightarrow> q = before_last_slash s \<or> below (before_last_slash s) q" for q
      using slash_last [of q _ "before_last_slash s" c] c below_trans [of s "before_last_slash s" q] by (auto simp: below_iff)
    show ?thesis using 1 False up by (subst pathOrAncestorMatchesSlashPattern.simps) auto
  qed
qed

section \<open>A hidden folder hides what is in it\<close>

definition included_dirs :: "string list \<Rightarrow> string set" where
  "included_dirs ds = {n. \<exists>d \<in> set ds. n = normalizeContentFilterPath d \<and> n \<noteq> '''' \<and> n \<noteq> ''.''}"

lemma included_dirs_Cons:
  "included_dirs (d # ds) =
     (if normalizeContentFilterPath d = '''' \<or> normalizeContentFilterPath d = ''.'' then included_dirs ds
      else insert (normalizeContentFilterPath d) (included_dirs ds))"
  by (auto simp: included_dirs_def)

lemma included_folder: "included_loop p True ds \<longleftrightarrow> (\<exists>i \<in> included_dirs ds. p = i \<or> below p i \<or> below i p)"
  by (induction ds) (auto simp: included_dirs_def included_dirs_Cons Let_def ancestor_iff)

lemma included_file: "included_loop p False ds \<Longrightarrow> \<exists>i \<in> included_dirs ds. below p i"
  by (induction ds) (auto simp: included_dirs_Cons Let_def split: if_splits)

lemma below_slash: "below (slash d p) i \<Longrightarrow> d = i \<or> below d i \<or> below i d"
  by (auto simp: below_iff dest: slash_compare)

lemma included_parent: "included_loop (slash d p) isDir ds \<Longrightarrow> included_loop d True ds"
proof (cases isDir)
  case True
  assume "included_loop (slash d p) isDir ds"
  then obtain i where i: "i \<in> included_dirs ds" "slash d p = i \<or> below (slash d p) i \<or> below i (slash d p)"
    using True by (auto simp: included_folder)
  have "below (slash d p) d" by (auto simp: below_iff)
  then show ?thesis unfolding included_folder using i below_slash [of d p i] below_trans [of i "slash d p" d] by auto
next
  case False
  assume "included_loop (slash d p) isDir ds"
  then have "included_loop (slash d p) False ds" using False by simp
  then show ?thesis unfolding included_folder using included_file [of "slash d p" ds] below_slash by meson
qed

lemma subtree_parent: "matchesExactSubtree d roots \<Longrightarrow> matchesExactSubtree (slash d p) roots"
  by (auto simp: matchesExactSubtree_def list_ex_iff Let_def below_iff)

lemma pattern_parent:
  "matchesIgnoredPathPattern d (split_on (CHR ''/'') d) pats \<Longrightarrow>
   matchesIgnoredPathPattern (slash d p) (split_on (CHR ''/'') (slash d p)) pats"
  by (fastforce simp: matchesIgnoredPathPattern_def list_ex_iff Let_def ancestor_pattern_iff split_on_slash below_iff split: if_splits)

lemma ignored_parent: "isIgnored f d \<Longrightarrow> isIgnored f (slash d p)"
  using subtree_parent [of d "cf_IgnoredDirs f" p] pattern_parent [of d "cf_IgnoredPaths f" p]
  by (auto simp: isIgnored_def Let_def split_on_slash hasDotfileComponent_def hasJunkComponent_def)

lemma visible_tidy:
  "tidy p \<Longrightarrow> Visible f p t \<longleftrightarrow> inIncludedScope f p (t = ItemTypeFolder \<or> t = ItemTypeRoot) \<and> \<not> isIgnored f p"
  using tidy_not_dot [of p] by (simp add: Visible_def)

text \<open>
  C18: A folder that is not visible hides everything in it: whatever the type of an item, if it is
  visible then so is every folder above it. The walk of the local tree may therefore leave out the
  subtree of a folder that is not to be observed.
\<close>

theorem hidden_folder_hides_subtree:
  assumes "tidy d" "tidy p" "\<not> ShouldObserveLocalPath f d observedKindDir"
  shows "\<not> Visible f (slash d p) t \<and> \<not> ShouldObserveLocalPath f (slash d p) kind"
proof -
  have hidden: "\<not> Visible f d ItemTypeFolder" using assms(3) by (simp add: ShouldObserveLocalPath_def)
  have "\<not> Visible f (slash d p) t" for t
    using hidden assms(1,2) included_parent [of d p _ "cf_IncludedDirs f"] ignored_parent [of f d p]
    by (auto simp: visible_tidy inIncludedScope_def)
  then show ?thesis by (simp add: ShouldObserveLocalPath_def split: observed_kind.split)
qed

section \<open>A projected filter sees what its parent sees\<close>

lemma project_below_set:
  assumes "tidy a" "tidy d"
  shows "set (project_below a d acc) = set acc \<union> {x. d = slash a x}"
proof (cases "below d a")
  case True
  then obtain x where x: "d = slash a x" by (auto simp: below_iff)
  then have "x \<noteq> ''.''" using assms(2) tidy_not_dot [of x] by simp
  then show ?thesis
    using assms x by (auto simp: project_below_def trimContentFilterPathBelowRoot_def Let_def isAncestorPath_def appendUniqueFilterPath_def
        trim_prefix_def has_prefix_iff)
next
  case False
  then show ?thesis
    using assms by (auto simp: project_below_def trimContentFilterPathBelowRoot_def Let_def ancestor_iff below_iff)
qed

lemma ignored_dirs_set:
  assumes "tidy a" "list_all tidy ds"
  shows "set (projectChildIgnoredDirs ds a) = {x. slash a x \<in> set ds}"
proof -
  have "set (fold (\<lambda>d acc. let n = normalizeContentFilterPath d
          in if n = '''' \<or> n = ''.'' then acc else project_below a n acc) ds acc) = set acc \<union> {x. slash a x \<in> set ds}" for acc
    using assms(2)
  proof (induction ds arbitrary: acc)
    case (Cons d ds)
    then show ?case using tidy_not_dot [of d] assms(1) by (auto simp: Let_def project_below_set)
  qed simp
  then show ?thesis by (simp add: projectChildIgnoredDirs_def)
qed

lemma included_projection_set:
  assumes "tidy a" "list_all tidy ds"
  shows "(\<exists>i \<in> set ds. i = a \<or> below a i) \<Longrightarrow> included_projection a ds acc = []"
    "\<not> (\<exists>i \<in> set ds. i = a \<or> below a i) \<Longrightarrow> set (included_projection a ds acc) = set acc \<union> {x. slash a x \<in> set ds}"
  using assms(2)
proof (induction ds arbitrary: acc)
  case (Cons d ds)
  {
    case 1
    then show ?case using Cons.IH(1) tidy_not_dot [of d] by (auto simp: Let_def ancestor_iff)
  next
    case 2
    then show ?case using Cons.IH(2) tidy_not_dot [of d] project_below_set [OF assms(1), of d] by (auto simp: Let_def ancestor_iff)
  }
qed simp_all

lemma normalize_plain: "CHR ''/'' \<notin> set n \<Longrightarrow> n \<noteq> '''' \<Longrightarrow> normalizeContentFilterPath n = n"
  by (auto simp: normalizeContentFilterPath_def trim_prefix_def trim_suffix_def has_prefix_iff has_suffix_iff)

definition plain_pattern :: "string \<Rightarrow> bool" where
  "plain_pattern p \<longleftrightarrow> CHR ''/'' \<notin> set (normalizeContentFilterPath p)"

lemma ignored_paths_set:
  assumes "list_all plain_pattern ps"
  shows "set (projectChildIgnoredPaths ps a) = included_dirs ps"
proof -
  have "set (fold (\<lambda>p acc. let n = normalizeContentFilterPath p
        in if n = '''' \<or> n = ''.'' then acc
           else if CHR ''/'' \<notin> set n then appendUniqueFilterPath acc n else F n acc) ps acc) = set acc \<union> included_dirs ps" for F acc
    using assms
  proof (induction ps arbitrary: acc)
    case (Cons p ps)
    then show ?case by (auto simp: Let_def plain_pattern_def included_dirs_Cons appendUniqueFilterPath_def)
  qed (simp add: included_dirs_def)
  from this [of _ "[]"] show ?thesis unfolding projectChildIgnoredPaths_def by simp
qed

lemma subtree_iff: "list_all tidy ds \<Longrightarrow> matchesExactSubtree q ds \<longleftrightarrow> (\<exists>r \<in> set ds. q = r \<or> below q r)"
  using tidy_not_dot by (auto simp: matchesExactSubtree_def list_ex_iff list_all_iff Let_def)

lemma below_same: "below (slash a p) (slash a x) \<longleftrightarrow> below p x"
  by (simp add: has_prefix_def)

lemma subtree_projected:
  assumes "tidy a" "list_all tidy ds" "\<not> matchesExactSubtree a ds"
  shows "matchesExactSubtree p (projectChildIgnoredDirs ds a) \<longleftrightarrow> matchesExactSubtree (slash a p) ds"
proof -
  have "list_all tidy (projectChildIgnoredDirs ds a)"
    using assms ignored_dirs_set [OF assms(1,2)] by (auto simp: list_all_iff)
  moreover have "(slash a p = r \<or> below (slash a p) r) \<longleftrightarrow> (\<exists>x. r = slash a x \<and> (p = x \<or> below p x))" if "r \<in> set ds" for r
    using that assms(3) below_slash [of a p r] by (auto simp: subtree_iff [OF assms(2)] below_iff)
  ultimately show ?thesis
    using ignored_dirs_set [OF assms(1,2)] by (auto simp: subtree_iff [OF assms(2)] subtree_iff)
qed

lemma pattern_iff:
  assumes "list_all plain_pattern ps"
  shows "matchesIgnoredPathPattern q parts ps \<longleftrightarrow> (\<exists>n \<in> included_dirs ps. list_ex (path_Match n) parts)"
  using assms by (fastforce simp: matchesIgnoredPathPattern_def list_ex_iff Let_def plain_pattern_def included_dirs_def list_all_iff)

lemma patterns_projected:
  assumes "list_all plain_pattern ps"
  shows "included_dirs (projectChildIgnoredPaths ps a) = included_dirs ps \<and> list_all plain_pattern (projectChildIgnoredPaths ps a)"
proof -
  have "normalizeContentFilterPath n = n \<and> CHR ''/'' \<notin> set n" if "n \<in> included_dirs ps" for n
    using that assms normalize_plain by (fastforce simp: included_dirs_def plain_pattern_def list_all_iff)
  then show ?thesis using ignored_paths_set [OF assms, of a] by (force simp: included_dirs_def plain_pattern_def list_all_iff)
qed

text \<open>No included folder lies in another one.\<close>

definition unnested :: "string list \<Rightarrow> bool" where
  "unnested ds \<longleftrightarrow> (\<forall>i \<in> set ds. \<forall>j \<in> set ds. \<not> below i j)"

lemma included_dirs_tidy: "list_all tidy ds \<Longrightarrow> included_dirs ds = set ds"
  using tidy_not_dot by (fastforce simp: included_dirs_def list_all_iff)

lemma included_iff:
  assumes "list_all tidy ds" "unnested ds"
  shows "included_loop q b ds \<longleftrightarrow> (\<exists>i \<in> set ds. (q = i \<and> b) \<or> below q i \<or> (b \<and> below i q))"
proof (cases b)
  case True
  then show ?thesis by (auto simp: included_folder included_dirs_tidy [OF assms(1)])
next
  case False
  have "included_loop q False ds \<longleftrightarrow> (\<exists>i \<in> set ds. below q i)" using assms
  proof (induction ds)
    case (Cons d ds)
    have "unnested ds" using Cons.prems(2) by (simp add: unnested_def)
    moreover have "\<not> (\<exists>i \<in> set (d # ds). below q i)" if "q = d" using that Cons.prems(2) by (auto simp: unnested_def)
    ultimately show ?case using Cons.IH Cons.prems(1) tidy_not_dot [of d] by (auto simp: Let_def)
  qed simp
  then show ?thesis using False by simp
qed

lemma scope_projected:
  assumes "tidy a" "list_all tidy ds" "unnested ds" "included_loop a True ds"
  shows "(projectChildIncludedDirs ds a = [] \<or> included_loop p b (projectChildIncludedDirs ds a)) \<longleftrightarrow> included_loop (slash a p) b ds"
proof (cases "\<exists>i \<in> set ds. i = a \<or> below a i")
  case True
  then have "\<exists>i \<in> set ds. below (slash a p) i" using below_trans [of "slash a p" a] by (auto simp: has_prefix_iff)
  then show ?thesis
    using included_projection_set(1) [OF assms(1,2) True] by (auto simp: projectChildIncludedDirs_def included_iff [OF assms(2,3)])
next
  case False
  let ?ds = "projectChildIncludedDirs ds a"
  have set: "set ?ds = {x. slash a x \<in> set ds}"
    using included_projection_set(2) [OF assms(1,2) False, of "[]"] by (simp add: projectChildIncludedDirs_def)
  obtain i where "i \<in> set ds" "below i a" using assms(4) False by (auto simp: included_iff [OF assms(2,3)])
  then have ne: "?ds \<noteq> []" using set by (auto simp: below_iff)
  have good: "list_all tidy ?ds" "unnested ?ds"
    using assms(2,3) set by (auto simp: list_all_iff unnested_def) (metis below_same)
  have "((slash a p = i \<and> b) \<or> below (slash a p) i \<or> (b \<and> below i (slash a p))) \<longleftrightarrow>
      (\<exists>x. i = slash a x \<and> ((p = x \<and> b) \<or> below p x \<or> (b \<and> below x p)))" if "i \<in> set ds" for i
  proof (cases "below i a")
    case True
    then obtain x where "i = slash a x" by (auto simp: below_iff)
    then show ?thesis using below_same [of a p x] below_same [of a x p] by auto
  next
    case no: False
    then have "\<not> below (slash a p) i" "slash a p \<noteq> i" "\<not> below i (slash a p)" "\<not> (\<exists>x. i = slash a x)"
      using that False below_slash [of a p i] below_trans [of i "slash a p" a] below_iff [of "slash a p" a] below_iff [of i a] by auto
    then show ?thesis by blast
  qed
  then show ?thesis using ne set by (auto simp: included_iff [OF assms(2,3)] included_iff [OF good])
qed



section \<open>Examples\<close>

definition work_filter :: ContentFilterConfig where
  "work_filter =
     \<lparr>cf_IgnoredDirs = [''work/tmp''], cf_IncludedDirs = [''work''], cf_IgnoredPaths = [''*.log''], cf_IgnoreDotfiles = True,
      cf_IgnoreJunkFiles = True, cf_FollowSymlinks = False\<rparr>"

theorem hidden_folder_hides_subtree_witness:
  "\<not> Visible work_filter (slash ''work/tmp'' ''a/b.txt'') ItemTypeFile"
proof -
  have "tidy ''work/tmp''" "tidy ''a/b.txt''" "\<not> ShouldObserveLocalPath work_filter ''work/tmp'' observedKindDir" by code_simp+
  then show ?thesis using hidden_folder_hides_subtree by blast
qed


section \<open>Names that OneDrive accepts\<close>

text \<open>
  \<^verbatim>\<open>strings.ToLower\<close> is taken on ASCII names. The result is the kind of issue, empty for a valid name; the
  text that explains it to the user is left out.
\<close>

definition maxComponentLength :: nat where
  "maxComponentLength = 255"

definition isReservedDeviceName :: "string \<Rightarrow> bool" where
  "isReservedDeviceName lower \<longleftrightarrow>
     lower \<in> {''con'', ''prn'', ''aux'', ''nul''} \<or>
     (length lower = 4 \<and> (has_prefix lower ''com'' \<or> has_prefix lower ''lpt'') \<and>
      48 \<le> byte_of (lower ! 3) \<and> byte_of (lower ! 3) \<le> 57)"

fun contains :: "string \<Rightarrow> string \<Rightarrow> bool" where
  "contains [] t \<longleftrightarrow> t = []"
| "contains (c # cs) t \<longleftrightarrow> has_prefix (c # cs) t \<or> contains cs t"

definition isReservedPattern :: "string \<Rightarrow> string \<Rightarrow> bool" where
  "isReservedPattern name lower \<longleftrightarrow>
     has_suffix lower ''.lock'' \<or> lower = ''desktop.ini'' \<or> has_prefix name ''~$'' \<or> contains lower ''_vti_''"

definition containsInvalidChars :: "string \<Rightarrow> bool" where
  "containsInvalidChars name \<longleftrightarrow>
     list_ex (\<lambda>c. c \<in> {CHR 0x22, CHR ''*'', CHR '':'', CHR ''<'', CHR ''>'', CHR ''?'', CHR ''/'', CHR 0x5C, CHR ''|''}) name"

definition ValidateOneDriveName :: "string \<Rightarrow> string" where
  "ValidateOneDriveName name =
     (if name = '''' \<or> last name = CHR ''.'' \<or> last name = CHR '' '' \<or> hd name = CHR '' '' \<or>
         length name > maxComponentLength \<or> isReservedDeviceName (to_lower name) \<or> isReservedPattern name (to_lower name) \<or>
         containsInvalidChars name
      then ''invalid_filename'' else '''')"

definition isSharePointRootForms :: "string \<Rightarrow> string \<Rightarrow> bool" where
  "isSharePointRootForms name p \<longleftrightarrow> p = name \<and> to_lower name = ''forms''"

definition validateObservedName :: "bool \<Rightarrow> string \<Rightarrow> string \<Rightarrow> string" where
  "validateObservedName rejectSharePointRootForms name p =
     (if ValidateOneDriveName name \<noteq> '''' then ValidateOneDriveName name
      else if rejectSharePointRootForms \<and> isSharePointRootForms name p then ''invalid_filename'' else '''')"

text \<open>An accepted name is one component of a path, and not a relative one.\<close>

lemma valid_name_component:
  assumes "validateObservedName forms name p = ''''"
  shows "tidy name \<and> name \<noteq> ''..'' \<and> split_on (CHR ''/'') name = [name]"
proof -
  have v: "name \<noteq> ''''" "last name \<noteq> CHR ''.''" "CHR ''/'' \<notin> set name"
    using assms by (auto simp: validateObservedName_def ValidateOneDriveName_def containsInvalidChars_def list_ex_iff split: if_splits)
  have "name \<noteq> ''.''" "name \<noteq> ''..''" using v(2) by auto
  then show ?thesis using v split_on_no_sep [OF v(3)] by (simp add: tidy_def)
qed

end
