(* ===== verification/SyncTree.thy ===== *)
theory SyncTree
  imports Prelude
begin

text \<open>
  The rooted file system capability under which all local work happens (\<^verbatim>\<open>internal/synctree\<close>). The
  operating system is a parameter, as it is in the code, where \<^verbatim>\<open>rootOps\<close> is a record of functions: here
  they act on a world of any type. A root handle is named by its directory. An error carries the
  sentinels \<^verbatim>\<open>errors.Is\<close> would find in it and its text. Permission bits and times of creation are left out
  of the arguments.
\<close>

section \<open>Errors and the operating system\<close>

datatype error_kind =
    KNotExist
  | KExist
  | KNotDir
  | KPermission
  | KUnsafePath
  | KUnsupportedTreeEntry
  | KPathEscapesSyncRoot
  | KActionPreconditionChanged

record os_error =
  oe_Kinds :: "error_kind list"
  oe_Text :: string

definition new_error :: "string \<Rightarrow> os_error" where
  "new_error t = \<lparr>oe_Kinds = [], oe_Text = t\<rparr>"

text \<open>\<^verbatim>\<open>fmt.Errorf("prefix%w", e)\<close> and \<^verbatim>\<open>errors.Join(a, b)\<close>.\<close>

definition wrap :: "string \<Rightarrow> os_error \<Rightarrow> os_error" where
  "wrap t e = e\<lparr>oe_Text := t @ oe_Text e\<rparr>"

definition join_errors :: "os_error \<Rightarrow> os_error \<Rightarrow> os_error" where
  "join_errors a b = \<lparr>oe_Kinds = oe_Kinds a @ oe_Kinds b, oe_Text = oe_Text a @ CHR 0x0A # oe_Text b\<rparr>"

definition is_err :: "os_error \<Rightarrow> error_kind \<Rightarrow> bool" where
  "is_err e k \<longleftrightarrow> k \<in> set (oe_Kinds e)"

definition ErrNotExist :: os_error where
  "ErrNotExist = \<lparr>oe_Kinds = [KNotExist], oe_Text = ''file does not exist''\<rparr>"

definition ErrUnsafePath :: os_error where
  "ErrUnsafePath = \<lparr>oe_Kinds = [KUnsafePath], oe_Text = ''sync tree path is unsafe''\<rparr>"

definition ErrUnsupportedTreeEntry :: os_error where
  "ErrUnsupportedTreeEntry = \<lparr>oe_Kinds = [KUnsupportedTreeEntry], oe_Text = ''sync tree entry is unsupported''\<rparr>"

text \<open>\<^verbatim>\<open>fmt.Errorf("%w: detail", e)\<close>.\<close>

definition with_detail :: "os_error \<Rightarrow> string \<Rightarrow> os_error" where
  "with_detail e t = e\<lparr>oe_Text := oe_Text e @ '': '' @ t\<rparr>"

text \<open>\<^verbatim>\<open>%q\<close> on a text without characters to escape.\<close>

definition go_quote :: "string \<Rightarrow> string" where
  "go_quote s = CHR 0x22 # s @ [CHR 0x22]"

record file_identity =
  fi_Device :: nat
  fi_Inode :: nat

datatype entry_kind = EntryDir | EntryRegular | EntrySymlink | EntrySpecial

text \<open>A \<^verbatim>\<open>FileInfo\<close>: its kind from the mode bits, the text of the mode, the size, the time of
  modification in nanoseconds, device and inode.\<close>

record tree_info =
  ti_Kind :: entry_kind
  ti_Mode :: string
  ti_Size :: int
  ti_ModTime :: int
  ti_Sys :: file_identity

text \<open>A \<^verbatim>\<open>DirEntry\<close>: its name and whether it is a directory.\<close>

type_synonym dir_entry = "string \<times> bool"

record 'w root_ops =
  ro_openRoot :: "string \<Rightarrow> 'w \<Rightarrow> os_error option"
  ro_Close :: "string \<Rightarrow> 'w \<Rightarrow> os_error option"
  ro_Stat :: "string \<Rightarrow> string \<Rightarrow> 'w \<Rightarrow> os_error + tree_info"
  ro_Lstat :: "string \<Rightarrow> string \<Rightarrow> 'w \<Rightarrow> os_error + tree_info"
  ro_ReadDir :: "string \<Rightarrow> string \<Rightarrow> 'w \<Rightarrow> os_error + dir_entry list"
  ro_ReadFile :: "string \<Rightarrow> string \<Rightarrow> 'w \<Rightarrow> os_error + string"
  ro_Mkdir :: "string \<Rightarrow> string \<Rightarrow> 'w \<Rightarrow> os_error option \<times> 'w"
  ro_mkdirAll :: "string \<Rightarrow> 'w \<Rightarrow> os_error option \<times> 'w"
  ro_remove :: "string \<Rightarrow> 'w \<Rightarrow> os_error option \<times> 'w"
  ro_rmdir :: "string \<Rightarrow> 'w \<Rightarrow> os_error option \<times> 'w"
  ro_removeAll :: "string \<Rightarrow> 'w \<Rightarrow> os_error option \<times> 'w"
  ro_rename :: "string \<Rightarrow> string \<Rightarrow> 'w \<Rightarrow> os_error option \<times> 'w"
  ro_chtimes :: "string \<Rightarrow> int \<Rightarrow> int \<Rightarrow> 'w \<Rightarrow> os_error option \<times> 'w"
  ro_lstat :: "string \<Rightarrow> 'w \<Rightarrow> os_error + tree_info"
  ro_glob :: "string \<Rightarrow> 'w \<Rightarrow> os_error + string list"
  ro_Getwd :: "'w \<Rightarrow> os_error + string"

record 'w sync_root =
  rt_dir :: string
  rt_ops :: "'w root_ops"

section \<open>Paths of the root\<close>

definition path_is_abs :: "string \<Rightarrow> bool" where
  "path_is_abs p \<longleftrightarrow> has_prefix p ''/''"

definition path_join :: "string \<Rightarrow> string \<Rightarrow> string" where
  "path_join a b =
     (if a = '''' then (if b = '''' then '''' else path_clean b)
      else if b = '''' then path_clean a else path_clean (a @ CHR ''/'' # b))"

definition filepath_Abs :: "'w root_ops \<Rightarrow> string \<Rightarrow> 'w \<Rightarrow> os_error + string" where
  "filepath_Abs ops p w =
     (if path_is_abs p then Inr (path_clean p)
      else case ro_Getwd ops w of Inl e \<Rightarrow> Inl e | Inr wd \<Rightarrow> Inr (path_join wd p))"

definition components :: "string \<Rightarrow> string list" where
  "components p = filter (\<lambda>c. c \<noteq> '''') (split_on (CHR ''/'') p)"

fun strip_common :: "string list \<Rightarrow> string list \<Rightarrow> string list \<times> string list" where
  "strip_common (a # as) (b # bs) = (if a = b then strip_common as bs else (a # as, b # bs))"
| "strip_common as bs = (as, bs)"

text \<open>\<^verbatim>\<open>filepath.Rel\<close> of two absolute paths, both cleaned.\<close>

definition filepath_Rel :: "string \<Rightarrow> string \<Rightarrow> string" where
  "filepath_Rel base targ =
     (case strip_common (components (path_clean base)) (components (path_clean targ)) of
        (up, down) \<Rightarrow>
          (let parts = map (\<lambda>_. ''..'') up @ down
           in if parts = [] then ''.'' else join_with (CHR ''/'') parts))"

definition tree_Open :: "'w root_ops \<Rightarrow> string \<Rightarrow> 'w \<Rightarrow> os_error + 'w sync_root" where
  "tree_Open ops dir w =
     (if dir = '''' then Inl (new_error ''sync root is empty'')
      else case filepath_Abs ops (path_clean dir) w of
             Inl e \<Rightarrow> Inl (wrap (''resolving sync root '' @ path_clean dir @ '': '') e)
           | Inr a \<Rightarrow> Inr \<lparr>rt_dir = a, rt_ops = ops\<rparr>)"

definition cleanRelative :: "string \<Rightarrow> os_error + string" where
  "cleanRelative p =
     (if p = '''' then Inr ''.''
      else if path_is_abs p then Inl (new_error (''relative path '' @ go_quote p @ '' must not be absolute''))
      else let clean = path_clean p
           in if clean = ''..'' \<or> has_prefix clean ''../''
              then Inl (new_error (''relative path '' @ go_quote p @ '' escapes root''))
              else Inr clean)"

definition relativeFromAbs :: "'w sync_root \<Rightarrow> string \<Rightarrow> 'w \<Rightarrow> os_error + string" where
  "relativeFromAbs r p w =
     (if p = '''' then Inl (new_error ''path is empty'')
      else let clean = path_clean p
           in if path_is_abs clean then cleanRelative (filepath_Rel (rt_dir r) clean)
              else case filepath_Abs (rt_ops r) clean w of
                     Inl e \<Rightarrow> Inl (wrap (''resolving path '' @ clean @ '': '') e)
                   | Inr a \<Rightarrow> cleanRelative (filepath_Rel (rt_dir r) a))"

text \<open>The path of a cleaned relative path.\<close>

definition target_of :: "string \<Rightarrow> string \<Rightarrow> string" where
  "target_of dir clean = (if clean = ''.'' then dir else path_join dir clean)"

definition tree_Abs :: "'w sync_root \<Rightarrow> string \<Rightarrow> os_error + string" where
  "tree_Abs r rel = map_sum id (target_of (rt_dir r)) (cleanRelative rel)"

definition tree_Rel :: "'w sync_root \<Rightarrow> string \<Rightarrow> 'w \<Rightarrow> os_error + string" where
  "tree_Rel r p w = relativeFromAbs r p w"

section \<open>Reading\<close>

definition normalizeNotExist :: "'w sync_root \<Rightarrow> string \<Rightarrow> os_error \<Rightarrow> 'w \<Rightarrow> os_error" where
  "normalizeNotExist r p original w =
     (case ro_lstat (rt_ops r) p w of
        Inl e \<Rightarrow> if is_err e KNotExist then ErrNotExist else original
      | Inr _ \<Rightarrow> original)"

text \<open>
  An answer from a root handle: the root is opened for it and closed after it. \<open>said\<close> wraps the error
  of the operation.
\<close>

definition with_root ::
  "'w sync_root \<Rightarrow> string \<Rightarrow> (string \<Rightarrow> os_error \<Rightarrow> os_error) \<Rightarrow> (string \<Rightarrow> 'w \<Rightarrow> os_error + 'a) \<Rightarrow> 'w \<Rightarrow> os_error + 'a" where
  "with_root r rel said act w =
     (case cleanRelative rel of
        Inl e \<Rightarrow> Inl e
      | Inr clean \<Rightarrow>
          (case ro_openRoot (rt_ops r) (rt_dir r) w of
             Some e \<Rightarrow> Inl (wrap (''opening sync root '' @ rt_dir r @ '': '') (normalizeNotExist r (rt_dir r) e w))
           | None \<Rightarrow>
               (case (act clean w, ro_Close (rt_ops r) (rt_dir r) w) of
                  (Inl e, Some c) \<Rightarrow> Inl (join_errors e c)
                | (Inl e, None) \<Rightarrow>
                    (let target = target_of (rt_dir r) clean in Inl (said target (normalizeNotExist r target e w)))
                | (Inr _, Some c) \<Rightarrow> Inl (wrap (''closing sync root '' @ rt_dir r @ '': '') c)
                | (Inr x, None) \<Rightarrow> Inr x)))"

definition statWithRoot ::
  "'w sync_root \<Rightarrow> string \<Rightarrow> (string \<Rightarrow> string) \<Rightarrow> (string \<Rightarrow> 'w \<Rightarrow> os_error + tree_info) \<Rightarrow> 'w \<Rightarrow> os_error + tree_info" where
  "statWithRoot r rel format stat = with_root r rel (\<lambda>target. wrap (format target @ '': '')) stat"

definition tree_Stat :: "'w sync_root \<Rightarrow> string \<Rightarrow> 'w \<Rightarrow> os_error + tree_info" where
  "tree_Stat r rel = statWithRoot r rel (\<lambda>t. ''stating '' @ t) (ro_Stat (rt_ops r) (rt_dir r))"

definition tree_Lstat :: "'w sync_root \<Rightarrow> string \<Rightarrow> 'w \<Rightarrow> os_error + tree_info" where
  "tree_Lstat r rel = statWithRoot r rel (\<lambda>t. ''stating '' @ t @ '' without following links'') (ro_Lstat (rt_ops r) (rt_dir r))"

definition at_abs :: "'w sync_root \<Rightarrow> string \<Rightarrow> (string \<Rightarrow> 'w \<Rightarrow> os_error + 'a) \<Rightarrow> 'w \<Rightarrow> os_error + 'a" where
  "at_abs r p act w = (case tree_Rel r p w of Inl e \<Rightarrow> Inl e | Inr rel \<Rightarrow> act rel w)"

definition StatAbs :: "'w sync_root \<Rightarrow> string \<Rightarrow> 'w \<Rightarrow> os_error + tree_info" where
  "StatAbs r p = at_abs r p (tree_Stat r)"

definition LstatAbs :: "'w sync_root \<Rightarrow> string \<Rightarrow> 'w \<Rightarrow> os_error + tree_info" where
  "LstatAbs r p = at_abs r p (tree_Lstat r)"

record path_state =
  ps_Exists :: bool
  ps_IsDir :: bool
  ps_IsSymlink :: bool

definition PathStateNoFollow :: "'w sync_root \<Rightarrow> string \<Rightarrow> 'w \<Rightarrow> os_error + path_state" where
  "PathStateNoFollow r rel w =
     (case tree_Lstat r rel w of
        Inl e \<Rightarrow> if is_err e KNotExist then Inr \<lparr>ps_Exists = False, ps_IsDir = False, ps_IsSymlink = False\<rparr> else Inl e
      | Inr i \<Rightarrow> Inr \<lparr>ps_Exists = True, ps_IsDir = (ti_Kind i = EntryDir), ps_IsSymlink = (ti_Kind i = EntrySymlink)\<rparr>)"

definition tree_ReadDir :: "'w sync_root \<Rightarrow> string \<Rightarrow> 'w \<Rightarrow> os_error + dir_entry list" where
  "tree_ReadDir r rel = with_root r rel (\<lambda>target. wrap (''reading directory '' @ target @ '': '')) (ro_ReadDir (rt_ops r) (rt_dir r))"

definition ReadDirAbs :: "'w sync_root \<Rightarrow> string \<Rightarrow> 'w \<Rightarrow> os_error + dir_entry list" where
  "ReadDirAbs r p = at_abs r p (tree_ReadDir r)"

text \<open>Opening a file and reading it to its end.\<close>

definition open_and_read :: "'w sync_root \<Rightarrow> string \<Rightarrow> 'w \<Rightarrow> os_error + string" where
  "open_and_read r rel =
     with_root r rel (\<lambda>_ e. e)
       (\<lambda>clean w. map_sum (wrap (''opening '' @ clean @ '': '')) id (ro_ReadFile (rt_ops r) (rt_dir r) clean w))"

definition IdentityFromFileInfo :: "tree_info \<Rightarrow> file_identity option" where
  "IdentityFromFileInfo i = (if fi_Device (ti_Sys i) = 0 \<and> fi_Inode (ti_Sys i) = 0 then None else Some (ti_Sys i))"

definition SameIdentity :: "file_identity \<Rightarrow> file_identity \<Rightarrow> bool" where
  "SameIdentity a b \<longleftrightarrow> fi_Device a = fi_Device b \<and> fi_Inode a = fi_Inode b"

definition IdentityNoFollow :: "'w sync_root \<Rightarrow> string \<Rightarrow> 'w \<Rightarrow> os_error + file_identity" where
  "IdentityNoFollow r rel w =
     (case tree_Lstat r rel w of
        Inl e \<Rightarrow> Inl (wrap (''stating identity '' @ rel @ '': '') e)
      | Inr i \<Rightarrow>
          (case IdentityFromFileInfo i of
             None \<Rightarrow> Inl (new_error (''file info for '' @ rel @ '' has no stable device/inode identity''))
           | Some d \<Rightarrow> Inr d))"

definition SameFile :: "'w sync_root \<Rightarrow> string \<Rightarrow> string \<Rightarrow> 'w \<Rightarrow> os_error + bool" where
  "SameFile r src dst w =
     (case tree_Stat r src w of
        Inl e \<Rightarrow> Inl (wrap (''stating '' @ src @ '': '') e)
      | Inr a \<Rightarrow>
          (case tree_Stat r dst w of
             Inl e \<Rightarrow> Inl (wrap (''stating '' @ dst @ '': '') e)
           | Inr b \<Rightarrow> Inr (SameIdentity (ti_Sys a) (ti_Sys b))))"

fun no_child_symlink :: "'w sync_root \<Rightarrow> string \<Rightarrow> dir_entry list \<Rightarrow> 'w \<Rightarrow> os_error option" where
  "no_child_symlink r rel [] w = None"
| "no_child_symlink r rel (e # es) w =
     (let child = path_join rel (fst e)
      in case tree_Lstat r child w of
           Inl err \<Rightarrow> Some err
         | Inr i \<Rightarrow>
             if ti_Kind i = EntrySymlink then Some (with_detail ErrUnsupportedTreeEntry (''symlink '' @ child))
             else no_child_symlink r rel es w)"

definition DirEmptyNoFollow :: "'w sync_root \<Rightarrow> string \<Rightarrow> 'w \<Rightarrow> os_error + bool" where
  "DirEmptyNoFollow r rel w =
     (case tree_Lstat r rel w of
        Inl e \<Rightarrow> Inl e
      | Inr i \<Rightarrow>
          if ti_Kind i \<noteq> EntryDir then Inl (with_detail ErrUnsafePath (rel @ '' is not a directory''))
          else case tree_ReadDir r rel w of
                 Inl e \<Rightarrow> Inl e
               | Inr [] \<Rightarrow> Inr True
               | Inr es \<Rightarrow> (case no_child_symlink r rel es w of Some e \<Rightarrow> Inl e | None \<Rightarrow> Inr False))"

section \<open>Whole trees\<close>

text \<open>
  The walks call themselves on the children of a folder; the fuel bounds the depth of the tree, and
  \<open>None\<close> says that it ran out.
\<close>

definition sorted_names :: "dir_entry list \<Rightarrow> string list" where
  "sorted_names es = sort (map fst es)"

fun validate_tree :: "'w sync_root \<Rightarrow> nat \<Rightarrow> string \<Rightarrow> 'w \<Rightarrow> os_error option option"
  and validate_children :: "'w sync_root \<Rightarrow> nat \<Rightarrow> string \<Rightarrow> string list \<Rightarrow> 'w \<Rightarrow> os_error option option" where
  "validate_tree r 0 rel w = None"
| "validate_tree r (Suc n) rel w =
     (case tree_Lstat r rel w of
        Inl e \<Rightarrow> Some (Some e)
      | Inr i \<Rightarrow>
          (case ti_Kind i of
             EntrySymlink \<Rightarrow> Some (Some (with_detail ErrUnsupportedTreeEntry (''symlink '' @ rel)))
           | EntryDir \<Rightarrow>
               (case tree_ReadDir r rel w of
                  Inl e \<Rightarrow> Some (Some e)
                | Inr es \<Rightarrow> validate_children r n rel (sorted_names es) w)
           | EntryRegular \<Rightarrow> Some None
           | EntrySpecial \<Rightarrow> Some (Some (with_detail ErrUnsupportedTreeEntry (rel @ '' has mode '' @ ti_Mode i)))))"
| "validate_children r n rel [] w = Some None"
| "validate_children r n rel (c # cs) w =
     (case validate_tree r n (path_join rel c) w of
        Some None \<Rightarrow> validate_children r n rel cs w
      | x \<Rightarrow> x)"

definition ValidateTreeNoFollow :: "'w sync_root \<Rightarrow> nat \<Rightarrow> string \<Rightarrow> 'w \<Rightarrow> os_error option option" where
  "ValidateTreeNoFollow r n rel w =
     (case cleanRelative rel of
        Inl e \<Rightarrow> Some (Some e)
      | Inr clean \<Rightarrow> map_option (map_option (wrap (''validating tree '' @ rel @ '': ''))) (validate_tree r n clean w))"

text \<open>An entry of a manifest: a folder, or a file with its size and content hash.\<close>

datatype rooted_tree_entry = rootedTreeEntryDir | rootedTreeEntryFile int string

definition hashRegularFile :: "'w sync_root \<Rightarrow> (string \<Rightarrow> string) \<Rightarrow> string \<Rightarrow> 'w \<Rightarrow> os_error + string" where
  "hashRegularFile r sha rel w = map_sum id sha (open_and_read r rel w)"

type_synonym tree_manifest = "(string \<times> rooted_tree_entry) list"

fun append_manifest ::
    "'w sync_root \<Rightarrow> (string \<Rightarrow> string) \<Rightarrow> nat \<Rightarrow> string \<Rightarrow> string \<Rightarrow> tree_manifest \<Rightarrow> 'w \<Rightarrow> (os_error + tree_manifest) option"
  and append_children ::
    "'w sync_root \<Rightarrow> (string \<Rightarrow> string) \<Rightarrow> nat \<Rightarrow> string \<Rightarrow> string \<Rightarrow> string list \<Rightarrow> tree_manifest \<Rightarrow> 'w \<Rightarrow> (os_error + tree_manifest) option"
  where
  "append_manifest r sha 0 base rel m w = None"
| "append_manifest r sha (Suc n) base rel m w =
     (case tree_ReadDir r (if rel = ''.'' then base else path_join base rel) w of
        Inl e \<Rightarrow> Some (Inl e)
      | Inr es \<Rightarrow> append_children r sha n base rel (sorted_names es) m w)"
| "append_children r sha n base rel [] m w = Some (Inr m)"
| "append_children r sha n base rel (c # cs) m w =
     (let child = path_join rel c; rooted = path_join base child
      in case tree_Lstat r rooted w of
           Inl e \<Rightarrow> Some (Inl e)
         | Inr i \<Rightarrow>
             (case ti_Kind i of
                EntrySymlink \<Rightarrow> Some (Inl (with_detail ErrUnsupportedTreeEntry (''symlink '' @ rooted)))
              | EntryDir \<Rightarrow>
                  (case append_manifest r sha n base child (m @ [(child, rootedTreeEntryDir)]) w of
                     Some (Inr m') \<Rightarrow> append_children r sha n base rel cs m' w
                   | x \<Rightarrow> x)
              | EntryRegular \<Rightarrow>
                  (case hashRegularFile r sha rooted w of
                     Inl e \<Rightarrow> Some (Inl e)
                   | Inr h \<Rightarrow> append_children r sha n base rel cs (m @ [(child, rootedTreeEntryFile (ti_Size i) h)]) w)
              | EntrySpecial \<Rightarrow> Some (Inl (with_detail ErrUnsupportedTreeEntry (rooted @ '' has mode '' @ ti_Mode i)))))"

definition rootedTreeManifestNoFollow ::
  "'w sync_root \<Rightarrow> (string \<Rightarrow> string) \<Rightarrow> nat \<Rightarrow> string \<Rightarrow> 'w \<Rightarrow> (os_error + tree_manifest) option" where
  "rootedTreeManifestNoFollow r sha n baseRel w =
     (case cleanRelative baseRel of
        Inl e \<Rightarrow> Some (Inl e)
      | Inr base \<Rightarrow>
          (case tree_Lstat r base w of
             Inl e \<Rightarrow> Some (Inl e)
           | Inr i \<Rightarrow>
               if ti_Kind i \<noteq> EntryDir
               then Some (Inl (with_detail ErrUnsafePath (''tree root '' @ baseRel @ '' is not a directory'')))
               else append_manifest r sha n base ''.'' [] w))"

definition TreesEqualNoFollow ::
  "'w sync_root \<Rightarrow> (string \<Rightarrow> string) \<Rightarrow> nat \<Rightarrow> string \<Rightarrow> string \<Rightarrow> 'w \<Rightarrow> (os_error + bool) option" where
  "TreesEqualNoFollow r sha n left right w =
     (case rootedTreeManifestNoFollow r sha n left w of
        None \<Rightarrow> None
      | Some (Inl e) \<Rightarrow> Some (Inl (wrap (''reading tree '' @ left @ '': '') e))
      | Some (Inr l) \<Rightarrow>
          (case rootedTreeManifestNoFollow r sha n right w of
             None \<Rightarrow> None
           | Some (Inl e) \<Rightarrow> Some (Inl (wrap (''reading tree '' @ right @ '': '') e))
           | Some (Inr g) \<Rightarrow>
               Some (Inr (length l = length g \<and> list_all (\<lambda>x. map_of g (fst x) = Some (snd x)) l))))"

section \<open>Changing the tree\<close>

text \<open>An operation on one path of the root; \<open>said\<close> is the start of its error.\<close>

definition at_path ::
  "'w sync_root \<Rightarrow> string \<Rightarrow> string \<Rightarrow> (string \<Rightarrow> 'w \<Rightarrow> os_error option \<times> 'w) \<Rightarrow> 'w \<Rightarrow> os_error option \<times> 'w" where
  "at_path r rel said act w =
     (case tree_Abs r rel of
        Inl e \<Rightarrow> (Some e, w)
      | Inr p \<Rightarrow>
          (case act p w of (Some e, w') \<Rightarrow> (Some (wrap (said @ p @ '': '') e), w') | (None, w') \<Rightarrow> (None, w')))"

definition tree_MkdirAll :: "'w sync_root \<Rightarrow> string \<Rightarrow> 'w \<Rightarrow> os_error option \<times> 'w" where
  "tree_MkdirAll r rel = at_path r rel ''creating directory '' (ro_mkdirAll (rt_ops r))"

definition tree_Remove :: "'w sync_root \<Rightarrow> string \<Rightarrow> 'w \<Rightarrow> os_error option \<times> 'w" where
  "tree_Remove r rel = at_path r rel ''removing '' (ro_remove (rt_ops r))"

definition tree_RemoveAll :: "'w sync_root \<Rightarrow> string \<Rightarrow> 'w \<Rightarrow> os_error option \<times> 'w" where
  "tree_RemoveAll r rel = at_path r rel ''removing tree '' (ro_removeAll (rt_ops r))"

definition tree_Chtimes :: "'w sync_root \<Rightarrow> string \<Rightarrow> int \<Rightarrow> int \<Rightarrow> 'w \<Rightarrow> os_error option \<times> 'w" where
  "tree_Chtimes r rel atime mtime = at_path r rel ''setting times on '' (\<lambda>p. ro_chtimes (rt_ops r) p atime mtime)"

definition RemoveAbs :: "'w sync_root \<Rightarrow> string \<Rightarrow> 'w \<Rightarrow> os_error option \<times> 'w" where
  "RemoveAbs r p w = (case tree_Rel r p w of Inl e \<Rightarrow> (Some e, w) | Inr rel \<Rightarrow> tree_Remove r rel w)"

fun remove_tree :: "'w sync_root \<Rightarrow> nat \<Rightarrow> string \<Rightarrow> 'w \<Rightarrow> (os_error option \<times> 'w) option"
  and remove_children :: "'w sync_root \<Rightarrow> nat \<Rightarrow> string \<Rightarrow> string list \<Rightarrow> 'w \<Rightarrow> (os_error option \<times> 'w) option" where
  "remove_tree r 0 rel w = None"
| "remove_tree r (Suc n) rel w =
     (case tree_Lstat r rel w of
        Inl e \<Rightarrow> Some (Some e, w)
      | Inr i \<Rightarrow>
          (case ti_Kind i of
             EntrySymlink \<Rightarrow> Some (Some (with_detail ErrUnsupportedTreeEntry (''symlink '' @ rel)), w)
           | EntryDir \<Rightarrow>
               (case tree_ReadDir r rel w of
                  Inl e \<Rightarrow> Some (Some e, w)
                | Inr es \<Rightarrow>
                    (case remove_children r n rel (sorted_names es) w of
                       Some (None, w') \<Rightarrow> Some (tree_Remove r rel w')
                     | x \<Rightarrow> x))
           | EntryRegular \<Rightarrow> Some (tree_Remove r rel w)
           | EntrySpecial \<Rightarrow> Some (Some (with_detail ErrUnsupportedTreeEntry (rel @ '' has mode '' @ ti_Mode i)), w)))"
| "remove_children r n rel [] w = Some (None, w)"
| "remove_children r n rel (c # cs) w =
     (case remove_tree r n (path_join rel c) w of
        Some (None, w') \<Rightarrow> remove_children r n rel cs w'
      | x \<Rightarrow> x)"

definition RemoveTreeNoFollow :: "'w sync_root \<Rightarrow> nat \<Rightarrow> string \<Rightarrow> 'w \<Rightarrow> (os_error option \<times> 'w) option" where
  "RemoveTreeNoFollow r n rel w =
     (case cleanRelative rel of
        Inl e \<Rightarrow> Some (Some e, w)
      | Inr clean \<Rightarrow>
          if clean = ''.'' then Some (Some (with_detail ErrUnsafePath ''refusing to remove sync root''), w)
          else map_option (map_prod (map_option (wrap (''removing rooted tree '' @ rel @ '': ''))) id) (remove_tree r n clean w))"

definition RemoveEmptyDirNoFollow :: "'w sync_root \<Rightarrow> string \<Rightarrow> 'w \<Rightarrow> os_error option \<times> 'w" where
  "RemoveEmptyDirNoFollow r rel w =
     (case DirEmptyNoFollow r rel w of
        Inl e \<Rightarrow> (Some e, w)
      | Inr False \<Rightarrow> (Some (new_error (''removing empty directory '' @ rel @ '': directory is not empty'')), w)
      | Inr True \<Rightarrow>
          (case tree_Abs r rel of
             Inl e \<Rightarrow> (Some e, w)
           | Inr p \<Rightarrow> map_prod (map_option (wrap (''removing empty directory '' @ rel @ '': ''))) id (ro_rmdir (rt_ops r) p w)))"

definition tree_Rename :: "'w sync_root \<Rightarrow> string \<Rightarrow> string \<Rightarrow> 'w \<Rightarrow> os_error option \<times> 'w" where
  "tree_Rename r src dst w =
     (case tree_Abs r src of
        Inl e \<Rightarrow> (Some e, w)
      | Inr s \<Rightarrow>
          (case tree_Abs r dst of
             Inl e \<Rightarrow> (Some e, w)
           | Inr d \<Rightarrow> map_prod (map_option (wrap (''renaming '' @ s @ '' to '' @ d @ '': ''))) id (ro_rename (rt_ops r) s d w)))"

definition validateRootDirectoryNoFollow :: "'w sync_root \<Rightarrow> 'w \<Rightarrow> os_error option" where
  "validateRootDirectoryNoFollow r w =
     (case ro_lstat (rt_ops r) (rt_dir r) w of
        Inl e \<Rightarrow> Some (wrap (''checking sync root '' @ rt_dir r @ '': '') (normalizeNotExist r (rt_dir r) e w))
      | Inr i \<Rightarrow>
          if ti_Kind i \<noteq> EntryDir then Some (with_detail ErrUnsafePath (''root '' @ rt_dir r @ '' is not a directory'')) else None)"

definition openRootNoFollow :: "'w sync_root \<Rightarrow> 'w \<Rightarrow> os_error option" where
  "openRootNoFollow r w =
     (case validateRootDirectoryNoFollow r w of
        Some e \<Rightarrow> Some e
      | None \<Rightarrow>
          map_option (\<lambda>e. wrap (''opening sync root '' @ rt_dir r @ '': '') (normalizeNotExist r (rt_dir r) e w))
            (ro_openRoot (rt_ops r) (rt_dir r) w))"

text \<open>The loops over the components of a cleaned path, with the path walked so far.\<close>

fun check_ancestors :: "'w sync_root \<Rightarrow> string \<Rightarrow> string list \<Rightarrow> 'w \<Rightarrow> os_error option" where
  "check_ancestors r cur [] w = None"
| "check_ancestors r cur (c # cs) w =
     (if c = '''' \<or> c = ''.'' then check_ancestors r cur cs w
      else let cur' = path_join cur c
           in case ro_Lstat (rt_ops r) (rt_dir r) cur' w of
                Inl e \<Rightarrow>
                  if is_err e KNotExist then None else Some (wrap (''checking sync-tree ancestor '' @ cur' @ '': '') e)
              | Inr i \<Rightarrow>
                  if ti_Kind i \<noteq> EntryDir
                  then Some (with_detail ErrUnsafePath (''ancestor '' @ cur' @ '' is not a directory''))
                  else check_ancestors r cur' cs w)"

definition ValidateNoSymlinkAncestors :: "'w sync_root \<Rightarrow> string \<Rightarrow> 'w \<Rightarrow> os_error option" where
  "ValidateNoSymlinkAncestors r rel w =
     (case cleanRelative rel of
        Inl e \<Rightarrow> Some e
      | Inr clean \<Rightarrow>
          if clean = ''.'' then None
          else if path_dir clean = ''.'' then validateRootDirectoryNoFollow r w
          else case openRootNoFollow r w of
                 Some e \<Rightarrow> Some e
               | None \<Rightarrow> check_ancestors r '''' (split_on (CHR ''/'') (path_dir clean)) w)"

definition ensureNoFollowDirectory :: "'w sync_root \<Rightarrow> string \<Rightarrow> 'w \<Rightarrow> os_error option \<times> 'w" where
  "ensureNoFollowDirectory r rel w =
     (let ops = rt_ops r; dir = rt_dir r; unsafe = with_detail ErrUnsafePath (''path '' @ rel @ '' is not a directory'')
      in case ro_Lstat ops dir rel w of
           Inr i \<Rightarrow> (if ti_Kind i \<noteq> EntryDir then Some unsafe else None, w)
         | Inl e \<Rightarrow>
             if \<not> is_err e KNotExist then (Some (wrap (''checking directory '' @ rel @ '': '') e), w)
             else case ro_Mkdir ops dir rel w of
                    (None, w') \<Rightarrow> (None, w')
                  | (Some m, w') \<Rightarrow>
                      if is_err m KExist
                      then (case ro_Lstat ops dir rel w' of
                              Inl e' \<Rightarrow> (Some (wrap (''checking directory '' @ rel @ '' after create race: '') e'), w')
                            | Inr i \<Rightarrow> (if ti_Kind i \<noteq> EntryDir then Some unsafe else None, w'))
                      else (Some (wrap (''creating directory '' @ rel @ '': '') m), w'))"

fun make_components :: "'w sync_root \<Rightarrow> string \<Rightarrow> string list \<Rightarrow> 'w \<Rightarrow> os_error option \<times> 'w" where
  "make_components r cur [] w = (None, w)"
| "make_components r cur (c # cs) w =
     (if c = '''' \<or> c = ''.'' then make_components r cur cs w
      else let cur' = path_join cur c
           in case ensureNoFollowDirectory r cur' w of
                (Some e, w') \<Rightarrow> (Some e, w')
              | (None, w') \<Rightarrow> make_components r cur' cs w')"

definition MkdirAllNoFollow :: "'w sync_root \<Rightarrow> string \<Rightarrow> 'w \<Rightarrow> os_error option \<times> 'w" where
  "MkdirAllNoFollow r rel w =
     (case cleanRelative rel of
        Inl e \<Rightarrow> (Some e, w)
      | Inr clean \<Rightarrow>
          (case openRootNoFollow r w of
             Some e \<Rightarrow> (Some e, w)
           | None \<Rightarrow> if clean = ''.'' then (None, w) else make_components r '''' (split_on (CHR ''/'') clean) w))"

text \<open>\<^verbatim>\<open>%d\<close> of a natural number.\<close>

fun decimal :: "nat \<Rightarrow> string" where
  "decimal n = (if n < 10 then [char_of (48 + n)] else decimal (n div 10) @ [char_of (48 + n mod 10)])"

declare decimal.simps [simp del]

text \<open>The search for a free name next to the target; \<open>Inr None\<close> when all are taken.\<close>

definition temp_name :: "string \<Rightarrow> nat \<Rightarrow> string" where
  "temp_name stem i = (if i = 0 then stem else stem @ ''-'' @ decimal i)"

fun find_temp :: "'w sync_root \<Rightarrow> string \<Rightarrow> string \<Rightarrow> nat list \<Rightarrow> 'w \<Rightarrow> os_error + string option" where
  "find_temp r parent stem [] w = Inr None"
| "find_temp r parent stem (i # is) w =
     (let candidate = path_join parent (temp_name stem i)
      in case tree_Lstat r candidate w of
           Inr _ \<Rightarrow> find_temp r parent stem is w
         | Inl e \<Rightarrow>
             if is_err e KNotExist then Inr (Some candidate)
             else Inl (wrap (''checking temporary rename path '' @ candidate @ '': '') e))"

definition RenameWithTemporarySibling ::
  "'w sync_root \<Rightarrow> string \<Rightarrow> string \<Rightarrow> string \<Rightarrow> int \<Rightarrow> 'w \<Rightarrow> os_error option \<times> 'w" where
  "RenameWithTemporarySibling r src dst stem attempts w =
     (if stem = '''' then (Some (new_error ''temporary rename stem is empty''), w)
      else case cleanRelative dst of
             Inl e \<Rightarrow> (Some e, w)
           | Inr dstClean \<Rightarrow>
               (let parent = path_dir dstClean; n = (if attempts \<le> 0 then 1 else nat attempts)
                in case find_temp r parent stem [0..<n] w of
                     Inl e \<Rightarrow> (Some e, w)
                   | Inr None \<Rightarrow> (Some (new_error (''temporary rename path already exists under '' @ parent)), w)
                   | Inr (Some temp) \<Rightarrow>
                       (case tree_Rename r src temp w of
                          (Some e, w1) \<Rightarrow> (Some e, w1)
                        | (None, w1) \<Rightarrow>
                            (case tree_Rename r temp dst w1 of
                               (None, w2) \<Rightarrow> (None, w2)
                             | (Some e, w2) \<Rightarrow>
                                 (case tree_Rename r temp src w2 of
                                    (None, w3) \<Rightarrow> (Some e, w3)
                                  | (Some b, w3) \<Rightarrow>
                                      (Some (join_errors e (wrap ''rolling back temporary rename: '' b)), w3))))))"

fun relative_matches :: "'w sync_root \<Rightarrow> string list \<Rightarrow> 'w \<Rightarrow> os_error + string list" where
  "relative_matches r [] w = Inr []"
| "relative_matches r (m # ms) w =
     (case tree_Rel r m w of
        Inl e \<Rightarrow> Inl e
      | Inr rel \<Rightarrow> map_sum id (Cons rel) (relative_matches r ms w))"

definition tree_Glob :: "'w sync_root \<Rightarrow> string \<Rightarrow> 'w \<Rightarrow> os_error + string list" where
  "tree_Glob r pattern w =
     (if pattern = '''' then Inl (new_error ''glob pattern is empty'')
      else case tree_Abs r (path_dir pattern) of
             Inl e \<Rightarrow> Inl e
           | Inr dirPath \<Rightarrow>
               (let full = path_join dirPath (path_base pattern)
                in case ro_glob (rt_ops r) full w of
                     Inl e \<Rightarrow> Inl (wrap (''globbing '' @ full @ '': '') e)
                   | Inr ms \<Rightarrow> relative_matches r ms w))"

end
