(* ===== verification/ShortcutRoots.thy ===== *)
theory ShortcutRoots
  imports SyncTypes SyncTree "HOL-Library.AList" "HOL-Library.Multiset" "HOL-Library.Product_Lexorder"
begin

text \<open>
  Shortcut roots: the folders of other drives that a drive shows under an alias. The parent engine
  keeps one record for each shortcut it has seen and moves it through a lifecycle
  (\<^verbatim>\<open>shortcut_root_state.go\<close>, \<^verbatim>\<open>shortcut_root_transition.go\<close>, \<^verbatim>\<open>shortcut_root_status.go\<close>); the planners
  turn remote facts, acknowledgements and cleanup results into the next records
  (\<^verbatim>\<open>shortcut_root_planner_topology.go\<close>, \<^verbatim>\<open>shortcut_root_planner_ack.go\<close>,
  \<^verbatim>\<open>shortcut_root_planner_cleanup.go\<close>), and the store replaces its table by them
  (\<^verbatim>\<open>shortcut_root_store.go\<close>). The columns of the table are the fields of a record.
\<close>

section \<open>States and events\<close>

datatype shortcut_root_state =
    ShortcutRootStateUnset
  | ShortcutRootStateActive
  | ShortcutRootStateTargetUnavailable
  | ShortcutRootStateLocalRootUnavailable
  | ShortcutRootStateBlockedPath
  | ShortcutRootStateRenameAmbiguous
  | ShortcutRootStateAliasMutationBlocked
  | ShortcutRootStateRemovedFinalDrain
  | ShortcutRootStateRemovedReleasePending
  | ShortcutRootStateRemovedCleanupBlocked
  | ShortcutRootStateRemovedChildCleanupPending
  | ShortcutRootStateSamePathReplacementWaiting
  | ShortcutRootStateDuplicateTarget
  | ShortcutRootStateOther string

fun root_state_String :: "shortcut_root_state \<Rightarrow> string" where
  "root_state_String ShortcutRootStateUnset = ''''"
| "root_state_String ShortcutRootStateActive = ''active''"
| "root_state_String ShortcutRootStateTargetUnavailable = ''target_unavailable''"
| "root_state_String ShortcutRootStateLocalRootUnavailable = ''local_root_unavailable''"
| "root_state_String ShortcutRootStateBlockedPath = ''blocked_path''"
| "root_state_String ShortcutRootStateRenameAmbiguous = ''rename_ambiguous''"
| "root_state_String ShortcutRootStateAliasMutationBlocked = ''alias_mutation_blocked''"
| "root_state_String ShortcutRootStateRemovedFinalDrain = ''removed_final_drain''"
| "root_state_String ShortcutRootStateRemovedReleasePending = ''removed_release_pending''"
| "root_state_String ShortcutRootStateRemovedCleanupBlocked = ''removed_cleanup_blocked''"
| "root_state_String ShortcutRootStateRemovedChildCleanupPending = ''removed_child_cleanup_pending''"
| "root_state_String ShortcutRootStateSamePathReplacementWaiting = ''same_path_replacement_waiting''"
| "root_state_String ShortcutRootStateDuplicateTarget = ''duplicate_target''"
| "root_state_String (ShortcutRootStateOther s) = s"

datatype shortcut_root_event =
    shortcutRootEventRemoteUpsert
  | shortcutRootEventRemoteDelete
  | shortcutRootEventRemoteUnavailable
  | shortcutRootEventCompleteOmission
  | shortcutRootEventSamePathReplacement
  | shortcutRootEventProtectedPathConflict
  | shortcutRootEventLocalRootReady
  | shortcutRootEventLocalPathBlocked
  | shortcutRootEventAliasMutationSucceeded
  | shortcutRootEventAliasMutationFailed
  | shortcutRootEventAliasRenameAmbiguous
  | shortcutRootEventChildFinalDrainClean
  | shortcutRootEventProjectionCleanupFailed
  | shortcutRootEventProjectionCleanupSucceeded
  | shortcutRootEventWaitingReplacementPromote
  | shortcutRootEventChildArtifactsPurged
  | shortcutRootEventDuplicateTargetDetected
  | shortcutRootEventDuplicateTargetResolved

fun root_event_String :: "shortcut_root_event \<Rightarrow> string" where
  "root_event_String shortcutRootEventRemoteUpsert = ''remote_upsert''"
| "root_event_String shortcutRootEventRemoteDelete = ''remote_delete''"
| "root_event_String shortcutRootEventRemoteUnavailable = ''remote_unavailable''"
| "root_event_String shortcutRootEventCompleteOmission = ''complete_omission''"
| "root_event_String shortcutRootEventSamePathReplacement = ''same_path_replacement''"
| "root_event_String shortcutRootEventProtectedPathConflict = ''protected_path_conflict''"
| "root_event_String shortcutRootEventLocalRootReady = ''local_root_ready''"
| "root_event_String shortcutRootEventLocalPathBlocked = ''local_path_blocked''"
| "root_event_String shortcutRootEventAliasMutationSucceeded = ''alias_mutation_succeeded''"
| "root_event_String shortcutRootEventAliasMutationFailed = ''alias_mutation_failed''"
| "root_event_String shortcutRootEventAliasRenameAmbiguous = ''alias_rename_ambiguous''"
| "root_event_String shortcutRootEventChildFinalDrainClean = ''child_final_drain_clean''"
| "root_event_String shortcutRootEventProjectionCleanupFailed = ''projection_cleanup_failed''"
| "root_event_String shortcutRootEventProjectionCleanupSucceeded = ''projection_cleanup_succeeded''"
| "root_event_String shortcutRootEventWaitingReplacementPromote = ''waiting_replacement_promote''"
| "root_event_String shortcutRootEventChildArtifactsPurged = ''child_artifacts_purged''"
| "root_event_String shortcutRootEventDuplicateTargetDetected = ''duplicate_target_detected''"
| "root_event_String shortcutRootEventDuplicateTargetResolved = ''duplicate_target_resolved''"

section \<open>The transition table\<close>

type_synonym transition_row = "shortcut_root_event \<Rightarrow> shortcut_root_state list option"

definition baseRecovery :: transition_row where
  "baseRecovery ev =
     (case ev of
        shortcutRootEventRemoteUpsert \<Rightarrow> Some [ShortcutRootStateActive]
      | shortcutRootEventRemoteDelete \<Rightarrow> Some [ShortcutRootStateRemovedFinalDrain]
      | shortcutRootEventRemoteUnavailable \<Rightarrow> Some [ShortcutRootStateTargetUnavailable]
      | shortcutRootEventCompleteOmission \<Rightarrow> Some [ShortcutRootStateRemovedFinalDrain]
      | shortcutRootEventProtectedPathConflict \<Rightarrow> Some [ShortcutRootStateBlockedPath]
      | shortcutRootEventLocalRootReady \<Rightarrow> Some [ShortcutRootStateActive]
      | shortcutRootEventLocalPathBlocked \<Rightarrow> Some [ShortcutRootStateBlockedPath, ShortcutRootStateLocalRootUnavailable]
      | shortcutRootEventAliasMutationSucceeded \<Rightarrow> Some [ShortcutRootStateActive, ShortcutRootStateRemovedFinalDrain]
      | shortcutRootEventAliasMutationFailed \<Rightarrow> Some [ShortcutRootStateAliasMutationBlocked]
      | shortcutRootEventAliasRenameAmbiguous \<Rightarrow> Some [ShortcutRootStateRenameAmbiguous]
      | shortcutRootEventDuplicateTargetDetected \<Rightarrow> Some [ShortcutRootStateDuplicateTarget]
      | _ \<Rightarrow> None)"

datatype shortcut_child_run_mode = ShortcutChildRunModeNone | ShortcutChildRunModeNormal | ShortcutChildRunModeFinalDrain

text \<open>The issue and recovery classes are their texts.\<close>

record shortcut_root_status_metadata =
  sm_DisplayState :: string
  sm_StateReason :: string
  sm_IssueClass :: string
  sm_Issue :: string
  sm_RecoveryClass :: string
  sm_RecoveryAction :: string
  sm_AutoRetry :: bool
  sm_ProtectsPath :: bool

definition no_status :: shortcut_root_status_metadata where
  "no_status =
     \<lparr>sm_DisplayState = '''', sm_StateReason = '''', sm_IssueClass = '''', sm_Issue = '''', sm_RecoveryClass = '''',
      sm_RecoveryAction = '''', sm_AutoRetry = False, sm_ProtectsPath = False\<rparr>"

text \<open>The entries of the table name their own state, and all of them are retried.\<close>

definition known_status ::
  "shortcut_root_state \<Rightarrow> string \<Rightarrow> string \<Rightarrow> string \<Rightarrow> string \<Rightarrow> bool \<Rightarrow> shortcut_root_status_metadata" where
  "known_status st issueClass issue recovery recoveryAction protects =
     \<lparr>sm_DisplayState = root_state_String st, sm_StateReason = root_state_String st, sm_IssueClass = issueClass, sm_Issue = issue,
      sm_RecoveryClass = recovery, sm_RecoveryAction = recoveryAction, sm_AutoRetry = True, sm_ProtectsPath = protects\<rparr>"

record shortcut_root_lifecycle_metadata =
  lm_status :: shortcut_root_status_metadata
  lm_protectsPath :: bool
  lm_runMode :: shortcut_child_run_mode
  lm_publishesCleanup :: bool
  lm_transitions :: transition_row

text \<open>What is known of each state; \<open>None\<close> for an unknown one.\<close>

definition shortcutRootLifecycleMetadataTable :: "shortcut_root_state \<Rightarrow> shortcut_root_lifecycle_metadata option" where
  "shortcutRootLifecycleMetadataTable st =
     (case st of
        ShortcutRootStateActive \<Rightarrow>
          Some \<lparr>lm_status = no_status,
            lm_protectsPath = True, lm_runMode = ShortcutChildRunModeNormal, lm_publishesCleanup = False, lm_transitions = baseRecovery\<rparr>
      | ShortcutRootStateTargetUnavailable \<Rightarrow>
          Some \<lparr>lm_status = known_status ShortcutRootStateTargetUnavailable ''target_unavailable'' ''The shortcut target is unavailable.''
            ''restore_target_or_remove_alias'' ''Restore target access or remove the shortcut alias.'' True,
            lm_protectsPath = True, lm_runMode = ShortcutChildRunModeNone, lm_publishesCleanup = False, lm_transitions = baseRecovery\<rparr>
      | ShortcutRootStateLocalRootUnavailable \<Rightarrow>
          Some \<lparr>lm_status = known_status ShortcutRootStateLocalRootUnavailable ''local_root_unavailable'' ''The shortcut alias local root is unavailable.''
            ''restore_local_root_or_discard'' ''Restore the local shortcut directory or delete it to discard unresolved local state.'' True,
            lm_protectsPath = True, lm_runMode = ShortcutChildRunModeNone, lm_publishesCleanup = False, lm_transitions = baseRecovery(shortcutRootEventLocalPathBlocked \<mapsto> [ShortcutRootStateLocalRootUnavailable])\<rparr>
      | ShortcutRootStateBlockedPath \<Rightarrow>
          Some \<lparr>lm_status = known_status ShortcutRootStateBlockedPath ''blocked_path'' ''The shortcut alias path is blocked.''
            ''clear_blocked_path'' ''Clear the blocking local path.'' True,
            lm_protectsPath = True, lm_runMode = ShortcutChildRunModeNone, lm_publishesCleanup = False, lm_transitions = baseRecovery\<rparr>
      | ShortcutRootStateRenameAmbiguous \<Rightarrow>
          Some \<lparr>lm_status = known_status ShortcutRootStateRenameAmbiguous ''rename_ambiguous'' ''Multiple same-folder shortcut alias rename candidates were found.''
            ''disambiguate_alias_rename'' ''Keep exactly one renamed shortcut alias or restore the original name.'' True,
            lm_protectsPath = True, lm_runMode = ShortcutChildRunModeNone, lm_publishesCleanup = False, lm_transitions = baseRecovery(shortcutRootEventRemoteUnavailable := None, shortcutRootEventProtectedPathConflict := None)\<rparr>
      | ShortcutRootStateAliasMutationBlocked \<Rightarrow>
          Some \<lparr>lm_status = known_status ShortcutRootStateAliasMutationBlocked ''alias_mutation_blocked'' ''The parent engine cannot update the shortcut alias in OneDrive.''
            ''fix_alias_mutation'' ''Fix account, network, or permission access, or restore the local alias.'' True,
            lm_protectsPath = True, lm_runMode = ShortcutChildRunModeNone, lm_publishesCleanup = False, lm_transitions = baseRecovery(shortcutRootEventRemoteUnavailable := None, shortcutRootEventProtectedPathConflict := None)\<rparr>
      | ShortcutRootStateRemovedFinalDrain \<Rightarrow>
          Some \<lparr>lm_status = known_status ShortcutRootStateRemovedFinalDrain ''removed_final_drain'' ''The shortcut alias was removed; child sync is finishing before release.''
            ''restore_target_or_discard'' ''Restore shared-folder access, or delete the local shortcut directory to discard dirty local state.'' True,
            lm_protectsPath = True, lm_runMode = ShortcutChildRunModeFinalDrain, lm_publishesCleanup = False, lm_transitions = [
             shortcutRootEventRemoteUpsert \<mapsto> [ShortcutRootStateActive],
             shortcutRootEventSamePathReplacement \<mapsto> [ShortcutRootStateSamePathReplacementWaiting],
             shortcutRootEventChildFinalDrainClean \<mapsto> [ShortcutRootStateRemovedReleasePending],
             shortcutRootEventProjectionCleanupFailed \<mapsto> [ShortcutRootStateRemovedCleanupBlocked],
             shortcutRootEventWaitingReplacementPromote \<mapsto> [ShortcutRootStateActive]]\<rparr>
      | ShortcutRootStateRemovedReleasePending \<Rightarrow>
          Some \<lparr>lm_status = known_status ShortcutRootStateRemovedReleasePending ''removed_release_pending'' ''Child sync finished; the parent engine is releasing the protected shortcut alias path.''
            ''wait_for_retry'' '''' True,
            lm_protectsPath = True, lm_runMode = ShortcutChildRunModeNone, lm_publishesCleanup = False, lm_transitions = [
             shortcutRootEventProjectionCleanupFailed \<mapsto> [ShortcutRootStateRemovedCleanupBlocked],
             shortcutRootEventProjectionCleanupSucceeded \<mapsto> [ShortcutRootStateRemovedChildCleanupPending],
             shortcutRootEventWaitingReplacementPromote \<mapsto> [ShortcutRootStateActive]]\<rparr>
      | ShortcutRootStateRemovedCleanupBlocked \<Rightarrow>
          Some \<lparr>lm_status = known_status ShortcutRootStateRemovedCleanupBlocked ''removed_cleanup_blocked'' ''The parent engine cannot release the protected shortcut alias path.''
            ''clear_blocked_path'' ''Clear the local filesystem blocker.'' True,
            lm_protectsPath = True, lm_runMode = ShortcutChildRunModeNone, lm_publishesCleanup = False, lm_transitions = [
             shortcutRootEventRemoteUpsert \<mapsto> [ShortcutRootStateActive],
             shortcutRootEventSamePathReplacement \<mapsto> [ShortcutRootStateSamePathReplacementWaiting],
             shortcutRootEventChildFinalDrainClean \<mapsto> [ShortcutRootStateRemovedReleasePending],
             shortcutRootEventProjectionCleanupFailed \<mapsto> [ShortcutRootStateRemovedCleanupBlocked],
             shortcutRootEventProjectionCleanupSucceeded \<mapsto> [ShortcutRootStateRemovedChildCleanupPending],
             shortcutRootEventWaitingReplacementPromote \<mapsto> [ShortcutRootStateActive]]\<rparr>
      | ShortcutRootStateRemovedChildCleanupPending \<Rightarrow>
          Some \<lparr>lm_status = known_status ShortcutRootStateRemovedChildCleanupPending ''removed_child_cleanup_pending'' ''The shortcut alias was released; child cleanup is finishing.''
            ''wait_for_retry'' '''' False,
            lm_protectsPath = False, lm_runMode = ShortcutChildRunModeNone, lm_publishesCleanup = True, lm_transitions = [
             shortcutRootEventRemoteUpsert \<mapsto> [ShortcutRootStateActive],
             shortcutRootEventChildArtifactsPurged \<mapsto> []]\<rparr>
      | ShortcutRootStateSamePathReplacementWaiting \<Rightarrow>
          Some \<lparr>lm_status = known_status ShortcutRootStateSamePathReplacementWaiting ''same_path_replacement_waiting'' ''A new shortcut is waiting for the old child sync to finish.''
            ''wait_for_retry'' '''' True,
            lm_protectsPath = True, lm_runMode = ShortcutChildRunModeFinalDrain, lm_publishesCleanup = False, lm_transitions = [
             shortcutRootEventRemoteUpsert \<mapsto> [ShortcutRootStateActive],
             shortcutRootEventSamePathReplacement \<mapsto> [ShortcutRootStateSamePathReplacementWaiting],
             shortcutRootEventChildFinalDrainClean \<mapsto> [ShortcutRootStateRemovedReleasePending],
             shortcutRootEventProjectionCleanupFailed \<mapsto> [ShortcutRootStateRemovedCleanupBlocked],
             shortcutRootEventWaitingReplacementPromote \<mapsto> [ShortcutRootStateActive]]\<rparr>
      | ShortcutRootStateDuplicateTarget \<Rightarrow>
          Some \<lparr>lm_status = known_status ShortcutRootStateDuplicateTarget ''duplicate_target'' ''Another shortcut alias in this parent already projects the same target.''
            ''remove_duplicate_alias'' ''Remove or rename the duplicate shortcut alias.'' True,
            lm_protectsPath = True, lm_runMode = ShortcutChildRunModeNone, lm_publishesCleanup = False, lm_transitions = [
             shortcutRootEventRemoteUpsert \<mapsto> [ShortcutRootStateActive],
             shortcutRootEventRemoteDelete \<mapsto> [ShortcutRootStateRemovedFinalDrain],
             shortcutRootEventRemoteUnavailable \<mapsto> [ShortcutRootStateTargetUnavailable],
             shortcutRootEventCompleteOmission \<mapsto> [ShortcutRootStateRemovedFinalDrain],
             shortcutRootEventDuplicateTargetDetected \<mapsto> [ShortcutRootStateDuplicateTarget],
             shortcutRootEventDuplicateTargetResolved \<mapsto> [ShortcutRootStateActive],
             shortcutRootEventProtectedPathConflict \<mapsto> [ShortcutRootStateBlockedPath],
             shortcutRootEventLocalRootReady \<mapsto> [ShortcutRootStateDuplicateTarget],
             shortcutRootEventLocalPathBlocked \<mapsto> [ShortcutRootStateBlockedPath],
             shortcutRootEventAliasMutationFailed \<mapsto> [ShortcutRootStateAliasMutationBlocked],
             shortcutRootEventAliasRenameAmbiguous \<mapsto> [ShortcutRootStateRenameAmbiguous]]\<rparr>
      | _ \<Rightarrow> None)"

definition shortcutRootTransitionTable :: "shortcut_root_state \<Rightarrow> transition_row option" where
  "shortcutRootTransitionTable st = map_option lm_transitions (shortcutRootLifecycleMetadataTable st)"

definition normalizeShortcutRootState :: "shortcut_root_state \<Rightarrow> shortcut_root_state" where
  "normalizeShortcutRootState st = (if st = ShortcutRootStateUnset then ShortcutRootStateActive else st)"

definition shortcutRootLifecycleMetadataFor :: "shortcut_root_state \<Rightarrow> shortcut_root_lifecycle_metadata option" where
  "shortcutRootLifecycleMetadataFor st = shortcutRootLifecycleMetadataTable (normalizeShortcutRootState st)"

definition ShortcutRootStatus :: "shortcut_root_state \<Rightarrow> shortcut_root_status_metadata" where
  "ShortcutRootStatus st =
     (if st = ShortcutRootStateUnset \<or> st = ShortcutRootStateActive then no_status
      else case shortcutRootLifecycleMetadataFor st of
             Some m \<Rightarrow> lm_status m
           | None \<Rightarrow> known_status st ''parent_recovery'' ''The shortcut alias is waiting for parent-engine recovery.''
                       ''wait_for_retry'' '''' True)"

definition shortcutRootStateKeepsProtectedPaths :: "shortcut_root_state \<Rightarrow> bool" where
  "shortcutRootStateKeepsProtectedPaths st =
     (case shortcutRootLifecycleMetadataFor st of Some m \<Rightarrow> lm_protectsPath m | None \<Rightarrow> False)"

definition shortcutChildRunModeForRoot :: "shortcut_root_state \<Rightarrow> shortcut_child_run_mode" where
  "shortcutChildRunModeForRoot st =
     (case shortcutRootLifecycleMetadataFor st of Some m \<Rightarrow> lm_runMode m | None \<Rightarrow> ShortcutChildRunModeNone)"

definition validateShortcutRootTransition ::
  "shortcut_root_state \<Rightarrow> shortcut_root_event \<Rightarrow> shortcut_root_state \<Rightarrow> string option" where
  "validateShortcutRootTransition from_state ev to_state =
     (let a = normalizeShortcutRootState from_state; b = normalizeShortcutRootState to_state;
          said = ''sync: shortcut root transition '' @ root_event_String ev @ '' from '' @ root_state_String a
      in case Option.bind (shortcutRootTransitionTable a) (\<lambda>row. row ev) of
           None \<Rightarrow> Some (said @ '' is not allowed'')
         | Some targets \<Rightarrow>
             if b \<in> set targets then None else Some (said @ '' to '' @ root_state_String b @ '' is not allowed''))"

section \<open>Records\<close>


record shortcut_replacement =
  sr_BindingItemID :: string
  sr_RelativeLocalPath :: string
  sr_LocalAlias :: string
  sr_RemoteDriveID :: drive_id
  sr_RemoteItemID :: string
  sr_RemoteIsFolder :: bool

record shortcut_root =
  rr_NamespaceID :: string
  rr_BindingItemID :: string
  rr_RelativeLocalPath :: string
  rr_LocalAlias :: string
  rr_RemoteDriveID :: drive_id
  rr_RemoteItemID :: string
  rr_RemoteIsFolder :: bool
  rr_State :: shortcut_root_state
  rr_ProtectedPaths :: "string list"
  rr_BlockedDetail :: string
  rr_LocalRootIdentity :: "file_identity option"
  rr_Waiting :: "shortcut_replacement option"

definition normalizedProtectedRootPath :: "string \<Rightarrow> string" where
  "normalizedProtectedRootPath v = (let n = tl (path_clean (CHR ''/'' # v)) in if n = ''.'' then '''' else n)"

definition add_path :: "string \<Rightarrow> string list \<Rightarrow> string list" where
  "add_path v ps = (let n = normalizedProtectedRootPath v in if n = '''' \<or> n \<in> set ps then ps else ps @ [n])"

definition protectedPathsForShortcutRoot :: "string \<Rightarrow> string list \<Rightarrow> string list" where
  "protectedPathsForShortcutRoot rel paths = fold add_path (rel # paths) []"

definition appendUniqueProtectedRootPaths :: "string list \<Rightarrow> string list \<Rightarrow> string list" where
  "appendUniqueProtectedRootPaths paths additions = fold add_path additions paths"

definition normalizeShortcutRootRecord :: "shortcut_root \<Rightarrow> shortcut_root" where
  "normalizeShortcutRootRecord r =
     (let r1 = (if rr_LocalAlias r = '''' \<and> rr_RelativeLocalPath r \<noteq> ''''
                then r\<lparr>rr_LocalAlias := path_base (rr_RelativeLocalPath r)\<rparr> else r);
          r2 = r1\<lparr>rr_ProtectedPaths := protectedPathsForShortcutRoot (rr_RelativeLocalPath r1) (rr_ProtectedPaths r1)\<rparr>;
          r3 = r2\<lparr>rr_State := normalizeShortcutRootState (rr_State r2)\<rparr>
      in if rr_State r3 = ShortcutRootStateRemovedChildCleanupPending
         then r3\<lparr>rr_ProtectedPaths := [], rr_LocalRootIdentity := None, rr_Waiting := None\<rparr>
         else if map_option sr_BindingItemID (rr_Waiting r3) = Some '''' then r3\<lparr>rr_Waiting := None\<rparr> else r3)"

text \<open>Every field is compared, drive ids by their text.\<close>

definition shortcutRootRecordsEqual :: "shortcut_root \<Rightarrow> shortcut_root \<Rightarrow> bool" where
  "shortcutRootRecordsEqual a b \<longleftrightarrow> normalizeShortcutRootRecord a = normalizeShortcutRootRecord b"

definition shortcutRootWithTransition ::
  "shortcut_root \<Rightarrow> shortcut_root_event \<Rightarrow> shortcut_root_state \<Rightarrow> string \<Rightarrow> string + shortcut_root" where
  "shortcutRootWithTransition r ev to_state detail =
     (case validateShortcutRootTransition (rr_State r) ev to_state of
        Some e \<Rightarrow> Inl e
      | None \<Rightarrow>
          Inr (r\<lparr>rr_State := to_state, rr_BlockedDetail := detail,
                 rr_ProtectedPaths := protectedPathsForShortcutRoot (rr_RelativeLocalPath r) (rr_ProtectedPaths r)\<rparr>))"

definition plannedShortcutRootTransition ::
  "shortcut_root \<Rightarrow> shortcut_root_event \<Rightarrow> shortcut_root_state \<Rightarrow> string \<Rightarrow> shortcut_root" where
  "plannedShortcutRootTransition r ev to_state detail =
     (case shortcutRootWithTransition r ev to_state detail of
        Inr n \<Rightarrow> n
      | Inl e \<Rightarrow>
          r\<lparr>rr_State := normalizeShortcutRootState (rr_State r), rr_BlockedDetail := e,
            rr_ProtectedPaths := protectedPathsForShortcutRoot (rr_RelativeLocalPath r) (rr_ProtectedPaths r)\<rparr>)"

section \<open>Remote facts\<close>

datatype shortcut_topology_kind = shortcutTopologyObservationIncremental | shortcutTopologyObservationComplete

record shortcut_binding_upsert =
  bu_BindingItemID :: string
  bu_RelativeLocalPath :: string
  bu_LocalAlias :: string
  bu_RemoteDriveID :: string
  bu_RemoteItemID :: string
  bu_RemoteIsFolder :: bool
  bu_Complete :: bool

record shortcut_binding_unavailable =
  bn_BindingItemID :: string
  bn_RelativeLocalPath :: string
  bn_LocalAlias :: string
  bn_RemoteDriveID :: string
  bn_RemoteItemID :: string
  bn_RemoteIsFolder :: bool
  bn_Reason :: string

text \<open>A deleted binding is its item id.\<close>

record shortcut_topology_batch =
  tb_NamespaceID :: string
  tb_Kind :: shortcut_topology_kind
  tb_Upserts :: "shortcut_binding_upsert list"
  tb_Deletes :: "string list"
  tb_Unavailable :: "shortcut_binding_unavailable list"

definition batch_removeUpsert :: "string \<Rightarrow> shortcut_topology_batch \<Rightarrow> shortcut_topology_batch" where
  "batch_removeUpsert i b = b\<lparr>tb_Upserts := filter (\<lambda>u. bu_BindingItemID u \<noteq> i) (tb_Upserts b)\<rparr>"

definition batch_removeDelete :: "string \<Rightarrow> shortcut_topology_batch \<Rightarrow> shortcut_topology_batch" where
  "batch_removeDelete i b = b\<lparr>tb_Deletes := filter (\<lambda>d. d \<noteq> i) (tb_Deletes b)\<rparr>"

definition batch_removeUnavailable :: "string \<Rightarrow> shortcut_topology_batch \<Rightarrow> shortcut_topology_batch" where
  "batch_removeUnavailable i b = b\<lparr>tb_Unavailable := filter (\<lambda>u. bn_BindingItemID u \<noteq> i) (tb_Unavailable b)\<rparr>"

text \<open>The first element with the key is replaced; \<open>None\<close> when there is none.\<close>

fun replace_first :: "('a \<Rightarrow> string) \<Rightarrow> 'a \<Rightarrow> 'a list \<Rightarrow> 'a list option" where
  "replace_first key x [] = None"
| "replace_first key x (y # ys) = (if key y = key x then Some (x # ys) else map_option (Cons y) (replace_first key x ys))"

definition appendUpsert :: "shortcut_binding_upsert \<Rightarrow> shortcut_topology_batch \<Rightarrow> shortcut_topology_batch" where
  "appendUpsert u b =
     (if bu_BindingItemID u = '''' then b
      else case replace_first bu_BindingItemID u (tb_Upserts b) of
             Some us \<Rightarrow> b\<lparr>tb_Upserts := us\<rparr>
           | None \<Rightarrow>
               (let b1 = batch_removeDelete (bu_BindingItemID u) (batch_removeUnavailable (bu_BindingItemID u) b)
                in b1\<lparr>tb_Upserts := tb_Upserts b1 @ [u]\<rparr>))"

definition appendDelete :: "string \<Rightarrow> shortcut_topology_batch \<Rightarrow> shortcut_topology_batch" where
  "appendDelete i b =
     (if i = '''' then b
      else let b1 = batch_removeUnavailable i (batch_removeUpsert i b)
           in if i \<in> set (tb_Deletes b1) then b1 else b1\<lparr>tb_Deletes := tb_Deletes b1 @ [i]\<rparr>)"

definition appendUnavailable :: "shortcut_binding_unavailable \<Rightarrow> shortcut_topology_batch \<Rightarrow> shortcut_topology_batch" where
  "appendUnavailable u b =
     (if bn_BindingItemID u = '''' then b
      else case replace_first bn_BindingItemID u (tb_Unavailable b) of
             Some us \<Rightarrow> b\<lparr>tb_Unavailable := us\<rparr>
           | None \<Rightarrow>
               (let b1 = batch_removeDelete (bn_BindingItemID u) (batch_removeUpsert (bn_BindingItemID u) b)
                in b1\<lparr>tb_Unavailable := tb_Unavailable b1 @ [u]\<rparr>))"

definition batch_shouldApply :: "shortcut_topology_batch \<Rightarrow> bool" where
  "batch_shouldApply b \<longleftrightarrow>
     tb_Upserts b \<noteq> [] \<or> tb_Deletes b \<noteq> [] \<or> tb_Unavailable b \<noteq> [] \<or> tb_Kind b = shortcutTopologyObservationComplete"

section \<open>The topology planner\<close>

text \<open>
  The records by binding. Go walks a map in an order of its own; where the result depends on it,
  the order is the argument \<open>iter\<close>.
\<close>

type_synonym root_map = "(string \<times> shortcut_root) list"

definition shortcutRootRecordFromUpsert :: "string \<Rightarrow> shortcut_binding_upsert \<Rightarrow> shortcut_root" where
  "shortcutRootRecordFromUpsert ns u =
     normalizeShortcutRootRecord
       \<lparr>rr_NamespaceID = ns, rr_BindingItemID = bu_BindingItemID u, rr_RelativeLocalPath = bu_RelativeLocalPath u,
        rr_LocalAlias = bu_LocalAlias u, rr_RemoteDriveID = New_id (bu_RemoteDriveID u), rr_RemoteItemID = bu_RemoteItemID u,
        rr_RemoteIsFolder = bu_RemoteIsFolder u, rr_State = ShortcutRootStateActive,
        rr_ProtectedPaths = [bu_RelativeLocalPath u], rr_BlockedDetail = '''', rr_LocalRootIdentity = None, rr_Waiting = None\<rparr>"

definition shortcutRootRecordFromUnavailable :: "string \<Rightarrow> shortcut_binding_unavailable \<Rightarrow> shortcut_root" where
  "shortcutRootRecordFromUnavailable ns u =
     normalizeShortcutRootRecord
       \<lparr>rr_NamespaceID = ns, rr_BindingItemID = bn_BindingItemID u, rr_RelativeLocalPath = bn_RelativeLocalPath u,
        rr_LocalAlias = bn_LocalAlias u, rr_RemoteDriveID = New_id (bn_RemoteDriveID u), rr_RemoteItemID = bn_RemoteItemID u,
        rr_RemoteIsFolder = bn_RemoteIsFolder u, rr_State = ShortcutRootStateTargetUnavailable,
        rr_ProtectedPaths = [bn_RelativeLocalPath u], rr_BlockedDetail = bn_Reason u, rr_LocalRootIdentity = None, rr_Waiting = None\<rparr>"

definition shortcutRootRecordFromReplacement :: "string \<Rightarrow> shortcut_replacement \<Rightarrow> shortcut_root" where
  "shortcutRootRecordFromReplacement ns w =
     normalizeShortcutRootRecord
       \<lparr>rr_NamespaceID = ns, rr_BindingItemID = sr_BindingItemID w, rr_RelativeLocalPath = sr_RelativeLocalPath w,
        rr_LocalAlias = sr_LocalAlias w, rr_RemoteDriveID = sr_RemoteDriveID w, rr_RemoteItemID = sr_RemoteItemID w,
        rr_RemoteIsFolder = sr_RemoteIsFolder w, rr_State = ShortcutRootStateActive,
        rr_ProtectedPaths = [sr_RelativeLocalPath w], rr_BlockedDetail = '''', rr_LocalRootIdentity = None, rr_Waiting = None\<rparr>"

definition upsertShortcutRootRecord :: "shortcut_root \<Rightarrow> root_map \<times> bool \<Rightarrow> root_map \<times> bool" where
  "upsertShortcutRootRecord r s =
     (let n = normalizeShortcutRootRecord r
      in case map_of (fst s) (rr_BindingItemID n) of
           Some current \<Rightarrow>
             if shortcutRootRecordsEqual current n then s else (AList.update (rr_BindingItemID n) n (fst s), True)
         | None \<Rightarrow> (AList.update (rr_BindingItemID n) n (fst s), True))"

definition own_paths :: "shortcut_root \<Rightarrow> shortcut_root" where
  "own_paths r = r\<lparr>rr_ProtectedPaths := protectedPathsForShortcutRoot (rr_RelativeLocalPath r) (rr_ProtectedPaths r)\<rparr>"

definition remote_delete :: "string \<Rightarrow> root_map \<times> bool \<Rightarrow> root_map \<times> bool" where
  "remote_delete i s =
     (case map_of (fst s) i of
        None \<Rightarrow> s
      | Some r \<Rightarrow>
          (let n = own_paths (plannedShortcutRootTransition r shortcutRootEventRemoteDelete ShortcutRootStateRemovedFinalDrain '''')
           in if shortcutRootRecordsEqual r n then s else (AList.update (rr_BindingItemID n) n (fst s), True)))"

definition applyShortcutRootRemoteDeletes :: "string list \<Rightarrow> root_map \<times> bool \<Rightarrow> root_map \<times> bool" where
  "applyShortcutRootRemoteDeletes deletes = fold remote_delete deletes"

definition remote_unavailable :: "string \<Rightarrow> shortcut_binding_unavailable \<Rightarrow> root_map \<times> bool \<Rightarrow> root_map \<times> bool" where
  "remote_unavailable ns u s =
     (let n = shortcutRootRecordFromUnavailable ns u
      in upsertShortcutRootRecord
           (case map_of (fst s) (bn_BindingItemID u) of
              None \<Rightarrow> n
            | Some existing \<Rightarrow>
                (let t = plannedShortcutRootTransition existing shortcutRootEventRemoteUnavailable
                           ShortcutRootStateTargetUnavailable (bn_Reason u)
                 in n\<lparr>rr_LocalRootIdentity := rr_LocalRootIdentity existing, rr_Waiting := rr_Waiting existing,
                      rr_State := rr_State t, rr_BlockedDetail := rr_BlockedDetail t\<rparr>)) s)"

definition applyShortcutRootRemoteUnavailable ::
  "string \<Rightarrow> shortcut_binding_unavailable list \<Rightarrow> root_map \<times> bool \<Rightarrow> root_map \<times> bool" where
  "applyShortcutRootRemoteUnavailable ns us = fold (remote_unavailable ns) us"

definition retiring :: "shortcut_root_state \<Rightarrow> bool" where
  "retiring st \<longleftrightarrow>
     st \<in> {ShortcutRootStateRemovedFinalDrain, ShortcutRootStateRemovedReleasePending,
            ShortcutRootStateRemovedCleanupBlocked, ShortcutRootStateSamePathReplacementWaiting}"

definition samePathRetiringShortcutRoot ::
  "(root_map \<Rightarrow> root_map) \<Rightarrow> root_map \<Rightarrow> string \<Rightarrow> string \<Rightarrow> shortcut_root option" where
  "samePathRetiringShortcutRoot iter records rel nextID =
     (if rel = '''' then None
      else map_option snd
             (find (\<lambda>(i, r). i \<noteq> nextID \<and> rr_RelativeLocalPath r = rel \<and> retiring (rr_State r)) (iter records)))"

definition protects_actively :: "string \<Rightarrow> string \<Rightarrow> string \<times> shortcut_root \<Rightarrow> bool" where
  "protects_actively p nextID e \<longleftrightarrow>
     (let r = normalizeShortcutRootRecord (snd e)
      in fst e \<noteq> nextID \<and> shortcutRootStateKeepsProtectedPaths (rr_State r) \<and> \<not> retiring (rr_State r) \<and>
         list_ex (\<lambda>q. normalizedProtectedRootPath q = p) (rr_ProtectedPaths r))"

definition activeProtectedShortcutRootForPath ::
  "(root_map \<Rightarrow> root_map) \<Rightarrow> root_map \<Rightarrow> string \<Rightarrow> string \<Rightarrow> shortcut_root option" where
  "activeProtectedShortcutRootForPath iter records rel nextID =
     (if rel = '''' then None
      else map_option (\<lambda>e. normalizeShortcutRootRecord (snd e))
             (find (protects_actively (normalizedProtectedRootPath rel) nextID) (iter records)))"

text \<open>\<open>None\<close> when no retiring root holds the path.\<close>

definition applyShortcutRootSamePathReplacement ::
  "(root_map \<Rightarrow> root_map) \<Rightarrow> shortcut_root \<Rightarrow> root_map \<Rightarrow> root_map option" where
  "applyShortcutRootSamePathReplacement iter n records =
     (case samePathRetiringShortcutRoot iter records (rr_RelativeLocalPath n) (rr_BindingItemID n) of
        None \<Rightarrow> None
      | Some own \<Rightarrow>
          (let w = \<lparr>sr_BindingItemID = rr_BindingItemID n, sr_RelativeLocalPath = rr_RelativeLocalPath n,
                    sr_LocalAlias = rr_LocalAlias n, sr_RemoteDriveID = rr_RemoteDriveID n,
                    sr_RemoteItemID = rr_RemoteItemID n, sr_RemoteIsFolder = rr_RemoteIsFolder n\<rparr>;
               own1 = own_paths (plannedShortcutRootTransition (own\<lparr>rr_Waiting := Some w\<rparr>)
                        shortcutRootEventSamePathReplacement ShortcutRootStateSamePathReplacementWaiting (rr_BlockedDetail own))
           in Some (AList.update (rr_BindingItemID own1) own1 records)))"

definition planShortcutRootRemoteUpsertForExisting :: "shortcut_root \<Rightarrow> shortcut_root \<Rightarrow> shortcut_root" where
  "planShortcutRootRemoteUpsertForExisting existing n =
     (let n0 = normalizeShortcutRootRecord n;
          t = plannedShortcutRootTransition existing shortcutRootEventRemoteUpsert ShortcutRootStateActive '''';
          n1 = n0\<lparr>rr_State := rr_State t, rr_BlockedDetail := rr_BlockedDetail t,
                  rr_LocalRootIdentity := rr_LocalRootIdentity existing\<rparr>
      in if rr_RelativeLocalPath existing \<noteq> '''' \<and> rr_RelativeLocalPath existing \<noteq> rr_RelativeLocalPath n1
         then n1\<lparr>rr_ProtectedPaths := protectedPathsForShortcutRoot (rr_RelativeLocalPath n1)
                    (rr_ProtectedPaths existing @ [rr_RelativeLocalPath existing])\<rparr>
         else n1)"

definition remote_upsert ::
  "(root_map \<Rightarrow> root_map) \<Rightarrow> string \<Rightarrow> shortcut_binding_upsert \<Rightarrow> root_map \<times> bool \<Rightarrow> root_map \<times> bool" where
  "remote_upsert iter ns u s =
     (let n = shortcutRootRecordFromUpsert ns u
      in case applyShortcutRootSamePathReplacement iter n (fst s) of
           Some records \<Rightarrow> (records, True)
         | None \<Rightarrow>
             (case activeProtectedShortcutRootForPath iter (fst s) (rr_RelativeLocalPath n) (rr_BindingItemID n) of
                Some _ \<Rightarrow>
                  upsertShortcutRootRecord
                    (own_paths (plannedShortcutRootTransition n shortcutRootEventProtectedPathConflict
                       ShortcutRootStateBlockedPath ''shortcut alias path is protected by another shortcut root'')) s
              | None \<Rightarrow>
                  upsertShortcutRootRecord
                    (case map_of (fst s) (bu_BindingItemID u) of
                       Some existing \<Rightarrow> planShortcutRootRemoteUpsertForExisting existing n
                     | None \<Rightarrow> n) s))"

definition applyShortcutRootRemoteUpserts ::
  "(root_map \<Rightarrow> root_map) \<Rightarrow> string \<Rightarrow> shortcut_binding_upsert list \<Rightarrow> root_map \<times> bool \<Rightarrow> root_map \<times> bool" where
  "applyShortcutRootRemoteUpserts iter ns us = fold (remote_upsert iter ns) us"

definition shortcutRootCompleteBatchSeenBindings :: "shortcut_topology_batch \<Rightarrow> string set" where
  "shortcutRootCompleteBatchSeenBindings b =
     set (map bu_BindingItemID (tb_Upserts b)) \<union> set (map bn_BindingItemID (tb_Unavailable b))"

definition shortcutRootCompleteOmissionKeepsState :: "shortcut_root_state \<Rightarrow> bool" where
  "shortcutRootCompleteOmissionKeepsState st \<longleftrightarrow> retiring st \<or> st = ShortcutRootStateRemovedChildCleanupPending"

definition applyShortcutRootCompleteOmission :: "shortcut_topology_batch \<Rightarrow> root_map \<times> bool \<Rightarrow> root_map \<times> bool" where
  "applyShortcutRootCompleteOmission b s =
     (if tb_Kind b \<noteq> shortcutTopologyObservationComplete then s
      else
        (let keep = (\<lambda>(i, r). i \<in> shortcutRootCompleteBatchSeenBindings b \<or> shortcutRootCompleteOmissionKeepsState (rr_State r))
         in (map (\<lambda>e. if keep e then e
                       else (fst e, own_paths (plannedShortcutRootTransition (snd e) shortcutRootEventCompleteOmission
                                                ShortcutRootStateRemovedFinalDrain ''''))) (fst s),
             snd s \<or> list_ex (\<lambda>e. \<not> keep e) (fst s))))"

definition shortcutRootParticipatesInDuplicateTargetCheck :: "shortcut_root \<Rightarrow> bool" where
  "shortcutRootParticipatesInDuplicateTargetCheck r \<longleftrightarrow>
     (let n = normalizeShortcutRootRecord r
      in \<not> id_IsZero (rr_RemoteDriveID n) \<and> rr_RemoteItemID n \<noteq> '''' \<and>
         rr_State n \<in> {ShortcutRootStateActive, ShortcutRootStateDuplicateTarget})"

definition target_key :: "shortcut_root \<Rightarrow> string \<times> string \<times> string" where
  "target_key r = (rr_NamespaceID r, id_value (rr_RemoteDriveID r), rr_RemoteItemID r)"

definition root_rank :: "shortcut_root \<Rightarrow> string \<times> string" where
  "root_rank r = (rr_RelativeLocalPath r, rr_BindingItemID r)"

definition entry_record :: "string \<times> shortcut_root \<Rightarrow> shortcut_root" where
  "entry_record e = normalizeShortcutRootRecord (snd e)"

definition entry_target :: "string \<times> shortcut_root \<Rightarrow> string \<times> string \<times> string" where
  "entry_target e = target_key (entry_record e)"

definition competes :: "string \<times> string \<times> string \<Rightarrow> shortcut_root \<Rightarrow> bool" where
  "competes k r \<longleftrightarrow> shortcutRootParticipatesInDuplicateTargetCheck r \<and> target_key r = k"

text \<open>The roots that project the same target, by path and binding; the first one wins.\<close>

definition target_group :: "root_map \<Rightarrow> string \<times> string \<times> string \<Rightarrow> shortcut_root list" where
  "target_group records k =
     sort_key root_rank (filter (competes k) (map entry_record records))"

definition outranked :: "root_map \<Rightarrow> string \<times> string \<times> string \<Rightarrow> shortcut_root list" where
  "outranked records k = tl (target_group records k)"

definition duplicateShortcutTargetDetails :: "root_map \<Rightarrow> string \<rightharpoonup> string" where
  "duplicateShortcutTargetDetails records i =
     (case find (\<lambda>r. rr_BindingItemID r = i)
             (concat (map (outranked records) (map entry_target records))) of
        None \<Rightarrow> None
      | Some r \<Rightarrow>
          (let winner = hd (target_group records (target_key r))
           in Some (''shortcut target already projected by '' @ rr_BindingItemID winner @ '' at '' @ rr_RelativeLocalPath winner)))"

definition duplicate_step :: "string option \<Rightarrow> shortcut_root \<Rightarrow> shortcut_root option" where
  "duplicate_step d r0 =
     (let r = normalizeShortcutRootRecord r0
      in case d of
           Some detail \<Rightarrow>
             if rr_State r \<noteq> ShortcutRootStateDuplicateTarget then
               (let n = plannedShortcutRootTransition r shortcutRootEventDuplicateTargetDetected
                          ShortcutRootStateDuplicateTarget detail
                in if shortcutRootRecordsEqual r n then None else Some n)
             else if rr_BlockedDetail r \<noteq> detail then Some (r\<lparr>rr_BlockedDetail := detail\<rparr>)
             else None
         | None \<Rightarrow>
             if rr_State r = ShortcutRootStateDuplicateTarget then
               (let n = plannedShortcutRootTransition r shortcutRootEventDuplicateTargetResolved ShortcutRootStateActive ''''
                in if shortcutRootRecordsEqual r n then None else Some n)
             else None)"

definition duplicate_entry :: "(string \<rightharpoonup> string) \<Rightarrow> string \<times> shortcut_root \<Rightarrow> string \<times> shortcut_root" where
  "duplicate_entry dup e = (fst e, case duplicate_step (dup (fst e)) (snd e) of Some n \<Rightarrow> n | None \<Rightarrow> snd e)"

definition duplicate_changes :: "(string \<rightharpoonup> string) \<Rightarrow> string \<times> shortcut_root \<Rightarrow> bool" where
  "duplicate_changes dup e \<longleftrightarrow> duplicate_step (dup (fst e)) (snd e) \<noteq> None"

definition applyDuplicateShortcutTargetDetails :: "(string \<rightharpoonup> string) \<Rightarrow> root_map \<times> bool \<Rightarrow> root_map \<times> bool" where
  "applyDuplicateShortcutTargetDetails dup s =
     (map (duplicate_entry dup) (fst s), snd s \<or> list_ex (duplicate_changes dup) (fst s))"

definition markDuplicateShortcutTargets :: "root_map \<times> bool \<Rightarrow> root_map \<times> bool" where
  "markDuplicateShortcutTargets s = applyDuplicateShortcutTargetDetails (duplicateShortcutTargetDetails (fst s)) s"

definition add_root :: "shortcut_root \<Rightarrow> root_map \<Rightarrow> root_map" where
  "add_root r0 m =
     (let r = normalizeShortcutRootRecord r0 in if rr_BindingItemID r = '''' then m else AList.update (rr_BindingItemID r) r m)"

definition roots_by_binding :: "shortcut_root list \<Rightarrow> root_map" where
  "roots_by_binding current = fold add_root current []"

text \<open>The records of the plan and whether they differ from the current ones.\<close>

definition planShortcutRootTopology ::
  "(root_map \<Rightarrow> root_map) \<Rightarrow> shortcut_root list \<Rightarrow> shortcut_topology_batch \<Rightarrow> shortcut_root list \<times> bool" where
  "planShortcutRootTopology iter current b =
     (let s1 = applyShortcutRootRemoteDeletes (tb_Deletes b) (roots_by_binding current, False);
          s2 = applyShortcutRootRemoteUnavailable (tb_NamespaceID b) (tb_Unavailable b) s1;
          s3 = applyShortcutRootRemoteUpserts iter (tb_NamespaceID b) (tb_Upserts b) s2;
          s4 = applyShortcutRootCompleteOmission b s3;
          s5 = markDuplicateShortcutTargets s4
      in (sort_key root_rank (map entry_record (fst s5)), snd s5))"

section \<open>Acknowledgements and cleanup\<close>

definition shortcutRootStateAwaitsFinalDrainAck :: "shortcut_root_state \<Rightarrow> bool" where
  "shortcutRootStateAwaitsFinalDrainAck st \<longleftrightarrow>
     st \<in> {ShortcutRootStateRemovedFinalDrain, ShortcutRootStateRemovedCleanupBlocked,
            ShortcutRootStateSamePathReplacementWaiting}"

definition shortcutRootStateAwaitsReleaseCleanup :: "shortcut_root_state \<Rightarrow> bool" where
  "shortcutRootStateAwaitsReleaseCleanup st \<longleftrightarrow>
     st \<in> {ShortcutRootStateRemovedReleasePending, ShortcutRootStateRemovedCleanupBlocked}"

definition drain_ack :: "string \<Rightarrow> shortcut_root \<Rightarrow> shortcut_root" where
  "drain_ack i r0 =
     (let r = normalizeShortcutRootRecord r0
      in if rr_BindingItemID r \<noteq> i \<or> \<not> shortcutRootStateAwaitsFinalDrainAck (rr_State r) then r
         else plannedShortcutRootTransition r shortcutRootEventChildFinalDrainClean ShortcutRootStateRemovedReleasePending '''')"

definition drain_changes :: "string \<Rightarrow> shortcut_root \<Rightarrow> bool" where
  "drain_changes i r \<longleftrightarrow> \<not> shortcutRootRecordsEqual (normalizeShortcutRootRecord r) (drain_ack i r)"

definition planShortcutRootDrainReleasePending :: "shortcut_root list \<Rightarrow> string \<Rightarrow> shortcut_root list \<times> bool" where
  "planShortcutRootDrainReleasePending current i =
     (sort_key root_rank (map (drain_ack i) current),
      list_ex (drain_changes i) current)"

definition purged :: "string \<Rightarrow> shortcut_root \<Rightarrow> bool" where
  "purged i r \<longleftrightarrow> rr_BindingItemID r = i \<and> rr_State r = ShortcutRootStateRemovedChildCleanupPending"

definition planShortcutRootArtifactCleanupAck :: "shortcut_root list \<Rightarrow> string \<Rightarrow> shortcut_root list \<times> bool" where
  "planShortcutRootArtifactCleanupAck current i =
     (let rs = map normalizeShortcutRootRecord current in (filter (\<lambda>r. \<not> purged i r) rs, list_ex (purged i) rs))"

text \<open>An error is its text.\<close>

definition planShortcutRootCleanupBlocked :: "shortcut_root \<Rightarrow> string \<Rightarrow> shortcut_root" where
  "planShortcutRootCleanupBlocked r err =
     plannedShortcutRootTransition r shortcutRootEventProjectionCleanupFailed ShortcutRootStateRemovedCleanupBlocked err"

definition planShortcutRootChildCleanupPending :: "shortcut_root \<Rightarrow> shortcut_root" where
  "planShortcutRootChildCleanupPending r =
     (plannedShortcutRootTransition (normalizeShortcutRootRecord r) shortcutRootEventProjectionCleanupSucceeded
        ShortcutRootStateRemovedChildCleanupPending '''')
       \<lparr>rr_BlockedDetail := '''', rr_ProtectedPaths := [], rr_LocalRootIdentity := None, rr_Waiting := None\<rparr>"

text \<open>The records, whether they changed, and the error of the cleanup.\<close>

definition planShortcutRootReleaseCleanup :: "shortcut_root \<Rightarrow> string option \<Rightarrow> shortcut_root list \<times> bool \<times> string option" where
  "planShortcutRootReleaseCleanup r0 cleanupErr =
     (let r = normalizeShortcutRootRecord r0
      in if \<not> shortcutRootStateAwaitsReleaseCleanup (rr_State r) then ([r], False, None)
         else case cleanupErr of
                Some e \<Rightarrow>
                  (let n = planShortcutRootCleanupBlocked r e in ([n], \<not> shortcutRootRecordsEqual r n, Some e))
              | None \<Rightarrow>
                  (planShortcutRootChildCleanupPending r #
                     (case rr_Waiting r of
                        Some w \<Rightarrow> [shortcutRootRecordFromReplacement (rr_NamespaceID r) w]
                      | None \<Rightarrow> []), True, None))"

section \<open>The store\<close>

text \<open>The table: a row for each binding, which is its primary key. A failed replacement leaves it as it was.\<close>

datatype root_store_error = ErrDuplicateBinding string

definition first_repeated :: "string list \<Rightarrow> string option" where
  "first_repeated is = map_option (\<lambda>n. is ! n) (find (\<lambda>n. is ! n \<in> set (take n is)) [0..<length is])"

definition replaceShortcutRoots :: "shortcut_root list \<Rightarrow> shortcut_root list \<Rightarrow> root_store_error option \<times> shortcut_root list" where
  "replaceShortcutRoots records table =
     (let rs = map normalizeShortcutRootRecord records
      in case first_repeated (map rr_BindingItemID rs) of
           Some i \<Rightarrow> (Some (ErrDuplicateBinding i), table)
         | None \<Rightarrow> (None, rs))"

definition scan_root :: "shortcut_root \<Rightarrow> shortcut_root" where
  "scan_root r =
     normalizeShortcutRootRecord
       (r\<lparr>rr_RemoteDriveID := New_id (id_value (rr_RemoteDriveID r)),
          rr_Waiting := (case rr_Waiting r of
                           Some w \<Rightarrow> if sr_BindingItemID w = '''' then None
                                     else Some (w\<lparr>sr_RemoteDriveID := New_id (id_value (sr_RemoteDriveID w))\<rparr>)
                         | None \<Rightarrow> None)\<rparr>)"

definition listShortcutRoots :: "shortcut_root list \<Rightarrow> shortcut_root list" where
  "listShortcutRoots table = map scan_root (sort_key root_rank table)"

text \<open>Whether the table changed, the error and the table.\<close>

definition store_plan :: "shortcut_root list \<times> bool \<Rightarrow> shortcut_root list \<Rightarrow> bool \<times> root_store_error option \<times> shortcut_root list" where
  "store_plan p table =
     (if \<not> snd p then (False, None, table)
      else case replaceShortcutRoots (fst p) table of
             (Some e, t) \<Rightarrow> (False, Some e, t)
           | (None, t) \<Rightarrow> (True, None, t))"

definition applyShortcutTopology ::
  "(root_map \<Rightarrow> root_map) \<Rightarrow> shortcut_topology_batch \<Rightarrow> shortcut_root list \<Rightarrow> bool \<times> root_store_error option \<times> shortcut_root list" where
  "applyShortcutTopology iter b table =
     (if \<not> batch_shouldApply b then (False, None, table)
      else store_plan (planShortcutRootTopology iter (listShortcutRoots table) b) table)"

definition markShortcutChildFinalDrainReleasePending ::
  "string \<Rightarrow> shortcut_root list \<Rightarrow> bool \<times> root_store_error option \<times> shortcut_root list" where
  "markShortcutChildFinalDrainReleasePending i table =
     (if i = '''' then (False, None, table)
      else store_plan (planShortcutRootDrainReleasePending (listShortcutRoots table) i) table)"

definition acknowledgeShortcutChildArtifactsPurged ::
  "string \<Rightarrow> shortcut_root list \<Rightarrow> bool \<times> root_store_error option \<times> shortcut_root list" where
  "acknowledgeShortcutChildArtifactsPurged i table =
     (if i = '''' then (False, None, table)
      else store_plan (planShortcutRootArtifactCleanupAck (listShortcutRoots table) i) table)"

text \<open>The release of one binding after its drain; \<open>remove\<close> takes the projection away and may fail.\<close>

definition release_record ::
  "(string \<Rightarrow> string option) \<Rightarrow> string \<Rightarrow> shortcut_root \<Rightarrow> shortcut_root list \<times> bool \<times> string option" where
  "release_record remove i r0 =
     (let r = normalizeShortcutRootRecord r0
      in if rr_BindingItemID r \<noteq> i \<or> \<not> shortcutRootStateAwaitsReleaseCleanup (rr_State r) then ([r], False, None)
         else planShortcutRootReleaseCleanup r (remove (rr_RelativeLocalPath r)))"

definition finalizeShortcutRootReleaseByBinding ::
  "(string \<Rightarrow> string option) \<Rightarrow> string \<Rightarrow> shortcut_root list \<Rightarrow> root_store_error option \<times> string option \<times> shortcut_root list" where
  "finalizeShortcutRootReleaseByBinding remove i table =
     (let res = map (release_record remove i) (listShortcutRoots table);
          errs = filter (\<lambda>e. e \<noteq> None) (map (\<lambda>x. snd (snd x)) res);
          cleanupErr = (if errs = [] then None else last errs)
      in if list_ex (\<lambda>x. fst (snd x)) res
         then (case replaceShortcutRoots (concat (map fst res)) table of
                 (Some e, t) \<Rightarrow> (Some e, None, t)
               | (None, t) \<Rightarrow> (None, cleanupErr, t))
         else (None, cleanupErr, table))"

section \<open>What the planner keeps\<close>

lemma normalize_sel [simp]:
  "rr_NamespaceID (normalizeShortcutRootRecord r) = rr_NamespaceID r"
  "rr_BindingItemID (normalizeShortcutRootRecord r) = rr_BindingItemID r"
  "rr_RelativeLocalPath (normalizeShortcutRootRecord r) = rr_RelativeLocalPath r"
  "rr_RemoteDriveID (normalizeShortcutRootRecord r) = rr_RemoteDriveID r"
  "rr_RemoteItemID (normalizeShortcutRootRecord r) = rr_RemoteItemID r"
  "rr_State (normalizeShortcutRootRecord r) = normalizeShortcutRootState (rr_State r)"
  by (simp_all add: normalizeShortcutRootRecord_def Let_def)

lemma normalize_state_idem [simp]: "normalizeShortcutRootState (normalizeShortcutRootState st) = normalizeShortcutRootState st"
  by (simp add: normalizeShortcutRootState_def)

lemma planned_sel [simp]:
  "rr_NamespaceID (plannedShortcutRootTransition r ev st d) = rr_NamespaceID r"
  "rr_BindingItemID (plannedShortcutRootTransition r ev st d) = rr_BindingItemID r"
  "rr_RelativeLocalPath (plannedShortcutRootTransition r ev st d) = rr_RelativeLocalPath r"
  "rr_RemoteDriveID (plannedShortcutRootTransition r ev st d) = rr_RemoteDriveID r"
  "rr_RemoteItemID (plannedShortcutRootTransition r ev st d) = rr_RemoteItemID r"
  by (simp_all add: plannedShortcutRootTransition_def shortcutRootWithTransition_def split: option.split)

lemma planned_state:
  "rr_State (plannedShortcutRootTransition r ev st d) =
     (if validateShortcutRootTransition (rr_State r) ev st = None then st else normalizeShortcutRootState (rr_State r))"
  by (simp add: plannedShortcutRootTransition_def shortcutRootWithTransition_def split: option.split)

lemma own_paths_sel [simp]:
  "rr_BindingItemID (own_paths r) = rr_BindingItemID r" "rr_State (own_paths r) = rr_State r"
  by (simp_all add: own_paths_def)

text \<open>One record for each binding, under its own id.\<close>

definition roots_wf :: "root_map \<Rightarrow> bool" where
  "roots_wf m \<longleftrightarrow> distinct (map fst m) \<and> (\<forall>e \<in> set m. rr_BindingItemID (snd e) = fst e)"

definition bindings :: "root_map \<Rightarrow> string set" where
  "bindings m = fst ` set m"

definition grows :: "root_map \<Rightarrow> root_map \<Rightarrow> bool" where
  "grows m m' \<longleftrightarrow> roots_wf m' \<and> bindings m \<subseteq> bindings m'"

lemma grows_refl: "roots_wf m \<Longrightarrow> grows m m"
  by (simp add: grows_def)

lemma grows_trans: "grows m m1 \<Longrightarrow> grows m1 m2 \<Longrightarrow> grows m m2"
  by (auto simp: grows_def)

lemma update_mem: "e \<in> set (AList.update k v m) \<Longrightarrow> e = (k, v) \<or> e \<in> set m"
  by (induction m) (auto split: if_splits)

lemma update_grows: "roots_wf m \<Longrightarrow> rr_BindingItemID r = i \<Longrightarrow> grows m (AList.update i r m)"
  by (auto simp: grows_def roots_wf_def bindings_def distinct_update dom_update dest!: update_mem)

lemma upsert_grows: "roots_wf (fst s) \<Longrightarrow> grows (fst s) (fst (upsertShortcutRootRecord r s))"
  by (auto simp: upsertShortcutRootRecord_def Let_def intro: update_grows grows_refl split: option.split)

lemma delete_grows: "roots_wf (fst s) \<Longrightarrow> grows (fst s) (fst (remote_delete i s))"
  by (auto simp: remote_delete_def Let_def intro: update_grows grows_refl split: option.split)

lemma unavailable_grows: "roots_wf (fst s) \<Longrightarrow> grows (fst s) (fst (remote_unavailable ns u s))"
  by (simp add: remote_unavailable_def Let_def upsert_grows)

lemma remote_upsert_grows: "roots_wf (fst s) \<Longrightarrow> grows (fst s) (fst (remote_upsert iter ns u s))"
  by (auto simp: remote_upsert_def applyShortcutRootSamePathReplacement_def Let_def intro: update_grows upsert_grows split: option.splits)

lemma fold_grows:
  assumes "\<And>x s. roots_wf (fst s) \<Longrightarrow> grows (fst s) (fst (f x s))" "roots_wf (fst s)"
  shows "grows (fst s) (fst (fold f xs s))"
  using assms(2)
proof (induction xs arbitrary: s)
  case (Cons x xs)
  then show ?case using assms(1) [of s x] Cons.IH [of "f x s"] grows_trans by (auto simp: grows_def)
qed (simp add: grows_refl)

lemma map_grows:
  assumes "roots_wf m" "\<And>e. e \<in> set m \<Longrightarrow> fst (g e) = fst e \<and> rr_BindingItemID (snd (g e)) = rr_BindingItemID (snd e)"
  shows "grows m (map g m)"
proof -
  have eq: "map fst (map g m) = map fst m" using assms(2) by simp
  have "bindings (map g m) = bindings m" unfolding bindings_def using arg_cong [OF eq, of set] by (simp only: set_map)
  moreover have "distinct (map fst (map g m))" unfolding eq using assms(1) by (simp add: roots_wf_def)
  moreover have "\<forall>e \<in> set (map g m). rr_BindingItemID (snd e) = fst e" using assms by (simp add: roots_wf_def)
  ultimately show ?thesis unfolding grows_def roots_wf_def by simp
qed

lemma omission_grows: "roots_wf (fst s) \<Longrightarrow> grows (fst s) (fst (applyShortcutRootCompleteOmission b s))"
  by (auto simp: applyShortcutRootCompleteOmission_def Let_def grows_refl intro!: map_grows)

lemma duplicate_step_sel:
  assumes "duplicate_step d r = Some n"
  shows "rr_BindingItemID n = rr_BindingItemID r \<and> target_key n = target_key r"
  using assms by (auto simp: duplicate_step_def target_key_def Let_def split: option.splits if_splits)

lemma duplicates_grow: "roots_wf (fst s) \<Longrightarrow> grows (fst s) (fst (markDuplicateShortcutTargets s))"
  by (auto simp: markDuplicateShortcutTargets_def applyDuplicateShortcutTargetDetails_def duplicate_entry_def dest: duplicate_step_sel
      split: option.split intro!: map_grows)

lemma by_binding_wf: "roots_wf (roots_by_binding current) \<and> bindings (roots_by_binding current) = rr_BindingItemID ` set current - {''''}"
proof -

  have "roots_wf (fold add_root rs m) \<and> bindings (fold add_root rs m) = bindings m \<union> (rr_BindingItemID ` set rs - {''''})"
    if "roots_wf m" for rs and m :: root_map
    using that
  proof (induction rs arbitrary: m)
    case (Cons r rs)
    have "roots_wf (add_root r m)" "bindings (add_root r m) = bindings m \<union> ({rr_BindingItemID r} - {''''})"
      using update_grows [OF Cons.prems, of "normalizeShortcutRootRecord r" "rr_BindingItemID r"] Cons.prems
      by (auto simp: add_root_def Let_def grows_def bindings_def dom_update)
    then show ?case using Cons.IH [of "add_root r m"] by auto
  qed simp
  from this [of "[]" current] show ?thesis by (simp add: roots_by_binding_def roots_wf_def bindings_def)
qed

text \<open>The map before the duplicates are marked, and the one after it.\<close>

definition topology_map :: "(root_map \<Rightarrow> root_map) \<Rightarrow> shortcut_root list \<Rightarrow> shortcut_topology_batch \<Rightarrow> root_map \<times> bool" where
  "topology_map iter current b =
     applyShortcutRootCompleteOmission b
       (applyShortcutRootRemoteUpserts iter (tb_NamespaceID b) (tb_Upserts b)
          (applyShortcutRootRemoteUnavailable (tb_NamespaceID b) (tb_Unavailable b)
             (applyShortcutRootRemoteDeletes (tb_Deletes b) (roots_by_binding current, False))))"

lemma topology_map_wf: "grows (roots_by_binding current) (fst (topology_map iter current b))"
proof -
  let ?s0 = "(roots_by_binding current, False)"
  let ?s1 = "applyShortcutRootRemoteDeletes (tb_Deletes b) ?s0"
  let ?s2 = "applyShortcutRootRemoteUnavailable (tb_NamespaceID b) (tb_Unavailable b) ?s1"
  let ?s3 = "applyShortcutRootRemoteUpserts iter (tb_NamespaceID b) (tb_Upserts b) ?s2"
  have 0: "roots_wf (fst ?s0)" using by_binding_wf by simp
  have 1: "grows (fst ?s0) (fst ?s1)"
    unfolding applyShortcutRootRemoteDeletes_def by (rule fold_grows [OF delete_grows 0])
  have 2: "grows (fst ?s1) (fst ?s2)" unfolding applyShortcutRootRemoteUnavailable_def
    by (rule fold_grows [OF unavailable_grows]) (use 1 in \<open>simp_all add: grows_def\<close>)
  have 3: "grows (fst ?s2) (fst ?s3)" unfolding applyShortcutRootRemoteUpserts_def
    by (rule fold_grows [OF remote_upsert_grows]) (use 2 in \<open>simp_all add: grows_def\<close>)
  have 4: "grows (fst ?s3) (fst (applyShortcutRootCompleteOmission b ?s3))"
    by (rule omission_grows) (use 3 in \<open>simp add: grows_def\<close>)
  show ?thesis unfolding topology_map_def using grows_trans [OF 1 grows_trans [OF 2 grows_trans [OF 3 4]]] by simp
qed

lemma plan_is_marked:
  "planShortcutRootTopology iter current b =
     (let s = markDuplicateShortcutTargets (topology_map iter current b)
      in (sort_key root_rank (map entry_record (fst s)), snd s))"
  by (simp add: planShortcutRootTopology_def topology_map_def Let_def)

definition marked :: "root_map \<Rightarrow> string \<times> shortcut_root \<Rightarrow> shortcut_root" where
  "marked m e =
     normalizeShortcutRootRecord
       (case duplicate_step (duplicateShortcutTargetDetails m (fst e)) (snd e) of Some n \<Rightarrow> n | None \<Rightarrow> snd e)"

lemma plan_records:
  "set (fst (planShortcutRootTopology iter current b)) = marked (fst (topology_map iter current b)) ` set (fst (topology_map iter current b))"
  by (simp add: plan_is_marked markDuplicateShortcutTargets_def applyDuplicateShortcutTargetDetails_def Let_def marked_def [abs_def]
      image_image duplicate_entry_def entry_record_def)

lemma participates_normalize [simp]:
  "shortcutRootParticipatesInDuplicateTargetCheck (normalizeShortcutRootRecord r) = shortcutRootParticipatesInDuplicateTargetCheck r"
  by (simp add: shortcutRootParticipatesInDuplicateTargetCheck_def Let_def)

lemma target_key_normalize [simp]: "target_key (normalizeShortcutRootRecord r) = target_key r"
  by (simp add: target_key_def)

lemma in_group:
  "x \<in> set (target_group m k) \<longleftrightarrow>
     (\<exists>e \<in> set m. x = normalizeShortcutRootRecord (snd e) \<and> shortcutRootParticipatesInDuplicateTargetCheck (snd e) \<and> target_key (snd e) = k)"
  by (auto simp: target_group_def competes_def entry_record_def image_iff)

lemma in_tl: "x \<in> set (tl xs) \<Longrightarrow> x \<in> set xs"
  by (cases xs) auto

lemma not_in_tl: "x \<in> set xs \<Longrightarrow> x \<notin> set (tl xs) \<Longrightarrow> x = hd xs"
  by (cases xs) auto

text \<open>An entry has a detail just when it takes part and another one of its target comes first.\<close>

lemma details_some:
  assumes wf: "roots_wf m" and e: "e \<in> set m" and d: "duplicateShortcutTargetDetails m (fst e) \<noteq> None"
  shows "shortcutRootParticipatesInDuplicateTargetCheck (snd e)"
proof -
  from d obtain r where "find (\<lambda>r. rr_BindingItemID r = fst e)
             (concat (map (outranked m) (map entry_target m))) = Some r"
    by (auto simp: duplicateShortcutTargetDetails_def split: option.splits)
  then obtain k where r: "r \<in> set (tl (target_group m k))" "rr_BindingItemID r = fst e"
    unfolding find_Some_iff outranked_def by (metis (no_types, lifting) UN_E nth_mem set_concat set_map image_iff)
  then obtain e' where e': "e' \<in> set m" "r = normalizeShortcutRootRecord (snd e')" "shortcutRootParticipatesInDuplicateTargetCheck (snd e')"
    using in_tl [OF r(1)] by (auto simp: in_group)
  have "fst e' = fst e" using wf e'(1,2) r(2) by (auto simp: roots_wf_def)
  then have "e' = e" using wf e e'(1) by (metis eq_key_imp_eq_value prod.collapse roots_wf_def)
  then show ?thesis using e'(3) by simp
qed

lemma details_none:
  assumes wf: "roots_wf m" and e: "e \<in> set m" and d: "duplicateShortcutTargetDetails m (fst e) = None"
    and p: "shortcutRootParticipatesInDuplicateTargetCheck (snd e)"
  shows "normalizeShortcutRootRecord (snd e) = hd (target_group m (target_key (snd e)))"
proof (rule not_in_tl)
  show "normalizeShortcutRootRecord (snd e) \<in> set (target_group m (target_key (snd e)))" using e p by (auto simp: in_group)
  show "normalizeShortcutRootRecord (snd e) \<notin> set (tl (target_group m (target_key (snd e))))"
  proof
    assume "normalizeShortcutRootRecord (snd e) \<in> set (tl (target_group m (target_key (snd e))))"
    then have "normalizeShortcutRootRecord (snd e) \<in>
        set (concat (map (outranked m) (map entry_target m)))"
      using e by (auto simp: outranked_def entry_target_def entry_record_def image_iff intro!: bexI [of _ e])
    moreover have "rr_BindingItemID (normalizeShortcutRootRecord (snd e)) = fst e" using wf e by (simp add: roots_wf_def)
    ultimately show False using d by (auto simp: duplicateShortcutTargetDetails_def find_None_iff Let_def split: option.splits)
  qed
qed

lemma marked_sel:
  "rr_BindingItemID (marked m e) = rr_BindingItemID (snd e)" "target_key (marked m e) = target_key (snd e)"
  by (auto simp: marked_def dest: duplicate_step_sel split: option.split)

lemma detected_allowed:
  "st \<in> {ShortcutRootStateActive, ShortcutRootStateDuplicateTarget} \<Longrightarrow>
   validateShortcutRootTransition st shortcutRootEventDuplicateTargetDetected ShortcutRootStateDuplicateTarget = None"
  by (auto simp: validateShortcutRootTransition_def shortcutRootTransitionTable_def shortcutRootLifecycleMetadataTable_def baseRecovery_def normalizeShortcutRootState_def Let_def)

lemma some_detail_not_active:
  assumes "shortcutRootParticipatesInDuplicateTargetCheck r"
  shows "rr_State (normalizeShortcutRootRecord (case duplicate_step (Some d) r of Some n \<Rightarrow> n | None \<Rightarrow> r)) = ShortcutRootStateDuplicateTarget"
proof -
  let ?r = "normalizeShortcutRootRecord r"
  let ?n = "plannedShortcutRootTransition ?r shortcutRootEventDuplicateTargetDetected ShortcutRootStateDuplicateTarget d"
  have st: "rr_State ?r \<in> {ShortcutRootStateActive, ShortcutRootStateDuplicateTarget}"
    using assms by (simp add: shortcutRootParticipatesInDuplicateTargetCheck_def Let_def)
  have n: "rr_State ?n = ShortcutRootStateDuplicateTarget" using detected_allowed [OF st] by (simp add: planned_state)
  show ?thesis
  proof (cases "rr_State ?r = ShortcutRootStateDuplicateTarget")
    case True
    then show ?thesis by (simp add: duplicate_step_def Let_def normalizeShortcutRootState_def split: if_splits)
  next
    case False
    have "shortcutRootRecordsEqual ?r ?n \<Longrightarrow> rr_State (normalizeShortcutRootRecord ?r) = rr_State (normalizeShortcutRootRecord ?n)"
      by (simp only: shortcutRootRecordsEqual_def)
    then have "\<not> shortcutRootRecordsEqual ?r ?n"
      using False n by (auto simp: normalizeShortcutRootState_def split: if_splits)
    then show ?thesis using False n by (simp add: duplicate_step_def Let_def normalizeShortcutRootState_def)
  qed
qed

lemma none_detail_active:
  assumes "rr_State (normalizeShortcutRootRecord (case duplicate_step None r of Some n \<Rightarrow> n | None \<Rightarrow> r)) = ShortcutRootStateActive"
  shows "rr_State (normalizeShortcutRootRecord r) \<in> {ShortcutRootStateActive, ShortcutRootStateDuplicateTarget}"
  using assms by (auto simp: duplicate_step_def Let_def split: if_splits)

text \<open>The two roots of a target that end active are the first of its group, hence one root.\<close>

lemma active_is_first:
  assumes wf: "roots_wf m" and e: "e \<in> set m" and a: "rr_State (marked m e) = ShortcutRootStateActive"
    and t: "\<not> id_IsZero (rr_RemoteDriveID (snd e))" "rr_RemoteItemID (snd e) \<noteq> ''''"
  shows "normalizeShortcutRootRecord (snd e) = hd (target_group m (target_key (snd e)))"
proof (cases "duplicateShortcutTargetDetails m (fst e)")
  case None
  then have "rr_State (normalizeShortcutRootRecord (snd e)) \<in> {ShortcutRootStateActive, ShortcutRootStateDuplicateTarget}"
    using a none_detail_active [of "snd e"] by (simp only: marked_def)
  then have "shortcutRootParticipatesInDuplicateTargetCheck (snd e)"
    using t by (simp add: shortcutRootParticipatesInDuplicateTargetCheck_def Let_def)
  then show ?thesis using details_none [OF wf e None] by simp
next
  case (Some d)
  then have "shortcutRootParticipatesInDuplicateTargetCheck (snd e)" using details_some [OF wf e] by simp
  from some_detail_not_active [OF this, of d] show ?thesis using a Some by (simp add: marked_def)
qed

text \<open>A root that runs its own child for its target.\<close>

definition projects :: "shortcut_root \<Rightarrow> bool" where
  "projects r \<longleftrightarrow> rr_State r = ShortcutRootStateActive \<and> \<not> id_IsZero (rr_RemoteDriveID r) \<and> rr_RemoteItemID r \<noteq> ''''"

text \<open>
  C22: after a topology plan no target is projected twice: whatever the current records, the remote
  facts and the order in which the record map is walked, two planned roots that are active and name
  the same target of the same namespace are the same root.
\<close>

theorem one_active_root_per_target:
  assumes "r1 \<in> set (fst (planShortcutRootTopology iter current b))" "r2 \<in> set (fst (planShortcutRootTopology iter current b))"
    and "projects r1" "projects r2" "target_key r1 = target_key r2"
  shows "r1 = r2"
proof -
  let ?m = "fst (topology_map iter current b)"
  have wf: "roots_wf ?m" using topology_map_wf by (auto simp: grows_def)
  obtain e1 e2 where e: "e1 \<in> set ?m" "r1 = marked ?m e1" "e2 \<in> set ?m" "r2 = marked ?m e2"
    using assms(1,2) by (auto simp: plan_records)
  have k: "target_key (snd e1) = target_key (snd e2)" using assms(5) e by (simp add: marked_sel)
  have t: "\<not> id_IsZero (rr_RemoteDriveID (snd e)) \<and> rr_RemoteItemID (snd e) \<noteq> ''''" if "projects (marked ?m e)" for e
    using that marked_sel(2) [of ?m e] by (auto simp: projects_def target_key_def id_IsZero_def)
  have "normalizeShortcutRootRecord (snd e1) = normalizeShortcutRootRecord (snd e2)"
    using active_is_first [OF wf e(1)] active_is_first [OF wf e(3)] t [of e1] t [of e2] assms(3,4) e k
    by (simp add: projects_def)
  then have "rr_BindingItemID (snd e1) = rr_BindingItemID (snd e2)" by (metis normalize_sel(2))
  then have "fst e1 = fst e2" using wf e by (simp add: roots_wf_def)
  then have "e1 = e2" using wf e by (metis eq_key_imp_eq_value prod.collapse roots_wf_def)
  then show ?thesis using e by simp
qed

lemma first_repeated_none:
  assumes "distinct is"
  shows "first_repeated is = None"
proof -
  have "is ! n \<notin> set (take n is)" if "n < length is" for n
  proof
    assume "is ! n \<in> set (take n is)"
    then obtain k where "k < n" "is ! k = is ! n" using that by (auto simp: in_set_conv_nth)
    then show False using that assms by (simp add: nth_eq_iff_index_eq)
  qed
  then have "find (\<lambda>n. is ! n \<in> set (take n is)) [0..<length is] = None" unfolding find_None_iff by simp
  then show ?thesis by (simp add: first_repeated_def)
qed

lemma replace_distinct:
  "distinct (map rr_BindingItemID rs) \<Longrightarrow> replaceShortcutRoots rs table = (None, map normalizeShortcutRootRecord rs)"
  by (simp add: replaceShortcutRoots_def first_repeated_none comp_def)

lemma plan_bindings:
  "mset (map rr_BindingItemID (fst (planShortcutRootTopology iter current b))) = mset (map fst (fst (topology_map iter current b)))"
proof -
  let ?m = "fst (topology_map iter current b)"
  have "\<forall>e \<in> set ?m. rr_BindingItemID (snd e) = fst e" using topology_map_wf by (auto simp: grows_def roots_wf_def)
  then have ids: "map (\<lambda>e. rr_BindingItemID (marked ?m e)) ?m = map fst ?m" by (simp add: marked_sel)
  have "mset (fst (planShortcutRootTopology iter current b)) = mset (map (marked ?m) ?m)"
    by (simp add: plan_is_marked markDuplicateShortcutTargets_def applyDuplicateShortcutTargetDetails_def Let_def marked_def [abs_def]
        comp_def duplicate_entry_def entry_record_def)
  then have "mset (map rr_BindingItemID (fst (planShortcutRootTopology iter current b))) =
      mset (map (\<lambda>e. rr_BindingItemID (marked ?m e)) ?m)"
    by (simp only: mset_map multiset.map_comp comp_def)
  then show ?thesis by (simp only: ids)
qed

lemma plan_distinct: "distinct (map rr_BindingItemID (fst (planShortcutRootTopology iter current b)))"
  using topology_map_wf [of current iter b] mset_eq_imp_distinct_iff [OF plan_bindings [of iter current b]]
  by (auto simp: grows_def roots_wf_def)

lemma plan_keeps:
  "rr_BindingItemID ` set current - {''''} \<subseteq> rr_BindingItemID ` set (fst (planShortcutRootTopology iter current b))"
proof -
  have "rr_BindingItemID ` set (fst (planShortcutRootTopology iter current b)) = bindings (fst (topology_map iter current b))"
    using mset_eq_setD [OF plan_bindings [of iter current b]] by (simp add: bindings_def)
  then show ?thesis using topology_map_wf [of current iter b] by_binding_wf [of current] by (auto simp: grows_def)
qed

text \<open>
  C23: a topology plan can always be stored and loses no root: its records have distinct bindings,
  which is the primary key of the table, every binding the current records know is still there
  (a removed shortcut is kept as a record that drains), and so applying a batch never fails at the table.
\<close>

theorem topology_plan_storable:
  "distinct (map rr_BindingItemID (fst (planShortcutRootTopology iter current b))) \<and>
   rr_BindingItemID ` set current - {''''} \<subseteq> rr_BindingItemID ` set (fst (planShortcutRootTopology iter current b)) \<and>
   fst (snd (applyShortcutTopology iter b table)) = None"
proof -
  have "fst (snd (applyShortcutTopology iter b table)) = None"
    by (simp add: applyShortcutTopology_def store_plan_def replace_distinct [OF plan_distinct])
  then show ?thesis using plan_distinct plan_keeps by blast
qed

section \<open>A replacement that is already known\<close>

text \<open>
  A root \<open>A\<close> of the folder \<open>x\<close> drains; the shortcut \<open>B\<close>, known at \<open>y\<close>, is moved to \<open>x\<close>. \<open>B\<close> keeps its
  record and is also stored as the replacement that waits for \<open>A\<close>.
\<close>

definition known_root :: "string \<Rightarrow> string \<Rightarrow> string \<Rightarrow> shortcut_root_state \<Rightarrow> shortcut_root" where
  "known_root i p t st =
     \<lparr>rr_NamespaceID = ''n'', rr_BindingItemID = i, rr_RelativeLocalPath = p, rr_LocalAlias = p,
      rr_RemoteDriveID = New_id ''d'', rr_RemoteItemID = t, rr_RemoteIsFolder = True, rr_State = st,
      rr_ProtectedPaths = [p], rr_BlockedDetail = '''', rr_LocalRootIdentity = None, rr_Waiting = None\<rparr>"

definition known_table :: "shortcut_root list" where
  "known_table =
     [known_root ''A'' ''x'' ''s'' ShortcutRootStateRemovedFinalDrain, known_root ''B'' ''y'' ''t'' ShortcutRootStateActive]"

definition moved_onto :: shortcut_topology_batch where
  "moved_onto =
     \<lparr>tb_NamespaceID = ''n'', tb_Kind = shortcutTopologyObservationIncremental,
      tb_Upserts = [\<lparr>bu_BindingItemID = ''B'', bu_RelativeLocalPath = ''x'', bu_LocalAlias = ''x'', bu_RemoteDriveID = ''d'',
                     bu_RemoteItemID = ''t'', bu_RemoteIsFolder = True, bu_Complete = True\<rparr>],
      tb_Deletes = [], tb_Unavailable = []\<rparr>"

definition after_move :: "shortcut_root list" where
  "after_move = snd (snd (applyShortcutTopology id moved_onto known_table))"

definition after_drain :: "shortcut_root list" where
  "after_drain = snd (snd (markShortcutChildFinalDrainReleasePending ''A'' after_move))"


theorem one_active_root_per_target_witness:
  "let p = fst (planShortcutRootTopology id
                  [known_root ''A'' ''x'' ''t'' ShortcutRootStateActive, known_root ''B'' ''y'' ''t'' ShortcutRootStateActive]
                  (moved_onto\<lparr>tb_Upserts := []\<rparr>))
   in projects (p ! 0) \<and> rr_State (p ! 1) = ShortcutRootStateDuplicateTarget \<and> target_key (p ! 0) = target_key (p ! 1) \<and>
      length p = 2 \<and> p ! 0 = known_root ''A'' ''x'' ''t'' ShortcutRootStateActive"
proof -
  let ?c = "[known_root ''A'' ''x'' ''t'' ShortcutRootStateActive, known_root ''B'' ''y'' ''t'' ShortcutRootStateActive]"
  let ?b = "moved_onto\<lparr>tb_Upserts := []\<rparr>"
  have e: "fst (planShortcutRootTopology id ?c ?b) =
     [known_root ''A'' ''x'' ''t'' ShortcutRootStateActive,
      known_root ''B'' ''y'' ''t'' ShortcutRootStateDuplicateTarget
        \<lparr>rr_BlockedDetail := ''shortcut target already projected by A at x''\<rparr>]"
    by code_simp
  have p: "projects (known_root ''A'' ''x'' ''t'' ShortcutRootStateActive)" by code_simp
  have k: "target_key (known_root ''A'' ''x'' ''t'' ShortcutRootStateActive) =
    target_key (known_root ''B'' ''y'' ''t'' ShortcutRootStateDuplicateTarget
        \<lparr>rr_BlockedDetail := ''shortcut target already projected by A at x''\<rparr>)" by code_simp
  have "known_root ''A'' ''x'' ''t'' ShortcutRootStateActive = known_root ''A'' ''x'' ''t'' ShortcutRootStateActive"
    by (rule one_active_root_per_target [of _ id ?c ?b]) (simp_all add: e p)
  moreover have "rr_State (known_root ''B'' ''y'' ''t'' ShortcutRootStateDuplicateTarget
      \<lparr>rr_BlockedDetail := ''shortcut target already projected by A at x''\<rparr>) = ShortcutRootStateDuplicateTarget"
    by (simp add: known_root_def)
  ultimately show ?thesis unfolding Let_def e using p k by simp
qed

end
