(* ===== verification/TreePaths.thy ===== *)
theory TreePaths
  imports SyncTree
begin

text \<open>
  The paths the rooted capability accepts: a relative path that is not rejected stands for a list of
  plain names, its full path lies in the root, and the way back gives the same names.
\<close>

section \<open>Component paths\<close>

text \<open>A path below the root as the list of its names; the relative path and the full path it stands for.\<close>

definition name_ok :: "string \<Rightarrow> bool" where
  "name_ok n \<longleftrightarrow> n \<noteq> '''' \<and> n \<noteq> ''.'' \<and> n \<noteq> ''..'' \<and> CHR ''/'' \<notin> set n"

definition names_ok :: "string list \<Rightarrow> bool" where
  "names_ok ps \<longleftrightarrow> list_all name_ok ps"

definition rel_of :: "string list \<Rightarrow> string" where
  "rel_of ps = (if ps = [] then ''.'' else join_with (CHR ''/'') ps)"

text \<open>A clean absolute directory.\<close>

definition root_ok :: "string \<Rightarrow> bool" where
  "root_ok d \<longleftrightarrow> (\<exists>ds. names_ok ds \<and> d = CHR ''/'' # join_with (CHR ''/'') ds)"

definition abs_of :: "string \<Rightarrow> string list \<Rightarrow> string" where
  "abs_of d ps = (if ps = [] then d else CHR ''/'' # join_with (CHR ''/'') (components d @ ps))"

lemma split_join:
  assumes "ps \<noteq> []" "\<forall>p \<in> set ps. c \<notin> set p"
  shows "split_on c (join_with c ps) = ps"
  using assms
proof (induction c ps rule: join_with.induct)
  case (3 c p q qs)
  then show ?case by (simp add: split_on_append)
qed (auto simp: split_on_no_sep)

lemma clean_plain:
  "names_ok ps \<Longrightarrow> (acc = [] \<or> hd acc \<noteq> ''..'') \<Longrightarrow> clean_components rooted acc ps = rev acc @ ps"
proof (induction ps arbitrary: acc)
  case (Cons p ps)
  then show ?case by (simp add: names_ok_def name_ok_def)
qed simp

lemma clean_names:
  "(\<forall>p \<in> set ps. CHR ''/'' \<notin> set p) \<Longrightarrow> names_ok acc \<Longrightarrow> names_ok (clean_components True acc ps)"
proof (induction ps arbitrary: acc)
  case Nil
  then show ?case by (simp add: names_ok_def)
next
  case (Cons p ps)
  then show ?case by (cases acc) (auto simp: names_ok_def name_ok_def)
qed

lemma clean_relative_form:
  assumes "\<forall>p \<in> set ps. CHR ''/'' \<notin> set p" "rev acc = replicate k ''..'' @ ns" "names_ok ns"
  shows "\<exists>k' ns'. clean_components False acc ps = replicate k' ''..'' @ ns' \<and> names_ok ns'"
  using assms
proof (induction ps arbitrary: acc k ns)
  case Nil
  then show ?case by auto
next
  case (Cons p ps)
  show ?case
  proof (cases "p = '''' \<or> p = ''.''")
    case True
    then show ?thesis using Cons.IH [of acc k ns] Cons.prems by auto
  next
    case plain: False
    show ?thesis
    proof (cases "p = ''..''")
      case False
      then have "rev (p # acc) = replicate k ''..'' @ (ns @ [p])" "names_ok (ns @ [p])"
        using plain Cons.prems by (auto simp: names_ok_def name_ok_def)
      from Cons.IH [OF _ this] show ?thesis using plain False Cons.prems(1) by auto
    next
      case True
      show ?thesis
      proof (cases ns rule: rev_cases)
        case Nil
        then have acc: "acc = replicate k ''..''" using Cons.prems(2) by (metis append_Nil2 rev_replicate rev_rev_ident)
        have "clean_components False acc (p # ps) = clean_components False (''..'' # acc) ps"
          using True by (cases k) (simp_all add: acc)
        moreover have "rev (''..'' # acc) = replicate (Suc k) ''..'' @ []" by (simp add: acc replicate_append_same)
        ultimately show ?thesis using Cons.IH [OF _ \<open>rev (''..'' # acc) = _\<close>] Cons.prems(1) by (auto simp: names_ok_def)
      next
        case (snoc ms m)
        then have acc: "acc = m # rev ms @ replicate k ''..''" using Cons.prems(2)
          by (metis append_assoc rev_append rev_replicate rev_rev_ident rev_singleton_conv append_Cons append_Nil)
        have m: "m \<noteq> ''..''" "names_ok ms" using Cons.prems(3) snoc by (auto simp: names_ok_def name_ok_def)
        have "clean_components False acc (p # ps) = clean_components False (rev ms @ replicate k ''..'') ps"
          using True m by (simp add: acc)
        moreover have "rev (rev ms @ replicate k ''..'') = replicate k ''..'' @ ms" by simp
        ultimately show ?thesis using Cons.IH [OF _ \<open>rev (rev ms @ _) = _\<close> m(2)] Cons.prems(1) by auto
      qed
    qed
  qed
qed

lemma join_up: "join_with (CHR ''/'') (''..'' # qs) = ''..'' \<or> has_prefix (join_with (CHR ''/'') (''..'' # qs)) ''../''"
  by (cases qs) (auto simp: has_prefix_def)

lemma rel_of_join: "ps \<noteq> [] \<Longrightarrow> rel_of ps = join_with (CHR ''/'') ps"
  by (simp add: rel_of_def)

lemma join_Nil_iff: "[] \<notin> set qs \<Longrightarrow> join_with c qs = [] \<longleftrightarrow> qs = []"
  by (cases "(c, qs)" rule: join_with.cases) auto

lemma path_clean_rel:
  assumes "\<not> path_is_abs p"
  shows "\<exists>k ns. names_ok ns \<and> path_clean p = rel_of (replicate k ''..'' @ ns)"
proof -
  obtain k ns where "clean_components False [] (split_on (CHR ''/'') p) = replicate k ''..'' @ ns" "names_ok ns"
    using clean_relative_form [of "split_on (CHR ''/'') p" "[]" 0 "[]"] split_on_parts by (auto simp: names_ok_def)
  moreover have "'''' \<notin> set (replicate k ''..'' @ ns)" using \<open>names_ok ns\<close> by (auto simp: names_ok_def name_ok_def list_all_iff)
  ultimately have "path_clean p = rel_of (replicate k ''..'' @ ns)"
    using assms by (auto simp: path_clean_def path_is_abs_def rel_of_def Let_def join_Nil_iff)
  then show ?thesis using \<open>names_ok ns\<close> by blast
qed

text \<open>The paths an operation accepts are the lists of plain names.\<close>

lemma cleanRelative_names:
  assumes "cleanRelative p = Inr c"
  shows "\<exists>ps. names_ok ps \<and> c = rel_of ps"
proof (cases "p = ''''")
  case True
  then show ?thesis using assms by (auto simp: cleanRelative_def names_ok_def rel_of_def intro!: exI [of _ "[]"])
next
  case False
  then have abs: "\<not> path_is_abs p" and c: "c = path_clean p" "c \<noteq> ''..''" "\<not> has_prefix c ''../''"
    using assms by (auto simp: cleanRelative_def Let_def split: if_splits)
  obtain k ns where n: "names_ok ns" "path_clean p = rel_of (replicate k ''..'' @ ns)" using path_clean_rel [OF abs] by blast
  have "k = 0"
  proof (rule ccontr)
    assume "k \<noteq> 0"
    then obtain k' where "k = Suc k'" by (cases k) auto
    then have "c = join_with (CHR ''/'') (''..'' # (replicate k' ''..'' @ ns))" using c(1) n(2) by (simp add: rel_of_def)
    then show False using join_up [of "replicate k' ''..'' @ ns"] c(2,3) by simp
  qed
  then show ?thesis using n c(1) by auto
qed

lemma names_ok_append [simp]: "names_ok (ps @ qs) \<longleftrightarrow> names_ok ps \<and> names_ok qs"
  by (simp add: names_ok_def)

lemma names_ok_Cons [simp]: "names_ok (p # ps) \<longleftrightarrow> name_ok p \<and> names_ok ps"
  by (simp add: names_ok_def)

lemma names_ok_Nil [simp]: "names_ok []"
  by (simp add: names_ok_def)

lemma names_no_slash: "names_ok ps \<Longrightarrow> \<forall>p \<in> set ps. CHR ''/'' \<notin> set p \<and> p \<noteq> ''''"
  by (auto simp: names_ok_def name_ok_def list_all_iff)

lemma components_join: "names_ok ps \<Longrightarrow> components (CHR ''/'' # join_with (CHR ''/'') ps) = ps"
  using names_no_slash [of ps]
  by (cases "ps = []") (auto simp: components_def split_join intro!: filter_True)

lemma clean_plain_path:
  "names_ok ps \<Longrightarrow> path_clean (CHR ''/'' # join_with (CHR ''/'') ps) = CHR ''/'' # join_with (CHR ''/'') ps"
  using names_no_slash [of ps] clean_plain [of ps "[]" True]
  by (cases "ps = []") (auto simp: path_clean_def has_prefix_def Let_def split_join)

lemma path_clean_abs:
  assumes "path_is_abs p"
  shows "\<exists>ns. names_ok ns \<and> path_clean p = CHR ''/'' # join_with (CHR ''/'') ns"
proof -
  have "names_ok (clean_components True [] (split_on (CHR ''/'') p))"
    by (rule clean_names) (auto dest: split_on_parts)
  then show ?thesis using assms by (auto simp: path_clean_def path_is_abs_def Let_def)
qed

lemma root_okE:
  assumes "root_ok d"
  obtains ds where "names_ok ds" "components d = ds" "d = CHR ''/'' # join_with (CHR ''/'') ds" "path_clean d = d"
  using assms components_join clean_plain_path by (auto simp: root_ok_def)

lemma clean_append:
  assumes "\<forall>p \<in> set ps. CHR ''/'' \<notin> set p"
  shows "clean_components rooted acc (ps @ qs) =
    (let k = clean_components rooted acc ps in clean_components rooted (rev k) qs)"
  using assms
proof (induction ps arbitrary: acc)
  case (Cons p ps)
  then show ?case by (cases acc) auto
qed simp

lemma split_append: "split_on c (s @ c # t) = split_on c s @ split_on c t"
proof (induction s)
  case (Cons x xs)
  then show ?case by (cases "split_on c xs") auto
qed simp

lemma join_rooted:
  assumes "root_ok d" "names_ok ps" "ps \<noteq> []"
  shows "path_join d (join_with (CHR ''/'') ps) = abs_of d ps"
proof -
  obtain ds where ds: "names_ok ds" "components d = ds" "d = CHR ''/'' # join_with (CHR ''/'') ds"
    using root_okE [OF assms(1)] by blast
  have j: "join_with (CHR ''/'') ps \<noteq> ''''" using names_no_slash [OF assms(2)] assms(3) join_Nil_iff by blast
  have sp: "split_on (CHR ''/'') (join_with (CHR ''/'') ps) = ps"
    using split_join [OF assms(3)] names_no_slash [OF assms(2)] by blast
  have sd: "split_on (CHR ''/'') (join_with (CHR ''/'') ds) = (if ds = [] then [''''] else ds)"
    using split_join [of ds] names_no_slash [OF ds(1)] by auto
  have "clean_components True [] (split_on (CHR ''/'') (d @ CHR ''/'' # join_with (CHR ''/'') ps)) = ds @ ps"
    using clean_plain [of "ds @ ps" "[]" True] clean_plain [of ps "[]" True] ds(1) assms(2)
    by (auto simp: ds(3) split_append sp sd)
  then show ?thesis using j assms(3) components_join [OF ds(1)]
    by (simp add: path_join_def abs_of_def path_clean_def Let_def ds(3) has_prefix_def)
qed

lemma target_of_names:
  assumes "root_ok d" "names_ok ps"
  shows "target_of d (rel_of ps) = abs_of d ps"
proof (cases "ps = []")
  case True
  then show ?thesis by (simp add: target_of_def rel_of_def abs_of_def)
next
  case False
  have "join_with (CHR ''/'') ps \<noteq> ''.''"
  proof
    assume "join_with (CHR ''/'') ps = ''.''"
    then have "ps = split_on (CHR ''/'') ''.''"
      using split_join [OF False, of "CHR ''/''"] names_no_slash [OF assms(2)] by auto
    then show False using assms(2) by (simp add: name_ok_def)
  qed
  then show ?thesis using False join_rooted [OF assms False] by (simp add: target_of_def rel_of_def)
qed

lemma clean_rel_of: "names_ok ps \<Longrightarrow> cleanRelative (rel_of ps) = Inr (rel_of ps)"
proof (cases "ps = []")
  case True
  then show ?thesis by (simp add: cleanRelative_def rel_of_def path_is_abs_def has_prefix_def path_clean_def)
next
  case False
  assume ok: "names_ok ps"
  obtain p qs where p: "ps = p # qs" using False by (cases ps) auto
  let ?j = "join_with (CHR ''/'') ps"
  have j: "?j \<noteq> ''''" using names_no_slash [OF ok] False join_Nil_iff by blast
  have sp: "split_on (CHR ''/'') ?j = ps" using split_join [OF False] names_no_slash [OF ok] by blast
  have n: "\<not> has_prefix ?j ''/''"
  proof
    assume "has_prefix ?j ''/''"
    then have "hd (split_on (CHR ''/'') ?j) = ''''" by (auto simp: has_prefix_iff)
    then show False using ok sp p by (simp add: name_ok_def)
  qed
  have c: "path_clean ?j = ?j" using clean_plain [OF ok, of "[]" False] n j by (simp add: path_clean_def Let_def sp)
  have "?j \<noteq> ''..'' \<and> \<not> has_prefix ?j ''../''"
  proof -
    have "hd (split_on (CHR ''/'') ?j) \<noteq> ''..''" using ok sp p by (simp add: name_ok_def)
    then show ?thesis by (auto simp: has_prefix_iff)
  qed
  then show ?thesis using n j c False by (simp add: cleanRelative_def rel_of_def path_is_abs_def Let_def)
qed

lemma join_snoc: "ps \<noteq> [] \<Longrightarrow> join_with c (ps @ [p]) = join_with c ps @ c # p"
  by (induction c ps rule: join_with.induct) auto

lemma path_join_child:
  assumes "names_ok ps" "name_ok c"
  shows "path_join (rel_of ps) c = rel_of (ps @ [c])"
proof -
  let ?qs = "ps @ [c]"
  have c: "c \<noteq> ''''" "CHR ''/'' \<notin> set c" using assms(2) by (auto simp: name_ok_def)
  have clean: "path_clean (join_with (CHR ''/'') ?qs) = join_with (CHR ''/'') ?qs"
    using clean_rel_of [of ?qs] assms by (auto simp: cleanRelative_def rel_of_def Let_def split: if_splits)
  show ?thesis
  proof (cases "ps = []")
    case True
    have "path_clean (''./'' @ c) = c"
      using c assms(2) by (simp add: path_clean_def has_prefix_def Let_def split_on_no_sep name_ok_def)
    then show ?thesis using True c by (simp add: path_join_def rel_of_def)
  next
    case False
    have "join_with (CHR ''/'') ps \<noteq> ''''" using names_no_slash [OF assms(1)] False join_Nil_iff by blast
    then show ?thesis using False c clean by (simp add: path_join_def rel_of_def join_snoc)
  qed
qed

lemma tree_Abs_names:
  assumes "root_ok (rt_dir r)"
  shows "tree_Abs r rel = Inr p \<longleftrightarrow> (\<exists>ps. names_ok ps \<and> cleanRelative rel = Inr (rel_of ps) \<and> p = abs_of (rt_dir r) ps)"
proof
  assume "tree_Abs r rel = Inr p"
  then obtain c where c: "cleanRelative rel = Inr c" "p = target_of (rt_dir r) c" by (cases "cleanRelative rel") (auto simp: tree_Abs_def)
  then obtain ps where "names_ok ps" "c = rel_of ps" using cleanRelative_names by blast
  then show "\<exists>ps. names_ok ps \<and> cleanRelative rel = Inr (rel_of ps) \<and> p = abs_of (rt_dir r) ps"
    using c target_of_names [OF assms] by auto
qed (auto simp: tree_Abs_def target_of_names [OF assms])

lemma strip_common_iff: "strip_common as bs = ([], down) \<longleftrightarrow> bs = as @ down"
  by (induction as bs rule: strip_common.induct) auto

lemma strip_common_down: "strip_common as bs = (up, down) \<Longrightarrow> \<exists>pre. bs = pre @ down"
  by (induction as bs rule: strip_common.induct) (auto split: if_splits)

lemma clean_ups: "names_ok ns \<Longrightarrow> clean_components False (replicate j ''..'') (replicate k ''..'' @ ns) = replicate (j + k) ''..'' @ ns"
proof (induction k arbitrary: j)
  case 0
  then show ?case
  proof (cases ns)
    case (Cons n ms)
    then show ?thesis using 0 clean_plain [of ms "n # replicate j ''..''" False] by (auto simp: name_ok_def)
  qed simp
next
  case (Suc k)
  then show ?case using Suc.IH [of "Suc j"] by (cases j) auto
qed

lemma up_rejected:
  assumes "names_ok ns"
  shows "\<exists>e. cleanRelative (join_with (CHR ''/'') (''..'' # replicate k ''..'' @ ns)) = Inl e"
proof -
  let ?l = "''..'' # replicate k ''..'' @ ns" and ?j = "join_with (CHR ''/'') (''..'' # replicate k ''..'' @ ns)"
  have s: "split_on (CHR ''/'') ?j = ?l" by (rule split_join) (use names_no_slash [OF assms] in auto)
  have n: "\<not> has_prefix ?j ''/''" by (cases "replicate k ''..'' @ ns") (auto simp: has_prefix_def)
  have "clean_components False [] ?l = ?l" using clean_ups [OF assms, of 0 "Suc k"] by simp
  then have "path_clean ?j = ?j" using n join_up [of "replicate k ''..'' @ ns"] s by (auto simp: path_clean_def Let_def has_prefix_def)
  then show ?thesis using n join_up [of "replicate k ''..'' @ ns"] by (auto simp: cleanRelative_def path_is_abs_def Let_def has_prefix_def)
qed

lemma tree_Rel_names:
  assumes "root_ok (rt_dir r)" "path_is_abs p"
  shows "tree_Rel r p w = Inr rel \<longleftrightarrow> (\<exists>ps. names_ok ps \<and> path_clean p = abs_of (rt_dir r) ps \<and> rel = rel_of ps)"
proof -
  obtain ds where ds: "names_ok ds" "components (rt_dir r) = ds" "rt_dir r = CHR ''/'' # join_with (CHR ''/'') ds" "path_clean (rt_dir r) = rt_dir r"
    using root_okE [OF assms(1)] by blast
  obtain ns where ns: "names_ok ns" "path_clean p = CHR ''/'' # join_with (CHR ''/'') ns" using path_clean_abs [OF assms(2)] by blast
  have cp: "components (path_clean p) = ns" "path_clean (path_clean p) = path_clean p"
    using components_join [OF ns(1)] clean_plain_path [OF ns(1)] ns(2) by auto
  have r: "tree_Rel r p w = cleanRelative (filepath_Rel (rt_dir r) (path_clean p))"
    using assms(2) ns(2) by (auto simp: tree_Rel_def relativeFromAbs_def path_is_abs_def has_prefix_def Let_def)
  obtain up down where ud: "strip_common ds ns = (up, down)" by fastforce
  then have down: "names_ok down" using strip_common_down [OF ud] ns(1) by auto
  have fr: "filepath_Rel (rt_dir r) (path_clean p) = rel_of (map (\<lambda>_. ''..'') up @ down)"
    by (simp add: filepath_Rel_def cp ds(2) ds(4) ud Let_def rel_of_def)
  have inj: "path_clean p = abs_of (rt_dir r) ps \<longleftrightarrow> ns = ds @ ps" if "names_ok ps" for ps
  proof -
    have "path_clean p = CHR ''/'' # join_with (CHR ''/'') (ds @ ps) \<longleftrightarrow> ns = ds @ ps"
    proof
      assume "path_clean p = CHR ''/'' # join_with (CHR ''/'') (ds @ ps)"
      then have "components (path_clean p) = ds @ ps" using components_join [of "ds @ ps"] ds(1) that by simp
      then show "ns = ds @ ps" using cp(1) by simp
    qed (use ns(2) in simp)
    moreover have "abs_of (rt_dir r) ps = CHR ''/'' # join_with (CHR ''/'') (ds @ ps)"
      unfolding abs_of_def ds(2) using ds(3) by simp
    ultimately show ?thesis by simp
  qed
  show ?thesis
  proof (cases up)
    case Nil
    then have "ns = ds @ down" using ud strip_common_iff by simp
    then show ?thesis using r fr Nil clean_rel_of [OF down] down inj by auto
  next
    case (Cons u us)
    have "ns \<noteq> ds @ ps" for ps using ud Cons strip_common_iff [of ds ns ps] by auto
    moreover have "map (\<lambda>_. ''..'') up @ down = ''..'' # replicate (length us) ''..'' @ down"
      using Cons by (simp add: map_replicate_const)
    ultimately show ?thesis using r fr up_rejected [OF down, of "length us"] inj by (auto simp: rel_of_def)
  qed
qed

text \<open>
  C21: the root is a boundary for paths. A relative path that is accepted becomes a path in the root
  (the root itself or a path below it, with no dots left), and turning that path back gives the cleaned
  relative path; an absolute path is accepted exactly when, once cleaned, it lies in the root.
\<close>

theorem root_paths_exact:
  fixes r :: "'w sync_root"
  assumes "root_ok (rt_dir r)"
  shows "(tree_Abs r rel = Inr p \<longrightarrow>
            (\<exists>ps. names_ok ps \<and> p = abs_of (rt_dir r) ps) \<and> tree_Rel r p w = cleanRelative rel) \<and>
         (path_is_abs q \<longrightarrow>
            (tree_Rel r q w = Inr rel') = (\<exists>ps. names_ok ps \<and> path_clean q = abs_of (rt_dir r) ps \<and> rel' = rel_of ps))"
proof (intro conjI impI)
  assume "tree_Abs r rel = Inr p"
  then obtain ps where ps: "names_ok ps" "cleanRelative rel = Inr (rel_of ps)" "p = abs_of (rt_dir r) ps"
    using tree_Abs_names [OF assms] by blast
  obtain ds where ds: "names_ok ds" "components (rt_dir r) = ds" "rt_dir r = CHR ''/'' # join_with (CHR ''/'') ds"
    using root_okE [OF assms] by blast
  have p: "p = CHR ''/'' # join_with (CHR ''/'') (ds @ ps)" using ps(3) ds by (simp add: abs_of_def)
  have "path_is_abs p" "path_clean p = p" using clean_plain_path [of "ds @ ps"] ds(1) ps(1) by (auto simp: p path_is_abs_def has_prefix_def)
  then have "tree_Rel r p w = Inr (rel_of ps)" using tree_Rel_names [OF assms, of p w "rel_of ps"] ps by auto
  then show "\<exists>ps. names_ok ps \<and> p = abs_of (rt_dir r) ps" "tree_Rel r p w = cleanRelative rel" using ps by auto
next
  assume "path_is_abs q"
  then show "(tree_Rel r q w = Inr rel') = (\<exists>ps. names_ok ps \<and> path_clean q = abs_of (rt_dir r) ps \<and> rel' = rel_of ps)"
    by (rule tree_Rel_names [OF assms])
qed

end
