(* ===== verification/TreeLaws.thy ===== *)
theory TreeLaws
  imports TreePaths "HOL-Library.Sublist"
begin

text \<open>
  What the rooted capability does to a tree of files. A view gives the entries of a world by the names
  on their path. The interface \<open>posix_tree\<close> has the documented behaviour of the calls of the operating
  system on paths whose folders are real directories (a path without links on the way is found only through
  directories); a call may also fail, and then leaves the tree as it was, except for a recursive removal, which may stop
  half way.
\<close>

record tree_entry =
  te_Info :: tree_info
  te_Data :: string

type_synonym tree_view = "string list \<rightharpoonup> tree_entry"

definition is_dir :: "tree_view \<Rightarrow> string list \<Rightarrow> bool" where
  "is_dir V ps \<longleftrightarrow> (case V ps of Some e \<Rightarrow> ti_Kind (te_Info e) = EntryDir | None \<Rightarrow> False)"

definition is_link :: "tree_view \<Rightarrow> string list \<Rightarrow> bool" where
  "is_link V ps \<longleftrightarrow> (case V ps of Some e \<Rightarrow> ti_Kind (te_Info e) = EntrySymlink | None \<Rightarrow> False)"

text \<open>Every folder on the way to the path is a directory and no link.\<close>

definition plain :: "tree_view \<Rightarrow> string list \<Rightarrow> bool" where
  "plain V ps \<longleftrightarrow> (\<forall>q. strict_prefix q ps \<longrightarrow> is_dir V q)"

text \<open>Only entries under the path are gone, and nothing is changed.\<close>

definition only_removed_under :: "string list \<Rightarrow> tree_view \<Rightarrow> tree_view \<Rightarrow> bool" where
  "only_removed_under ps V V' \<longleftrightarrow>
     (\<forall>q. \<not> prefix ps q \<longrightarrow> V' q = V q) \<and> (\<forall>q. V' q \<noteq> None \<longrightarrow> V' q = V q)"

text \<open>The subtree at the first path is at the second one.\<close>

definition moved :: "string list \<Rightarrow> string list \<Rightarrow> tree_view \<Rightarrow> tree_view" where
  "moved src dst V q =
     (if prefix dst q then V (src @ drop (length dst) q) else if prefix src q then None else V q)"

locale posix_tree =
  fixes r :: "'w sync_root" and V :: "'w \<Rightarrow> tree_view"
  assumes root: "root_ok (rt_dir r)"
    and tree: "V w (ps @ [n]) \<noteq> None \<Longrightarrow> is_dir (V w) ps"
    and names: "V w ps \<noteq> None \<Longrightarrow> names_ok ps"
    and lstat_found: "names_ok ps \<Longrightarrow> plain (V w) ps \<Longrightarrow> ro_Lstat (rt_ops r) (rt_dir r) (rel_of ps) w = Inr i \<Longrightarrow>
        map_option te_Info (V w ps) = Some i"
    and lstat_missing: "names_ok ps \<Longrightarrow> plain (V w) ps \<Longrightarrow> ro_Lstat (rt_ops r) (rt_dir r) (rel_of ps) w = Inl e \<Longrightarrow>
        is_err e KNotExist \<Longrightarrow> V w ps = None"
    and path_missing: "names_ok ps \<Longrightarrow> plain (V w) ps \<Longrightarrow> ro_lstat (rt_ops r) (abs_of (rt_dir r) ps) w = Inl e \<Longrightarrow>
        is_err e KNotExist \<Longrightarrow> V w ps = None"
    and stat_found: "names_ok ps \<Longrightarrow> plain (V w) ps \<Longrightarrow> ro_Stat (rt_ops r) (rt_dir r) (rel_of ps) w = Inr i \<Longrightarrow>
        \<exists>e. V w ps = Some e \<and> (te_Info e = i \<or> ti_Kind (te_Info e) = EntrySymlink)"
    and stat_missing: "names_ok ps \<Longrightarrow> plain (V w) ps \<Longrightarrow> ro_Stat (rt_ops r) (rt_dir r) (rel_of ps) w = Inl e \<Longrightarrow>
        is_err e KNotExist \<Longrightarrow> (case V w ps of None \<Rightarrow> True | Some x \<Rightarrow> ti_Kind (te_Info x) = EntrySymlink)"
    and lstat_through: "names_ok ps \<Longrightarrow> (\<forall>q. strict_prefix q ps \<longrightarrow> \<not> is_link (V w) q) \<Longrightarrow>
        ro_Lstat (rt_ops r) (rt_dir r) (rel_of ps) w = Inr i \<Longrightarrow> plain (V w) ps"
    and stat_through: "names_ok ps \<Longrightarrow> (\<forall>q. strict_prefix q ps \<longrightarrow> \<not> is_link (V w) q) \<Longrightarrow>
        ro_Stat (rt_ops r) (rt_dir r) (rel_of ps) w = Inr i \<Longrightarrow> plain (V w) ps"
    and readdir: "names_ok ps \<Longrightarrow> plain (V w) ps \<Longrightarrow> is_dir (V w) ps \<Longrightarrow>
        ro_ReadDir (rt_ops r) (rt_dir r) (rel_of ps) w = Inr es \<Longrightarrow>
        distinct (map fst es) \<and> (\<forall>n d. (n, d) \<in> set es \<longleftrightarrow> V w (ps @ [n]) \<noteq> None \<and> d = is_dir (V w) (ps @ [n]))"
    and remove: "names_ok ps \<Longrightarrow> plain (V w) ps \<Longrightarrow> ro_remove (rt_ops r) (abs_of (rt_dir r) ps) w = (res, w') \<Longrightarrow>
        (if res = None then V w ps \<noteq> None \<and> (\<forall>n. V w (ps @ [n]) = None) \<and> V w' = (V w)(ps := None) else V w' = V w)"
    and rmdir: "names_ok ps \<Longrightarrow> plain (V w) ps \<Longrightarrow> ro_rmdir (rt_ops r) (abs_of (rt_dir r) ps) w = (res, w') \<Longrightarrow>
        (if res = None then is_dir (V w) ps \<and> (\<forall>n. V w (ps @ [n]) = None) \<and> V w' = (V w)(ps := None) else V w' = V w)"
    and remove_all: "names_ok ps \<Longrightarrow> plain (V w) ps \<Longrightarrow> ro_removeAll (rt_ops r) (abs_of (rt_dir r) ps) w = (res, w') \<Longrightarrow>
        only_removed_under ps (V w) (V w')"
    and rename: "names_ok src \<Longrightarrow> names_ok dst \<Longrightarrow> plain (V w) src \<Longrightarrow> plain (V w) dst \<Longrightarrow> V w dst = None \<Longrightarrow>
        \<not> prefix src dst \<Longrightarrow> ro_rename (rt_ops r) (abs_of (rt_dir r) src) (abs_of (rt_dir r) dst) w = (res, w') \<Longrightarrow>
        V w' = (if res = None then moved src dst (V w) else V w) \<and> (res = None \<longrightarrow> V w src \<noteq> None)"

context posix_tree
begin

lemma abs_rel:
  assumes "names_ok ps"
  shows "tree_Abs r (rel_of ps) = Inr (abs_of (rt_dir r) ps)"
  using assms clean_rel_of tree_Abs_names [OF root] by blast

lemma normalize_missing:
  assumes "names_ok ps" "plain (V w) ps" "is_err (normalizeNotExist r (abs_of (rt_dir r) ps) e w) KNotExist"
  shows "V w ps = None \<or> is_err e KNotExist"
  using assms path_missing [OF assms(1,2)] by (auto simp: normalizeNotExist_def split: sum.splits if_splits)

text \<open>An answer of a root handle is the answer of the call; a missing entry is missing.\<close>

lemma with_root_found:
  assumes "names_ok ps" "with_root r (rel_of ps) said act w = Inr x"
  shows "act (rel_of ps) w = Inr x"
  using assms by (auto simp: with_root_def clean_rel_of Let_def split: option.splits sum.splits)

lemma lstat:
  assumes "names_ok ps" "plain (V w) ps" "tree_Lstat r (rel_of ps) w = Inr i"
  shows "map_option te_Info (V w ps) = Some i"
proof (rule lstat_found [OF assms(1,2)])
  show "ro_Lstat (rt_ops r) (rt_dir r) (rel_of ps) w = Inr i"
    by (rule with_root_found [OF assms(1)]) (use assms(3) in \<open>simp only: tree_Lstat_def statWithRoot_def\<close>)
qed

lemma read_dir:
  assumes "names_ok ps" "plain (V w) ps" "is_dir (V w) ps" "tree_ReadDir r (rel_of ps) w = Inr es"
  shows "distinct (map fst es) \<and> (\<forall>n d. (n, d) \<in> set es \<longleftrightarrow> V w (ps @ [n]) \<noteq> None \<and> d = is_dir (V w) (ps @ [n]))"
proof (rule readdir [OF assms(1-3)])
  show "ro_ReadDir (rt_ops r) (rt_dir r) (rel_of ps) w = Inr es"
    by (rule with_root_found [OF assms(1)]) (use assms(4) in \<open>simp only: tree_ReadDir_def\<close>)
qed

lemma tree_remove:
  assumes "names_ok ps" "plain (V w) ps" "tree_Remove r (rel_of ps) w = (res, w')"
  shows "if res = None then V w ps \<noteq> None \<and> (\<forall>n. V w (ps @ [n]) = None) \<and> V w' = (V w)(ps := None) else V w' = V w"
proof -
  obtain res' where "ro_remove (rt_ops r) (abs_of (rt_dir r) ps) w = (res', w')" "res = None \<longleftrightarrow> res' = None"
    using assms(3) by (auto simp: tree_Remove_def at_path_def abs_rel [OF assms(1)] split: prod.splits option.splits)
  then show ?thesis using remove [OF assms(1,2)] by auto
qed

lemma descendants:
  assumes "V w ps = None"
  shows "V w (ps @ t) = None"
proof (induction t rule: rev_induct)
  case (snoc n t)
  then show ?case using tree [of w "ps @ t" n] by (cases "V w (ps @ t @ [n])") (simp_all add: is_dir_def)
qed (use assms in simp)

end

lemma strict_prefix_snoc_iff: "strict_prefix q (ps @ [n]) \<longleftrightarrow> q = ps \<or> strict_prefix q ps"
  unfolding strict_prefix_def prefix_snoc by (auto dest: prefix_length_le)

lemma plain_snoc: "plain V (ps @ [n]) \<longleftrightarrow> plain V ps \<and> is_dir V ps"
  unfolding plain_def strict_prefix_snoc_iff by blast

lemma plain_cong: "(\<And>q. strict_prefix q ps \<Longrightarrow> V' q = V q) \<Longrightarrow> plain V' ps = plain V ps"
  by (simp add: plain_def is_dir_def)

lemma above_not_below: "prefix q ps \<Longrightarrow> \<not> prefix (ps @ [c]) q"
  using prefix_length_le [of q ps] prefix_length_le [of "ps @ [c]" q] by auto

lemma under_child: "prefix (ps @ [c]) q \<Longrightarrow> strict_prefix ps q"
  by (auto simp: strict_prefix_def prefix_def)

lemma children_set:
  assumes "\<And>n d. (n, d) \<in> set es \<longleftrightarrow> P n \<and> d = f n"
  shows "fst ` set es = {n. P n}"
proof (intro set_eqI iffI)
  fix n assume "n \<in> fst ` set es"
  then obtain d where "(n, d) \<in> set es" by auto
  then show "n \<in> {n. P n}" using assms by simp
next
  fix n assume "n \<in> {n. P n}"
  then have "(n, f n) \<in> set es" using assms by simp
  then show "n \<in> fst ` set es" by (rule image_eqI [rotated]) simp
qed

text \<open>Links and special files stay.\<close>

definition keeps_special :: "tree_view \<Rightarrow> tree_view \<Rightarrow> bool" where
  "keeps_special V V' \<longleftrightarrow>
     (\<forall>q e. V q = Some e \<longrightarrow> ti_Kind (te_Info e) \<in> {EntrySymlink, EntrySpecial} \<longrightarrow> V' q = Some e)"

definition tree_removed :: "string list \<Rightarrow> tree_view \<Rightarrow> tree_view \<Rightarrow> os_error option \<Rightarrow> bool" where
  "tree_removed ps V V' res \<longleftrightarrow> only_removed_under ps V V' \<and> keeps_special V V' \<and> (res = None \<longrightarrow> V' ps = None)"

definition children_removed :: "string list \<Rightarrow> string list \<Rightarrow> tree_view \<Rightarrow> tree_view \<Rightarrow> os_error option \<Rightarrow> bool" where
  "children_removed ps cs V V' res \<longleftrightarrow>
     (\<forall>q. \<not> strict_prefix ps q \<longrightarrow> V' q = V q) \<and> (\<forall>q. V' q \<noteq> None \<longrightarrow> V' q = V q) \<and> keeps_special V V' \<and>
     (res = None \<longrightarrow> (\<forall>c \<in> set cs. V' (ps @ [c]) = None))"

lemma children_cons:
  assumes first: "tree_removed (ps @ [c]) V V1 None" and rest: "children_removed ps cs V1 V2 res"
  shows "children_removed ps (c # cs) V V2 res"
proof -
  have same: "V1 q = V q" if "\<not> strict_prefix ps q" for q
    using first that under_child [of ps c q] unfolding tree_removed_def only_removed_under_def by blast
  have sub1: "V1 q \<noteq> None \<Longrightarrow> V1 q = V q" for q using first by (simp add: tree_removed_def only_removed_under_def)
  have sub2: "V2 q \<noteq> None \<Longrightarrow> V2 q = V1 q" for q using rest by (simp add: children_removed_def)
  have "V2 (ps @ [c]) = None" using first sub2 [of "ps @ [c]"] by (cases "V2 (ps @ [c])") (simp_all add: tree_removed_def)
  moreover have "V2 q \<noteq> None \<longrightarrow> V2 q = V q" for q using sub1 [of q] sub2 [of q] by auto
  moreover have "keeps_special V V2" using first rest unfolding tree_removed_def children_removed_def keeps_special_def by blast
  ultimately show ?thesis using rest same unfolding children_removed_def by simp
qed

lemma children_first_fails:
  assumes "tree_removed (ps @ [c]) V V1 (Some e)"
  shows "children_removed ps (c # cs) V V1 (Some e)"
proof -
  have "V1 q = V q" if "\<not> strict_prefix ps q" for q
    using assms that under_child [of ps c q] unfolding tree_removed_def only_removed_under_def by blast
  then show ?thesis using assms unfolding tree_removed_def children_removed_def only_removed_under_def by simp
qed

context posix_tree
begin

lemma children_removal:
  assumes IH: "\<And>ps w res w'. names_ok ps \<Longrightarrow> ps \<noteq> [] \<Longrightarrow> plain (V w) ps \<Longrightarrow> remove_tree r n (rel_of ps) w = Some (res, w') \<Longrightarrow>
      tree_removed ps (V w) (V w') res"
    and "names_ok ps" "plain (V w) ps" "is_dir (V w) ps" "names_ok cs" "remove_children r n (rel_of ps) cs w = Some (res, w')"
  shows "children_removed ps cs (V w) (V w') res"
  using assms(2-)
proof (induction cs arbitrary: w)
  case Nil
  then show ?case by (simp add: children_removed_def keeps_special_def)
next
  case (Cons c cs)
  have j: "path_join (rel_of ps) c = rel_of (ps @ [c])" using path_join_child Cons.prems(1,4) by simp
  obtain r1 w1 where first: "remove_tree r n (rel_of (ps @ [c])) w = Some (r1, w1)"
    using Cons.prems(5) by (auto simp: j split: option.splits)
  have t: "tree_removed (ps @ [c]) (V w) (V w1) r1"
    by (rule IH [OF _ _ _ first]) (use Cons.prems plain_snoc in auto)
  show ?case
  proof (cases r1)
    case (Some e)
    then have "res = Some e" "w' = w1" using Cons.prems(5) first by (auto simp: j)
    then show ?thesis using t Some children_first_fails by simp
  next
    case None
    have same: "V w1 q = V w q" if "prefix q ps" for q
      using t above_not_below [OF that] by (simp add: tree_removed_def only_removed_under_def)
    have "plain (V w1) ps" using plain_cong [of ps "V w1" "V w"] same Cons.prems(2) by (simp add: strict_prefix_def)
    moreover have "is_dir (V w1) ps" using same [of ps] Cons.prems(3) by (simp add: is_dir_def)
    ultimately have "children_removed ps cs (V w1) (V w') res"
      using Cons.IH [of w1] Cons.prems first None by (simp add: j)
    then show ?thesis using children_cons t None by blast
  qed
qed

end

context posix_tree
begin

lemma remove_leaf:
  assumes "names_ok ps" "plain (V w) ps" "tree_Remove r (rel_of ps) w = (res, w')"
    and "V w ps = Some e" "ti_Kind (te_Info e) \<notin> {EntrySymlink, EntrySpecial}"
  shows "tree_removed ps (V w) (V w') res"
  using tree_remove [OF assms(1-3)] assms(4,5)
  by (auto simp: tree_removed_def only_removed_under_def keeps_special_def split: if_splits)

lemma child_names: "V w (ps @ [c]) \<noteq> None \<Longrightarrow> name_ok c"
  using names [of w "ps @ [c]"] by simp

lemma removal:
  assumes "names_ok ps" "ps \<noteq> []" "plain (V w) ps" "remove_tree r n (rel_of ps) w = Some (res, w')"
  shows "tree_removed ps (V w) (V w') res"
  using assms
proof (induction n arbitrary: ps w res w')
  case (Suc n)
  have stays: "tree_removed ps (V w) (V w) (Some e)" for e
    by (simp add: tree_removed_def only_removed_under_def keeps_special_def)
  show ?case
  proof (cases "tree_Lstat r (rel_of ps) w")
    case (Inl e)
    then show ?thesis using Suc.prems(4) stays by auto
  next
    case (Inr i)
    then obtain x where x: "V w ps = Some x" "te_Info x = i" using lstat [OF Suc.prems(1,3)] by auto
    show ?thesis
    proof (cases "ti_Kind i")
      case EntryDir
      then have d: "is_dir (V w) ps" using x by (simp add: is_dir_def)
      show ?thesis
      proof (cases "tree_ReadDir r (rel_of ps) w")
        case (Inl e)
        then show ?thesis using Suc.prems(4) Inr EntryDir stays by auto
      next
        case es: (Inr es)
        have rd: "distinct (map fst es)" "\<And>n d. (n, d) \<in> set es \<longleftrightarrow> V w (ps @ [n]) \<noteq> None \<and> d = is_dir (V w) (ps @ [n])"
          using read_dir [OF Suc.prems(1,3) d es] by auto
        have cs: "set (sorted_names es) = {n. V w (ps @ [n]) \<noteq> None}" using children_set [OF rd(2)] by (simp add: sorted_names_def)
        then have ok: "names_ok (sorted_names es)" using child_names by (auto simp: names_ok_def list_all_iff)
        obtain r1 w1 where ch: "remove_children r n (rel_of ps) (sorted_names es) w = Some (r1, w1)"
          using Suc.prems(4) Inr EntryDir es by (auto split: option.splits)
        have c: "children_removed ps (sorted_names es) (V w) (V w1) r1"
          by (rule children_removal [OF _ Suc.prems(1,3) d ok ch]) (rule Suc.IH)
        have sub: "only_removed_under ps (V w) (V w1)" "keeps_special (V w) (V w1)"
          using c unfolding children_removed_def only_removed_under_def strict_prefix_def by blast+
        show ?thesis
        proof (cases r1)
          case (Some e)
          then have "res = Some e" "w' = w1" using Suc.prems(4) Inr EntryDir es ch by auto
          then show ?thesis using sub by (simp add: tree_removed_def)
        next
          case None
          have same: "V w1 q = V w q" if "prefix q ps" for q
            using c that unfolding children_removed_def by (metis prefix_order.less_le_not_le)
          have p: "plain (V w1) ps" using plain_cong [of ps "V w1" "V w"] same Suc.prems(3) by (simp add: strict_prefix_def)
          have "tree_removed ps (V w1) (V w') res"
            by (rule remove_leaf [OF Suc.prems(1) p, of _ _ x]) (use Suc.prems(4) Inr EntryDir es ch None same [of ps] x in auto)
          then show ?thesis using sub unfolding tree_removed_def only_removed_under_def keeps_special_def by metis
        qed
      qed
    next
      case EntryRegular
      then show ?thesis using remove_leaf [OF Suc.prems(1,3)] Suc.prems(4) Inr x by auto
    qed (use Suc.prems(4) Inr stays in auto)
  qed
qed simp

text \<open>The fuel is enough when it exceeds the depth of the tree.\<close>

lemma children_return:
  assumes IH: "\<And>ps w. names_ok ps \<Longrightarrow> ps \<noteq> [] \<Longrightarrow> plain (V w) ps \<Longrightarrow> (\<forall>q. prefix ps q \<longrightarrow> V w q \<noteq> None \<longrightarrow> length q < length ps + n) \<Longrightarrow>
      V w ps \<noteq> None \<Longrightarrow> remove_tree r n (rel_of ps) w \<noteq> None"
    and "names_ok ps" "plain (V w) ps" "is_dir (V w) ps" "names_ok cs" "distinct cs" "\<forall>c \<in> set cs. V w (ps @ [c]) \<noteq> None"
    and "\<forall>q. prefix ps q \<longrightarrow> V w q \<noteq> None \<longrightarrow> length q < length ps + Suc n"
  shows "remove_children r n (rel_of ps) cs w \<noteq> None"
  using assms(2-)
proof (induction cs arbitrary: w)
  case (Cons c cs)
  have j: "path_join (rel_of ps) c = rel_of (ps @ [c])" using path_join_child Cons.prems(1,4) by simp
  have p: "plain (V w) (ps @ [c])" "names_ok (ps @ [c])" using Cons.prems plain_snoc by auto
  have "length q < length (ps @ [c]) + n" if "prefix (ps @ [c]) q" "V w q \<noteq> None" for q
    using Cons.prems(7) that append_prefixD by fastforce
  then obtain r1 w1 where first: "remove_tree r n (rel_of (ps @ [c])) w = Some (r1, w1)"
    using IH [OF p(2) _ p(1)] Cons.prems(6) by force
  have t: "tree_removed (ps @ [c]) (V w) (V w1) r1" by (rule removal [OF p(2) _ p(1) first]) simp
  show ?case
  proof (cases r1)
    case None
    have same: "V w1 q = V w q" if "\<not> prefix (ps @ [c]) q" for q
      using t that by (simp add: tree_removed_def only_removed_under_def)
    have up: "V w1 q = V w q" if "prefix q ps" for q using same above_not_below [OF that] by simp
    have "plain (V w1) ps" using plain_cong [of ps "V w1" "V w"] up Cons.prems(2) by (simp add: strict_prefix_def)
    moreover have "is_dir (V w1) ps" using up [of ps] Cons.prems(3) by (simp add: is_dir_def)
    moreover have "\<forall>b \<in> set cs. V w1 (ps @ [b]) \<noteq> None"
    proof
      fix b assume b: "b \<in> set cs"
      then have "\<not> prefix (ps @ [c]) (ps @ [b])" using Cons.prems(5) by auto
      then show "V w1 (ps @ [b]) \<noteq> None" using same Cons.prems(6) b by simp
    qed
    moreover have "length q < length ps + Suc n" if "prefix ps q" "V w1 q \<noteq> None" for q
    proof -
      have "V w1 q = V w q" using t that(2) by (simp add: tree_removed_def only_removed_under_def)
      then show ?thesis using Cons.prems(7) that by simp
    qed
    ultimately show ?thesis using Cons.IH [of w1] Cons.prems(1,4,5) first None by (simp add: j)
  qed (simp add: j first)
qed simp

lemma removal_returns:
  assumes "names_ok ps" "ps \<noteq> []" "plain (V w) ps" "\<forall>q. prefix ps q \<longrightarrow> V w q \<noteq> None \<longrightarrow> length q < length ps + n" "V w ps \<noteq> None"
  shows "remove_tree r n (rel_of ps) w \<noteq> None"
  using assms
proof (induction n arbitrary: ps w)
  case 0
  then show ?case by auto
next
  case (Suc n)
  show ?case
  proof (cases "tree_Lstat r (rel_of ps) w")
    case (Inr i)
    then obtain x where x: "V w ps = Some x" "te_Info x = i" using lstat [OF Suc.prems(1,3)] by auto
    show ?thesis
    proof (cases "ti_Kind i = EntryDir")
      case True
      then have d: "is_dir (V w) ps" using x by (simp add: is_dir_def)
      show ?thesis
      proof (cases "tree_ReadDir r (rel_of ps) w")
        case es: (Inr es)
        have rd: "distinct (map fst es)" "\<And>n d. (n, d) \<in> set es \<longleftrightarrow> V w (ps @ [n]) \<noteq> None \<and> d = is_dir (V w) (ps @ [n])"
          using read_dir [OF Suc.prems(1,3) d es] by auto
        have cs: "set (sorted_names es) = {n. V w (ps @ [n]) \<noteq> None}" using children_set [OF rd(2)] by (simp add: sorted_names_def)
        then have ok: "names_ok (sorted_names es)" using child_names by (auto simp: names_ok_def list_all_iff)
        have "remove_children r n (rel_of ps) (sorted_names es) w \<noteq> None"
          by (rule children_return [OF _ Suc.prems(1,3) d ok])
            (use Suc.IH Suc.prems(4) cs rd(1) in \<open>auto simp: sorted_names_def\<close>)
        then show ?thesis using Inr True es by (auto split: option.splits)
      qed (use Inr True in simp)
    qed (use Inr in \<open>cases "ti_Kind i"; simp\<close>)
  qed simp
qed

end

end
