(* ===== verification/ListTree.thy ===== *)
theory ListTree
  imports TreeLaws
begin

text \<open>
  A file system for the interface of the tree laws: the entries of a root in a list. An entry counts
  when every folder above it is there. Concrete runs of the local operations use it.
\<close>

type_synonym list_world = "(string list \<times> tree_entry) list"

definition raw_dir :: "list_world \<Rightarrow> string list \<Rightarrow> bool" where
  "raw_dir w q \<longleftrightarrow> (case map_of w q of Some e \<Rightarrow> ti_Kind (te_Info e) = EntryDir | None \<Rightarrow> False)"

definition reached :: "list_world \<Rightarrow> string list \<Rightarrow> bool" where
  "reached w q \<longleftrightarrow> names_ok q \<and> list_all (\<lambda>n. raw_dir w (take n q)) [0..<length q]"

definition view :: "list_world \<Rightarrow> tree_view" where
  "view w q = (if reached w q then map_of w q else None)"

definition parse_rel :: "string \<Rightarrow> string list" where
  "parse_rel s = (if s = ''.'' then [] else split_on (CHR ''/'') s)"

definition parse_abs :: "string \<Rightarrow> string \<Rightarrow> string list" where
  "parse_abs d s = drop (length (components d)) (components s)"

definition found :: "tree_entry option \<Rightarrow> os_error + tree_info" where
  "found x = (case x of Some e \<Rightarrow> Inr (te_Info e) | None \<Rightarrow> Inl ErrNotExist)"

definition child_entries :: "list_world \<Rightarrow> string list \<Rightarrow> dir_entry list" where
  "child_entries w ps =
     map (\<lambda>q. (last q, is_dir (view w) q)) (filter (\<lambda>q. q \<noteq> [] \<and> butlast q = ps \<and> view w q \<noteq> None) (remdups (map fst w)))"

definition drop_entry :: "list_world \<Rightarrow> string list \<Rightarrow> bool \<Rightarrow> os_error option \<times> list_world" where
  "drop_entry w ps ok = (if ok \<and> child_entries w ps = [] then (None, filter (\<lambda>x. fst x \<noteq> ps) w) else (Some (new_error ''busy''), w))"

definition rename_key :: "string list \<Rightarrow> string list \<Rightarrow> string list \<Rightarrow> string list" where
  "rename_key src dst q = (if prefix src q then dst @ drop (length src) q else q)"

definition move_entries :: "string list \<Rightarrow> string list \<Rightarrow> list_world \<Rightarrow> list_world" where
  "move_entries src dst w = map (\<lambda>x. (rename_key src dst (fst x), snd x)) (filter (\<lambda>x. \<not> prefix dst (fst x)) w)"

definition list_ops :: "string \<Rightarrow> list_world root_ops" where
  "list_ops d =
     \<lparr>ro_openRoot = (\<lambda>_ _. None), ro_Close = (\<lambda>_ _. None),
      ro_Stat = (\<lambda>_ s w. found (view w (parse_rel s))),
      ro_Lstat = (\<lambda>_ s w. found (view w (parse_rel s))),
      ro_ReadDir = (\<lambda>_ s w. Inr (child_entries w (parse_rel s))),
      ro_ReadFile = (\<lambda>_ s w. case view w (parse_rel s) of Some e \<Rightarrow> Inr (te_Data e) | None \<Rightarrow> Inl ErrNotExist),
      ro_Mkdir = (\<lambda>_ s w. (Some (new_error ''read only''), w)),
      ro_mkdirAll = (\<lambda>s w. (if is_dir (view w) (parse_abs d s) then None else Some (new_error ''read only''), w)),
      ro_remove = (\<lambda>s w. let ps = parse_abs d s in drop_entry w ps (view w ps \<noteq> None)),
      ro_rmdir = (\<lambda>s w. let ps = parse_abs d s in drop_entry w ps (is_dir (view w) ps)),
      ro_removeAll = (\<lambda>s w. (None, filter (\<lambda>x. \<not> prefix (parse_abs d s) (fst x)) w)),
      ro_rename = (\<lambda>s t w. let src = parse_abs d s; dst = parse_abs d t
                            in if view w src \<noteq> None \<and> view w dst = None \<and> \<not> prefix src dst
                               then (None, move_entries src dst w) else (Some ErrNotExist, w)),
      ro_chtimes = (\<lambda>_ _ _ w. (None, w)),
      ro_lstat = (\<lambda>s w. found (view w (parse_abs d s))),
      ro_glob = (\<lambda>_ _. Inr []),
      ro_Getwd = (\<lambda>_. Inr ''/'')\<rparr>"

definition list_root :: "string \<Rightarrow> list_world sync_root" where
  "list_root d = \<lparr>rt_dir = d, rt_ops = list_ops d\<rparr>"

lemma parse_rel_of: "names_ok ps \<Longrightarrow> parse_rel (rel_of ps) = ps"
proof (cases "ps = []")
  case False
  assume ok: "names_ok ps"
  have s: "split_on (CHR ''/'') (join_with (CHR ''/'') ps) = ps"
    using split_join [OF False] names_no_slash [OF ok] by blast
  have "join_with (CHR ''/'') ps \<noteq> ''.''"
  proof
    assume "join_with (CHR ''/'') ps = ''.''"
    then have "ps = [''.'']" using s by simp
    then show False using ok by (simp add: name_ok_def)
  qed
  then show ?thesis using False s by (simp add: parse_rel_def rel_of_def)
qed (simp add: parse_rel_def rel_of_def)

lemma parse_abs_of:
  assumes "root_ok d" "names_ok ps"
  shows "parse_abs d (abs_of d ps) = ps"
proof -
  obtain ds where ds: "names_ok ds" "components d = ds" "d = CHR ''/'' # join_with (CHR ''/'') ds" using root_okE [OF assms(1)] by blast
  have "components (abs_of d ps) = ds @ ps"
    using components_join [of "ds @ ps"] ds(1) assms(2) by (cases "ps = []") (auto simp: abs_of_def ds(2))
  then show ?thesis by (simp add: parse_abs_def ds(2))
qed


lemma reached_iff: "reached w q \<longleftrightarrow> names_ok q \<and> (\<forall>p. strict_prefix p q \<longrightarrow> raw_dir w p)"
proof -
  have "(\<forall>n < length q. raw_dir w (take n q)) \<longleftrightarrow> (\<forall>p. strict_prefix p q \<longrightarrow> raw_dir w p)"
  proof safe
    fix p assume "\<forall>n < length q. raw_dir w (take n q)" "strict_prefix p q"
    then show "raw_dir w p" using prefix_length_less [of p q] by (metis append_eq_conv_conj prefix_def strict_prefix_def)
  next
    fix n assume "\<forall>p. strict_prefix p q \<longrightarrow> raw_dir w p" "n < length q"
    then show "raw_dir w (take n q)" by (metis length_take min.absorb4 nat_neq_iff strict_prefix_def take_is_prefix)
  qed
  then show ?thesis by (auto simp: reached_def list_all_iff)
qed

lemma reached_snoc: "reached w (ps @ [n]) \<longleftrightarrow> reached w ps \<and> name_ok n \<and> raw_dir w ps"
  unfolding reached_iff strict_prefix_snoc_iff by auto

lemma view_dir: "is_dir (view w) q \<longleftrightarrow> reached w q \<and> raw_dir w q"
  by (auto simp: is_dir_def view_def raw_dir_def)

lemma plain_reached: "names_ok q \<Longrightarrow> plain (view w) q \<longleftrightarrow> reached w q"
proof -
  assume ok: "names_ok q"
  have "reached w p" if "\<forall>p. strict_prefix p q \<longrightarrow> raw_dir w p" "strict_prefix p q" for p
    using that ok by (auto simp: reached_iff names_ok_def strict_prefix_def prefix_def intro: prefix_order.less_trans)
  then show ?thesis using ok unfolding plain_def view_dir reached_iff by blast
qed

lemma children_of: "(n, d) \<in> set (child_entries w ps) \<longleftrightarrow> view w (ps @ [n]) \<noteq> None \<and> d = is_dir (view w) (ps @ [n])"
proof -
  have "view w q \<noteq> None \<Longrightarrow> q \<in> fst ` set w" for q
    by (auto simp: view_def split: if_splits dest!: map_of_SomeD intro: rev_image_eqI)
  moreover have "q \<noteq> [] \<and> butlast q = ps \<and> last q = n \<longleftrightarrow> q = ps @ [n]" for q by (metis append_butlast_last_id butlast_snoc last_snoc snoc_eq_iff_butlast)
  ultimately have "(\<exists>q. q \<in> fst ` set w \<and> q \<noteq> [] \<and> butlast q = ps \<and> view w q \<noteq> None \<and> last q = n \<and> d = is_dir (view w) q) \<longleftrightarrow>
      view w (ps @ [n]) \<noteq> None \<and> d = is_dir (view w) (ps @ [n])" by metis
  then show ?thesis unfolding child_entries_def by (auto simp: image_iff)
qed

lemma children_distinct: "distinct (map fst (child_entries w ps))"
proof -
  have "inj_on last {q. q \<noteq> [] \<and> butlast q = ps}" by (auto simp: inj_on_def) (metis append_butlast_last_id)
  then show ?thesis by (auto simp: child_entries_def distinct_map comp_def intro: inj_on_subset)
qed

lemma no_children: "child_entries w ps = [] \<longleftrightarrow> (\<forall>n. view w (ps @ [n]) = None)"
proof -
  have "child_entries w ps = [] \<longleftrightarrow> (\<forall>n d. (n, d) \<notin> set (child_entries w ps))" by (cases "child_entries w ps") auto
  then show ?thesis unfolding children_of by (metis (no_types, lifting))
qed

lemma map_of_filter_key: "map_of (filter (\<lambda>x. P (fst x)) w) q = (if P q then map_of w q else None)"
  by (induction w) auto

lemma view_descendant:
  assumes "view w ps = None" "reached w ps" "strict_prefix ps q"
  shows "view w q = None"
proof -
  have "\<not> raw_dir w ps" using assms(1,2) by (simp add: view_def raw_dir_def)
  then show ?thesis using assms(3) by (auto simp: view_def reached_iff)
qed

text \<open>Taking out an entry without children takes out nothing else.\<close>

lemma view_filter_up:
  assumes "\<not> prefix ps q" "\<And>q. \<not> prefix ps q \<Longrightarrow> P q"
  shows "view (filter (\<lambda>x. P (fst x)) w) q = view w q"
proof -
  have "P p" if "prefix p q" for p using that assms(1) assms(2) [of p] prefix_order.trans by blast
  then have "reached (filter (\<lambda>x. P (fst x)) w) q = reached w q" "P q"
    unfolding reached_iff raw_dir_def map_of_filter_key by (auto simp: strict_prefix_def)
  then show ?thesis by (simp add: view_def map_of_filter_key)
qed

lemma view_below_gone:
  assumes "\<not> P ps" "prefix ps q"
  shows "view (filter (\<lambda>x. P (fst x)) w) q = None"
  using assms by (cases "q = ps") (auto simp: view_def reached_iff raw_dir_def map_of_filter_key strict_prefix_def)

lemma childless_below:
  assumes "\<forall>n. view w (ps @ [n]) = None" "strict_prefix ps q"
  shows "view w q = None"
proof -
  obtain s where s: "q = ps @ s" "s \<noteq> []" using assms(2) by (auto simp: strict_prefix_def prefix_def)
  then obtain n t where q: "q = (ps @ [n]) @ t" by (cases s) auto
  have "view w ((ps @ [n]) @ t) = None"
  proof (induction t rule: rev_induct)
    case (snoc m t)
    then show ?case by (auto simp: view_def reached_snoc raw_dir_def simp flip: append_assoc split: if_splits)
  qed (use assms(1) in simp)
  then show ?thesis using q by simp
qed

lemma view_drop:
  assumes "\<forall>n. view w (ps @ [n]) = None"
  shows "view (filter (\<lambda>x. fst x \<noteq> ps) w) = (view w)(ps := None)"
proof
  fix q
  show "view (filter (\<lambda>x. fst x \<noteq> ps) w) q = ((view w)(ps := None)) q"
  proof (cases "prefix ps q")
    case True
    then show ?thesis using view_below_gone [of "\<lambda>q. q \<noteq> ps" ps q w] childless_below [OF assms, of q] by (auto simp: strict_prefix_def)
  next
    case False
    then show ?thesis using view_filter_up [OF False, of "\<lambda>q. q \<noteq> ps" w] by auto
  qed
qed

lemma drop_entry_law:
  assumes "drop_entry w ps ok = (res, w')"
  shows "if res = None then ok \<and> (\<forall>n. view w (ps @ [n]) = None) \<and> view w' = (view w)(ps := None) else view w' = view w"
  using assms view_drop [of w ps] by (auto simp: drop_entry_def no_children split: if_splits)

lemma remove_all_law: "only_removed_under ps (view w) (view (filter (\<lambda>x. \<not> prefix ps (fst x)) w))"
  unfolding only_removed_under_def
  using view_filter_up [of ps _ "\<lambda>q. \<not> prefix ps q" w] view_below_gone [of "\<lambda>q. \<not> prefix ps q" ps _ w] by (metis prefix_order.refl)

lemma map_of_moved:
  assumes "\<not> prefix src dst" "\<not> prefix dst src"
  shows "map_of (move_entries src dst w) q = moved src dst (map_of w) q"
proof (induction w)
  case Nil
  then show ?case by (simp add: move_entries_def moved_def)
next
  case (Cons x w)
  obtain k e where x: "x = (k, e)" by fastforce
  have key: "rename_key src dst k = q \<longleftrightarrow> (if prefix dst q then k = src @ drop (length dst) q else \<not> prefix src q \<and> k = q)"
    if "\<not> prefix dst k"
  proof (cases "prefix src k")
    case True
    then obtain t where k: "k = src @ t" by (auto simp: prefix_def)
    show ?thesis unfolding rename_key_def k by (auto simp: prefix_def)
  next
    case False
    then show ?thesis using that by (auto simp: rename_key_def)
  qed
  have under: "\<not> prefix dst (src @ t)" for t using assms prefix_same_cases [of dst "src @ t" src] by (metis prefixI)
  show ?case
  proof (cases "prefix dst k")
    case True
    have "k \<noteq> src @ drop (length dst) q" using under True by blast
    then show ?thesis using Cons True by (auto simp: move_entries_def moved_def x)
  next
    case False
    have c: "move_entries src dst (x # w) = (rename_key src dst k, e) # move_entries src dst w"
      using False by (simp add: move_entries_def x)
    have "map_of (move_entries src dst (x # w)) q = (if rename_key src dst k = q then Some e else map_of (move_entries src dst w) q)"
      by (simp add: c)
    moreover have "map_of (x # w) p = (if k = p then Some e else map_of w p)" for p by (simp add: x)
    ultimately show ?thesis using Cons.IH unfolding key [OF False] moved_def by simp
  qed
qed

lemma names_ok_drop: "names_ok q \<Longrightarrow> names_ok (drop n q)"
  unfolding names_ok_def list_all_iff by (meson in_set_dropD)

lemma raw_dir_moved:
  assumes "\<not> prefix src dst" "\<not> prefix dst src"
  shows "raw_dir (move_entries src dst w) q = (if prefix dst q then raw_dir w (src @ drop (length dst) q) else \<not> prefix src q \<and> raw_dir w q)"
  by (simp add: raw_dir_def map_of_moved [OF assms] moved_def)

lemma strict_prefix_app: "strict_prefix p (a @ t) \<longleftrightarrow> strict_prefix p a \<or> (\<exists>s. p = a @ s \<and> strict_prefix s t)"
  unfolding strict_prefix_def prefix_append by (auto dest: prefix_length_le)

lemma reached_under:
  assumes "names_ok a" "\<And>p. strict_prefix p a \<Longrightarrow> raw_dir w p"
  shows "reached w (a @ t) \<longleftrightarrow> names_ok t \<and> (\<forall>s. strict_prefix s t \<longrightarrow> raw_dir w (a @ s))"
  unfolding reached_iff strict_prefix_app using assms by auto

lemma rename_law:
  assumes ok: "names_ok src" "names_ok dst" and plain: "plain (view w) src" "plain (view w) dst"
    and there: "view w src \<noteq> None" and free: "view w dst = None" and apart: "\<not> prefix src dst"
  shows "view (move_entries src dst w) = moved src dst (view w)"
proof
  fix q
  have r: "reached w src" "reached w dst" using plain plain_reached ok by blast+
  have apart': "\<not> prefix dst src"
    using view_descendant [OF free r(2), of src] there free unfolding strict_prefix_def by metis
  note m = raw_dir_moved [OF apart apart', of w]
  have up: "raw_dir (move_entries src dst w) p" if "strict_prefix p dst" for p
  proof -
    have "\<not> prefix dst p" "\<not> prefix src p" using that apart prefix_order.less_le_not_le prefix_order.trans by (metis, metis strict_prefix_def)
    then show ?thesis using m [of p] r(2) that by (simp add: reached_iff)
  qed
  show "view (move_entries src dst w) q = moved src dst (view w) q"
  proof (cases "prefix dst q")
    case True
    then obtain t where q: "q = dst @ t" by (auto simp: prefix_def)
    have "reached (move_entries src dst w) (dst @ t) \<longleftrightarrow> reached w (src @ t)"
      using reached_under [OF ok(2) up, of t] reached_under [OF ok(1), of w t] r(1) m by (auto simp: reached_iff)
    then show ?thesis by (simp add: view_def q moved_def map_of_moved [OF apart apart'])
  next
    case False
    have "reached (move_entries src dst w) q = reached w q" if "\<not> prefix src q"
      unfolding reached_iff m using that False prefix_order.trans by (metis strict_prefix_def)
    then show ?thesis using False by (auto simp: view_def moved_def map_of_moved [OF apart apart'])
  qed
qed

text \<open>The list of entries satisfies the laws, for every clean absolute root.\<close>

lemma list_tree:
  assumes d: "root_ok d"
  shows "posix_tree (list_root d) view"
proof
  show "root_ok (rt_dir (list_root d))" using d by (simp add: list_root_def)
next
  fix w ps n assume "view w (ps @ [n]) \<noteq> None"
  then show "is_dir (view w) ps" by (auto simp: view_dir view_def reached_snoc split: if_splits)
next
  fix w ps assume "view w ps \<noteq> None"
  then show "names_ok ps" by (auto simp: view_def reached_def split: if_splits)
next
  fix ps w i assume "names_ok ps" "ro_Lstat (rt_ops (list_root d)) (rt_dir (list_root d)) (rel_of ps) w = Inr i"
  then show "map_option te_Info (view w ps) = Some i"
    by (auto simp: list_root_def list_ops_def parse_rel_of found_def split: option.splits)
next
  fix ps w e assume "names_ok ps" "ro_Lstat (rt_ops (list_root d)) (rt_dir (list_root d)) (rel_of ps) w = Inl e"
  then show "view w ps = None" by (auto simp: list_root_def list_ops_def parse_rel_of found_def split: option.splits)
next
  fix ps w e assume "names_ok ps" "ro_lstat (rt_ops (list_root d)) (abs_of (rt_dir (list_root d)) ps) w = Inl e"
  then show "view w ps = None" by (auto simp: list_root_def list_ops_def parse_abs_of [OF d] found_def split: option.splits)
next
  fix ps w i assume "names_ok ps" "ro_Stat (rt_ops (list_root d)) (rt_dir (list_root d)) (rel_of ps) w = Inr i"
  then show "\<exists>e. view w ps = Some e \<and> (te_Info e = i \<or> ti_Kind (te_Info e) = EntrySymlink)"
    by (auto simp: list_root_def list_ops_def parse_rel_of found_def split: option.splits)
next
  fix ps w e assume "names_ok ps" "ro_Stat (rt_ops (list_root d)) (rt_dir (list_root d)) (rel_of ps) w = Inl e"
  then show "case view w ps of None \<Rightarrow> True | Some x \<Rightarrow> ti_Kind (te_Info x) = EntrySymlink"
    by (auto simp: list_root_def list_ops_def parse_rel_of found_def split: option.splits)
next
  fix ps w i assume ok: "names_ok ps" and "ro_Lstat (rt_ops (list_root d)) (rt_dir (list_root d)) (rel_of ps) w = Inr i"
  then have "view w ps \<noteq> None" by (auto simp: list_root_def list_ops_def parse_rel_of found_def split: option.splits)
  then show "plain (view w) ps" using plain_reached [OF ok] by (auto simp: view_def split: if_splits)
next
  fix ps w i assume ok: "names_ok ps" and "ro_Stat (rt_ops (list_root d)) (rt_dir (list_root d)) (rel_of ps) w = Inr i"
  then have "view w ps \<noteq> None" by (auto simp: list_root_def list_ops_def parse_rel_of found_def split: option.splits)
  then show "plain (view w) ps" using plain_reached [OF ok] by (auto simp: view_def split: if_splits)
next
  fix ps w es assume "names_ok ps" "ro_ReadDir (rt_ops (list_root d)) (rt_dir (list_root d)) (rel_of ps) w = Inr es"
  then have "es = child_entries w ps" by (simp add: list_root_def list_ops_def parse_rel_of)
  then show "distinct (map fst es) \<and> (\<forall>n d. (n, d) \<in> set es \<longleftrightarrow> view w (ps @ [n]) \<noteq> None \<and> d = is_dir (view w) (ps @ [n]))"
    using children_distinct children_of by simp
next
  fix ps w res w' assume "names_ok ps" "ro_remove (rt_ops (list_root d)) (abs_of (rt_dir (list_root d)) ps) w = (res, w')"
  then have "drop_entry w ps (view w ps \<noteq> None) = (res, w')" by (simp add: list_root_def list_ops_def parse_abs_of [OF d])
  then show "if res = None then view w ps \<noteq> None \<and> (\<forall>n. view w (ps @ [n]) = None) \<and> view w' = (view w)(ps := None) else view w' = view w"
    by (rule drop_entry_law)
next
  fix ps w res w' assume "names_ok ps" "ro_rmdir (rt_ops (list_root d)) (abs_of (rt_dir (list_root d)) ps) w = (res, w')"
  then have "drop_entry w ps (is_dir (view w) ps) = (res, w')" by (simp add: list_root_def list_ops_def parse_abs_of [OF d])
  then show "if res = None then is_dir (view w) ps \<and> (\<forall>n. view w (ps @ [n]) = None) \<and> view w' = (view w)(ps := None) else view w' = view w"
    by (rule drop_entry_law)
next
  fix ps w res w' assume "names_ok ps" "ro_removeAll (rt_ops (list_root d)) (abs_of (rt_dir (list_root d)) ps) w = (res, w')"
  then have "w' = filter (\<lambda>x. \<not> prefix ps (fst x)) w" by (simp add: list_root_def list_ops_def parse_abs_of [OF d])
  then show "only_removed_under ps (view w) (view w')" using remove_all_law by simp
next
  fix src dst w res w'
  assume ok: "names_ok src" "names_ok dst" "plain (view w) src" "plain (view w) dst" "view w dst = None" "\<not> prefix src dst"
    and "ro_rename (rt_ops (list_root d)) (abs_of (rt_dir (list_root d)) src) (abs_of (rt_dir (list_root d)) dst) w = (res, w')"
  then have "(if view w src \<noteq> None \<and> view w dst = None \<and> \<not> prefix src dst then (None, move_entries src dst w) else (Some ErrNotExist, w)) = (res, w')"
    by (simp add: list_root_def list_ops_def parse_abs_of [OF d])
  then show "view w' = (if res = None then moved src dst (view w) else view w) \<and> (res = None \<longrightarrow> view w src \<noteq> None)"
    using rename_law [OF ok(1-4) _ ok(5,6)] by (auto split: if_splits)
qed

lemma home_ok: "root_ok ''/home/sync''"
proof -
  have "names_ok [''home'', ''sync'']" by (simp add: name_ok_def)
  then show ?thesis unfolding root_ok_def by (intro exI [of _ "[''home'', ''sync'']"]) simp
qed

interpretation home: posix_tree "list_root ''/home/sync''" view
  by (rule list_tree [OF home_ok])

section \<open>Removing a tree\<close>


definition dir_entry_of :: "nat \<Rightarrow> tree_entry" where
  "dir_entry_of i = \<lparr>te_Info = \<lparr>ti_Kind = EntryDir, ti_Mode = ''drwx------'', ti_Size = 0, ti_ModTime = 0, ti_Sys = \<lparr>fi_Device = 1, fi_Inode = i\<rparr>\<rparr>, te_Data = ''''\<rparr>"

definition file_entry_of :: "nat \<Rightarrow> string \<Rightarrow> tree_entry" where
  "file_entry_of i s =
     \<lparr>te_Info = \<lparr>ti_Kind = EntryRegular, ti_Mode = ''-rw-------'', ti_Size = int (length s), ti_ModTime = 0, ti_Sys = \<lparr>fi_Device = 1, fi_Inode = i\<rparr>\<rparr>,
      te_Data = s\<rparr>"

definition small_tree :: list_world where
  "small_tree = [([], dir_entry_of 1), ([''d''], dir_entry_of 2), ([''d'', ''f''], file_entry_of 3 ''x''), ([''g''], file_entry_of 4 ''y'')]"


theorem root_paths_exact_witness:
  "tree_Abs (list_root ''/home/sync'') ''a/./b/../c'' = Inr ''/home/sync/a/c'' \<and>
   tree_Rel (list_root ''/home/sync'') ''/home/sync/a/c'' small_tree = Inr ''a/c'' \<and>
   (\<exists>e. tree_Rel (list_root ''/home/sync'') ''/home/other'' small_tree = Inl e)"
proof -
  have a: "tree_Abs (list_root ''/home/sync'') ''a/./b/../c'' = Inr ''/home/sync/a/c''" by code_simp
  have c: "cleanRelative ''a/./b/../c'' = Inr ''a/c''" by code_simp
  have "root_ok (rt_dir (list_root ''/home/sync''))" using home_ok by (simp add: list_root_def)
  from root_paths_exact [OF this, of "''a/./b/../c''" "''/home/sync/a/c''" small_tree]
  have "tree_Rel (list_root ''/home/sync'') ''/home/sync/a/c'' small_tree = Inr ''a/c''" using a c by simp
  moreover have "\<exists>e. tree_Rel (list_root ''/home/sync'') ''/home/other'' small_tree = Inl e"
  proof -
    have "isl (tree_Rel (list_root ''/home/sync'') ''/home/other'' small_tree)" by code_simp
    then show ?thesis by (auto simp: isl_def)
  qed
  ultimately show ?thesis using a by blast
qed

end
