(* ===== verification/Executor.thy ===== *)
theory Executor
  imports Freshness Classify ContentFilter SyncTree
begin

text \<open>
  The executor of planned actions (\<^verbatim>\<open>executor.go\<close>, \<^verbatim>\<open>executor_delete.go\<close>, \<^verbatim>\<open>executor_conflict.go\<close>,
  \<^verbatim>\<open>executor_preconditions.go\<close>, \<^verbatim>\<open>executor_transfer.go\<close>) and the dispatch of \<^verbatim>\<open>worker.go\<close>. One world holds
  the local tree and the drive. The interfaces the executor is given are arguments: the rooted capability, the
  item client, the path convergence, the hash of a file, the clock and the transfer manager. The walks and the
  search for a free name take fuel; \<open>None\<close> says that it ran out.
\<close>

section \<open>Interfaces and configuration\<close>

record graph_item =
  gi_ID :: string
  gi_Name :: string
  gi_DriveID :: drive_id
  gi_ParentID :: string
  gi_ParentPath :: string
  gi_ParentPathKnown :: bool
  gi_Size :: int
  gi_ETag :: string
  gi_IsFolder :: bool
  gi_IsRoot :: bool
  gi_QuickXorHash :: string
  gi_SHA1Hash :: string
  gi_SHA256Hash :: string
  gi_ModifiedAt :: "int option"

record 'w item_client =
  ic_GetItem :: "drive_id \<Rightarrow> string \<Rightarrow> 'w \<Rightarrow> go_error + graph_item"
  ic_CreateFolder :: "drive_id \<Rightarrow> string \<Rightarrow> string \<Rightarrow> 'w \<Rightarrow> (go_error + graph_item) \<times> 'w"
  ic_MoveItemIfMatch :: "drive_id \<Rightarrow> string \<Rightarrow> string \<Rightarrow> string \<Rightarrow> string \<Rightarrow> 'w \<Rightarrow> (go_error + graph_item) \<times> 'w"
  ic_DeleteItemIfMatch :: "drive_id \<Rightarrow> string \<Rightarrow> string \<Rightarrow> 'w \<Rightarrow> go_error option \<times> 'w"

record 'w download_opts =
  do_RemoteHash :: string
  do_RemoteMtime :: int
  do_RemoteSize :: int
  do_MaxHashRetries :: int
  do_ValidateTargetBeforeRename :: "'w \<Rightarrow> go_error option"

record download_result =
  dr_LocalHash :: string
  dr_Size :: int
  dr_EffectiveRemoteHash :: string
  dr_HashVerified :: bool

record 'w upload_opts =
  uo_ExpectedHash :: string
  uo_HashMismatchError :: "string \<Rightarrow> string \<Rightarrow> string \<Rightarrow> go_error"
  uo_ValidateSourceBeforeRead :: "'w \<Rightarrow> go_error option"

record upload_result =
  ur_Item :: graph_item
  ur_LocalHash :: string
  ur_Size :: int
  ur_Mtime :: int

record 'w transfer_manager =
  tm_DownloadToFile :: "drive_id \<Rightarrow> string \<Rightarrow> string \<Rightarrow> 'w download_opts \<Rightarrow> 'w \<Rightarrow> (go_error + download_result) \<times> 'w"
  tm_UploadFileToItem :: "drive_id \<Rightarrow> string \<Rightarrow> string \<Rightarrow> 'w upload_opts \<Rightarrow> 'w \<Rightarrow> (go_error + upload_result) \<times> 'w"
  tm_UploadFile :: "drive_id \<Rightarrow> string \<Rightarrow> string \<Rightarrow> string \<Rightarrow> 'w upload_opts \<Rightarrow> 'w \<Rightarrow> (go_error + upload_result) \<times> 'w"

text \<open>A moment in the executor's time zone, as far as the stamp of a conflict copy shows it.\<close>

record civil_time =
  ct_Year :: nat
  ct_Month :: nat
  ct_Day :: nat
  ct_Hour :: nat
  ct_Minute :: nat
  ct_Second :: nat

record 'w executor =
  ex_items :: "'w item_client"
  ex_syncTree :: "'w sync_root"
  ex_driveID :: drive_id
  ex_remoteRootItemID :: string
  ex_ignoreJunkFiles :: bool
  ex_transferMgr :: "'w transfer_manager"
  ex_nowFunc :: civil_time
  ex_hashFunc :: "string \<Rightarrow> 'w \<Rightarrow> os_error + string"
  ex_localStat :: "string \<Rightarrow> 'w \<Rightarrow> os_error + tree_info"
  ex_pathConvergence :: "(string \<Rightarrow> 'w \<Rightarrow> go_error option) option"
  ex_baseline :: baseline

definition graphRootID :: string where
  "graphRootID = ''root''"

text \<open>\<^verbatim>\<open>errors.Is\<close> on the sentinels of the Graph client, which follow the status of the response.\<close>

definition graph_status :: "go_error \<Rightarrow> int \<Rightarrow> bool" where
  "graph_status e code \<longleftrightarrow> ExtractHTTPStatus (Some e) = code"

text \<open>A file system error in an outcome.\<close>

definition of_os :: "os_error \<Rightarrow> go_error" where
  "of_os e =
     \<lparr>ge_Marks = (if is_err e KPermission then [MarkPermission] else []) @
                 (if is_err e KActionPreconditionChanged then [MarkActionPreconditionChanged] else []),
      ge_Graph = None, ge_Message = oe_Text e\<rparr>"

definition wrap_go :: "string \<Rightarrow> go_error \<Rightarrow> go_error" where
  "wrap_go t e = e\<lparr>ge_Message := t @ ge_Message e\<rparr>"

definition plain_go :: "string \<Rightarrow> go_error" where
  "plain_go t = \<lparr>ge_Marks = [], ge_Graph = None, ge_Message = t\<rparr>"

definition stalePreconditionError :: "string \<Rightarrow> go_error" where
  "stalePreconditionError t =
     \<lparr>ge_Marks = [MarkActionPreconditionChanged], ge_Graph = None, ge_Message = ''sync: action precondition changed: '' @ t\<rparr>"

definition ErrPathEscapesSyncRoot :: os_error where
  "ErrPathEscapesSyncRoot = \<lparr>oe_Kinds = [KPathEscapesSyncRoot], oe_Text = ''sync: path escapes sync root''\<rparr>"

definition normalizeSyncTreePathError :: "os_error \<Rightarrow> os_error" where
  "normalizeSyncTreePathError e =
     (if contains (oe_Text e) ''escapes root'' \<or> contains (oe_Text e) ''must not be absolute''
      then join_errors ErrPathEscapesSyncRoot e else e)"

definition path_error :: "os_error \<Rightarrow> go_error" where
  "path_error e = of_os (normalizeSyncTreePathError e)"

section \<open>Parents, drives and outcomes\<close>

definition ResolveParentID :: "'w executor \<Rightarrow> string \<Rightarrow> go_error + string" where
  "ResolveParentID e relPath =
     (let parentDir = path_dir relPath
      in if parentDir = ''.'' \<or> parentDir = ''''
         then Inr (if ex_remoteRootItemID e \<noteq> '''' then ex_remoteRootItemID e else graphRootID)
         else case bl_GetByPath (ex_baseline e) parentDir of
                Some entry \<Rightarrow> Inr (be_ItemID entry)
              | None \<Rightarrow> Inl (plain_go (''sync: cannot resolve parent ID for '' @ relPath @ '' (parent '' @ parentDir @ '' not in baseline)'')))"

definition resolveDriveID :: "'w executor \<Rightarrow> action \<Rightarrow> drive_id" where
  "resolveDriveID e a =
     (if \<not> id_IsZero (a_DriveID a) then a_DriveID a
      else let parentDir = path_dir (a_Path a)
           in if parentDir \<noteq> ''.'' \<and> parentDir \<noteq> ''''
              then case bl_GetByPath (ex_baseline e) parentDir of
                     Some entry \<Rightarrow> if \<not> id_IsZero (be_DriveID entry) then be_DriveID entry else ex_driveID e
                   | None \<Rightarrow> ex_driveID e
              else ex_driveID e)"

definition zero_outcome :: action_outcome where
  "zero_outcome =
     \<lparr>ao_Action = ActionDownload, ao_Success = False, ao_Path = '''', ao_FailurePath = '''', ao_OldPath = '''',
      ao_DriveID = zero_id, ao_ItemID = '''', ao_ParentID = '''', ao_ItemType = ItemTypeFile,
      ao_FailureCapability = PermissionCapabilityUnknown, ao_LocalHash = '''', ao_RemoteHash = '''', ao_LocalSize = 0,
      ao_LocalSizeKnown = False, ao_LocalDevice = 0, ao_LocalInode = 0, ao_LocalHasIdentity = False,
      ao_LocalIdentityObserved = False, ao_RemoteSize = 0, ao_RemoteSizeKnown = False, ao_LocalMtime = 0,
      ao_RemoteMtime = 0, ao_ETag = '''', ao_Error = None\<rparr>"

definition failedOutcome :: "'w executor \<Rightarrow> action \<Rightarrow> action_type \<Rightarrow> go_error \<Rightarrow> action_outcome" where
  "failedOutcome e a t err =
     zero_outcome\<lparr>ao_Action := t, ao_Success := False, ao_Error := Some err, ao_Path := a_Path a,
       ao_DriveID := resolveDriveID e a, ao_ItemID := a_ItemID a\<rparr>"

definition failedOutcomeWithFailure ::
  "'w executor \<Rightarrow> action \<Rightarrow> action_type \<Rightarrow> go_error \<Rightarrow> string \<Rightarrow> permission_capability \<Rightarrow> action_outcome" where
  "failedOutcomeWithFailure e a t err failurePath cap =
     (let o1 = failedOutcome e a t err
      in (if failurePath \<noteq> '''' then o1\<lparr>ao_FailurePath := failurePath\<rparr> else o1)\<lparr>ao_FailureCapability := cap\<rparr>)"

definition inferFailureCapabilityFromError ::
  "go_error \<Rightarrow> permission_capability \<Rightarrow> permission_capability \<Rightarrow> permission_capability" where
  "inferFailureCapabilityFromError err localCapability remoteCapability =
     (if errors_Is (Some err) MarkPermission then localCapability
      else if graph_status err 403 then remoteCapability
      else PermissionCapabilityUnknown)"

definition parent_of_action :: "'w executor \<Rightarrow> action \<Rightarrow> string" where
  "parent_of_action e a =
     (case ResolveParentID e (a_Path a) of
        Inr parentID \<Rightarrow> parentID
      | Inl _ \<Rightarrow> (case view_Baseline a of Some b \<Rightarrow> be_ParentID b | None \<Rightarrow> ''''))"

definition resolvedParentIDForOutcome :: "'w executor \<Rightarrow> action \<Rightarrow> graph_item option \<Rightarrow> string" where
  "resolvedParentIDForOutcome e a item =
     (case item of
        Some i \<Rightarrow> if gi_ParentID i \<noteq> '''' then gi_ParentID i else parent_of_action e a
      | None \<Rightarrow> parent_of_action e a)"

text \<open>The outcome of a local folder creation, of a move and of a deletion.\<close>

definition folderOutcome :: "'w executor \<Rightarrow> action \<Rightarrow> action_outcome" where
  "folderOutcome e a =
     (let o1 = zero_outcome\<lparr>ao_Action := ActionFolderCreate, ao_Success := True, ao_Path := a_Path a,
                 ao_DriveID := resolveDriveID e a, ao_ItemID := a_ItemID a, ao_ItemType := ItemTypeFolder,
                 ao_ParentID := resolvedParentIDForOutcome e a None\<rparr>
      in case view_Remote a of
           Some r \<Rightarrow> o1\<lparr>ao_ItemID := rs_ItemID r, ao_ETag := rs_ETag r\<rparr>
         | None \<Rightarrow> o1)"

definition fillOutcomeFromBaseline :: "action_outcome \<Rightarrow> baseline_entry option \<Rightarrow> action_outcome" where
  "fillOutcomeFromBaseline o1 base =
     (case base of
        None \<Rightarrow> o1
      | Some b \<Rightarrow>
          o1\<lparr>ao_LocalHash := if ao_LocalHash o1 = '''' then be_LocalHash b else ao_LocalHash o1,
             ao_LocalSize := if \<not> ao_LocalSizeKnown o1 then be_LocalSize b else ao_LocalSize o1,
             ao_LocalSizeKnown := if \<not> ao_LocalSizeKnown o1 then be_LocalSizeKnown b else True,
             ao_LocalMtime := if ao_LocalMtime o1 = 0 then be_LocalMtime b else ao_LocalMtime o1,
             ao_LocalDevice := if \<not> ao_LocalIdentityObserved o1 then be_LocalDevice b else ao_LocalDevice o1,
             ao_LocalInode := if \<not> ao_LocalIdentityObserved o1 then be_LocalInode b else ao_LocalInode o1,
             ao_LocalHasIdentity := if \<not> ao_LocalIdentityObserved o1 then be_LocalHasIdentity b else ao_LocalHasIdentity o1,
             ao_RemoteHash := if ao_RemoteHash o1 = '''' then be_RemoteHash b else ao_RemoteHash o1,
             ao_RemoteSize := if \<not> ao_RemoteSizeKnown o1 then be_RemoteSize b else ao_RemoteSize o1,
             ao_RemoteSizeKnown := if \<not> ao_RemoteSizeKnown o1 then be_RemoteSizeKnown b else True,
             ao_RemoteMtime := if ao_RemoteMtime o1 = 0 then be_RemoteMtime b else ao_RemoteMtime o1,
             ao_ETag := if ao_ETag o1 = '''' then be_ETag b else ao_ETag o1\<rparr>)"

definition moveOutcome :: "'w executor \<Rightarrow> action \<Rightarrow> action_outcome" where
  "moveOutcome e a =
     (let o1 = zero_outcome\<lparr>ao_Action := a_Type a, ao_Success := True, ao_Path := a_Path a, ao_OldPath := a_OldPath a,
                 ao_DriveID := resolveDriveID e a, ao_ItemID := a_ItemID a, ao_ParentID := resolvedParentIDForOutcome e a None\<rparr>
      in case a_View a of
           None \<Rightarrow> o1
         | Some v \<Rightarrow>
             (let o2 = (case pv_Remote v of
                          Some r \<Rightarrow> o1\<lparr>ao_RemoteHash := rs_Hash r, ao_RemoteSize := rs_Size r, ao_RemoteSizeKnown := True,
                                      ao_RemoteMtime := rs_Mtime r, ao_ETag := rs_ETag r, ao_ItemType := rs_ItemType r\<rparr>
                        | None \<Rightarrow> o1);
                  o3 = (case pv_Local v of
                          Some l \<Rightarrow> o2\<lparr>ao_LocalHash := ls_Hash l, ao_LocalSize := ls_Size l, ao_LocalSizeKnown := True,
                                      ao_LocalMtime := ls_Mtime l, ao_LocalDevice := ls_LocalDevice l,
                                      ao_LocalInode := ls_LocalInode l, ao_LocalHasIdentity := ls_LocalHasIdentity l,
                                      ao_LocalIdentityObserved := True\<rparr>
                        | None \<Rightarrow> o2)
              in fillOutcomeFromBaseline o3 (pv_Baseline v)))"

definition DeleteOutcome :: "'w executor \<Rightarrow> action \<Rightarrow> action_type \<Rightarrow> action_outcome" where
  "DeleteOutcome e a t =
     zero_outcome\<lparr>ao_Action := t, ao_Success := True, ao_Path := a_Path a, ao_DriveID := resolveDriveID e a,
       ao_ItemID := a_ItemID a, ao_ItemType := actionItemType a\<rparr>"

section \<open>Visibility of remote paths\<close>

definition pathConvergenceForPath :: "'w executor \<Rightarrow> string \<Rightarrow> ((string \<Rightarrow> 'w \<Rightarrow> go_error option) \<times> string) option" where
  "pathConvergenceForPath e actionPath =
     (case ex_pathConvergence e of
        None \<Rightarrow> None
      | Some wait \<Rightarrow> if actionPath = '''' \<or> actionPath = ''.'' then None else Some (wait, actionPath))"

definition waitRemoteParentVisible :: "'w executor \<Rightarrow> action \<Rightarrow> 'w \<Rightarrow> go_error option" where
  "waitRemoteParentVisible e a w =
     (let parentPath = path_dir (a_Path a)
      in if parentPath = ''.'' \<or> parentPath = '''' then None
         else case pathConvergenceForPath e parentPath of
                None \<Rightarrow> None
              | Some (wait, p) \<Rightarrow>
                  map_option (wrap_go (''wait for parent path '' @ go_quote parentPath @ '' visibility: '')) (wait p w))"

section \<open>Preconditions\<close>

definition SelectHash :: "'a graph_item_scheme \<Rightarrow> string" where
  "SelectHash i =
     (if gi_QuickXorHash i \<noteq> '''' then gi_QuickXorHash i else if gi_SHA256Hash i \<noteq> '''' then gi_SHA256Hash i else gi_SHA1Hash i)"

definition modified_nanos :: "'a graph_item_scheme \<Rightarrow> int" where
  "modified_nanos i = (case gi_ModifiedAt i of Some t \<Rightarrow> t | None \<Rightarrow> 0)"

definition remoteStateRowFromGraphItem :: "graph_item \<Rightarrow> remote_state_row" where
  "remoteStateRowFromGraphItem i =
     \<lparr>rr_DriveID = gi_DriveID i, rr_ItemID = gi_ID i,
      rr_Path = (if gi_ParentPathKnown i
                 then (if gi_ParentPath i \<noteq> '''' then path_join (gi_ParentPath i) (gi_Name i) else gi_Name i) else ''''),
      rr_ItemType = (if gi_IsFolder i \<or> gi_IsRoot i then ItemTypeFolder else ItemTypeFile),
      rr_Hash = SelectHash i, rr_Size = gi_Size i, rr_Mtime = modified_nanos i, rr_ETag = gi_ETag i\<rparr>"

definition plannedRemoteStateForPrecondition :: "action \<Rightarrow> remote_state option" where
  "plannedRemoteStateForPrecondition a =
     (case view_Remote a of
        Some r \<Rightarrow> Some r
      | None \<Rightarrow>
          map_option (\<lambda>b. \<lparr>rs_ItemID = be_ItemID b, rs_DriveID = be_DriveID b, rs_Name = '''', rs_ItemType = be_ItemType b,
                           rs_Size = be_RemoteSize b, rs_Hash = be_RemoteHash b, rs_Mtime = be_RemoteMtime b, rs_ETag = be_ETag b,
                           rs_CTag = '''', rs_IsDeleted = False\<rparr>) (view_Baseline a))"

definition expectedRemotePreconditionPath :: "'w executor \<Rightarrow> action \<Rightarrow> string" where
  "expectedRemotePreconditionPath e a =
     (if ex_remoteRootItemID e \<noteq> '''' then ''''
      else if a_Type a = ActionRemoteMove \<and> a_OldPath a \<noteq> '''' then a_OldPath a
      else actionViewPath a)"

definition remoteLiveIdentityMatches :: "remote_state_row \<Rightarrow> remote_state \<Rightarrow> bool \<Rightarrow> bool" where
  "remoteLiveIdentityMatches row planned compareETag \<longleftrightarrow>
     \<not> (rs_ItemID planned \<noteq> '''' \<and> rr_ItemID row \<noteq> rs_ItemID planned) \<and>
     \<not> (\<not> id_IsZero (rs_DriveID planned) \<and> \<not> id_IsZero (rr_DriveID row) \<and> \<not> id_Equal (rr_DriveID row) (rs_DriveID planned)) \<and>
     rr_ItemType row = rs_ItemType planned \<and>
     \<not> (compareETag \<and> rs_ETag planned \<noteq> '''' \<and> rr_ETag row \<noteq> '''' \<and> rr_ETag row \<noteq> rs_ETag planned)"

definition differs :: "int \<Rightarrow> int \<Rightarrow> bool" where
  "differs x y \<longleftrightarrow> x \<noteq> 0 \<and> y \<noteq> 0 \<and> x \<noteq> y"

definition remoteLiveContentMatches :: "remote_state_row \<Rightarrow> remote_state \<Rightarrow> bool" where
  "remoteLiveContentMatches row planned \<longleftrightarrow>
     (if rr_Hash row \<noteq> '''' \<and> rs_Hash planned \<noteq> ''''
      then rr_Hash row = rs_Hash planned \<and> \<not> differs (rr_Size row) (rs_Size planned)
      else \<not> differs (rr_Size row) (rs_Size planned) \<and> \<not> differs (rr_Mtime row) (rs_Mtime planned))"

definition remoteRowMatchesLivePrecondition :: "remote_state_row \<Rightarrow> remote_state \<Rightarrow> bool \<Rightarrow> bool" where
  "remoteRowMatchesLivePrecondition row planned compareETag \<longleftrightarrow>
     remoteLiveIdentityMatches row planned compareETag \<and>
     (rs_ItemType planned = ItemTypeFolder \<or> remoteLiveContentMatches row planned)"

definition remoteRowMatchesPostRemoteMoveLivePrecondition :: "remote_state_row \<Rightarrow> remote_state \<Rightarrow> bool" where
  "remoteRowMatchesPostRemoteMoveLivePrecondition row planned = remoteRowMatchesLivePrecondition row planned False"

definition remoteRowMatchesLivePreconditionForAction :: "action \<Rightarrow> remote_state_row \<Rightarrow> remote_state \<Rightarrow> bool" where
  "remoteRowMatchesLivePreconditionForAction a row planned =
     (if plannedPostRemoteMoveContentUpload a then remoteRowMatchesPostRemoteMoveLivePrecondition row planned
      else remoteRowMatchesLivePrecondition row planned True)"

definition remoteSourcePreconditionETag ::
  "'w executor \<Rightarrow> drive_id \<Rightarrow> action \<Rightarrow> string \<Rightarrow> 'w \<Rightarrow> go_error + string" where
  "remoteSourcePreconditionETag e d a op w =
     (if a_ItemID a = '''' then Inr ''''
      else case ic_GetItem (ex_items e) d (a_ItemID a) w of
             Inl err \<Rightarrow>
               Inl (if graph_status err 404 then stalePreconditionError (op @ '' remote item '' @ a_ItemID a @ '' is missing'')
                    else wrap_go (''checking remote '' @ op @ '' precondition for '' @ a_Path a @ '': '') err)
           | Inr item \<Rightarrow>
               (let row = remoteStateRowFromGraphItem item; planned = plannedRemoteStateForPrecondition a;
                    expectedPath = expectedRemotePreconditionPath e a
                in if (case planned of Some p \<Rightarrow> \<not> remoteRowMatchesLivePreconditionForAction a row p | None \<Rightarrow> False)
                   then Inl (stalePreconditionError (op @ '' remote item '' @ a_ItemID a @ '' changed since planning''))
                   else if expectedPath \<noteq> '''' \<and> rr_Path row \<noteq> '''' \<and> rr_Path row \<noteq> expectedPath
                   then Inl (stalePreconditionError (op @ '' remote item '' @ a_ItemID a @ '' moved to '' @ rr_Path row))
                   else Inr (gi_ETag item)))"

definition validateRemoteSourcePrecondition :: "'w executor \<Rightarrow> drive_id \<Rightarrow> action \<Rightarrow> string \<Rightarrow> 'w \<Rightarrow> go_error option" where
  "validateRemoteSourcePrecondition e d a op w =
     (case remoteSourcePreconditionETag e d a op w of Inl err \<Rightarrow> Some err | Inr _ \<Rightarrow> None)"

definition validateRemoteParentPrecondition ::
  "'w executor \<Rightarrow> drive_id \<Rightarrow> string \<Rightarrow> action \<Rightarrow> string \<Rightarrow> 'w \<Rightarrow> go_error option" where
  "validateRemoteParentPrecondition e d parentID a op w =
     (if parentID = '''' \<or> parentID = graphRootID then None
      else case ic_GetItem (ex_items e) d parentID w of
             Inl err \<Rightarrow>
               Some (if graph_status err 404 then stalePreconditionError (op @ '' remote parent '' @ parentID @ '' is missing'')
                     else wrap_go (''checking remote '' @ op @ '' parent precondition for '' @ a_Path a @ '': '') err)
           | Inr item \<Rightarrow>
               if \<not> gi_IsFolder item \<and> \<not> gi_IsRoot item
               then Some (stalePreconditionError (op @ '' remote parent '' @ parentID @ '' is not a folder'')) else None)"

text \<open>The size, the time of modification and the identity of a local file against what was planned.\<close>

definition uploadSourceInfo :: "'w executor \<Rightarrow> string \<Rightarrow> 'w \<Rightarrow> go_error + tree_info" where
  "uploadSourceInfo e p w =
     (case tree_Lstat (ex_syncTree e) p w of
        Inl err \<Rightarrow>
          Inl (if is_err err KNotExist then stalePreconditionError (''upload source '' @ p @ '' is missing'') else path_error err)
      | Inr info \<Rightarrow>
          if ti_Kind info \<noteq> EntrySymlink then Inr info
          else case tree_Abs (ex_syncTree e) p of
                 Inl err \<Rightarrow> Inl (path_error err)
               | Inr absPath \<Rightarrow>
                   (case ex_localStat e absPath w of
                      Inl err \<Rightarrow>
                        Inl (if is_err err KNotExist then stalePreconditionError (''upload source '' @ p @ '' target is missing'')
                             else of_os (wrap (''stating upload source target '' @ p @ '': '') err))
                    | Inr i \<Rightarrow> Inr i))"

definition validateUploadSourcePrecondition :: "'w executor \<Rightarrow> action \<Rightarrow> 'w \<Rightarrow> go_error option" where
  "validateUploadSourcePrecondition e a w =
     (case uploadSourceInfo e (a_Path a) w of
        Inl err \<Rightarrow> Some err
      | Inr info \<Rightarrow>
          if ti_Kind info \<noteq> EntryRegular
          then Some (stalePreconditionError (''upload source '' @ a_Path a @ '' is no longer a regular file''))
          else case view_Local a of
                 None \<Rightarrow> None
               | Some planned \<Rightarrow>
                   if ls_ItemType planned \<noteq> ItemTypeFile
                   then Some (stalePreconditionError (''upload source '' @ a_Path a @ '' changed type''))
                   else if ls_Size planned \<noteq> 0 \<and> ti_Size info \<noteq> ls_Size planned
                   then Some (stalePreconditionError (''upload source '' @ a_Path a @ '' changed size''))
                   else if ls_Mtime planned \<noteq> 0 \<and> ti_ModTime info \<noteq> ls_Mtime planned
                   then Some (stalePreconditionError (''upload source '' @ a_Path a @ '' changed mtime''))
                   else if ls_LocalHasIdentity planned \<and>
                        (case IdentityFromFileInfo info of
                           Some i \<Rightarrow> \<not> SameIdentity i \<lparr>fi_Device = ls_LocalDevice planned, fi_Inode = ls_LocalInode planned\<rparr>
                         | None \<Rightarrow> False)
                   then Some (stalePreconditionError (''upload source '' @ a_Path a @ '' changed identity''))
                   else None)"

definition expectedUploadHash :: "action \<Rightarrow> string" where
  "expectedUploadHash a = (case view_Local a of Some l \<Rightarrow> ls_Hash l | None \<Rightarrow> '''')"

definition actionClearsLocalBeforeDownload :: "action \<Rightarrow> bool" where
  "actionClearsLocalBeforeDownload a \<longleftrightarrow> a_Type a = ActionDownload \<and> a_RequireMissingLocalTarget a"

text \<open>The hash of the file at a path of the root, with the error of either step.\<close>

definition hash_at :: "'w executor \<Rightarrow> string \<Rightarrow> string \<Rightarrow> 'w \<Rightarrow> go_error + string" where
  "hash_at e what p w =
     (case tree_Abs (ex_syncTree e) p of
        Inl err \<Rightarrow> Inl (path_error err)
      | Inr absPath \<Rightarrow> map_sum (\<lambda>err. of_os (wrap (''hashing '' @ what @ '' '' @ p @ '': '') err)) id (ex_hashFunc e absPath w))"

definition validateExistingDownloadTarget :: "'w executor \<Rightarrow> action \<Rightarrow> tree_info \<Rightarrow> local_state \<Rightarrow> 'w \<Rightarrow> go_error option" where
  "validateExistingDownloadTarget e a info planned w =
     (if ti_Kind info = EntryDir \<or> ls_ItemType planned \<noteq> ItemTypeFile
      then Some (stalePreconditionError (''download target '' @ a_Path a @ '' changed type''))
      else if ls_Size planned \<noteq> 0 \<and> ti_Size info \<noteq> ls_Size planned
      then Some (stalePreconditionError (''download target '' @ a_Path a @ '' changed size''))
      else if ls_Mtime planned \<noteq> 0 \<and> ti_ModTime info \<noteq> ls_Mtime planned
      then Some (stalePreconditionError (''download target '' @ a_Path a @ '' changed mtime''))
      else if ls_Hash planned \<noteq> ''''
      then (case hash_at e ''download target'' (a_Path a) w of
              Inl err \<Rightarrow> Some err
            | Inr h \<Rightarrow> if h \<noteq> ls_Hash planned
                        then Some (stalePreconditionError (''download target '' @ a_Path a @ '' changed hash'')) else None)
      else None)"

definition validateDownloadTargetPrecondition :: "'w executor \<Rightarrow> action \<Rightarrow> 'w \<Rightarrow> go_error option" where
  "validateDownloadTargetPrecondition e a w =
     (case tree_Lstat (ex_syncTree e) (a_Path a) w of
        Inl err \<Rightarrow>
          if is_err err KNotExist
          then (if view_Local a = None \<or> actionClearsLocalBeforeDownload a then None
                else Some (stalePreconditionError (''download target '' @ a_Path a @ '' disappeared'')))
          else Some (path_error err)
      | Inr info \<Rightarrow>
          if actionClearsLocalBeforeDownload a
          then Some (stalePreconditionError (''download target '' @ a_Path a @ '' appeared''))
          else case view_Local a of
                 None \<Rightarrow> Some (stalePreconditionError (''download target '' @ a_Path a @ '' appeared''))
               | Some planned \<Rightarrow> validateExistingDownloadTarget e a info planned w)"

definition identity_changed :: "'w executor \<Rightarrow> string \<Rightarrow> baseline_entry \<Rightarrow> 'w \<Rightarrow> bool" where
  "identity_changed e source b w \<longleftrightarrow>
     be_LocalHasIdentity b \<and>
     (case IdentityNoFollow (ex_syncTree e) source w of
        Inr i \<Rightarrow> \<not> SameIdentity i \<lparr>fi_Device = be_LocalDevice b, fi_Inode = be_LocalInode b\<rparr>
      | Inl _ \<Rightarrow> False)"

definition file_source_changed :: "'w executor \<Rightarrow> string \<Rightarrow> string \<Rightarrow> tree_info \<Rightarrow> baseline_entry \<Rightarrow> 'w \<Rightarrow> go_error option" where
  "file_source_changed e op source info b w =
     (if be_ItemType b \<noteq> ItemTypeFile then Some (stalePreconditionError (op @ '' source '' @ source @ '' changed type''))
      else if be_LocalSizeKnown b \<and> ti_Size info \<noteq> be_LocalSize b
      then Some (stalePreconditionError (op @ '' source '' @ source @ '' changed size''))
      else if be_LocalMtime b \<noteq> 0 \<and> ti_ModTime info \<noteq> be_LocalMtime b
      then Some (stalePreconditionError (op @ '' source '' @ source @ '' changed mtime''))
      else if be_LocalHash b \<noteq> ''''
      then (case hash_at e (op @ '' source'') source w of
              Inl err \<Rightarrow> Some err
            | Inr h \<Rightarrow> if h \<noteq> be_LocalHash b
                        then Some (stalePreconditionError (op @ '' source '' @ source @ '' changed hash'')) else None)
      else None)"

definition validateLocalSourceAgainstBaseline ::
  "'w executor \<Rightarrow> string \<Rightarrow> string \<Rightarrow> tree_info \<Rightarrow> baseline_entry \<Rightarrow> 'w \<Rightarrow> go_error option" where
  "validateLocalSourceAgainstBaseline e op source info b w =
     (let first = (if ti_Kind info = EntryDir
                   then (if be_ItemType b \<noteq> ItemTypeFolder
                         then Some (stalePreconditionError (op @ '' source '' @ source @ '' changed type'')) else None)
                   else file_source_changed e op source info b w)
      in case first of
           Some err \<Rightarrow> Some err
         | None \<Rightarrow>
             if identity_changed e source b w
             then Some (stalePreconditionError (op @ '' source '' @ source @ '' changed identity'')) else None)"

definition localMoveSourcePath :: "action \<Rightarrow> string" where
  "localMoveSourcePath a = (if a_OldPath a \<noteq> '''' then a_OldPath a else a_Path a)"

definition validateLocalMoveDestinationAbsent :: "'w executor \<Rightarrow> action \<Rightarrow> 'w \<Rightarrow> go_error option" where
  "validateLocalMoveDestinationAbsent e a w =
     (case tree_Lstat (ex_syncTree e) (a_Path a) w of
        Inr _ \<Rightarrow> Some (stalePreconditionError (''local move destination '' @ a_Path a @ '' already exists''))
      | Inl err \<Rightarrow> if is_err err KNotExist then None else Some (path_error err))"

definition validateLocalMovePrecondition :: "'w executor \<Rightarrow> action \<Rightarrow> 'w \<Rightarrow> go_error option" where
  "validateLocalMovePrecondition e a w =
     (let source = localMoveSourcePath a
      in case tree_Lstat (ex_syncTree e) source w of
           Inl err \<Rightarrow>
             Some (if is_err err KNotExist then stalePreconditionError (''local move source '' @ source @ '' is missing'')
                   else path_error err)
         | Inr info \<Rightarrow>
             (case validateLocalMoveDestinationAbsent e a w of
                Some err \<Rightarrow> Some err
              | None \<Rightarrow>
                  (case view_Baseline a of
                     None \<Rightarrow> None
                   | Some b \<Rightarrow> validateLocalSourceAgainstBaseline e ''local move'' source info b w)))"

definition validateLocalDeleteFolderPrecondition :: "'w executor \<Rightarrow> action \<Rightarrow> string \<Rightarrow> 'w \<Rightarrow> go_error option" where
  "validateLocalDeleteFolderPrecondition e a relPath w =
     (case view_Baseline a of
        None \<Rightarrow> None
      | Some b \<Rightarrow>
          (case tree_Lstat (ex_syncTree e) relPath w of
             Inl err \<Rightarrow>
               Some (if is_err err KNotExist then stalePreconditionError (''local delete source '' @ a_Path a @ '' is already absent'')
                     else path_error err)
           | Inr info \<Rightarrow> validateLocalSourceAgainstBaseline e ''local delete'' relPath info b w))"

section \<open>Deletion\<close>

definition isDisposable :: "'w executor \<Rightarrow> string \<Rightarrow> bool" where
  "isDisposable e name \<longleftrightarrow> ex_ignoreJunkFiles e \<and> isBundledJunkName name"

text \<open>The first entry of a folder, at any depth, that must not be lost; the empty text when there is none.\<close>

fun findNonDisposable :: "'w executor \<Rightarrow> nat \<Rightarrow> string \<Rightarrow> 'w \<Rightarrow> string option"
  and find_in :: "'w executor \<Rightarrow> nat \<Rightarrow> string \<Rightarrow> dir_entry list \<Rightarrow> 'w \<Rightarrow> string option" where
  "findNonDisposable e 0 dirPath w = None"
| "findNonDisposable e (Suc n) dirPath w =
     (case tree_ReadDir (ex_syncTree e) dirPath w of
        Inl _ \<Rightarrow> Some ''.''
      | Inr entries \<Rightarrow> find_in e n dirPath entries w)"
| "find_in e n dirPath [] w = Some ''''"
| "find_in e n dirPath (x # xs) w =
     (if \<not> isDisposable e (fst x) then Some (fst x)
      else if snd x
      then (case findNonDisposable e n (path_join dirPath (fst x)) w of
              None \<Rightarrow> None
            | Some sub \<Rightarrow>
                if sub = '''' then find_in e n dirPath xs w
                else if sub = ''.'' then Some (fst x)
                else Some (fst x @ ''/'' @ sub))
      else find_in e n dirPath xs w)"

fun boundary_of :: "'w executor \<Rightarrow> string \<Rightarrow> string list \<Rightarrow> 'w \<Rightarrow> os_error + string option" where
  "boundary_of e current [] w = Inr None"
| "boundary_of e current (part # parts) w =
     (if part = '''' \<or> part = ''.'' then boundary_of e current parts w
      else let next = path_join current part
           in case tree_Lstat (ex_syncTree e) next w of
                Inl err \<Rightarrow> if is_err err KNotExist then Inr None else Inl (wrap (''lstat '' @ next @ '': '') err)
              | Inr info \<Rightarrow> if ti_Kind info = EntrySymlink then Inr (Some next) else boundary_of e next parts w)"

definition symlinkBoundaryForPath :: "'w executor \<Rightarrow> string \<Rightarrow> 'w \<Rightarrow> os_error + string option" where
  "symlinkBoundaryForPath e relPath w =
     (let clean = path_clean relPath
      in if clean = ''.'' \<or> clean = '''' then Inr None else boundary_of e '''' (split_on (CHR ''/'') clean) w)"

definition DeleteLocalSymlink :: "'w executor \<Rightarrow> action \<Rightarrow> string \<Rightarrow> 'w \<Rightarrow> action_outcome \<times> 'w" where
  "DeleteLocalSymlink e a relPath w =
     (case tree_Remove (ex_syncTree e) relPath w of
        (Some err, w') \<Rightarrow>
          (failedOutcome e a ActionLocalDelete (of_os (wrap (''removing symlink '' @ a_Path a @ '': '') (normalizeSyncTreePathError err))), w')
      | (None, w') \<Rightarrow> (DeleteOutcome e a ActionLocalDelete, w'))"

text \<open>The entries that block the deletion of a folder.\<close>

fun delete_blockers :: "'w executor \<Rightarrow> nat \<Rightarrow> string \<Rightarrow> dir_entry list \<Rightarrow> 'w \<Rightarrow> string list option" where
  "delete_blockers e n relPath [] w = Some []"
| "delete_blockers e n relPath (x # xs) w =
     (if \<not> isDisposable e (fst x) then map_option (Cons (fst x)) (delete_blockers e n relPath xs w)
      else if snd x
      then (case findNonDisposable e n (path_join relPath (fst x)) w of
              None \<Rightarrow> None
            | Some nonDisp \<Rightarrow>
                if nonDisp \<noteq> '''' then map_option (Cons (fst x @ ''/'' @ nonDisp)) (delete_blockers e n relPath xs w)
                else delete_blockers e n relPath xs w)
      else delete_blockers e n relPath xs w)"

definition remove_disposable :: "'w executor \<Rightarrow> string \<Rightarrow> dir_entry list \<Rightarrow> 'w \<Rightarrow> 'w" where
  "remove_disposable e relPath entries w =
     fold (\<lambda>x v. snd (tree_RemoveAll (ex_syncTree e) (path_join relPath (fst x)) v)) entries w"

definition remove_empty_folder :: "'w executor \<Rightarrow> action \<Rightarrow> string \<Rightarrow> 'w \<Rightarrow> action_outcome \<times> 'w" where
  "remove_empty_folder e a relPath w =
     (case RemoveEmptyDirNoFollow (ex_syncTree e) relPath w of
        (Some err, w') \<Rightarrow>
          (failedOutcome e a ActionLocalDelete (of_os (wrap (''removing dir '' @ a_Path a @ '': '') (normalizeSyncTreePathError err))), w')
      | (None, w') \<Rightarrow> (DeleteOutcome e a ActionLocalDelete, w'))"

definition DeleteLocalFolder :: "'w executor \<Rightarrow> nat \<Rightarrow> action \<Rightarrow> string \<Rightarrow> 'w \<Rightarrow> (action_outcome \<times> 'w) option" where
  "DeleteLocalFolder e n a absPath w =
     (case tree_Rel (ex_syncTree e) absPath w of
        Inl err \<Rightarrow> Some (failedOutcome e a ActionLocalDelete (path_error err), w)
      | Inr relPath \<Rightarrow>
          (case validateLocalDeleteFolderPrecondition e a relPath w of
             Some err \<Rightarrow> Some (failedOutcomeWithFailure e a ActionLocalDelete err (a_Path a) PermissionCapabilityLocalWrite, w)
           | None \<Rightarrow>
               (case tree_ReadDir (ex_syncTree e) relPath w of
                  Inl err \<Rightarrow> Some (failedOutcome e a ActionLocalDelete (of_os (wrap (''reading dir '' @ a_Path a @ '': '') err)), w)
                | Inr entries \<Rightarrow>
                    (case delete_blockers e n relPath entries w of
                       None \<Rightarrow> None
                     | Some (b # bs) \<Rightarrow>
                         Some (failedOutcome e a ActionLocalDelete
                                 (plain_go (''directory '' @ a_Path a @ '' blocked by non-disposable files: ['' @
                                    join_with (CHR '' '') (b # bs) @ '']'')), w)
                     | Some [] \<Rightarrow> Some (remove_empty_folder e a relPath (remove_disposable e relPath entries w))))))"

text \<open>\<^verbatim>\<open>%d\<close> of an integer.\<close>

definition decimal_int :: "int \<Rightarrow> string" where
  "decimal_int i = (if i < 0 then CHR ''-'' # decimal (nat (- i)) else decimal (nat i))"

definition remove_local_file :: "'w executor \<Rightarrow> action \<Rightarrow> 'w \<Rightarrow> action_outcome \<times> 'w" where
  "remove_local_file e a w =
     (case tree_Remove (ex_syncTree e) (a_Path a) w of
        (Some err, w') \<Rightarrow>
          (failedOutcome e a ActionLocalDelete (of_os (wrap (''removing '' @ a_Path a @ '': '') (normalizeSyncTreePathError err))), w')
      | (None, w') \<Rightarrow> (DeleteOutcome e a ActionLocalDelete, w'))"

definition DeleteLocalFile :: "'w executor \<Rightarrow> action \<Rightarrow> string \<Rightarrow> tree_info \<Rightarrow> 'w \<Rightarrow> action_outcome \<times> 'w" where
  "DeleteLocalFile e a absPath info w =
     (let baselineHash = (case view_Baseline a of Some b \<Rightarrow> be_LocalHash b | None \<Rightarrow> '''');
          baselineRemoteHash = (case view_Baseline a of Some b \<Rightarrow> be_RemoteHash b | None \<Rightarrow> '''')
      in if baselineHash = '''' then remove_local_file e a w
         else case ex_hashFunc e absPath w of
                Inl err \<Rightarrow> (failedOutcome e a ActionLocalDelete (of_os (wrap (''hashing '' @ a_Path a @ '' before delete: '') err)), w)
              | Inr currentHash \<Rightarrow>
                  if currentHash \<noteq> baselineHash
                  then (failedOutcomeWithFailure e a ActionLocalDelete
                          (stalePreconditionError (''local delete hash mismatch for '' @ a_Path a @ '' (baseline='' @ baselineHash @
                             '' current='' @ currentHash @ '' remote='' @ baselineRemoteHash @ '' mtime='' @
                             decimal_int (ti_ModTime info) @ '')''))
                          (a_Path a) PermissionCapabilityLocalWrite, w)
                  else remove_local_file e a w)"

definition ExecuteLocalDelete :: "'w executor \<Rightarrow> nat \<Rightarrow> action \<Rightarrow> 'w \<Rightarrow> (action_outcome \<times> 'w) option" where
  "ExecuteLocalDelete e n a w =
     (case symlinkBoundaryForPath e (a_Path a) w of
        Inl err \<Rightarrow> Some (failedOutcome e a ActionLocalDelete (path_error err), w)
      | Inr (Some boundary) \<Rightarrow>
          Some (if boundary \<noteq> path_clean (a_Path a)
                then (failedOutcome e a ActionLocalDelete
                        (plain_go (''refusing to delete '' @ a_Path a @ '' through symlink boundary '' @ boundary)), w)
                else DeleteLocalSymlink e a boundary w)
      | Inr None \<Rightarrow>
          (case tree_Stat (ex_syncTree e) (a_Path a) w of
             Inl err \<Rightarrow>
               Some (if is_err err KNotExist
                     then failedOutcomeWithFailure e a ActionLocalDelete
                            (stalePreconditionError (''local delete source '' @ a_Path a @ '' is already absent''))
                            (a_Path a) PermissionCapabilityLocalWrite
                     else failedOutcome e a ActionLocalDelete (path_error err), w)
           | Inr info \<Rightarrow>
               (case tree_Abs (ex_syncTree e) (a_Path a) of
                  Inl err \<Rightarrow> Some (failedOutcome e a ActionLocalDelete (path_error err), w)
                | Inr absPath \<Rightarrow>
                    if ti_Kind info = EntryDir then DeleteLocalFolder e n a absPath w
                    else Some (DeleteLocalFile e a absPath info w))))"

definition ExecuteRemoteDelete :: "'w executor \<Rightarrow> action \<Rightarrow> 'w \<Rightarrow> action_outcome \<times> 'w" where
  "ExecuteRemoteDelete e a w =
     (let d = resolveDriveID e a
      in case remoteSourcePreconditionETag e d a ''remote delete'' w of
           Inl err \<Rightarrow> (failedOutcomeWithFailure e a ActionRemoteDelete err (a_Path a) PermissionCapabilityRemoteRead, w)
         | Inr sourceETag \<Rightarrow>
             (case ic_DeleteItemIfMatch (ex_items e) d (a_ItemID a) sourceETag w of
                (None, w') \<Rightarrow> (DeleteOutcome e a ActionRemoteDelete, w')
              | (Some err, w') \<Rightarrow>
                  (if graph_status err 404
                   then failedOutcomeWithFailure e a ActionRemoteDelete
                          (stalePreconditionError (''remote delete item '' @ a_ItemID a @ '' disappeared''))
                          (a_Path a) PermissionCapabilityRemoteWrite
                   else if graph_status err 412
                   then failedOutcomeWithFailure e a ActionRemoteDelete
                          (stalePreconditionError (''remote delete item '' @ a_ItemID a @ '' changed before mutation''))
                          (a_Path a) PermissionCapabilityRemoteWrite
                   else failedOutcomeWithFailure e a ActionRemoteDelete (wrap_go (''deleting remote '' @ a_Path a @ '': '') err)
                          (a_Path a) (inferFailureCapabilityFromError err PermissionCapabilityUnknown PermissionCapabilityRemoteWrite), w')))"

section \<open>Folders and moves\<close>

definition createLocalFolder :: "'w executor \<Rightarrow> action \<Rightarrow> 'w \<Rightarrow> action_outcome \<times> 'w" where
  "createLocalFolder e a w =
     (case tree_MkdirAll (ex_syncTree e) (a_Path a) w of
        (Some err, w1) \<Rightarrow>
          (failedOutcomeWithFailure e a ActionFolderCreate
             (of_os (wrap (''creating local folder '' @ a_Path a @ '': '') (normalizeSyncTreePathError err)))
             (a_Path a) PermissionCapabilityLocalWrite, w1)
      | (None, w1) \<Rightarrow>
          (folderOutcome e a,
           case view_Remote a of
             Some r \<Rightarrow> if rs_Mtime r \<noteq> 0 then snd (tree_Chtimes (ex_syncTree e) (a_Path a) (rs_Mtime r) (rs_Mtime r) w1) else w1
           | None \<Rightarrow> w1))"

definition createRemoteFolder :: "'w executor \<Rightarrow> action \<Rightarrow> 'w \<Rightarrow> action_outcome \<times> 'w" where
  "createRemoteFolder e a w =
     (case ResolveParentID e (a_Path a) of
        Inl err \<Rightarrow> (failedOutcomeWithFailure e a ActionFolderCreate err (a_Path a) PermissionCapabilityUnknown, w)
      | Inr parentID \<Rightarrow>
          (case waitRemoteParentVisible e a w of
             Some err \<Rightarrow> (failedOutcomeWithFailure e a ActionFolderCreate err (a_Path a) PermissionCapabilityUnknown, w)
           | None \<Rightarrow>
               (let d = resolveDriveID e a
                in case validateRemoteParentPrecondition e d parentID a ''folder create'' w of
                     Some err \<Rightarrow> (failedOutcomeWithFailure e a ActionFolderCreate err (a_Path a) PermissionCapabilityRemoteRead, w)
                   | None \<Rightarrow>
                       (case ic_CreateFolder (ex_items e) d parentID (path_base (a_Path a)) w of
                          (Inl err, w') \<Rightarrow>
                            (failedOutcomeWithFailure e a ActionFolderCreate (wrap_go (''creating remote folder '' @ a_Path a @ '': '') err)
                               (a_Path a) (inferFailureCapabilityFromError err PermissionCapabilityUnknown PermissionCapabilityRemoteWrite), w')
                        | (Inr item, w') \<Rightarrow>
                            (zero_outcome\<lparr>ao_Action := ActionFolderCreate, ao_Success := True, ao_Path := a_Path a, ao_DriveID := d,
                               ao_ItemID := gi_ID item, ao_ParentID := parentID, ao_ItemType := ItemTypeFolder,
                               ao_RemoteHash := SelectHash item, ao_ETag := gi_ETag item\<rparr>, w')))))"

definition ExecuteFolderCreate :: "'w executor \<Rightarrow> action \<Rightarrow> 'w \<Rightarrow> action_outcome \<times> 'w" where
  "ExecuteFolderCreate e a w = (if a_CreateSide a = CreateLocal then createLocalFolder e a w else createRemoteFolder e a w)"

definition ExecuteLocalMove :: "'w executor \<Rightarrow> action \<Rightarrow> 'w \<Rightarrow> action_outcome \<times> 'w" where
  "ExecuteLocalMove e a w =
     (case validateLocalMovePrecondition e a w of
        Some err \<Rightarrow> (failedOutcomeWithFailure e a ActionLocalMove err (a_OldPath a) PermissionCapabilityLocalWrite, w)
      | None \<Rightarrow>
          (case tree_MkdirAll (ex_syncTree e) (path_dir (a_Path a)) w of
             (Some err, w1) \<Rightarrow>
               (failedOutcomeWithFailure e a ActionLocalMove
                  (of_os (wrap (''creating parent for move target '' @ a_Path a @ '': '') (normalizeSyncTreePathError err)))
                  (a_Path a) PermissionCapabilityLocalWrite, w1)
           | (None, w1) \<Rightarrow>
               (case tree_Rename (ex_syncTree e) (a_OldPath a) (a_Path a) w1 of
                  (Some err, w2) \<Rightarrow>
                    (failedOutcomeWithFailure e a ActionLocalMove
                       (of_os (wrap (''renaming '' @ a_OldPath a @ '' -> '' @ a_Path a @ '': '') (normalizeSyncTreePathError err)))
                       (a_OldPath a) PermissionCapabilityLocalWrite, w2)
                | (None, w2) \<Rightarrow> (moveOutcome e a, w2))))"

definition ExecuteRemoteMove :: "'w executor \<Rightarrow> action \<Rightarrow> 'w \<Rightarrow> action_outcome \<times> 'w" where
  "ExecuteRemoteMove e a w =
     (let d = resolveDriveID e a
      in case ResolveParentID e (a_Path a) of
           Inl err \<Rightarrow> (failedOutcomeWithFailure e a ActionRemoteMove err (a_OldPath a) PermissionCapabilityUnknown, w)
         | Inr newParentID \<Rightarrow>
             (case remoteSourcePreconditionETag e d a ''remote move'' w of
                Inl err \<Rightarrow> (failedOutcomeWithFailure e a ActionRemoteMove err (a_OldPath a) PermissionCapabilityRemoteRead, w)
              | Inr sourceETag \<Rightarrow>
                  (case validateRemoteParentPrecondition e d newParentID a ''remote move'' w of
                     Some err \<Rightarrow> (failedOutcomeWithFailure e a ActionRemoteMove err (a_Path a) PermissionCapabilityRemoteRead, w)
                   | None \<Rightarrow>
                       (case ic_MoveItemIfMatch (ex_items e) d (a_ItemID a) newParentID (path_base (a_Path a)) sourceETag w of
                          (Inl err, w') \<Rightarrow>
                            (if graph_status err 412
                             then failedOutcomeWithFailure e a ActionRemoteMove
                                    (stalePreconditionError (''remote move item '' @ a_ItemID a @ '' changed before mutation''))
                                    (a_OldPath a) PermissionCapabilityRemoteWrite
                             else failedOutcomeWithFailure e a ActionRemoteMove
                                    (wrap_go (''moving '' @ a_OldPath a @ '' -> '' @ a_Path a @ '': '') err) (a_OldPath a)
                                    (inferFailureCapabilityFromError err PermissionCapabilityUnknown PermissionCapabilityRemoteWrite), w')
                        | (Inr item, w') \<Rightarrow> ((moveOutcome e a)\<lparr>ao_ItemID := gi_ID item, ao_ETag := gi_ETag item\<rparr>, w')))))"

definition ExecuteMove :: "'w executor \<Rightarrow> action \<Rightarrow> 'w \<Rightarrow> action_outcome \<times> 'w" where
  "ExecuteMove e a w = (if a_Type a = ActionLocalMove then ExecuteLocalMove e a w else ExecuteRemoteMove e a w)"

section \<open>Conflict copies\<close>

definition pad :: "nat \<Rightarrow> nat \<Rightarrow> string" where
  "pad k n = replicate (k - length (decimal n)) (CHR ''0'') @ decimal n"

text \<open>The layout \<^verbatim>\<open>20060102-150405\<close>.\<close>

definition conflict_stamp :: "civil_time \<Rightarrow> string" where
  "conflict_stamp t =
     pad 4 (ct_Year t) @ pad 2 (ct_Month t) @ pad 2 (ct_Day t) @ ''-'' @ pad 2 (ct_Hour t) @ pad 2 (ct_Minute t) @ pad 2 (ct_Second t)"

text \<open>\<^verbatim>\<open>filepath.Ext\<close> of a name.\<close>

definition path_ext :: "string \<Rightarrow> string" where
  "path_ext name = (if CHR ''.'' \<in> set name then CHR ''.'' # rev (takeWhile (\<lambda>c. c \<noteq> CHR ''.'') (rev name)) else '''')"

definition ConflictStemExt :: "string \<Rightarrow> string \<times> string" where
  "ConflictStemExt name =
     (if name \<noteq> '''' \<and> hd name = CHR ''.'' \<and> count_list name (CHR ''.'') = 1 then (name, '''')
      else (take (length name - length (path_ext name)) name, path_ext name))"

definition ConflictCopyPath :: "string \<Rightarrow> civil_time \<Rightarrow> string" where
  "ConflictCopyPath absPath now =
     (case ConflictStemExt (path_base absPath) of
        (stem, ext) \<Rightarrow> path_join (path_dir absPath) (stem @ ''.conflict-'' @ conflict_stamp now @ ext))"

definition conflictCopyPathAvailable :: "'w executor \<Rightarrow> string \<Rightarrow> 'w \<Rightarrow> os_error + bool" where
  "conflictCopyPathAvailable e absPath w =
     (case tree_Rel (ex_syncTree e) absPath w of
        Inl err \<Rightarrow> Inl (wrap (''relativizing conflict copy path '' @ path_base absPath @ '': '') (normalizeSyncTreePathError err))
      | Inr relPath \<Rightarrow>
          (case tree_Stat (ex_syncTree e) relPath w of
             Inr _ \<Rightarrow> Inr False
           | Inl err \<Rightarrow>
               if is_err err KNotExist then Inr True
               else Inl (wrap (''stating conflict copy path '' @ path_base absPath @ '': '') (normalizeSyncTreePathError err))))"

fun conflict_ordinal :: "'w executor \<Rightarrow> nat \<Rightarrow> string \<Rightarrow> string \<Rightarrow> string \<Rightarrow> nat \<Rightarrow> 'w \<Rightarrow> (os_error + string) option" where
  "conflict_ordinal e 0 dir stem ext ordinal w = None"
| "conflict_ordinal e (Suc n) dir stem ext ordinal w =
     (let candidate = path_join dir (stem @ ''-'' @ decimal ordinal @ ext)
      in case conflictCopyPathAvailable e candidate w of
           Inl err \<Rightarrow> Some (Inl err)
         | Inr True \<Rightarrow> Some (Inr candidate)
         | Inr False \<Rightarrow> conflict_ordinal e n dir stem ext (ordinal + 1) w)"

definition uniqueConflictCopyPath :: "'w executor \<Rightarrow> nat \<Rightarrow> string \<Rightarrow> 'w \<Rightarrow> (os_error + string) option" where
  "uniqueConflictCopyPath e n absPath w =
     (let basePath = ConflictCopyPath absPath (ex_nowFunc e)
      in case conflictCopyPathAvailable e basePath w of
           Inl err \<Rightarrow> Some (Inl err)
         | Inr True \<Rightarrow> Some (Inr basePath)
         | Inr False \<Rightarrow>
             (case ConflictStemExt (path_base basePath) of (stem, ext) \<Rightarrow> conflict_ordinal e n (path_dir basePath) stem ext 2 w))"

definition ExecuteConflictCopy :: "'w executor \<Rightarrow> nat \<Rightarrow> action \<Rightarrow> 'w \<Rightarrow> (action_outcome \<times> 'w) option" where
  "ExecuteConflictCopy e n a w =
     (case tree_Abs (ex_syncTree e) (a_Path a) of
        Inl err \<Rightarrow> Some (failedOutcomeWithFailure e a ActionConflictCopy (path_error err) (a_Path a) PermissionCapabilityLocalWrite, w)
      | Inr absPath \<Rightarrow>
          (case uniqueConflictCopyPath e n absPath w of
             None \<Rightarrow> None
           | Some (Inl err) \<Rightarrow> Some (failedOutcomeWithFailure e a ActionConflictCopy (of_os err) (a_Path a) PermissionCapabilityLocalWrite, w)
           | Some (Inr conflictPath) \<Rightarrow>
               (case tree_Rel (ex_syncTree e) conflictPath w of
                  Inl err \<Rightarrow>
                    Some (failedOutcomeWithFailure e a ActionConflictCopy (path_error err) (a_Path a) PermissionCapabilityLocalWrite, w)
                | Inr conflictRel \<Rightarrow>
                    (case tree_Rename (ex_syncTree e) (a_Path a) conflictRel w of
                       (Some err, w') \<Rightarrow>
                         Some (if is_err err KNotExist
                               then zero_outcome\<lparr>ao_Action := ActionConflictCopy, ao_Success := True, ao_Path := a_Path a,
                                      ao_DriveID := resolveDriveID e a, ao_ItemID := a_ItemID a, ao_OldPath := a_Path a,
                                      ao_ParentID := resolvedParentIDForOutcome e a None\<rparr>
                               else failedOutcomeWithFailure e a ActionConflictCopy
                                      (of_os (wrap (''renaming to conflict copy '' @ path_base conflictPath @ '': '') (normalizeSyncTreePathError err)))
                                      (a_Path a) PermissionCapabilityLocalWrite, w')
                     | (None, w') \<Rightarrow>
                         Some (zero_outcome\<lparr>ao_Action := ActionConflictCopy, ao_Success := True, ao_Path := a_Path a,
                                 ao_OldPath := conflictRel, ao_DriveID := resolveDriveID e a, ao_ItemID := a_ItemID a\<rparr>, w')))))"

section \<open>Transfers\<close>

definition maxHashRetries :: int where
  "maxHashRetries = 2"

definition downloadOutcome :: "'w executor \<Rightarrow> action \<Rightarrow> drive_id \<Rightarrow> string \<Rightarrow> string \<Rightarrow> int \<Rightarrow> action_outcome" where
  "downloadOutcome e a d localHash remoteHash sz =
     (let o1 = zero_outcome\<lparr>ao_Action := ActionDownload, ao_Success := True, ao_Path := a_Path a, ao_DriveID := d,
                 ao_ItemID := a_ItemID a, ao_ItemType := ItemTypeFile, ao_LocalHash := localHash, ao_RemoteHash := remoteHash,
                 ao_LocalSize := sz, ao_LocalSizeKnown := True, ao_RemoteSize := sz, ao_RemoteSizeKnown := True\<rparr>;
          o2 = (case view_Remote a of
                  Some r \<Rightarrow> o1\<lparr>ao_ETag := rs_ETag r, ao_LocalMtime := rs_Mtime r, ao_RemoteMtime := rs_Mtime r,
                              ao_RemoteSize := rs_Size r, ao_RemoteHash := if remoteHash = '''' then rs_Hash r else remoteHash\<rparr>
                | None \<Rightarrow> o1)
      in o2\<lparr>ao_ParentID := resolvedParentIDForOutcome e a None\<rparr>)"

definition downloadTransferFailureCapability :: "go_error \<Rightarrow> permission_capability" where
  "downloadTransferFailureCapability err =
     (if errors_Is (Some err) MarkActionPreconditionChanged then PermissionCapabilityLocalWrite
      else inferFailureCapabilityFromError err PermissionCapabilityLocalWrite PermissionCapabilityRemoteRead)"

definition uploadTransferFailureCapability :: "go_error \<Rightarrow> permission_capability" where
  "uploadTransferFailureCapability err =
     (if errors_Is (Some err) MarkActionPreconditionChanged then PermissionCapabilityLocalRead
      else inferFailureCapabilityFromError err PermissionCapabilityLocalRead PermissionCapabilityRemoteWrite)"

definition download_opts_of :: "'w executor \<Rightarrow> action \<Rightarrow> 'w download_opts" where
  "download_opts_of e a =
     (let o1 = \<lparr>do_RemoteHash = '''', do_RemoteMtime = 0, do_RemoteSize = 0, do_MaxHashRetries = maxHashRetries,
                do_ValidateTargetBeforeRename = validateDownloadTargetPrecondition e a\<rparr>
      in case view_Remote a of
           Some r \<Rightarrow> o1\<lparr>do_RemoteHash := rs_Hash r, do_RemoteMtime := rs_Mtime r, do_RemoteSize := rs_Size r\<rparr>
         | None \<Rightarrow> o1)"

definition ExecuteDownload :: "'w executor \<Rightarrow> action \<Rightarrow> 'w \<Rightarrow> action_outcome \<times> 'w" where
  "ExecuteDownload e a w =
     (case tree_Abs (ex_syncTree e) (a_Path a) of
        Inl err \<Rightarrow> (failedOutcomeWithFailure e a ActionDownload (path_error err) (a_Path a) PermissionCapabilityUnknown, w)
      | Inr targetPath \<Rightarrow>
          (let d = resolveDriveID e a
           in case validateRemoteSourcePrecondition e d a ''download'' w of
                Some err \<Rightarrow> (failedOutcomeWithFailure e a ActionDownload err (a_Path a) PermissionCapabilityRemoteRead, w)
              | None \<Rightarrow>
                  (case validateDownloadTargetPrecondition e a w of
                     Some err \<Rightarrow> (failedOutcomeWithFailure e a ActionDownload err (a_Path a) PermissionCapabilityLocalWrite, w)
                   | None \<Rightarrow>
                       (case tm_DownloadToFile (ex_transferMgr e) d (a_ItemID a) targetPath (download_opts_of e a) w of
                          (Inl err, w') \<Rightarrow>
                            (failedOutcomeWithFailure e a ActionDownload err (a_Path a) (downloadTransferFailureCapability err), w')
                        | (Inr res, w') \<Rightarrow>
                            (downloadOutcome e a d (dr_LocalHash res) (dr_EffectiveRemoteHash res) (dr_Size res), w')))))"

definition shouldOverwriteKnownRemoteItem :: "action \<Rightarrow> bool" where
  "shouldOverwriteKnownRemoteItem a \<longleftrightarrow>
     a_ItemID a \<noteq> '''' \<and> (case view_Remote a of Some r \<Rightarrow> \<not> rs_IsDeleted r | None \<Rightarrow> True)"

definition validateRemoteUploadPrecondition :: "'w executor \<Rightarrow> drive_id \<Rightarrow> action \<Rightarrow> 'w \<Rightarrow> go_error option" where
  "validateRemoteUploadPrecondition e d a w =
     (if shouldOverwriteKnownRemoteItem a then validateRemoteSourcePrecondition e d a ''upload overwrite'' w else None)"

definition upload_mismatch :: "action \<Rightarrow> string \<Rightarrow> string \<Rightarrow> string \<Rightarrow> go_error" where
  "upload_mismatch a localPath expectedHash actualHash =
     stalePreconditionError (''upload source '' @ a_Path a @ '' changed hash (expected='' @ expectedHash @ '' current='' @ actualHash @ '')'')"

definition uploadOpts :: "'w executor \<Rightarrow> action \<Rightarrow> 'w upload_opts" where
  "uploadOpts e a =
     \<lparr>uo_ExpectedHash = expectedUploadHash a, uo_HashMismatchError = upload_mismatch a,
      uo_ValidateSourceBeforeRead = validateUploadSourcePrecondition e a\<rparr>"

definition uploadOutcome :: "action \<Rightarrow> drive_id \<Rightarrow> string \<Rightarrow> upload_result \<Rightarrow> action_outcome" where
  "uploadOutcome a d parentID res =
     (let item = ur_Item res;
          o1 = zero_outcome\<lparr>ao_Action := ActionUpload, ao_Success := True, ao_Path := a_Path a, ao_DriveID := d,
                 ao_ItemID := gi_ID item, ao_ParentID := parentID, ao_ItemType := ItemTypeFile, ao_LocalHash := ur_LocalHash res,
                 ao_RemoteHash := SelectHash item, ao_LocalSize := ur_Size res, ao_LocalSizeKnown := True,
                 ao_RemoteSize := gi_Size item, ao_RemoteSizeKnown := True, ao_LocalMtime := ur_Mtime res,
                 ao_RemoteMtime := modified_nanos item, ao_ETag := gi_ETag item\<rparr>
      in case view_Local a of
           Some l \<Rightarrow> o1\<lparr>ao_LocalDevice := ls_LocalDevice l, ao_LocalInode := ls_LocalInode l,
                       ao_LocalHasIdentity := ls_LocalHasIdentity l, ao_LocalIdentityObserved := True\<rparr>
         | None \<Rightarrow> o1)"

definition upload_overwrite :: "'w executor \<Rightarrow> drive_id \<Rightarrow> action \<Rightarrow> string \<Rightarrow> 'w \<Rightarrow> action_outcome \<times> 'w" where
  "upload_overwrite e d a localPath w =
     (case tm_UploadFileToItem (ex_transferMgr e) d (a_ItemID a) localPath (uploadOpts e a) w of
        (Inl err, w') \<Rightarrow> (failedOutcomeWithFailure e a ActionUpload err (a_Path a) (uploadTransferFailureCapability err), w')
      | (Inr res, w') \<Rightarrow> (uploadOutcome a d (resolvedParentIDForOutcome e a (Some (ur_Item res))) res, w'))"

definition upload_create :: "'w executor \<Rightarrow> drive_id \<Rightarrow> action \<Rightarrow> string \<Rightarrow> 'w \<Rightarrow> action_outcome \<times> 'w" where
  "upload_create e d a localPath w =
     (case ResolveParentID e (a_Path a) of
        Inl err \<Rightarrow> (failedOutcomeWithFailure e a ActionUpload err (a_Path a) PermissionCapabilityUnknown, w)
      | Inr parentID \<Rightarrow>
          (case validateRemoteParentPrecondition e d parentID a ''upload create'' w of
             Some err \<Rightarrow> (failedOutcomeWithFailure e a ActionUpload err (a_Path a) PermissionCapabilityRemoteRead, w)
           | None \<Rightarrow>
               (case waitRemoteParentVisible e a w of
                  Some err \<Rightarrow> (failedOutcomeWithFailure e a ActionUpload err (a_Path a) PermissionCapabilityUnknown, w)
                | None \<Rightarrow>
                    (case tm_UploadFile (ex_transferMgr e) d parentID (path_base (a_Path a)) localPath (uploadOpts e a) w of
                       (Inl err, w') \<Rightarrow>
                         (failedOutcomeWithFailure e a ActionUpload err (a_Path a) (uploadTransferFailureCapability err), w')
                     | (Inr res, w') \<Rightarrow> (uploadOutcome a d parentID res, w')))))"

definition ExecuteUpload :: "'w executor \<Rightarrow> action \<Rightarrow> 'w \<Rightarrow> action_outcome \<times> 'w" where
  "ExecuteUpload e a w =
     (let d = resolveDriveID e a
      in case validateRemoteUploadPrecondition e d a w of
           Some err \<Rightarrow> (failedOutcomeWithFailure e a ActionUpload err (a_Path a) PermissionCapabilityRemoteRead, w)
         | None \<Rightarrow>
             (case validateUploadSourcePrecondition e a w of
                Some err \<Rightarrow> (failedOutcomeWithFailure e a ActionUpload err (a_Path a) PermissionCapabilityLocalRead, w)
              | None \<Rightarrow>
                  (case tree_Abs (ex_syncTree e) (a_Path a) of
                     Inl err \<Rightarrow> (failedOutcomeWithFailure e a ActionUpload (path_error err) (a_Path a) PermissionCapabilityUnknown, w)
                   | Inr localPath \<Rightarrow>
                       if shouldOverwriteKnownRemoteItem a then upload_overwrite e d a localPath w
                       else upload_create e d a localPath w)))"

section \<open>Dispatch\<close>

definition errPublicationOnlyActionType :: go_error where
  "errPublicationOnlyActionType = plain_go ''sync: publication-only action routed to worker''"

definition dispatchAction :: "'w executor \<Rightarrow> nat \<Rightarrow> action \<Rightarrow> 'w \<Rightarrow> (action_outcome \<times> 'w) option" where
  "dispatchAction e n a w =
     (case a_Type a of
        ActionFolderCreate \<Rightarrow> Some (ExecuteFolderCreate e a w)
      | ActionConflictCopy \<Rightarrow> ExecuteConflictCopy e n a w
      | ActionLocalMove \<Rightarrow> Some (ExecuteMove e a w)
      | ActionRemoteMove \<Rightarrow> Some (ExecuteMove e a w)
      | ActionDownload \<Rightarrow> Some (ExecuteDownload e a w)
      | ActionUpload \<Rightarrow> Some (ExecuteUpload e a w)
      | ActionLocalDelete \<Rightarrow> ExecuteLocalDelete e n a w
      | ActionRemoteDelete \<Rightarrow> Some (ExecuteRemoteDelete e a w)
      | ActionBaselineUpdate \<Rightarrow>
          Some (zero_outcome\<lparr>ao_Action := a_Type a, ao_Path := a_Path a, ao_Error := Some errPublicationOnlyActionType\<rparr>, w)
      | ActionCleanup \<Rightarrow>
          Some (zero_outcome\<lparr>ao_Action := a_Type a, ao_Path := a_Path a, ao_Error := Some errPublicationOnlyActionType\<rparr>, w))"

section \<open>Outcomes are well formed\<close>

text \<open>
  An outcome speaks about its action and either succeeds or carries an error; a success names no failure.
\<close>

definition outcome_ok :: "action \<Rightarrow> action_outcome \<Rightarrow> bool" where
  "outcome_ok a oc \<longleftrightarrow>
     ao_Action oc = a_Type a \<and> ao_Path oc = a_Path a \<and> (ao_Success oc \<longleftrightarrow> ao_Error oc = None) \<and>
     (ao_Success oc \<longrightarrow> ao_FailurePath oc = '''' \<and> ao_FailureCapability oc = PermissionCapabilityUnknown) \<and>
     (ao_FailurePath oc = '''' \<or> ao_FailurePath oc = a_Path a \<or> ao_FailurePath oc = a_OldPath a)"

named_theorems outcome_rules

lemma failed_ok [outcome_rules]:
  "a_Type a = t \<Longrightarrow> outcome_ok a (failedOutcome e a t err)"
  "a_Type a = t \<Longrightarrow> p = '''' \<or> p = a_Path a \<or> p = a_OldPath a \<Longrightarrow> outcome_ok a (failedOutcomeWithFailure e a t err p cap)"
  by (auto simp: outcome_ok_def failedOutcome_def failedOutcomeWithFailure_def zero_outcome_def Let_def)

lemma success_ok [outcome_rules]:
  "a_Type a = t \<Longrightarrow> outcome_ok a (DeleteOutcome e a t)"
  "a_Type a = ActionFolderCreate \<Longrightarrow> outcome_ok a (folderOutcome e a)"
  "outcome_ok a (moveOutcome e a)"
  "a_Type a = ActionDownload \<Longrightarrow> outcome_ok a (downloadOutcome e a d lh rh s)"
  "a_Type a = ActionUpload \<Longrightarrow> outcome_ok a (uploadOutcome a d par res)"
  by (auto simp: outcome_ok_def DeleteOutcome_def folderOutcome_def moveOutcome_def downloadOutcome_def uploadOutcome_def
      fillOutcomeFromBaseline_def zero_outcome_def Let_def split: option.splits)

lemma success_fields [outcome_rules]:
  "a_Type a = t \<Longrightarrow>
   outcome_ok a (zero_outcome\<lparr>ao_Action := t, ao_Success := True, ao_Path := a_Path a, ao_DriveID := d, ao_ItemID := i,
     ao_ParentID := p, ao_ItemType := it, ao_RemoteHash := h, ao_ETag := g\<rparr>)"
  "a_Type a = t \<Longrightarrow>
   outcome_ok a (zero_outcome\<lparr>ao_Action := t, ao_Success := True, ao_Path := a_Path a, ao_DriveID := d, ao_ItemID := i,
     ao_OldPath := q, ao_ParentID := p\<rparr>)"
  "a_Type a = t \<Longrightarrow>
   outcome_ok a (zero_outcome\<lparr>ao_Action := t, ao_Success := True, ao_Path := a_Path a, ao_OldPath := q, ao_DriveID := d, ao_ItemID := i\<rparr>)"
  "outcome_ok a ((moveOutcome e a)\<lparr>ao_ItemID := i, ao_ETag := g\<rparr>)"
  using success_ok(3) [of a e] by (simp_all add: outcome_ok_def zero_outcome_def)

lemmas outcome_splits = if_splits option.splits sum.splits prod.splits list.splits

lemma local_delete_ok:
  assumes "a_Type a = ActionLocalDelete" "ExecuteLocalDelete e n a w = Some (oc, w')"
  shows "outcome_ok a oc"
proof -
  have leaf: "outcome_ok a (fst (remove_local_file e a w))" "outcome_ok a (fst (DeleteLocalFile e a p i w))"
    "outcome_ok a (fst (DeleteLocalSymlink e a rel w))" "outcome_ok a (fst (remove_empty_folder e a rel w))" for p i rel w
    unfolding remove_local_file_def DeleteLocalFile_def DeleteLocalSymlink_def remove_empty_folder_def Let_def
    using assms(1) by (auto split: outcome_splits intro!: outcome_rules)
  have folder: "pred_option (\<lambda>x. outcome_ok a (fst x)) (DeleteLocalFolder e n a p w)" for p
    unfolding DeleteLocalFolder_def using assms(1) leaf(4) by (auto split: outcome_splits intro!: outcome_rules)
  have "pred_option (\<lambda>x. outcome_ok a (fst x)) (ExecuteLocalDelete e n a w)"
    unfolding ExecuteLocalDelete_def using assms(1) leaf(2,3) folder by (auto split: outcome_splits intro!: outcome_rules)
  then show ?thesis using assms(2) by simp
qed

lemma dispatched_ok:
  assumes "dispatchAction e n a w = Some (oc, w')"
  shows "outcome_ok a oc"
proof -
  have folder: "a_Type a = ActionFolderCreate \<Longrightarrow> outcome_ok a (fst (ExecuteFolderCreate e a w))"
    unfolding ExecuteFolderCreate_def createLocalFolder_def createRemoteFolder_def Let_def
    by (auto split: outcome_splits intro!: outcome_rules)
  have copy: "a_Type a = ActionConflictCopy \<Longrightarrow> pred_option (\<lambda>x. outcome_ok a (fst x)) (ExecuteConflictCopy e n a w)"
    unfolding ExecuteConflictCopy_def by (auto split: outcome_splits intro!: outcome_rules)
  have move: "a_Type a = ActionLocalMove \<or> a_Type a = ActionRemoteMove \<Longrightarrow> outcome_ok a (fst (ExecuteMove e a w))"
    unfolding ExecuteMove_def ExecuteLocalMove_def ExecuteRemoteMove_def Let_def
    by (auto split: outcome_splits intro!: outcome_rules)
  have down: "a_Type a = ActionDownload \<Longrightarrow> outcome_ok a (fst (ExecuteDownload e a w))"
    unfolding ExecuteDownload_def Let_def by (auto split: outcome_splits intro!: outcome_rules)
  have up: "a_Type a = ActionUpload \<Longrightarrow> outcome_ok a (fst (ExecuteUpload e a w))"
    unfolding ExecuteUpload_def upload_overwrite_def upload_create_def Let_def
    by (auto split: outcome_splits intro!: outcome_rules)
  have gone: "a_Type a = ActionRemoteDelete \<Longrightarrow> outcome_ok a (fst (ExecuteRemoteDelete e a w))"
    unfolding ExecuteRemoteDelete_def Let_def by (auto split: outcome_splits intro!: outcome_rules)
  have "a_Type a = ActionBaselineUpdate \<or> a_Type a = ActionCleanup \<Longrightarrow> outcome_ok a oc"
    using assms by (auto simp: dispatchAction_def outcome_ok_def zero_outcome_def)
  then show ?thesis
    using assms folder copy move down up gone local_delete_ok [of a e n w oc w']
    by (cases "a_Type a") (auto simp: dispatchAction_def)
qed

end
