(* ===== verification/ExecutorSafety.thy ===== *)
theory ExecutorSafety
  imports Executor ListTree
begin

text \<open>
  What the local operations of the executor do to the files of the user, on a file system with the documented
  behaviour, and what its remote operations rest on.
\<close>

section \<open>The tree the executor works on\<close>

lemma is_err_wrap [simp]: "is_err (wrap t e) k = is_err e k"
  by (simp add: is_err_def wrap_def)

definition handle_ok :: "'w sync_root \<Rightarrow> 'w \<Rightarrow> bool" where
  "handle_ok r w \<longleftrightarrow> ro_openRoot (rt_ops r) (rt_dir r) w = None \<and> ro_Close (rt_ops r) (rt_dir r) w = None"

lemma handle_found: "with_root r rel said act w = Inr x \<Longrightarrow> handle_ok r w"
  by (auto simp: with_root_def handle_ok_def split: sum.splits option.splits)

lemma stat_handle:
  "tree_Stat r rel w = Inr i \<Longrightarrow> handle_ok r w" "tree_Lstat r rel w = Inr i \<Longrightarrow> handle_ok r w"
  unfolding tree_Stat_def tree_Lstat_def statWithRoot_def by (rule handle_found, assumption)+

context posix_tree
begin

lemma there_plain: "V w ps \<noteq> None \<Longrightarrow> plain (V w) ps"
proof (induction ps rule: rev_induct)
  case (snoc n ps)
  have "is_dir (V w) ps" by (rule tree [OF snoc.prems])
  moreover from this have "V w ps \<noteq> None" by (auto simp: is_dir_def split: option.splits)
  ultimately show ?case using snoc.IH plain_snoc by blast
qed (simp add: plain_def)

lemma lstat_gone:
  assumes "names_ok ps" "tree_Lstat r (rel_of ps) w = Inl err" "is_err err KNotExist" "handle_ok r w"
  shows "V w ps = None"
proof (rule ccontr)
  assume "V w ps \<noteq> None"
  then have p: "plain (V w) ps" by (rule there_plain)
  obtain e0 where e0: "ro_Lstat (rt_ops r) (rt_dir r) (rel_of ps) w = Inl e0"
    "is_err (normalizeNotExist r (abs_of (rt_dir r) ps) e0 w) KNotExist"
    using assms unfolding tree_Lstat_def statWithRoot_def with_root_def handle_ok_def
    by (auto simp: clean_rel_of target_of_names [OF root] Let_def split: sum.splits)
  then show False using normalize_missing [OF assms(1) p e0(2)] lstat_missing [OF assms(1) p e0(1)] \<open>V w ps \<noteq> None\<close> by blast
qed

lemma lstat_unlinked:
  assumes "names_ok ps" "\<forall>q. strict_prefix q ps \<longrightarrow> \<not> is_link (V w) q" "tree_Lstat r (rel_of ps) w = Inr i"
  shows "plain (V w) ps \<and> map_option te_Info (V w ps) = Some i"
proof -
  have "ro_Lstat (rt_ops r) (rt_dir r) (rel_of ps) w = Inr i"
    by (rule with_root_found [OF assms(1)]) (use assms(3) in \<open>simp only: tree_Lstat_def statWithRoot_def\<close>)
  then show ?thesis using lstat_through [OF assms(1,2)] lstat_found [OF assms(1)] by blast
qed

lemma stat_unlinked:
  assumes "names_ok ps" "\<forall>q. prefix q ps \<longrightarrow> \<not> is_link (V w) q" "tree_Stat r (rel_of ps) w = Inr i"
  shows "plain (V w) ps \<and> map_option te_Info (V w ps) = Some i"
proof -
  have s: "ro_Stat (rt_ops r) (rt_dir r) (rel_of ps) w = Inr i"
    by (rule with_root_found [OF assms(1)]) (use assms(3) in \<open>simp only: tree_Stat_def statWithRoot_def\<close>)
  have p: "plain (V w) ps" using stat_through [OF assms(1) _ s] assms(2) by (simp add: strict_prefix_def)
  have "\<not> is_link (V w) ps" using assms(2) by simp
  then show ?thesis using p stat_found [OF assms(1) p s] by (auto simp: is_link_def)
qed

lemma remove_all_tree:
  assumes "names_ok ps" "plain (V w) ps"
  shows "only_removed_under ps (V w) (V (snd (tree_RemoveAll r (rel_of ps) w)))"
proof -
  obtain res w' where c: "ro_removeAll (rt_ops r) (abs_of (rt_dir r) ps) w = (res, w')" by fastforce
  then have "snd (tree_RemoveAll r (rel_of ps) w) = w'"
    by (auto simp: tree_RemoveAll_def at_path_def abs_rel [OF assms(1)] split: option.splits)
  then show ?thesis using remove_all [OF assms c] by simp
qed

lemma remove_empty:
  assumes "names_ok ps" "plain (V w) ps" "RemoveEmptyDirNoFollow r (rel_of ps) w = (res, w')"
  shows "if res = None then is_dir (V w) ps \<and> V w' = (V w)(ps := None) else V w' = V w"
proof (cases "DirEmptyNoFollow r (rel_of ps) w")
  case (Inl err)
  then show ?thesis using assms(3) by (auto simp: RemoveEmptyDirNoFollow_def)
next
  case (Inr empty)
  show ?thesis
  proof (cases empty)
    case True
    obtain res0 w0 where c: "ro_rmdir (rt_ops r) (abs_of (rt_dir r) ps) w = (res0, w0)" by fastforce
    then have "res = None \<longleftrightarrow> res0 = None" "w' = w0"
      using assms(3) Inr True by (auto simp: RemoveEmptyDirNoFollow_def abs_rel [OF assms(1)])
    then show ?thesis using rmdir [OF assms(1,2) c] by (auto split: if_splits)
  qed (use assms(3) Inr in \<open>auto simp: RemoveEmptyDirNoFollow_def\<close>)
qed

end

locale executor_tree = posix_tree r V for r :: "'w sync_root" and V :: "'w \<Rightarrow> tree_view" +
  fixes e :: "'w executor"
  assumes tree_of: "ex_syncTree e = r"
begin

end

section \<open>Links on the way\<close>

definition walked :: "string list \<Rightarrow> string" where
  "walked qs = (if qs = [] then '''' else rel_of qs)"

lemma walked_join: "names_ok qs \<Longrightarrow> name_ok p \<Longrightarrow> path_join (walked qs) p = rel_of (qs @ [p])"
proof (cases "qs = []")
  case True
  assume "name_ok p"
  then have "cleanRelative p = Inr p" "p \<noteq> ''''" using clean_rel_of [of "[p]"] by (simp_all add: rel_of_def name_ok_def)
  then have "path_clean p = p" by (auto simp: cleanRelative_def Let_def split: if_splits)
  then show ?thesis using True \<open>p \<noteq> ''''\<close> by (simp add: walked_def path_join_def rel_of_def)
qed (simp add: walked_def path_join_child)

lemma rel_not_dot: "names_ok ps \<Longrightarrow> ps \<noteq> [] \<Longrightarrow> rel_of ps \<noteq> ''.''"
  using parse_rel_of [of ps] by (auto simp: parse_rel_def)

lemma rel_split: "names_ok ps \<Longrightarrow> ps \<noteq> [] \<Longrightarrow> split_on (CHR ''/'') (rel_of ps) = ps"
  using parse_rel_of [of ps] rel_not_dot [of ps] by (simp add: parse_rel_def)

lemma rel_not_empty: "names_ok ps \<Longrightarrow> rel_of ps \<noteq> ''''"
  by (cases "ps = []") (use names_no_slash [of ps] join_Nil_iff in \<open>auto simp: rel_of_def\<close>)

lemma clean_names_of:
  assumes "cleanRelative p = Inr (rel_of ps)"
  shows "path_clean p = rel_of ps"
  using assms by (auto simp: cleanRelative_def Let_def path_clean_def has_prefix_def split: if_splits)

context executor_tree
begin

lemma walk:
  assumes "handle_ok r w" "names_ok (qs @ parts)" "\<forall>q. prefix q qs \<longrightarrow> \<not> is_link (V w) q"
  shows "case boundary_of e (walked qs) parts w of
       Inl _ \<Rightarrow> True
     | Inr None \<Rightarrow> \<forall>q. prefix q (qs @ parts) \<longrightarrow> \<not> is_link (V w) q
     | Inr (Some b) \<Rightarrow> \<exists>q. prefix q (qs @ parts) \<and> b = rel_of q \<and> plain (V w) q \<and> is_link (V w) q"
  using assms(2,3)
proof (induction parts arbitrary: qs)
  case (Cons p parts)
  let ?next = "qs @ [p]"
  have j: "path_join (walked qs) p = rel_of ?next" "walked ?next = rel_of ?next"
    using Cons.prems(1) walked_join by (simp_all add: walked_def)
  have ok: "names_ok ?next" using Cons.prems(1) by simp
  have p: "p \<noteq> ''''" "p \<noteq> ''.''" using Cons.prems(1) by (auto simp: name_ok_def)
  have up: "\<forall>q. strict_prefix q ?next \<longrightarrow> \<not> is_link (V w) q" using Cons.prems(2) by (auto simp: strict_prefix_snoc_iff strict_prefix_def)
  show ?case
  proof (cases "tree_Lstat r (rel_of ?next) w")
    case (Inl err)
    have "\<not> is_link (V w) q" if "prefix q (?next @ parts)" "V w ?next = None" for q
    proof (cases "prefix ?next q")
      case True
      then obtain t where "q = ?next @ t" by (auto simp only: prefix_def)
      then show ?thesis using descendants [OF that(2), of t] by (simp add: is_link_def)
    next
      case False
      then have "strict_prefix q ?next" using that(1) prefix_same_cases [of q "?next @ parts" ?next] by (auto simp: strict_prefix_def)
      then show ?thesis using up by blast
    qed
    then show ?thesis using Inl p lstat_gone [OF ok Inl _ assms(1)] by (auto simp: j tree_of Let_def)
  next
    case (Inr i)
    have l: "plain (V w) ?next" "map_option te_Info (V w ?next) = Some i" using lstat_unlinked [OF ok up Inr] by auto
    show ?thesis
    proof (cases "ti_Kind i = EntrySymlink")
      case True
      then have "is_link (V w) ?next" using l(2) by (auto simp: is_link_def)
      moreover have "boundary_of e (walked qs) (p # parts) w = Inr (Some (rel_of ?next))" using Inr True p by (simp add: j tree_of Let_def)
      moreover have "\<exists>q. prefix q (qs @ p # parts) \<and> rel_of ?next = rel_of q \<and> plain (V w) q \<and> is_link (V w) q"
        by (rule exI [of _ ?next]) (use calculation(1) l(1) in simp)
      ultimately show ?thesis by (simp del: boundary_of.simps)
    next
      case False
      then have "\<not> is_link (V w) ?next" using l(2) by (auto simp: is_link_def)
      then have "\<forall>q. prefix q ?next \<longrightarrow> \<not> is_link (V w) q" using up by (metis strict_prefix_def)
      moreover have "names_ok (?next @ parts)" using Cons.prems(1) by simp
      moreover have step: "boundary_of e (walked qs) (p # parts) w = boundary_of e (walked ?next) parts w"
        using Inr False p by (simp add: j tree_of Let_def)
      ultimately show ?thesis unfolding step using Cons.IH [of ?next] by (simp only: append_assoc append_Cons append_Nil)
    qed
  qed
qed simp

lemma no_handle: "\<not> handle_ok r w \<Longrightarrow> boundary_of e cur parts w \<noteq> Inr (Some b)"
proof (induction parts arbitrary: cur)
  case (Cons p parts)
  then show ?case
    using stat_handle(2) [of r "path_join cur p" w] by (cases "tree_Lstat r (path_join cur p) w") (auto simp: tree_of Let_def)
qed simp

lemma boundary:
  assumes "names_ok ps" "path_clean p = rel_of ps" "is_dir (V w) []" "symlinkBoundaryForPath e p w = Inr res"
  shows "case res of
       None \<Rightarrow> handle_ok r w \<longrightarrow> (\<forall>q. prefix q ps \<longrightarrow> \<not> is_link (V w) q)
     | Some b \<Rightarrow> \<exists>q. prefix q ps \<and> b = rel_of q \<and> plain (V w) q \<and> is_link (V w) q"
proof -
  have root_dir: "\<forall>q. prefix q [] \<longrightarrow> \<not> is_link (V w) q" using assms(3) by (auto simp: is_dir_def is_link_def split: option.splits)
  show ?thesis
  proof (cases "ps = []")
    case True
    then show ?thesis using assms(2,4) root_dir by (auto simp: symlinkBoundaryForPath_def rel_of_def)
  next
    case False
    then have b: "boundary_of e '''' ps w = Inr res"
      using assms(1,2,4) rel_not_dot rel_not_empty rel_split by (auto simp: symlinkBoundaryForPath_def Let_def)
    show ?thesis
    proof (cases "handle_ok r w")
      case True
      then show ?thesis using walk [of w "[]" ps] root_dir assms(1) b by (auto simp: walked_def split: option.splits)
    next
      case False
      then show ?thesis using no_handle b by (auto split: option.splits)
    qed
  qed
qed

end

section \<open>Disposable entries\<close>

definition junk_under :: "'w executor \<Rightarrow> tree_view \<Rightarrow> string list \<Rightarrow> string \<Rightarrow> bool" where
  "junk_under e T ps m \<longleftrightarrow> (\<forall>t. T (ps @ m # t) \<noteq> None \<longrightarrow> list_all (isDisposable e) (m # t))"

context executor_tree
begin

lemma entry_names:
  assumes "is_dir (V w) ps" "tree_ReadDir r (rel_of ps) w = Inr es" "(m, d) \<in> set es"
  shows "V w (ps @ [m]) \<noteq> None \<and> d = is_dir (V w) (ps @ [m]) \<and> name_ok m"
proof -
  have t: "V w ps \<noteq> None" using assms(1) by (auto simp: is_dir_def split: option.splits)
  then show ?thesis using read_dir [OF names [OF t] there_plain [OF t] assms(1,2)] assms(3) child_names by blast
qed

lemma all_entries:
  assumes "is_dir (V w) ps" "tree_ReadDir r (rel_of ps) w = Inr es" "V w (ps @ m # t) \<noteq> None"
  shows "(m, is_dir (V w) (ps @ [m])) \<in> set es"
proof -
  have t: "V w ps \<noteq> None" using assms(1) by (auto simp: is_dir_def split: option.splits)
  have "V w (ps @ [m]) \<noteq> None" using descendants [of w "ps @ [m]" t] assms(3) by auto
  then show ?thesis using read_dir [OF names [OF t] there_plain [OF t] assms(1,2)] by blast
qed

lemma below_entry: "V w (ps @ m # t) \<noteq> None \<Longrightarrow> t \<noteq> [] \<Longrightarrow> is_dir (V w) (ps @ [m])"
  using there_plain [of w "ps @ m # t"] unfolding plain_def strict_prefix_def by (auto simp: prefix_def)

lemma junk_entry:
  assumes "isDisposable e m" "is_dir (V w) (ps @ [m]) \<longrightarrow> (\<forall>t. V w ((ps @ [m]) @ t) \<noteq> None \<longrightarrow> list_all (isDisposable e) t)"
  shows "junk_under e (V w) ps m"
  unfolding junk_under_def
proof (intro allI impI)
  fix t assume t: "V w (ps @ m # t) \<noteq> None"
  show "list_all (isDisposable e) (m # t)" using assms t below_entry [OF t] by (cases "t = []") auto
qed

lemma find_in_junk:
  assumes IH: "\<And>ps. findNonDisposable e n (rel_of ps) w = Some '''' \<Longrightarrow> is_dir (V w) ps \<Longrightarrow>
      \<forall>t. V w (ps @ t) \<noteq> None \<longrightarrow> list_all (isDisposable e) t"
    and "names_ok ps" "\<forall>x \<in> set es. snd x = is_dir (V w) (ps @ [fst x]) \<and> name_ok (fst x)" "find_in e n (rel_of ps) es w = Some ''''"
  shows "\<forall>x \<in> set es. junk_under e (V w) ps (fst x)"
  using assms(3,4)
proof (induction es)
  case (Cons x es)
  have ok: "name_ok (fst x)" "snd x = is_dir (V w) (ps @ [fst x])" using Cons.prems(1) by auto
  have d: "isDisposable e (fst x)" using Cons.prems(2) ok by (auto simp: name_ok_def split: if_splits)
  have rest: "find_in e n (rel_of ps) es w = Some '''' \<and>
      (snd x \<longrightarrow> findNonDisposable e n (rel_of (ps @ [fst x])) w = Some '''')"
    using Cons.prems(2) d ok by (auto simp: path_join_child [OF assms(2)] name_ok_def split: if_splits option.splits)
  then have "junk_under e (V w) ps (fst x)" using junk_entry [OF d] IH [of "ps @ [fst x]"] ok(2) by blast
  then show ?case using Cons.IH Cons.prems(1) rest by simp
qed simp

lemma disposable:
  assumes "findNonDisposable e n (rel_of ps) w = Some ''''" "is_dir (V w) ps"
  shows "\<forall>t. V w (ps @ t) \<noteq> None \<longrightarrow> list_all (isDisposable e) t"
  using assms
proof (induction n arbitrary: ps)
  case (Suc n)
  have t: "V w ps \<noteq> None" using Suc.prems(2) by (auto simp: is_dir_def split: option.splits)
  obtain es where es: "tree_ReadDir r (rel_of ps) w = Inr es" "find_in e n (rel_of ps) es w = Some ''''"
    using Suc.prems(1) by (auto simp: tree_of split: sum.splits)
  have "\<forall>x \<in> set es. junk_under e (V w) ps (fst x)"
    by (rule find_in_junk [OF Suc.IH names [OF t]]) (use es entry_names [OF Suc.prems(2) es(1)] in auto)
  then have j: "junk_under e (V w) ps m" if "V w (ps @ m # t) \<noteq> None" for m t
    using all_entries [OF Suc.prems(2) es(1) that] by force
  show ?case
  proof (intro allI impI)
    fix t assume "V w (ps @ t) \<noteq> None"
    then show "list_all (isDisposable e) t" using j by (cases t) (auto simp: junk_under_def)
  qed
qed simp

lemma no_blockers:
  assumes "names_ok ps" "\<forall>x \<in> set es. snd x = is_dir (V w) (ps @ [fst x]) \<and> name_ok (fst x)"
    and "delete_blockers e n (rel_of ps) es w = Some []"
  shows "\<forall>x \<in> set es. junk_under e (V w) ps (fst x)"
  using assms(2,3)
proof (induction es)
  case (Cons x es)
  have ok: "name_ok (fst x)" "snd x = is_dir (V w) (ps @ [fst x])" using Cons.prems(1) by auto
  have d: "isDisposable e (fst x)" using Cons.prems(2) by (auto split: if_splits)
  have rest: "delete_blockers e n (rel_of ps) es w = Some [] \<and>
      (snd x \<longrightarrow> findNonDisposable e n (rel_of (ps @ [fst x])) w = Some '''')"
    using Cons.prems(2) d by (auto simp: path_join_child [OF assms(1) ok(1)] split: if_splits option.splits)
  then have "junk_under e (V w) ps (fst x)" using junk_entry [OF d] disposable [of n "ps @ [fst x]" w] ok(2) by blast
  then show ?case using Cons.IH Cons.prems(1) rest by simp
qed simp

end

section \<open>Local deletion\<close>

text \<open>Entries strictly under the path may be gone; nothing else is changed.\<close>

definition shrunk_under :: "string list \<Rightarrow> tree_view \<Rightarrow> tree_view \<Rightarrow> bool" where
  "shrunk_under ps T T' \<longleftrightarrow> (\<forall>q. \<not> strict_prefix ps q \<longrightarrow> T' q = T q) \<and> (\<forall>q. T' q \<noteq> None \<longrightarrow> T' q = T q)"

text \<open>
  What a local deletion may take away: the entry at the path when it is a link, a directory that the baseline has as a folder,
  or a file with the content of the baseline, as far as there is a baseline with a hash; below the path only
  entries whose names, down from the path, are all junk that the filter ignores.
\<close>

definition may_lose :: "'w executor \<Rightarrow> action \<Rightarrow> 'w \<Rightarrow> string list \<Rightarrow> string list \<Rightarrow> tree_entry \<Rightarrow> bool" where
  "may_lose e a w ps q x \<longleftrightarrow>
     (if q = ps
      then (case ti_Kind (te_Info x) of
              EntrySymlink \<Rightarrow> True
            | EntryDir \<Rightarrow> (case view_Baseline a of Some b \<Rightarrow> be_ItemType b = ItemTypeFolder | None \<Rightarrow> True)
            | _ \<Rightarrow> (case view_Baseline a of
                     Some b \<Rightarrow> be_LocalHash b = '''' \<or> ex_hashFunc e (abs_of (rt_dir (ex_syncTree e)) ps) w = Inr (be_LocalHash b)
                   | None \<Rightarrow> True))
      else strict_prefix ps q \<and> ex_ignoreJunkFiles e \<and> list_all isBundledJunkName (drop (length ps) q))"

definition deletion_ok :: "'w executor \<Rightarrow> action \<Rightarrow> 'w \<Rightarrow> string list \<Rightarrow> tree_view \<Rightarrow> tree_view \<Rightarrow> action_outcome \<Rightarrow> bool" where
  "deletion_ok e a w ps T T' oc \<longleftrightarrow>
     only_removed_under ps T T' \<and> (\<forall>q x. T q = Some x \<and> T' q = None \<longrightarrow> may_lose e a w ps q x) \<and>
     (ao_Success oc \<longrightarrow> T' ps = None)"

lemma success_simps [simp]:
  "ao_Success (failedOutcome e a t err) = False" "ao_Success (failedOutcomeWithFailure e a t err p c) = False"
  "ao_Success (DeleteOutcome e a t) = True"
  by (simp_all add: failedOutcome_def failedOutcomeWithFailure_def DeleteOutcome_def zero_outcome_def Let_def)

lemma unchanged_ok: "\<not> ao_Success oc \<Longrightarrow> deletion_ok e a w ps T T oc"
  by (auto simp: deletion_ok_def only_removed_under_def)

lemma removed_ok:
  assumes "T ps = Some x" "may_lose e a w ps ps x" "T' = T(ps := None)"
  shows "deletion_ok e a w ps T T' oc"
  using assms by (auto simp: deletion_ok_def only_removed_under_def)

context executor_tree
begin

lemma junk_removed:
  assumes "names_ok ps" "is_dir (V w) ps" "\<forall>x \<in> set es. name_ok (fst x)"
  shows "shrunk_under ps (V w) (V (remove_disposable e (rel_of ps) es w))"
  using assms(2,3)
proof (induction es arbitrary: w)
  case Nil
  then show ?case by (simp add: remove_disposable_def shrunk_under_def)
next
  case (Cons x es)
  let ?w1 = "snd (tree_RemoveAll r (rel_of (ps @ [fst x])) w)"
  have t: "V w ps \<noteq> None" using Cons.prems(1) by (auto simp: is_dir_def split: option.splits)
  have ok: "names_ok (ps @ [fst x])" "plain (V w) (ps @ [fst x])"
    using assms(1) Cons.prems plain_snoc there_plain [OF t] by auto
  have one: "only_removed_under (ps @ [fst x]) (V w) (V ?w1)" by (rule remove_all_tree [OF ok])
  have same: "V ?w1 q = V w q" if "\<not> strict_prefix ps q" for q
    using one that under_child [of ps "fst x" q] unfolding only_removed_under_def by blast
  then have "is_dir (V ?w1) ps" using Cons.prems(1) by (simp add: is_dir_def strict_prefix_def)
  then have "shrunk_under ps (V ?w1) (V (remove_disposable e (rel_of ps) es ?w1))" using Cons by simp
  moreover have "remove_disposable e (rel_of ps) (x # es) w = remove_disposable e (rel_of ps) es ?w1"
    using Cons.prems(2) by (simp add: remove_disposable_def tree_of path_join_child [OF assms(1)])
  ultimately show ?case using same one unfolding shrunk_under_def only_removed_under_def by metis
qed

lemma clean_calls:
  assumes "cleanRelative p = Inr (rel_of ps)" "names_ok ps"
  shows "tree_Stat r p w = tree_Stat r (rel_of ps) w" "tree_Abs r p = Inr (abs_of (rt_dir r) ps)"
    "tree_Remove r p w = tree_Remove r (rel_of ps) w"
  using assms abs_rel [OF assms(2)]
  by (simp_all add: tree_Stat_def statWithRoot_def with_root_def clean_rel_of tree_Remove_def at_path_def tree_Abs_def)

lemma folder_lost:
  assumes "names_ok ps" "V w ps = Some x" "ti_Kind (te_Info x) = EntryDir" "validateLocalDeleteFolderPrecondition e a (rel_of ps) w = None"
  shows "may_lose e a w ps ps x"
proof (cases "view_Baseline a")
  case (Some b)
  obtain i where i: "tree_Lstat r (rel_of ps) w = Inr i"
    "validateLocalSourceAgainstBaseline e ''local delete'' (rel_of ps) i b w = None"
    using assms(4) Some by (auto simp: validateLocalDeleteFolderPrecondition_def tree_of split: sum.splits)
  have "plain (V w) ps" using there_plain assms(2) by simp
  then have "i = te_Info x" using lstat [OF assms(1) _ i(1)] assms(2) by simp
  then have "be_ItemType b = ItemTypeFolder"
    using i(2) assms(3) by (auto simp: validateLocalSourceAgainstBaseline_def split: if_splits)
  then show ?thesis using assms(3) Some by (simp add: may_lose_def)
qed (use assms(3) in \<open>simp add: may_lose_def\<close>)

lemma abs_back: "names_ok ps \<Longrightarrow> tree_Rel r (abs_of (rt_dir r) ps) w = Inr (rel_of ps)"
proof -
  assume ok: "names_ok ps"
  obtain ds where ds: "names_ok ds" "components (rt_dir r) = ds" "rt_dir r = CHR ''/'' # join_with (CHR ''/'') ds"
    using root_okE [OF root] by blast
  have p: "abs_of (rt_dir r) ps = CHR ''/'' # join_with (CHR ''/'') (ds @ ps)" using ds by (simp add: abs_of_def)
  have "path_is_abs (abs_of (rt_dir r) ps)" "path_clean (abs_of (rt_dir r) ps) = abs_of (rt_dir r) ps"
    using clean_plain_path [of "ds @ ps"] ds(1) ok by (auto simp: p path_is_abs_def has_prefix_def)
  then show ?thesis using tree_Rel_names [OF root] ok by blast
qed

lemma delete_folder:
  assumes "names_ok ps" "V w ps = Some x" "ti_Kind (te_Info x) = EntryDir"
    and "DeleteLocalFolder e n a (abs_of (rt_dir r) ps) w = Some (oc, w')"
  shows "deletion_ok e a w ps (V w) (V w') oc"
proof (cases "validateLocalDeleteFolderPrecondition e a (rel_of ps) w")
  case (Some err)
  then show ?thesis using assms(4) by (auto simp: DeleteLocalFolder_def tree_of abs_back [OF assms(1)] intro!: unchanged_ok)
next
  case pre: None
  have d: "is_dir (V w) ps" using assms(2,3) by (simp add: is_dir_def)
  show ?thesis
  proof (cases "\<exists>es. tree_ReadDir r (rel_of ps) w = Inr es \<and> delete_blockers e n (rel_of ps) es w = Some []")
    case False
    then have "w' = w \<and> \<not> ao_Success oc"
      using assms(4) pre by (auto simp: DeleteLocalFolder_def tree_of abs_back [OF assms(1)] split: sum.splits option.splits list.splits)
    then show ?thesis by (auto intro!: unchanged_ok)
  next
    case True
    then obtain es where es: "tree_ReadDir r (rel_of ps) w = Inr es" "delete_blockers e n (rel_of ps) es w = Some []" by blast
    let ?w1 = "remove_disposable e (rel_of ps) es w"
    have entries: "\<forall>x \<in> set es. snd x = is_dir (V w) (ps @ [fst x]) \<and> name_ok (fst x)" using entry_names [OF d es(1)] by auto
    have junk: "\<forall>x \<in> set es. junk_under e (V w) ps (fst x)" by (rule no_blockers [OF assms(1) entries es(2)])
    have lost: "ex_ignoreJunkFiles e \<and> list_all isBundledJunkName t" if "V w (ps @ t) \<noteq> None" "t \<noteq> []" for t
    proof -
      note there = that
      obtain m s where t: "t = m # s" using there(2) by (cases t) auto
      then have "junk_under e (V w) ps m" using junk all_entries [OF d es(1)] that(1) by force
      then show ?thesis using that(1) t by (auto simp: junk_under_def isDisposable_def list_all_iff)
    qed
    have sh: "shrunk_under ps (V w) (V ?w1)" by (rule junk_removed [OF assms(1) d]) (use entries in auto)
    have up: "V ?w1 q = V w q" if "prefix q ps" for q
      using sh that unfolding shrunk_under_def by (metis prefix_order.less_le_not_le)
    have p1: "plain (V ?w1) ps" using there_plain [of ?w1 ps] up [of ps] assms(2) by simp
    obtain res where res: "RemoveEmptyDirNoFollow r (rel_of ps) ?w1 = (res, w')" "ao_Success oc \<longleftrightarrow> res = None"
      using assms(4) pre es
      by (auto simp: DeleteLocalFolder_def tree_of abs_back [OF assms(1)] remove_empty_folder_def split: prod.splits option.splits)
    have rm: "if res = None then V w' = (V ?w1)(ps := None) else V w' = V ?w1"
      using remove_empty [OF assms(1) p1 res(1)] by (auto split: if_splits)
    have "only_removed_under ps (V w) (V w')"
      using sh rm unfolding shrunk_under_def only_removed_under_def by (auto simp: strict_prefix_def split: if_splits)
    moreover have "may_lose e a w ps q y" if "V w q = Some y" "V w' q = None" for q y
    proof (cases "q = ps")
      case True
      then show ?thesis using folder_lost [OF assms(1-3) pre] that(1) assms(2) by simp
    next
      case False
      have "V ?w1 q = None" using rm that(2) False by (auto split: if_splits)
      then have "strict_prefix ps q" using sh that(1) unfolding shrunk_under_def by force
      moreover from this obtain t where "q = ps @ t" "t \<noteq> []" by (auto simp: strict_prefix_def prefix_def)
      ultimately show ?thesis using lost [of t] that(1) False by (simp add: may_lose_def)
    qed
    ultimately show ?thesis using rm res(2) unfolding deletion_ok_def by auto
  qed
qed

lemma delete_leaf:
  assumes "names_ok ps" "V w ps = Some x" "tree_Remove r (rel_of ps) w = (res, w')" "may_lose e a w ps ps x" "ao_Success oc \<longleftrightarrow> res = None"
  shows "deletion_ok e a w ps (V w) (V w') oc"
proof -
  have "plain (V w) ps" using there_plain assms(2) by simp
  then show ?thesis
    using tree_remove [OF assms(1) _ assms(3)] removed_ok [of "V w" ps x e a w "V w'" oc] unchanged_ok [of oc e a w ps "V w"] assms(2,4,5)
    by (cases res) auto
qed

end

context executor_tree
begin

lemma link_deleted:
  assumes "names_ok ps" "prefix q ps" "rel_of q = rel_of ps" "is_link (V w) q" "DeleteLocalSymlink e a (rel_of q) w = (oc, w')"
  shows "deletion_ok e a w ps (V w) (V w') oc"
proof -
  have "names_ok q" using assms(1,2) by (auto simp: prefix_def)
  then have q: "q = ps" using parse_rel_of assms(1,3) by metis
  obtain x where x: "V w ps = Some x" "ti_Kind (te_Info x) = EntrySymlink"
    using assms(4) q by (auto simp: is_link_def split: option.splits)
  then have "may_lose e a w ps ps x" by (simp add: may_lose_def)
  moreover obtain res where "tree_Remove r (rel_of ps) w = (res, w')" "ao_Success oc \<longleftrightarrow> res = None"
    using assms(5) q by (auto simp: DeleteLocalSymlink_def tree_of split: prod.splits option.splits)
  ultimately show ?thesis using delete_leaf [OF assms(1) x(1)] by blast
qed

lemma file_deleted:
  assumes "names_ok ps" "cleanRelative (a_Path a) = Inr (rel_of ps)" "V w ps = Some x" "ti_Kind (te_Info x) \<noteq> EntryDir"
    and "DeleteLocalFile e a (abs_of (rt_dir r) ps) i w = (oc, w')"
  shows "deletion_ok e a w ps (V w) (V w') oc"
proof (cases "remove_local_file e a w = (oc, w') \<and> may_lose e a w ps ps x")
  case True
  then obtain res where "tree_Remove r (rel_of ps) w = (res, w')" "ao_Success oc \<longleftrightarrow> res = None"
    by (auto simp: remove_local_file_def tree_of clean_calls [OF assms(2,1)] split: prod.splits option.splits)
  then show ?thesis using delete_leaf [OF assms(1,3)] True by blast
next
  case False
  have "w' = w \<and> \<not> ao_Success oc"
    using False assms(4,5) unfolding may_lose_def DeleteLocalFile_def Let_def
    by (auto simp: tree_of split: option.splits sum.splits if_splits entry_kind.splits)
  then show ?thesis by (auto intro!: unchanged_ok)
qed

lemma local_deletion:
  assumes "names_ok ps" "cleanRelative (a_Path a) = Inr (rel_of ps)" "is_dir (V w) []" "ExecuteLocalDelete e n a w = Some (oc, w')"
  shows "deletion_ok e a w ps (V w) (V w') oc"
proof (cases "symlinkBoundaryForPath e (a_Path a) w")
  case (Inl err)
  then show ?thesis using assms(4) by (auto simp: ExecuteLocalDelete_def intro!: unchanged_ok)
next
  case (Inr res)
  have c: "path_clean (a_Path a) = rel_of ps" by (rule clean_names_of [OF assms(2)])
  note b = boundary [OF assms(1) c assms(3) Inr]
  show ?thesis
  proof (cases res)
    case (Some l)
    then obtain q where q: "prefix q ps" "l = rel_of q" "is_link (V w) q" using b by auto
    show ?thesis
    proof (cases "rel_of q = rel_of ps")
      case True
      then have "DeleteLocalSymlink e a (rel_of q) w = (oc, w')"
        using assms(4) Inr Some q by (simp add: ExecuteLocalDelete_def c)
      then show ?thesis by (rule link_deleted [OF assms(1) q(1) True q(3)])
    qed (use assms(4) Inr Some q in \<open>auto simp: ExecuteLocalDelete_def c intro!: unchanged_ok\<close>)
  next
    case None
    note none = None
    show ?thesis
    proof (cases "tree_Stat r (rel_of ps) w")
      case (Inl err)
      then show ?thesis using assms(4) Inr None
        by (auto simp: ExecuteLocalDelete_def tree_of clean_calls [OF assms(2,1)] intro!: unchanged_ok split: if_splits)
    next
      case i: (Inr i)
      have "\<forall>q. prefix q ps \<longrightarrow> \<not> is_link (V w) q" using b None stat_handle(1) [OF i] by simp
      then obtain x where x: "V w ps = Some x" "te_Info x = i" using stat_unlinked [OF assms(1) _ i] by auto
      have run: "(if ti_Kind i = EntryDir then DeleteLocalFolder e n a (abs_of (rt_dir r) ps) w
                  else Some (DeleteLocalFile e a (abs_of (rt_dir r) ps) i w)) = Some (oc, w')"
        using assms(4) Inr None i by (simp add: ExecuteLocalDelete_def tree_of clean_calls [OF assms(2,1)])
      then show ?thesis using delete_folder [OF assms(1) x(1)] file_deleted [OF assms(1,2) x(1)] x(2) by (auto split: if_splits)
    qed
  qed
qed

end

text \<open>The search of a folder returns when its fuel exceeds the depth below the folder.\<close>

context executor_tree
begin

lemma find_in_returns:
  assumes IH: "\<And>ps. is_dir (V w) ps \<Longrightarrow> \<forall>q. V w q \<noteq> None \<longrightarrow> length q < length ps + n \<Longrightarrow> findNonDisposable e n (rel_of ps) w \<noteq> None"
    and "names_ok ps" "\<forall>x \<in> set es. snd x = is_dir (V w) (ps @ [fst x]) \<and> name_ok (fst x)"
    and deep: "\<forall>q. V w q \<noteq> None \<longrightarrow> length q < length ps + Suc n"
  shows "find_in e n (rel_of ps) es w \<noteq> None" "delete_blockers e n (rel_of ps) es w \<noteq> None"
proof -
  have sub: "findNonDisposable e n (path_join (rel_of ps) (fst x)) w \<noteq> None" if "x \<in> set es" "snd x" for x
    using IH [of "ps @ [fst x]"] deep that assms(3) path_join_child [OF assms(2)] by simp
  have "set xs \<subseteq> set es \<Longrightarrow> find_in e n (rel_of ps) xs w \<noteq> None \<and> delete_blockers e n (rel_of ps) xs w \<noteq> None" for xs
  proof (induction xs)
    case (Cons x xs)
    then show ?case using sub [of x] by (auto split: option.splits)
  qed simp
  then show "find_in e n (rel_of ps) es w \<noteq> None" "delete_blockers e n (rel_of ps) es w \<noteq> None" by blast+
qed

lemma find_returns:
  assumes "is_dir (V w) ps" "\<forall>q. V w q \<noteq> None \<longrightarrow> length q < length ps + n"
  shows "findNonDisposable e n (rel_of ps) w \<noteq> None"
  using assms
proof (induction n arbitrary: ps)
  case 0
  then show ?case by (auto simp: is_dir_def split: option.splits)
next
  case (Suc n)
  have t: "V w ps \<noteq> None" using Suc.prems(1) by (auto simp: is_dir_def split: option.splits)
  show ?case
  proof (cases "tree_ReadDir r (rel_of ps) w")
    case (Inr es)
    have "find_in e n (rel_of ps) es w \<noteq> None"
      by (rule find_in_returns(1) [OF Suc.IH names [OF t]]) (use entry_names [OF Suc.prems(1) Inr] Suc.prems(2) in auto)
    then show ?thesis using Inr by (simp add: tree_of)
  qed (simp add: tree_of)
qed

lemma local_deletion_returns:
  assumes "names_ok ps" "cleanRelative (a_Path a) = Inr (rel_of ps)" "is_dir (V w) []" "\<forall>q. V w q \<noteq> None \<longrightarrow> length q \<le> n"
  shows "ExecuteLocalDelete e n a w \<noteq> None"
proof (cases "symlinkBoundaryForPath e (a_Path a) w = Inr None \<and> (\<exists>i. tree_Stat r (rel_of ps) w = Inr i \<and> ti_Kind i = EntryDir)")
  case False
  then show ?thesis
    by (auto simp: ExecuteLocalDelete_def tree_of clean_calls [OF assms(2,1)] split: sum.splits option.splits)
next
  case True
  then obtain i where i: "symlinkBoundaryForPath e (a_Path a) w = Inr None" "tree_Stat r (rel_of ps) w = Inr i" "ti_Kind i = EntryDir" by blast
  have "\<forall>q. prefix q ps \<longrightarrow> \<not> is_link (V w) q"
    using boundary [OF assms(1) clean_names_of [OF assms(2)] assms(3) i(1)] stat_handle(1) [OF i(2)] by simp
  then have d: "is_dir (V w) ps" using stat_unlinked [OF assms(1) _ i(2)] i(3) by (auto simp: is_dir_def)
  have "delete_blockers e n (rel_of ps) es w \<noteq> None" if "tree_ReadDir r (rel_of ps) w = Inr es" for es
    by (rule find_in_returns(2) [OF find_returns assms(1)]) (use entry_names [OF d that] assms(4) in \<open>auto simp: less_Suc_eq_le intro: trans_le_add2\<close>)
  then show ?thesis using i
    by (auto simp: ExecuteLocalDelete_def tree_of clean_calls [OF assms(2,1)] DeleteLocalFolder_def abs_back [OF assms(1)]
        split: sum.splits option.splits list.splits)
qed

end


section \<open>A concrete executor\<close>

text \<open>
  An executor on a list of entries: its hash of a file is the content of the file, its drive answers that nothing is there, and its
  transfers fail.
\<close>

definition hash_in_list :: "string \<Rightarrow> list_world \<Rightarrow> os_error + string" where
  "hash_in_list p w = (case view w (parse_abs ''/home/sync'' p) of Some x \<Rightarrow> Inr (te_Data x) | None \<Rightarrow> Inl ErrNotExist)"

definition not_found :: go_error where
  "not_found = \<lparr>ge_Marks = [], ge_Graph = Some (404, 0), ge_Message = ''not found''\<rparr>"

definition home_executor :: "list_world executor" where
  "home_executor =
     \<lparr>ex_items = \<lparr>ic_GetItem = (\<lambda>_ _ _. Inl not_found), ic_CreateFolder = (\<lambda>_ _ _ w. (Inl not_found, w)),
                  ic_MoveItemIfMatch = (\<lambda>_ _ _ _ _ w. (Inl not_found, w)), ic_DeleteItemIfMatch = (\<lambda>_ _ _ w. (Some not_found, w))\<rparr>,
      ex_syncTree = list_root ''/home/sync'', ex_driveID = DriveID ''d1'', ex_remoteRootItemID = '''', ex_ignoreJunkFiles = True,
      ex_transferMgr = \<lparr>tm_DownloadToFile = (\<lambda>_ _ _ _ w. (Inl not_found, w)), tm_UploadFileToItem = (\<lambda>_ _ _ _ w. (Inl not_found, w)),
                        tm_UploadFile = (\<lambda>_ _ _ _ _ w. (Inl not_found, w))\<rparr>,
      ex_nowFunc = \<lparr>ct_Year = 2026, ct_Month = 1, ct_Day = 2, ct_Hour = 3, ct_Minute = 4, ct_Second = 5\<rparr>,
      ex_hashFunc = hash_in_list, ex_localStat = (\<lambda>p w. found (view w (parse_abs ''/home/sync'' p))), ex_pathConvergence = None,
      ex_baseline = empty_baseline\<rparr>"

interpretation home_exec: executor_tree "list_root ''/home/sync''" view home_executor
  by unfold_locales (simp add: home_executor_def)

definition known_entry :: "string \<Rightarrow> item_type \<Rightarrow> string \<Rightarrow> baseline_entry" where
  "known_entry p t h =
     \<lparr>be_Path = p, be_DriveID = DriveID ''d1'', be_ItemID = ''i1'', be_ParentID = ''root'', be_ItemType = t, be_LocalHash = h, be_RemoteHash = h,
      be_LocalSize = 0, be_LocalSizeKnown = False, be_RemoteSize = 0, be_RemoteSizeKnown = False, be_LocalMtime = 0, be_RemoteMtime = 0,
      be_LocalDevice = 0, be_LocalInode = 0, be_LocalHasIdentity = False, be_ETag = ''e1''\<rparr>"

definition side_available :: path_truth_side_status where
  "side_available = \<lparr>pts_Availability = TruthAvailabilityAvailable, pts_Source = PathTruthSourceNone, pts_IssueType = '''', pts_ScopeKey = zero_scope_key\<rparr>"

definition known_action :: "action_type \<Rightarrow> string \<Rightarrow> baseline_entry \<Rightarrow> action" where
  "known_action t p b =
     \<lparr>a_Type = t, a_DriveID = DriveID ''d1'', a_ItemID = ''i1'', a_Path = p, a_OldPath = '''', a_CreateSide = CreateLocal,
      a_View = Some \<lparr>pv_Path = p, pv_Remote = None, pv_Local = None, pv_Baseline = Some b,
                     pv_TruthStatus = \<lparr>pt_Local = side_available, pt_Remote = side_available\<rparr>\<rparr>,
      a_RequireMissingLocalTarget = False\<rparr>"

text \<open>A folder with junk in a junk folder, a file with the known content, and one that was edited.\<close>

definition junk_tree :: list_world where
  "junk_tree =
     [([], dir_entry_of 1), ([''d''], dir_entry_of 2), ([''d'', ''__MACOSX''], dir_entry_of 3),
      ([''d'', ''__MACOSX'', ''a.tmp''], file_entry_of 4 ''x''), ([''f''], file_entry_of 5 ''same''), ([''g''], file_entry_of 6 ''edited'')]"

definition deleted_at :: "string \<Rightarrow> item_type \<Rightarrow> string \<Rightarrow> list_world \<Rightarrow> (bool \<times> list_world) option" where
  "deleted_at p t h w =
     map_option (map_prod ao_Success id) (ExecuteLocalDelete home_executor 3 (known_action ActionLocalDelete p (known_entry p t h)) w)"



end
