(* ===== verification/ExecutorGuards.thy ===== *)
theory ExecutorGuards
  imports ExecutorSafety
begin

text \<open>
  Nothing changes, locally or on the drive, unless what is there still is what the planner saw.
\<close>

section \<open>Truth as planned\<close>

text \<open>The item on the drive, read right before the change, against the planned one.\<close>

definition item_as_planned :: "action \<Rightarrow> graph_item \<Rightarrow> remote_state \<Rightarrow> bool" where
  "item_as_planned a item p \<longleftrightarrow>
     rs_ItemID p \<in> {'''', gi_ID item} \<and>
     (rs_ItemType p = ItemTypeFolder \<longleftrightarrow> gi_IsFolder item \<or> gi_IsRoot item) \<and>
     (plannedPostRemoteMoveContentUpload a \<or> rs_ETag p = '''' \<or> gi_ETag item \<in> {'''', rs_ETag p}) \<and>
     (rs_ItemType p = ItemTypeFolder \<or> rs_Hash p = '''' \<or> SelectHash item \<in> {'''', rs_Hash p})"

definition remote_as_planned :: "'w executor \<Rightarrow> action \<Rightarrow> 'w \<Rightarrow> bool" where
  "remote_as_planned e a w \<longleftrightarrow>
     a_ItemID a = '''' \<or>
     (\<exists>item. ic_GetItem (ex_items e) (resolveDriveID e a) (a_ItemID a) w = Inr item \<and>
        (case plannedRemoteStateForPrecondition a of Some p \<Rightarrow> item_as_planned a item p | None \<Rightarrow> True))"

text \<open>A local path that is free, or has the file the planner saw.\<close>

definition same_file :: "'w executor \<Rightarrow> string \<Rightarrow> tree_info \<Rightarrow> local_state \<Rightarrow> 'w \<Rightarrow> bool" where
  "same_file e p i l w \<longleftrightarrow>
     ti_Kind i \<noteq> EntryDir \<and> ls_ItemType l = ItemTypeFile \<and> ls_Size l \<in> {0, ti_Size i} \<and> ls_Mtime l \<in> {0, ti_ModTime i} \<and>
     (ls_Hash l = '''' \<or> (\<exists>absPath. tree_Abs (ex_syncTree e) p = Inr absPath \<and> ex_hashFunc e absPath w = Inr (ls_Hash l)))"

definition target_as_planned :: "'w executor \<Rightarrow> action \<Rightarrow> 'w \<Rightarrow> bool" where
  "target_as_planned e a w \<longleftrightarrow>
     (case tree_Lstat (ex_syncTree e) (a_Path a) w of
        Inl err \<Rightarrow> is_err err KNotExist \<and> (view_Local a = None \<or> a_RequireMissingLocalTarget a)
      | Inr i \<Rightarrow> (case view_Local a of Some l \<Rightarrow> \<not> a_RequireMissingLocalTarget a \<and> same_file e (a_Path a) i l w | None \<Rightarrow> False))"

definition source_as_planned :: "'w executor \<Rightarrow> action \<Rightarrow> 'w \<Rightarrow> bool" where
  "source_as_planned e a w \<longleftrightarrow>
     (\<exists>i. uploadSourceInfo e (a_Path a) w = Inr i \<and> ti_Kind i = EntryRegular \<and>
        (case view_Local a of
           Some l \<Rightarrow> ls_ItemType l = ItemTypeFile \<and> ls_Size l \<in> {0, ti_Size i} \<and> ls_Mtime l \<in> {0, ti_ModTime i}
         | None \<Rightarrow> True))"

text \<open>The source of a local move against the baseline, and its destination.\<close>

definition as_in_baseline :: "'w executor \<Rightarrow> string \<Rightarrow> tree_info \<Rightarrow> baseline_entry \<Rightarrow> 'w \<Rightarrow> bool" where
  "as_in_baseline e p i b w \<longleftrightarrow>
     (if ti_Kind i = EntryDir then be_ItemType b = ItemTypeFolder
      else be_ItemType b = ItemTypeFile \<and> (be_LocalSizeKnown b \<longrightarrow> ti_Size i = be_LocalSize b) \<and> be_LocalMtime b \<in> {0, ti_ModTime i} \<and>
           (be_LocalHash b = '''' \<or> (\<exists>absPath. tree_Abs (ex_syncTree e) p = Inr absPath \<and> ex_hashFunc e absPath w = Inr (be_LocalHash b))))"

definition move_as_planned :: "'w executor \<Rightarrow> action \<Rightarrow> 'w \<Rightarrow> bool" where
  "move_as_planned e a w \<longleftrightarrow>
     (\<exists>i. tree_Lstat (ex_syncTree e) (localMoveSourcePath a) w = Inr i \<and>
        (case view_Baseline a of Some b \<Rightarrow> as_in_baseline e (localMoveSourcePath a) i b w | None \<Rightarrow> True)) \<and>
     (\<exists>err. tree_Lstat (ex_syncTree e) (a_Path a) w = Inl err \<and> is_err err KNotExist)"

definition may_change :: "'w executor \<Rightarrow> action \<Rightarrow> 'w \<Rightarrow> bool" where
  "may_change e a w =
     (case a_Type a of
        ActionRemoteDelete \<Rightarrow> remote_as_planned e a w
      | ActionRemoteMove \<Rightarrow> remote_as_planned e a w
      | ActionDownload \<Rightarrow> remote_as_planned e a w \<and> target_as_planned e a w
      | ActionUpload \<Rightarrow> (shouldOverwriteKnownRemoteItem a \<longrightarrow> remote_as_planned e a w) \<and> source_as_planned e a w
      | ActionLocalMove \<Rightarrow> move_as_planned e a w
      | ActionBaselineUpdate \<Rightarrow> False
      | ActionCleanup \<Rightarrow> False
      | _ \<Rightarrow> True)"

lemma remote_checked:
  assumes "remoteSourcePreconditionETag e (resolveDriveID e a) a op w = Inr t"
  shows "remote_as_planned e a w"
proof (cases "a_ItemID a = ''''")
  case False
  then obtain item where i: "ic_GetItem (ex_items e) (resolveDriveID e a) (a_ItemID a) w = Inr item"
    "\<And>p. plannedRemoteStateForPrecondition a = Some p \<Longrightarrow> remoteRowMatchesLivePreconditionForAction a (remoteStateRowFromGraphItem item) p"
    using assms by (auto simp: remoteSourcePreconditionETag_def Let_def split: sum.splits if_splits option.splits)
  have "item_as_planned a item p" if "plannedRemoteStateForPrecondition a = Some p" for p
    using i(2) [OF that] unfolding item_as_planned_def remoteRowMatchesLivePreconditionForAction_def
      remoteRowMatchesPostRemoteMoveLivePrecondition_def remoteRowMatchesLivePrecondition_def remoteLiveIdentityMatches_def
      remoteLiveContentMatches_def remoteStateRowFromGraphItem_def
    by (auto split: if_splits)
  then show ?thesis using i(1) unfolding remote_as_planned_def by (auto split: option.splits)
qed (simp add: remote_as_planned_def)

lemma remote_validated: "validateRemoteSourcePrecondition e (resolveDriveID e a) a op w = None \<Longrightarrow> remote_as_planned e a w"
  using remote_checked by (auto simp: validateRemoteSourcePrecondition_def split: sum.splits)

lemma hash_at_found: "hash_at e what p w = Inr h \<longleftrightarrow> (\<exists>q. tree_Abs (ex_syncTree e) p = Inr q \<and> ex_hashFunc e q w = Inr h)"
  by (auto simp: hash_at_def map_sum_def split: sum.splits)

lemma target_checked:
  assumes "a_Type a = ActionDownload" "validateDownloadTargetPrecondition e a w = None"
  shows "target_as_planned e a w"
  using assms unfolding validateDownloadTargetPrecondition_def target_as_planned_def actionClearsLocalBeforeDownload_def
    validateExistingDownloadTarget_def same_file_def
  by (auto dest: hash_at_found [THEN iffD1] split: sum.splits option.splits if_splits)

lemma source_checked: "validateUploadSourcePrecondition e a w = None \<Longrightarrow> source_as_planned e a w"
  unfolding validateUploadSourcePrecondition_def source_as_planned_def by (auto split: sum.splits option.splits if_splits)

lemma move_checked:
  assumes "validateLocalMovePrecondition e a w = None"
  shows "move_as_planned e a w"
proof -
  obtain i where i: "tree_Lstat (ex_syncTree e) (localMoveSourcePath a) w = Inr i" "validateLocalMoveDestinationAbsent e a w = None"
    "\<And>b. view_Baseline a = Some b \<Longrightarrow> validateLocalSourceAgainstBaseline e ''local move'' (localMoveSourcePath a) i b w = None"
    using assms by (auto simp: validateLocalMovePrecondition_def Let_def split: sum.splits option.splits)
  have "as_in_baseline e (localMoveSourcePath a) i b w" if "view_Baseline a = Some b" for b
    using i(3) [OF that] unfolding validateLocalSourceAgainstBaseline_def file_source_changed_def as_in_baseline_def Let_def
    by (auto dest: hash_at_found [THEN iffD1] split: if_splits option.splits sum.splits)
  then show ?thesis using i(1,2) unfolding move_as_planned_def validateLocalMoveDestinationAbsent_def
    by (auto split: sum.splits if_splits option.splits)
qed

section \<open>Outcomes and changes\<close>

text \<open>
  C8: every outcome the executor hands to the engine is well formed. It has the type and the path of its action, it carries an error
  exactly when it is no success, a success blames no path and no permission, and a blamed path is one of the paths of the
  action. Only the search for a name of a conflict copy and the walk of a local deletion depend on fuel.
\<close>

theorem outcomes_well_formed:
  "case dispatchAction e n a w of
     None \<Rightarrow> a_Type a = ActionConflictCopy \<or> a_Type a = ActionLocalDelete
   | Some (oc, _) \<Rightarrow> outcome_ok a oc"
  using dispatched_ok [of e n a w] by (cases "a_Type a") (auto simp: dispatchAction_def split: option.splits)


definition rename_action :: action where
  "rename_action = (known_action ActionLocalMove ''h'' (known_entry ''f'' ItemTypeFile ''same''))\<lparr>a_OldPath := ''f''\<rparr>"


end
