(* ===== verification/ConflictCopies.thy ===== *)
theory ConflictCopies
  imports ExecutorSafety
begin

text \<open>
  Conflict copies: the name that is chosen is free and in the same folder, the search for it ends, and the rename keeps
  everything the user had.
\<close>

section \<open>Names\<close>

lemma until_first:
  "c \<notin> set xs \<Longrightarrow> takeWhile (\<lambda>x. x \<noteq> c) (xs @ c # ys) = xs"
  "c \<notin> set xs \<Longrightarrow> dropWhile (\<lambda>x. x \<noteq> c) (xs @ c # ys) = c # ys"
  by (induction xs) auto

lemma split_last:
  assumes "CHR ''/'' \<notin> set m"
  shows "path_split_file (P @ ''/'' @ m) = m" "path_split_dir (P @ ''/'' @ m) = P @ ''/''"
  using until_first [of "CHR ''/''" "rev m" "rev P"] assms by (simp_all add: path_split_file_def path_split_dir_def)

lemma abs_last:
  assumes "root_ok d" "names_ok (qs @ [m])"
  shows "\<exists>P. abs_of d (qs @ [m]) = P @ ''/'' @ m \<and> path_clean (P @ ''/'') = abs_of d qs"
proof -
  obtain ds where ds: "names_ok ds" "components d = ds" "d = CHR ''/'' # join_with (CHR ''/'') ds"
    using root_okE [OF assms(1)] by blast
  have all: "names_ok (ds @ qs)" using ds(1) assms(2) by simp
  have a: "abs_of d qs = CHR ''/'' # join_with (CHR ''/'') (ds @ qs)" using ds by (simp add: abs_of_def)
  show ?thesis
  proof (cases "ds @ qs = []")
    case True
    then show ?thesis using ds by (intro exI [of _ "''''"]) (simp add: abs_of_def path_clean_def has_prefix_def Let_def)
  next
    case False
    let ?P = "CHR ''/'' # join_with (CHR ''/'') (ds @ qs)"
    have "join_with (CHR ''/'') (ds @ qs @ [m]) = join_with (CHR ''/'') (ds @ qs) @ CHR ''/'' # m"
      using join_snoc [OF False, of "CHR ''/''" m] by simp
    then have "abs_of d (qs @ [m]) = ?P @ ''/'' @ m" using ds by (simp add: abs_of_def)
    moreover have "path_clean (?P @ ''/'') = path_clean ?P"
      using split_on_snoc [of "CHR ''/''" ?P]
      by (simp add: path_clean_def has_prefix_def Let_def clean_components_trailing del: split_on.simps)
    ultimately show ?thesis using clean_plain_path [OF all] a by (intro exI [of _ ?P]) simp
  qed
qed

lemma abs_parts:
  assumes "root_ok d" "names_ok (qs @ [m])"
  shows "path_base (abs_of d (qs @ [m])) = m" "path_dir (abs_of d (qs @ [m])) = abs_of d qs"
proof -
  obtain P where P: "abs_of d (qs @ [m]) = P @ ''/'' @ m" "path_clean (P @ ''/'') = abs_of d qs" using abs_last [OF assms] by blast
  have m: "CHR ''/'' \<notin> set m" "m \<noteq> ''''" using assms(2) by (auto simp: name_ok_def)
  then obtain c cs where c: "rev m = c # cs" "c \<noteq> CHR ''/''" by (cases "rev m") auto
  have "dropWhile (\<lambda>c. c = CHR ''/'') (rev (P @ ''/'' @ m)) = rev (P @ ''/'' @ m)"
    using c unfolding rev_append by simp
  then have "rev (dropWhile (\<lambda>c. c = CHR ''/'') (rev (P @ ''/'' @ m))) = P @ ''/'' @ m" by simp
  then show "path_base (abs_of d (qs @ [m])) = m" "path_dir (abs_of d (qs @ [m])) = abs_of d qs"
    using P split_last [OF m(1)] m(2) by (simp_all add: path_base_def path_dir_def Let_def)
qed

lemma join_child:
  assumes "root_ok d" "names_ok (qs @ [m])"
  shows "path_join (abs_of d qs) m = abs_of d (qs @ [m])"
proof -
  obtain ds where ds: "names_ok ds" "components d = ds" "d = CHR ''/'' # join_with (CHR ''/'') ds"
    using root_okE [OF assms(1)] by blast
  have all: "names_ok (ds @ qs)" and a: "abs_of d qs = CHR ''/'' # join_with (CHR ''/'') (ds @ qs)"
    using ds assms(2) by (simp_all add: abs_of_def)
  then have "root_ok (abs_of d qs)" "components (abs_of d qs) = ds @ qs"
    using components_join [OF all] unfolding root_ok_def by (blast, simp)
  then show ?thesis using join_rooted [of "abs_of d qs" "[m]"] assms(2) ds(2) by (simp add: abs_of_def)
qed

lemma decimal_inverse: "foldl (\<lambda>n c. 10 * n + (of_char c - 48)) 0 (decimal n) = (n :: nat)"
proof (induction n rule: decimal.induct)
  case (1 n)
  then show ?case by (subst decimal.simps) (auto simp: of_char_of)
qed

lemma decimal_inj: "decimal m = decimal n \<Longrightarrow> m = n"
  using decimal_inverse by metis

lemma decimal_digits: "CHR ''/'' \<notin> set (decimal n) \<and> decimal n \<noteq> ''''"
proof (induction n rule: decimal.induct)
  case (1 n)
  have d: "char_of (48 + k) \<noteq> CHR ''/''" if "k < 10" for k :: nat
  proof
    assume "char_of (48 + k) = CHR ''/''"
    then have "(of_char (char_of (48 + k) :: char) :: nat) = of_char CHR ''/''" by simp
    then show False using that by (simp add: of_char_of)
  qed
  show ?case
  proof (cases "n < 10")
    case True
    then show ?thesis using d [OF True] by (subst (1 2) decimal.simps) (simp add: eq_commute)
  next
    case False
    then show ?thesis using 1 d [of "n mod 10"] by (subst (1 2) decimal.simps) (simp add: eq_commute)
  qed
qed

lemma stem_ext:
  assumes "ConflictStemExt name = (stem, ext)"
  shows "stem @ ext = name"
proof -
  have "\<exists>pre. name = pre @ path_ext name"
  proof (cases "CHR ''.'' \<in> set name")
    case True
    then obtain a b where "name = a @ CHR ''.'' # b" "CHR ''.'' \<notin> set b" using split_list_last by fastforce
    moreover from this have "path_ext name = CHR ''.'' # b"
      using until_first(1) [of "CHR ''.''" "rev b" "rev a"] by (simp add: path_ext_def)
    ultimately show ?thesis by (intro exI [of _ a]) simp
  qed (simp add: path_ext_def)
  then obtain pre where "name = pre @ path_ext name" by blast
  then have "take (length name - length (path_ext name)) name @ path_ext name = name"
    by (metis append_eq_conv_conj diff_add_inverse2 length_append)
  then show ?thesis using assms by (auto simp: ConflictStemExt_def split: if_splits)
qed

lemma longer_name:
  assumes "name_ok m" "ConflictStemExt m = (stem, ext)" "CHR ''/'' \<notin> set mid" "2 < length mid + length m" "mid \<noteq> ''''"
  shows "name_ok (stem @ mid @ ext) \<and> length m < length (stem @ mid @ ext)"
proof -
  have m: "m = stem @ ext" using stem_ext [OF assms(2)] by simp
  have short: "2 < length s \<Longrightarrow> s \<notin> {'''', ''.'', ''..''}" for s :: string by auto
  have "stem @ mid @ ext \<notin> {'''', ''.'', ''..''}" by (rule short) (use assms(4) m in simp)
  then show ?thesis using assms(1,3,5) unfolding m name_ok_def by auto
qed

lemma stamp_digits: "CHR ''/'' \<notin> set (conflict_stamp t) \<and> conflict_stamp t \<noteq> ''''"
  using decimal_digits by (auto simp: conflict_stamp_def pad_def)

section \<open>The search for a free name\<close>

definition ordinal_name :: "string \<Rightarrow> string \<Rightarrow> nat \<Rightarrow> string" where
  "ordinal_name stem ext j = stem @ ''-'' @ decimal j @ ext"

definition taken :: "tree_view \<Rightarrow> string list \<Rightarrow> string set" where
  "taken T qs = {k. T (qs @ [k]) \<noteq> None}"

context executor_tree
begin

lemma stat_gone:
  assumes "names_ok ps" "plain (V w) ps" "tree_Stat r (rel_of ps) w = Inl err" "is_err err KNotExist" "handle_ok r w" "\<not> is_link (V w) ps"
  shows "V w ps = None"
proof -
  obtain e0 where e0: "ro_Stat (rt_ops r) (rt_dir r) (rel_of ps) w = Inl e0"
    "is_err (normalizeNotExist r (abs_of (rt_dir r) ps) e0 w) KNotExist"
    using assms(1,3-5) unfolding tree_Stat_def statWithRoot_def with_root_def handle_ok_def
    by (auto simp: clean_rel_of target_of_names [OF root] Let_def split: sum.splits)
  then show ?thesis using normalize_missing [OF assms(1,2) e0(2)] stat_missing [OF assms(1,2) e0(1)] assms(6)
    by (auto simp: is_link_def split: option.splits)
qed

lemma available:
  assumes "names_ok (qs @ [k])" "is_dir (V w) qs" "conflictCopyPathAvailable e (abs_of (rt_dir r) (qs @ [k])) w = Inr b"
    and "handle_ok r w" "\<not> is_link (V w) (qs @ [k])"
  shows "b \<longleftrightarrow> k \<notin> taken (V w) qs"
proof -
  have t: "V w qs \<noteq> None" using assms(2) by (auto simp: is_dir_def split: option.splits)
  have p: "plain (V w) (qs @ [k])" using plain_snoc there_plain [OF t] assms(2) by blast
  show ?thesis
  proof (cases "tree_Stat r (rel_of (qs @ [k])) w")
    case (Inl err)
    then have "b" "is_err err KNotExist"
      using assms(3) by (auto simp: conflictCopyPathAvailable_def tree_of abs_back [OF assms(1)] split: if_splits)
    then show ?thesis using stat_gone [OF assms(1) p Inl _ assms(4,5)] by (simp add: taken_def)
  next
    case (Inr i)
    have "ro_Stat (rt_ops r) (rt_dir r) (rel_of (qs @ [k])) w = Inr i"
      by (rule with_root_found [OF assms(1)]) (use Inr in \<open>simp only: tree_Stat_def statWithRoot_def\<close>)
    then have "k \<in> taken (V w) qs" using stat_found [OF assms(1) p] by (auto simp: taken_def)
    then show ?thesis using assms(3) Inr by (simp add: conflictCopyPathAvailable_def tree_of abs_back [OF assms(1)])
  qed
qed

lemma ordinals:
  assumes "names_ok qs" "is_dir (V w) qs" "handle_ok r w" "\<forall>j. name_ok (ordinal_name stem ext j) \<and> \<not> is_link (V w) (qs @ [ordinal_name stem ext j])"
  shows "case conflict_ordinal e n (abs_of (rt_dir r) qs) stem ext i w of
       None \<Rightarrow> ordinal_name stem ext ` {i..<i + n} \<subseteq> taken (V w) qs
     | Some (Inl _) \<Rightarrow> True
     | Some (Inr p) \<Rightarrow> \<exists>j. p = abs_of (rt_dir r) (qs @ [ordinal_name stem ext j]) \<and> ordinal_name stem ext j \<notin> taken (V w) qs"
proof (induction n arbitrary: i)
  case (Suc n)
  let ?k = "ordinal_name stem ext i"
  have ok: "names_ok (qs @ [?k])" "\<not> is_link (V w) (qs @ [?k])" using assms(1,4) by auto
  have j: "path_join (abs_of (rt_dir r) qs) (stem @ CHR ''-'' # decimal i @ ext) = abs_of (rt_dir r) (qs @ [?k])"
    using join_child [OF root ok(1)] by (simp add: ordinal_name_def)
  show ?case
  proof (cases "conflictCopyPathAvailable e (abs_of (rt_dir r) (qs @ [?k])) w")
    case (Inr b)
    note free = available [OF ok(1) assms(2) Inr assms(3) ok(2)]
    show ?thesis
    proof (cases b)
      case True
      then show ?thesis using free Inr j by auto
    next
      case False
      have "{i..<i + Suc n} = insert i {Suc i..<Suc i + n}" by auto
      then show ?thesis using Suc.IH [of "Suc i"] False free Inr j by (auto split: option.splits sum.splits)
    qed
  qed (simp add: j Let_def)
qed simp

end

context executor_tree
begin

lemma free_copy_name:
  assumes ok: "names_ok (qs @ [m])" and d: "is_dir (V w) qs" and h: "handle_ok r w"
    and links: "\<forall>k. k \<noteq> m \<longrightarrow> \<not> is_link (V w) (qs @ [k])" and few: "finite (taken (V w) qs)" "card (taken (V w) qs) < n"
  shows "case uniqueConflictCopyPath e n (abs_of (rt_dir r) (qs @ [m])) w of
       None \<Rightarrow> False
     | Some (Inl _) \<Rightarrow> True
     | Some (Inr p) \<Rightarrow> \<exists>k. name_ok k \<and> k \<noteq> m \<and> p = abs_of (rt_dir r) (qs @ [k]) \<and> k \<notin> taken (V w) qs"
proof -
  obtain stem ext where se: "ConflictStemExt m = (stem, ext)" by fastforce
  define k0 where "k0 = stem @ (''.conflict-'' @ conflict_stamp (ex_nowFunc e)) @ ext"
  have kk: "name_ok k0 \<and> length m < length k0"
    unfolding k0_def by (rule longer_name [OF _ se]) (use ok stamp_digits in auto)
  have c0: "conflictCopyPathAvailable e (ConflictCopyPath (abs_of (rt_dir r) (qs @ [m])) (ex_nowFunc e)) w =
      conflictCopyPathAvailable e (abs_of (rt_dir r) (qs @ [k0])) w"
    "ConflictCopyPath (abs_of (rt_dir r) (qs @ [m])) (ex_nowFunc e) = abs_of (rt_dir r) (qs @ [k0])"
    using join_child [OF root, of qs k0] kk ok by (auto simp: ConflictCopyPath_def abs_parts [OF root ok] se k0_def)
  obtain stem1 ext1 where se1: "ConflictStemExt k0 = (stem1, ext1)" by fastforce
  have "2 < length k0" by (simp add: k0_def)
  then have long: "name_ok (ordinal_name stem1 ext1 j) \<and> length k0 < length (ordinal_name stem1 ext1 j)" for j
    using longer_name [OF conjunct1 [OF kk] se1, of "''-'' @ decimal j"] decimal_digits [of j] by (auto simp: ordinal_name_def)
  have ne: "ordinal_name stem1 ext1 j \<noteq> m" for j using long [of j] kk by auto
  have ords: "\<forall>j. name_ok (ordinal_name stem1 ext1 j) \<and> \<not> is_link (V w) (qs @ [ordinal_name stem1 ext1 j])"
    using long links ne by blast
  have inj: "inj_on (ordinal_name stem1 ext1) A" for A by (auto simp: inj_on_def ordinal_name_def dest: decimal_inj)
  have "\<not> ordinal_name stem1 ext1 ` {2..<2 + n} \<subseteq> taken (V w) qs"
    using card_mono [OF few(1), of "ordinal_name stem1 ext1 ` {2..<2 + n}"] card_image [OF inj, of "{2..<2 + n}"] few(2) by auto
  then have search: "case conflict_ordinal e n (abs_of (rt_dir r) qs) stem1 ext1 2 w of
       None \<Rightarrow> False | Some (Inl _) \<Rightarrow> True
     | Some (Inr p) \<Rightarrow> \<exists>k. name_ok k \<and> k \<noteq> m \<and> p = abs_of (rt_dir r) (qs @ [k]) \<and> k \<notin> taken (V w) qs"
    using ordinals [OF _ d h ords, where n = n and i = 2] ok ne conjunct1 [OF long] by (auto split: option.splits sum.splits)
  have "k0 \<noteq> m" using conjunct2 [OF kk] by (metis less_irrefl)
  then have ok0: "names_ok (qs @ [k0])" "\<not> is_link (V w) (qs @ [k0])" using ok conjunct1 [OF kk] links by (simp, blast)
  show ?thesis
  proof (cases "conflictCopyPathAvailable e (abs_of (rt_dir r) (qs @ [k0])) w")
    case (Inl err)
    then show ?thesis by (simp add: uniqueConflictCopyPath_def c0(2))
  next
    case (Inr b)
    then show ?thesis
      using available [OF ok0(1) d Inr h ok0(2)] search kk \<open>k0 \<noteq> m\<close>
      by (cases b) (auto simp: uniqueConflictCopyPath_def c0(2) abs_parts [OF root ok0(1)] se1 Let_def)
  qed
qed

lemma rename_tree:
  assumes "names_ok src" "names_ok dst" "plain (V w) src" "plain (V w) dst" "V w dst = None" "\<not> prefix src dst"
    and "tree_Rename r src' (rel_of dst) w = (res, w')" "cleanRelative src' = Inr (rel_of src)"
  shows "V w' = (if res = None then moved src dst (V w) else V w) \<and> (res = None \<longrightarrow> V w src \<noteq> None)"
proof -
  obtain res0 w0 where c: "ro_rename (rt_ops r) (abs_of (rt_dir r) src) (abs_of (rt_dir r) dst) w = (res0, w0)" by fastforce
  then have "res = None \<longleftrightarrow> res0 = None" "w' = w0"
    using assms(7) by (auto simp: tree_Rename_def clean_calls(2) [OF assms(8,1)] abs_rel [OF assms(2)])
  then show ?thesis using rename [OF assms(1-6) c] by simp
qed

lemma conflict_copy:
  assumes ok: "names_ok (qs @ [m])" and d: "is_dir (V w) qs" and h: "handle_ok r w"
    and links: "\<forall>k. k \<noteq> m \<longrightarrow> \<not> is_link (V w) (qs @ [k])" and few: "finite (taken (V w) qs)" "card (taken (V w) qs) < n"
    and path: "cleanRelative (a_Path a) = Inr (rel_of (qs @ [m]))"
  shows "\<exists>oc w'. ExecuteConflictCopy e n a w = Some (oc, w') \<and>
     (V w' = V w \<or> (\<exists>k. k \<noteq> m \<and> V w (qs @ [k]) = None \<and> V w (qs @ [m]) \<noteq> None \<and> ao_Success oc \<and>
        ao_OldPath oc = rel_of (qs @ [k]) \<and> V w' = moved (qs @ [m]) (qs @ [k]) (V w)))"
proof (cases "uniqueConflictCopyPath e n (abs_of (rt_dir r) (qs @ [m])) w")
  case None
  then show ?thesis using free_copy_name [OF ok d h links few] by simp
next
  case (Some u)
  show ?thesis
  proof (cases u)
    case (Inl err)
    then show ?thesis using Some by (simp add: ExecuteConflictCopy_def tree_of clean_calls(2) [OF path ok])
  next
    case (Inr p)
    then obtain k where k: "name_ok k" "k \<noteq> m" "p = abs_of (rt_dir r) (qs @ [k])" "V w (qs @ [k]) = None"
      using free_copy_name [OF ok d h links few] Some by (auto simp: taken_def)
    have okk: "names_ok (qs @ [k])" using ok k(1) by simp
    have t: "V w qs \<noteq> None" using d by (auto simp: is_dir_def split: option.splits)
    have pl: "plain (V w) (qs @ [m])" "plain (V w) (qs @ [k])" using plain_snoc there_plain [OF t] d by blast+
    obtain res w' where ren: "tree_Rename r (a_Path a) (rel_of (qs @ [k])) w = (res, w')" by fastforce
    have law: "V w' = (if res = None then moved (qs @ [m]) (qs @ [k]) (V w) else V w) \<and> (res = None \<longrightarrow> V w (qs @ [m]) \<noteq> None)"
      by (rule rename_tree [OF ok okk pl k(4) _ ren path]) (use k(2) in simp)
    obtain oc where oc: "ExecuteConflictCopy e n a w = Some (oc, w')" "res = None \<Longrightarrow> ao_Success oc \<and> ao_OldPath oc = rel_of (qs @ [k])"
      using Some Inr ren k(3)
      by (cases res) (simp_all add: ExecuteConflictCopy_def tree_of clean_calls(2) [OF path ok] abs_back [OF okk] zero_outcome_def)
    then show ?thesis using law k(2,4) by (cases res) auto
  qed
qed

end


definition copied_at :: "string \<Rightarrow> list_world \<Rightarrow> (bool \<times> string \<times> list_world) option" where
  "copied_at p w =
     map_option (\<lambda>x. (ao_Success (fst x), ao_OldPath (fst x), snd x))
       (ExecuteConflictCopy home_executor 4 (known_action ActionConflictCopy p (known_entry p ItemTypeFile ''h'')) w)"

text \<open>A file whose first conflict name is taken.\<close>

definition copy_tree :: list_world where
  "copy_tree =
     [([], dir_entry_of 1), ([''f.txt''], file_entry_of 2 ''mine''), ([''f.conflict-20260102-030405.txt''], file_entry_of 3 ''old'')]"


end
