(* ===== verification/Spec2Isabelle.thy ===== *)
theory Spec2Isabelle
  imports DriveIdent SyncEnums ScopeKeys SyncTypes StoreRows Reconcile TruthStatus BaselineIndex
    Planner PlannerDeps PlanSafety DepGraph PlanExecution ObservationStore BaselineStore ScopeBlocks RetryStore Classify
    RetryPolicy SnapshotStore Freshness AdmittedSafety Permissions Runtime RuntimeFlow RuntimeRun Admission StrandedWork QuickXorHash ContentFilter ShortcutRoots
    SyncTree TreePaths TreeLaws ListTree Executor ExecutorSafety ExecutorGuards ConflictCopies
begin

text \<open>
  This is a verification development of onedrive-go, a bidirectional OneDrive synchroniser written
  in Go. It is meant to be read next to the repository: \<^verbatim>\<open>src/\<close> is its root, and the file names
  below are those of \<^verbatim>\<open>src/internal/sync/\<close> unless a directory is given.

  \<^bold>\<open>The program.\<close> A sync pass observes the local tree and the remote drive and keeps what it saw in
  SQLite: \<^verbatim>\<open>local_state\<close>, the mirror \<^verbatim>\<open>remote_state\<close> with its delta cursor, and the problems met on the
  way. A third table, \<^verbatim>\<open>baseline\<close>, holds what was last in sync, with an in-memory copy. Two SQL queries
  compare the three tables path by path and decide what each path needs; the planner turns these
  decisions into actions with dependencies; a dependency graph hands ready actions to the workers; each
  action is checked once more against the tables before it runs, and its outcome is committed to the
  baseline. Failures are classified; they become retry work and block scopes, which hold further actions
  back until a timer or a trial releases them. Shortcuts to folders of other drives have a lifecycle
  of their own, with a child engine for each.

  \<^bold>\<open>Foundations.\<close> \<open>Prelude\<close> has the parts of Go's \<^verbatim>\<open>strings\<close> and \<^verbatim>\<open>path\<close> packages the code calls and the
  interfaces \<open>keyed_table\<close> (a table with a key, an upsert and a delete) and \<open>mirrored_tables\<close> (two of
  them written in step). \<open>DriveIdent\<close> is \<^verbatim>\<open>internal/driveid\<close>: drive ids, item keys, canonical ids and
  their codecs. \<open>SyncEnums\<close>, \<open>ScopeKeys\<close>, \<open>SyncTypes\<close> and \<open>StoreRows\<close> are the enumerations, the scope
  keys with their wire format and meaning, the records of planner and store, and the SQLite rows. Go
  strings are byte strings and so is \<open>string\<close>; a nil pointer is \<open>None\<close>; an error is a value of a sum; a
  \<^verbatim>\<open>time.Time\<close> is a number of nanoseconds, \<open>None\<close> when it is zero; the order in which Go walks a map is an
  argument wherever a result may depend on it.

  \<^bold>\<open>Deciding and planning.\<close> \<open>Reconcile\<close> is both queries of \<^verbatim>\<open>sqlite_compare.go\<close>, one definition for
  each common table expression; every decision is shown to be justified by the tables. \<open>TruthStatus\<close>
  (\<^verbatim>\<open>truth_status.go\<close>) says where an observation can be trusted. \<open>Planner\<close>, \<open>PlannerDeps\<close> and \<open>PlanSafety\<close>
  are \<^verbatim>\<open>planner.go\<close> and \<^verbatim>\<open>planner_sqlite.go\<close>: the in-place passes equal their simultaneous versions, the
  dependencies are acyclic and the cycle search decides exactly that, planning never fails on a snapshot,
  and no plan deletes anything but an unchanged item whose counterpart is gone. \<open>DepGraph\<close> and
  \<open>PlanExecution\<close> (\<^verbatim>\<open>dep_graph.go\<close>) show that a plan runs to its end in every completion order.

  \<^bold>\<open>The store.\<close> \<open>BaselineIndex\<close> is the three-index baseline in memory and \<open>BaselineStore\<close> its table
  (\<^verbatim>\<open>store_write_baseline.go\<close>); both interpret the interface \<open>entry_store\<close>, and a commit refines its
  abstract contract on both at once. \<open>ObservationStore\<close>, \<open>SnapshotStore\<close>, \<open>ScopeBlocks\<close> and \<open>RetryStore\<close>
  hold the cursor row, the snapshots and findings, the block scopes in memory and on disk, and retry
  work; each write is shown to change exactly what it should and to keep the tables well formed. A
  statement fails when it breaks a constraint of the schema, and a failed transaction is rolled back.

  \<^bold>\<open>Running.\<close> \<open>Freshness\<close> and \<open>AdmittedSafety\<close> (\<^verbatim>\<open>action_freshness.go\<close>) are the last check before an action,
  and what it guarantees of a planned delete. \<open>Classify\<close> maps completions to decisions, \<open>Permissions\<close>
  finds the topmost denied folder, \<open>RetryPolicy\<close> is \<^verbatim>\<open>internal/retry\<close> with its transport. \<open>Runtime\<close>,
  \<open>RuntimeFlow\<close>, \<open>RuntimeRun\<close> and \<open>Admission\<close> are the \<^verbatim>\<open>engine_runtime_*.go\<close> files: one record of state,
  one definition for each stage, a step relation of runs whose invariant keeps the scopes in memory and
  on disk equal, and an exact account of what admission dispatches. \<open>StrandedWork\<close> is a run that leaves an upload behind.

  \<^bold>\<open>Around the engine.\<close> \<open>QuickXorHash\<close> is \<^verbatim>\<open>pkg/quickxorhash\<close>, equal to a reference with one rotation for each
  byte. \<open>ContentFilter\<close> is the filter of paths, its projection on a shortcut folder and the validation
  of names.

  \<^bold>\<open>Bounds and fuel.\<close> The depth-first search of the planner has as fuel the number of nodes, which is enough because a
  call paints a new node; the subtree retirement of the dependency graph has the length of the heap, for the same reason.
  The retry loop ends by its attempt limit. The stages of the runtime share a fuel that bounds the depth of
  their calls and the drain queue; what is proved of them holds for every fuel. All other loops are structural or have a
  measure. Counters are unbounded integers where they stay far below the width of the Go type; hash cells keep their 64 bits.

  \<^bold>\<open>Errors shown.\<close> Several theorems show, on concrete data, what the code does against its documentation: a new hard link
  that is never uploaded, a recreated folder planned as a file upload, two files that swap their names and block
  the observation cursor, a stale cache entry after an upsert, an upload stranded by one quota failure, a filter
  pattern projected too wide.

  \<^bold>\<open>Not modelled.\<close> SQLite input and output failures, logging, performance counters, locks, timers and goroutines: each
  operation is one atomic step, and the order of steps is what the theorems quantify over. The watch loop, the walk of the
  scanner, the file system and Graph calls of the executor, HTTP, the command line, configuration files,
  authentication, the supervisor of several drives and the developer tools perform input and output around the parts
  above; where a modelled part calls them, their answers are arguments.
\<close>

end
